(* ===== verification/Prelude.thy ===== *)
theory Prelude
  imports Main
begin

text \<open>
  What every component of the model shares: identifiers and time, the clock and the
  identifier supply of the Python standard library (\<open>uuid.uuid7\<close>, \<open>datetime.now\<close>) as
  fields of a state record that the other states extend, and a small calculus of
  effectful programs: a program takes the state and returns an error or a result with
  the new state, so that each \<open>raise\<close>, \<open>try\<close>, \<open>await\<close> and loop of a handler is a term.
\<close>

named_theorems proc_simps "equations that run an effectful program"
named_theorems keep_intros "rules that show that a program keeps an invariant"

section \<open>Identifiers and time\<close>

text \<open>
  A UUID is its 128-bit number. A datetime is the number of microseconds since the
  epoch in UTC (the resolution of Python's \<open>datetime\<close>); a timedelta is a difference.
\<close>

type_synonym uuid = nat
type_synonym time = int

definition seconds :: "int \<Rightarrow> time" where
  "seconds n = n * 1000000"

definition one_day :: time where
  "one_day = seconds 86400"

lemma one_day_pos [simp]: "0 < one_day"
  by (simp add: one_day_def seconds_def)

lemma seconds_mono [simp]: "seconds a \<le> seconds b \<longleftrightarrow> a \<le> b"
  by (simp add: seconds_def)

lemma seconds_nonneg [simp]: "0 \<le> seconds a \<longleftrightarrow> 0 \<le> a"
  by (simp add: seconds_def)

section \<open>The clock and the identifier supply\<close>

text \<open>
  \<open>clock_at n\<close> is what the \<open>n\<close>-th call of \<open>now()\<close> returns (any function: a theorem that
  needs a clock that does not run backwards says so), and \<open>next_uuid\<close> is the next value
  of \<open>uuid7()\<close>, whose results are new and increase.
\<close>

record env =
  clock_at :: "nat \<Rightarrow> time"
  reads :: nat
  next_uuid :: uuid

section \<open>Effectful programs\<close>

type_synonym ('w, 'e, 'a) proc = "'w \<Rightarrow> ('e + 'a) \<times> 'w"

definition ret :: "'a \<Rightarrow> ('w, 'e, 'a) proc" where
  "ret x = (\<lambda>w. (Inr x, w))"

definition raise :: "'e \<Rightarrow> ('w, 'e, 'a) proc" where
  "raise e = (\<lambda>w. (Inl e, w))"

definition bindp :: "('w, 'e, 'a) proc \<Rightarrow> ('a \<Rightarrow> ('w, 'e, 'b) proc) \<Rightarrow> ('w, 'e, 'b) proc" where
  "bindp m f = (\<lambda>w. case m w of (Inl e, w') \<Rightarrow> (Inl e, w') | (Inr x, w') \<Rightarrow> f x w')"

definition thenp :: "('w, 'e, 'a) proc \<Rightarrow> ('w, 'e, 'b) proc \<Rightarrow> ('w, 'e, 'b) proc" where
  "thenp m k = bindp m (\<lambda>_. k)"

definition gets :: "('w \<Rightarrow> 'a) \<Rightarrow> ('w, 'e, 'a) proc" where
  "gets f = (\<lambda>w. (Inr (f w), w))"

definition modify :: "('w \<Rightarrow> 'w) \<Rightarrow> ('w, 'e, unit) proc" where
  "modify f = (\<lambda>w. (Inr (), f w))"

definition lift :: "'e + 'a \<Rightarrow> ('w, 'e, 'a) proc" where
  "lift r = (\<lambda>w. (r, w))"

definition tryp :: "('w, 'e, 'a) proc \<Rightarrow> ('e \<Rightarrow> ('w, 'e, 'a) proc) \<Rightarrow> ('w, 'e, 'a) proc" where
  "tryp m h = (\<lambda>w. case m w of (Inl e, w') \<Rightarrow> h e w' | (Inr x, w') \<Rightarrow> (Inr x, w'))"

definition guardp :: "bool \<Rightarrow> 'e \<Rightarrow> ('w, 'e, unit) proc" where
  "guardp b e = (if b then ret () else raise e)"

text \<open>A \<open>for\<close> loop that collects what its body returns, and one that only acts.\<close>

primrec mapp :: "('a \<Rightarrow> ('w, 'e, 'b) proc) \<Rightarrow> 'a list \<Rightarrow> ('w, 'e, 'b list) proc" where
  "mapp f [] = ret []"
| "mapp f (x # xs) = bindp (f x) (\<lambda>y. bindp (mapp f xs) (\<lambda>ys. ret (y # ys)))"

primrec forp :: "('a \<Rightarrow> ('w, 'e, unit) proc) \<Rightarrow> 'a list \<Rightarrow> ('w, 'e, unit) proc" where
  "forp f [] = ret ()"
| "forp f (x # xs) = thenp (f x) (forp f xs)"

text \<open>A loop with an accumulator.\<close>

primrec foldp :: "('a \<Rightarrow> 's \<Rightarrow> ('w, 'e, 's) proc) \<Rightarrow> 'a list \<Rightarrow> 's \<Rightarrow> ('w, 'e, 's) proc" where
  "foldp f [] s = ret s"
| "foldp f (x # xs) s = bindp (f x s) (foldp f xs)"

lemma ret_run [proc_simps, simp]: "ret x w = (Inr x, w)"
  by (simp add: ret_def)

lemma raise_run [proc_simps, simp]: "raise e w = (Inl e, w)"
  by (simp add: raise_def)

lemma gets_run [proc_simps, simp]: "gets f w = (Inr (f w), w)"
  by (simp add: gets_def)

lemma modify_run [proc_simps, simp]: "modify f w = (Inr (), f w)"
  by (simp add: modify_def)

lemma lift_run [proc_simps, simp]: "lift r w = (r, w)"
  by (simp add: lift_def)

lemma guardp_run [proc_simps, simp]:
  "guardp b e w = (if b then (Inr (), w) else (Inl e, w))"
  by (simp add: guardp_def)

lemma bindp_run [proc_simps]:
  "bindp m f w = (case m w of (Inl e, w') \<Rightarrow> (Inl e, w') | (Inr x, w') \<Rightarrow> f x w')"
  by (simp add: bindp_def)

lemma thenp_run [proc_simps]:
  "thenp m k w = (case m w of (Inl e, w') \<Rightarrow> (Inl e, w') | (Inr x, w') \<Rightarrow> k w')"
  by (simp add: thenp_def bindp_def)

lemma tryp_run [proc_simps]:
  "tryp m h w = (case m w of (Inl e, w') \<Rightarrow> h e w' | (Inr x, w') \<Rightarrow> (Inr x, w'))"
  by (simp add: tryp_def)

lemma bindp_Inr [simp]: "m w = (Inr x, w') \<Longrightarrow> bindp m f w = f x w'"
  by (simp add: bindp_run)

lemma bindp_Inl [simp]: "m w = (Inl e, w') \<Longrightarrow> bindp m f w = (Inl e, w')"
  by (simp add: bindp_run)

lemma thenp_Inr [simp]: "m w = (Inr x, w') \<Longrightarrow> thenp m k w = k w'"
  by (simp add: thenp_run)

lemma thenp_Inl [simp]: "m w = (Inl e, w') \<Longrightarrow> thenp m k w = (Inl e, w')"
  by (simp add: thenp_run)

lemma bindp_InrE:
  assumes "bindp m f w = (Inr y, w2)"
  obtains x w1 where "m w = (Inr x, w1)" "f x w1 = (Inr y, w2)"
  using assms by (cases "m w"; cases "fst (m w)") (auto simp: bindp_run)

lemma thenp_InrE:
  assumes "thenp m k w = (Inr y, w2)"
  obtains x w1 where "m w = (Inr x, w1)" "k w1 = (Inr y, w2)"
  using assms by (auto simp: thenp_def elim: bindp_InrE)

subsection \<open>Programs that keep a predicate of the state\<close>

text \<open>
  \<open>keeps I m\<close>: whether \<open>m\<close> returns or raises, it leaves a state that satisfies \<open>I\<close> when
  it starts in one.
\<close>

definition keeps :: "('w \<Rightarrow> bool) \<Rightarrow> ('w, 'e, 'a) proc \<Rightarrow> bool" where
  "keeps I m \<longleftrightarrow> (\<forall>w. I w \<longrightarrow> I (snd (m w)))"

lemma keepsI: "(\<And>w. I w \<Longrightarrow> I (snd (m w))) \<Longrightarrow> keeps I m"
  by (simp add: keeps_def)

lemma keepsD: "keeps I m \<Longrightarrow> I w \<Longrightarrow> I (snd (m w))"
  by (simp add: keeps_def)

lemma keepsD_run: "keeps I m \<Longrightarrow> I w \<Longrightarrow> m w = (r, w') \<Longrightarrow> I w'"
  using keepsD by fastforce

lemma keeps_ret [keep_intros]: "keeps I (ret x)"
  and keeps_raise [keep_intros]: "keeps I (raise e)"
  and keeps_gets [keep_intros]: "keeps I (gets f)"
  and keeps_lift [keep_intros]: "keeps I (lift r)"
  and keeps_guardp [keep_intros]: "keeps I (guardp b e)"
  by (simp_all add: keeps_def)

lemma keeps_modify: "(\<And>w. I w \<Longrightarrow> I (f w)) \<Longrightarrow> keeps I (modify f)"
  by (simp add: keeps_def)

lemma keeps_bindp [keep_intros]:
  assumes "keeps I m" and "\<And>x. keeps I (f x)"
  shows "keeps I (bindp m f)"
proof (rule keepsI)
  fix w assume "I w"
  with assms(1) have I': "I (snd (m w))" by (rule keepsD)
  obtain r w' where mw: "m w = (r, w')" by fastforce
  show "I (snd (bindp m f w))"
  proof (cases r)
    case (Inl e)
    with mw I' show ?thesis by simp
  next
    case (Inr x)
    with mw I' show ?thesis using keepsD [OF assms(2) [of x], of w'] by simp
  qed
qed

lemma keeps_thenp [keep_intros]: "keeps I m \<Longrightarrow> keeps I k \<Longrightarrow> keeps I (thenp m k)"
  by (simp add: thenp_def keeps_bindp)

lemma keeps_tryp [keep_intros]:
  assumes "keeps I m" and "\<And>e. keeps I (h e)"
  shows "keeps I (tryp m h)"
proof (rule keepsI)
  fix w assume "I w"
  with assms(1) have I': "I (snd (m w))" by (rule keepsD)
  obtain r w' where mw: "m w = (r, w')" by fastforce
  show "I (snd (tryp m h w))"
  proof (cases r)
    case (Inl e)
    with mw I' show ?thesis using keepsD [OF assms(2) [of e], of w'] by (simp add: tryp_run)
  next
    case (Inr x)
    with mw I' show ?thesis by (simp add: tryp_run)
  qed
qed

lemma keeps_mapp [keep_intros]: "(\<And>x. keeps I (f x)) \<Longrightarrow> keeps I (mapp f xs)"
  by (induction xs) (auto intro!: keep_intros)

lemma keeps_forp [keep_intros]: "(\<And>x. keeps I (f x)) \<Longrightarrow> keeps I (forp f xs)"
  by (induction xs) (auto intro!: keep_intros)

lemma keeps_foldp [keep_intros]: "(\<And>x s. keeps I (f x s)) \<Longrightarrow> keeps I (foldp f xs s)"
  by (induction xs arbitrary: s) (auto intro!: keep_intros)

lemma keeps_if [keep_intros]: "keeps I a \<Longrightarrow> keeps I b \<Longrightarrow> keeps I (if c then a else b)"
  by simp

lemma keeps_case_option [keep_intros]:
  "keeps I a \<Longrightarrow> (\<And>x. keeps I (b x)) \<Longrightarrow> keeps I (case y of None \<Rightarrow> a | Some x \<Rightarrow> b x)"
  by (cases y) auto

lemma keeps_case_prod [keep_intros]:
  "(\<And>x y. keeps I (f x y)) \<Longrightarrow> keeps I (case p of (x, y) \<Rightarrow> f x y)"
  by (cases p) auto

lemma keeps_case_sum [keep_intros]:
  "(\<And>e. keeps I (f e)) \<Longrightarrow> (\<And>x. keeps I (g x)) \<Longrightarrow> keeps I (case s of Inl e \<Rightarrow> f e | Inr x \<Rightarrow> g x)"
  by (cases s) auto

lemma keeps_let [keep_intros]: "keeps I (f x) \<Longrightarrow> keeps I (Let x f)"
  by simp

section \<open>Standard library calls\<close>

text \<open>\<open>now()\<close> of \<open>shared/util/clock.py\<close> and \<open>uuid.uuid7()\<close>.\<close>

definition now :: "('z env_scheme, 'e, time) proc" where
  "now = (\<lambda>w. (Inr (clock_at w (reads w)), w\<lparr>reads := Suc (reads w)\<rparr>))"

definition uuid7 :: "('z env_scheme, 'e, uuid) proc" where
  "uuid7 = (\<lambda>w. (Inr (next_uuid w), w\<lparr>next_uuid := Suc (next_uuid w)\<rparr>))"

lemma now_run [proc_simps, simp]:
  "now w = (Inr (clock_at w (reads w)), w\<lparr>reads := Suc (reads w)\<rparr>)"
  by (simp add: now_def)

lemma uuid7_run [proc_simps, simp]:
  "uuid7 w = (Inr (next_uuid w), w\<lparr>next_uuid := Suc (next_uuid w)\<rparr>)"
  by (simp add: uuid7_def)

text \<open>
  \<open>start_of_utc_day(moment)\<close> replaces hour, minute, second and microsecond by zero. Days
  of UTC have 86400 seconds, and the epoch is a midnight.
\<close>

definition start_of_utc_day :: "time \<Rightarrow> time" where
  "start_of_utc_day moment = moment - moment mod one_day"

lemma start_of_utc_day_le [simp]: "start_of_utc_day m \<le> m"
  by (simp add: start_of_utc_day_def)

lemma start_of_utc_day_next: "m < start_of_utc_day m + one_day"
  by (simp add: start_of_utc_day_def)

lemma start_of_utc_day_dvd: "one_day dvd start_of_utc_day m"
  by (simp add: start_of_utc_day_def)

lemma start_of_utc_day_idem [simp]:
  "start_of_utc_day (start_of_utc_day m) = start_of_utc_day m"
  by (simp add: start_of_utc_day_def mod_diff_left_eq [symmetric])

lemma start_of_utc_day_unique:
  assumes "start_of_utc_day a \<le> b" and "b < start_of_utc_day a + one_day"
  shows "start_of_utc_day b = start_of_utc_day a"
proof -
  obtain k where k: "start_of_utc_day a = one_day * k"
    using start_of_utc_day_dvd by (auto elim: dvdE)
  have "b div one_day = k"
    using assms unfolding k
    by (intro int_div_pos_eq [where r = "b - one_day * k"]) auto
  then have "b - b mod one_day = one_day * k"
    by (metis minus_mod_eq_mult_div)
  then show ?thesis using k by (simp add: start_of_utc_day_def)
qed

section \<open>Lists\<close>

lemma filter_map_cong: "(\<And>x. x \<in> set xs \<Longrightarrow> P (f x) = P x) \<Longrightarrow> filter P (map f xs) = map f (filter P xs)"
  by (induction xs) auto

lemma find_Some_in: "find P xs = Some x \<Longrightarrow> x \<in> set xs \<and> P x"
  by (induction xs) (auto split: if_splits)

lemma find_None: "find P xs = None \<longleftrightarrow> (\<forall>x\<in>set xs. \<not> P x)"
  by (induction xs) auto

lemma find_filter: "find P xs = (case filter P xs of [] \<Rightarrow> None | x # _ \<Rightarrow> Some x)"
  by (induction xs) auto

lemma find_append: "find P (xs @ ys) = (case find P xs of None \<Rightarrow> find P ys | Some x \<Rightarrow> Some x)"
  by (induction xs) auto

lemma map_enumerate_Suc:
  "map (\<lambda>(i, x). f (Suc i) x) (List.enumerate n xs) = map (\<lambda>(i, x). f i x) (List.enumerate (Suc n) xs)"
  by (induction xs arbitrary: n) auto

lemma map_enumerate_snd: "map (\<lambda>(i, x). f x) (List.enumerate n xs) = map f xs"
  by (induction xs arbitrary: n) auto

lemma enumerate_eq_Nil [simp]: "List.enumerate n xs = [] \<longleftrightarrow> xs = []"
  by (cases xs) auto

end
