(* ===== verification/Py_Text.thy ===== *)
theory Py_Text
  imports Prelude
begin

text \<open>
  Python strings over the code points 0 to 255, one \<open>char\<close> for each, with the \<open>str\<close>
  methods, the character classes of \<open>re\<close> and the text form of UUIDs that the source uses.
  On these code points every definition is exact: \<open>lower\<close> moves the capital letters of
  ASCII and of Latin-1, \<open>isspace\<close> is the set that \<open>strip\<close>, \<open>split\<close> and \<open>\\s\<close> use, and
  \<open>word_char\<close> is the class \<open>\\w\<close> of Unicode patterns.
\<close>

named_theorems text_simps "facts about the str methods"

section \<open>Characters\<close>

abbreviation code :: "char \<Rightarrow> nat" where
  "code c \<equiv> of_char c"

lemma code_less [simp]: "code c < 256"
  using nat_of_char_less_256 [of c] by simp

lemma code_char_of [simp]: "n < 256 \<Longrightarrow> code (char_of n) = n"
  by simp

definition isspace :: "char \<Rightarrow> bool" where
  "isspace c \<longleftrightarrow> (let k = code c in
     (9 \<le> k \<and> k \<le> 13) \<or> (28 \<le> k \<and> k \<le> 32) \<or> k = 133 \<or> k = 160)"

definition isupper :: "char \<Rightarrow> bool" where
  "isupper c \<longleftrightarrow> (let k = code c in
     (65 \<le> k \<and> k \<le> 90) \<or> (192 \<le> k \<and> k \<le> 222 \<and> k \<noteq> 215))"

definition lower_char :: "char \<Rightarrow> char" where
  "lower_char c = (if isupper c then char_of (code c + 32) else c)"

definition word_char :: "char \<Rightarrow> bool" where
  "word_char c \<longleftrightarrow> (let k = code c in
     (48 \<le> k \<and> k \<le> 57) \<or> (65 \<le> k \<and> k \<le> 90) \<or> k = 95 \<or> (97 \<le> k \<and> k \<le> 122)
     \<or> k \<in> {170, 178, 179, 181, 185, 186, 188, 189, 190}
     \<or> (192 \<le> k \<and> k \<noteq> 215 \<and> k \<noteq> 247))"

lemma isupper_bound: "isupper c \<Longrightarrow> code c + 32 < 256"
  by (auto simp: isupper_def Let_def)

lemma code_lower_char: "code (lower_char c) = (if isupper c then code c + 32 else code c)"
  using isupper_bound [of c] by (simp add: lower_char_def)

lemma isupper_lower_char [simp]: "\<not> isupper (lower_char c)"
  by (auto simp: isupper_def code_lower_char Let_def split: if_splits)

lemma lower_char_idem [simp]: "lower_char (lower_char c) = lower_char c"
  by (subst lower_char_def) simp

lemma isspace_lower_char [simp]: "isspace (lower_char c) = isspace c"
  by (auto simp: isspace_def isupper_def code_lower_char Let_def)

section \<open>The str methods\<close>

definition lower :: "string \<Rightarrow> string" where
  "lower s = map lower_char s"

definition lstrip_by :: "(char \<Rightarrow> bool) \<Rightarrow> string \<Rightarrow> string" where
  "lstrip_by p s = dropWhile p s"

definition strip_by :: "(char \<Rightarrow> bool) \<Rightarrow> string \<Rightarrow> string" where
  "strip_by p s = rev (dropWhile p (rev (dropWhile p s)))"

definition strip :: "string \<Rightarrow> string" where
  "strip s = strip_by isspace s"

text \<open>\<open>s.partition(sep)\<close> with a one-character separator, without the separator itself.\<close>

definition str_partition :: "char \<Rightarrow> string \<Rightarrow> string \<times> string" where
  "str_partition sep s = (takeWhile (\<lambda>c. c \<noteq> sep) s, tl (dropWhile (\<lambda>c. c \<noteq> sep) s))"

definition startswith :: "string \<Rightarrow> string \<Rightarrow> bool" where
  "startswith s p \<longleftrightarrow> take (length p) s = p"

text \<open>\<open>p in s\<close>: \<open>p\<close> occurs somewhere in \<open>s\<close>.\<close>

fun contains :: "string \<Rightarrow> string \<Rightarrow> bool" where
  "contains [] p = (p = [])"
| "contains (c # cs) p = (startswith (c # cs) p \<or> contains cs p)"

text \<open>\<open>s.split(sep)\<close> for a character, and \<open>s.split()\<close> on runs of whitespace.\<close>

fun split_on :: "char \<Rightarrow> string \<Rightarrow> string list" where
  "split_on sep [] = [[]]"
| "split_on sep (c # cs) =
     (if c = sep then [] # split_on sep cs
      else (case split_on sep cs of [] \<Rightarrow> [[c]] | w # ws \<Rightarrow> (c # w) # ws))"

function split_ws :: "string \<Rightarrow> string list" where
  "split_ws s = (case dropWhile isspace s of
      [] \<Rightarrow> []
    | c # cs \<Rightarrow> takeWhile (\<lambda>x. \<not> isspace x) (c # cs)
               # split_ws (dropWhile (\<lambda>x. \<not> isspace x) (c # cs)))"
  by pat_completeness auto
termination
proof (relation "measure length", simp)
  fix s c cs assume d: "dropWhile isspace s = c # cs"
  then have "\<not> isspace c" using hd_dropWhile [of isspace s] by simp
  then have "length (dropWhile (\<lambda>x. \<not> isspace x) (c # cs)) \<le> length cs"
    by (simp add: length_dropWhile_le)
  also have "length cs < length s"
    using length_dropWhile_le [of isspace s] by (simp add: d)
  finally show "(dropWhile (\<lambda>x. \<not> isspace x) (c # cs), s) \<in> measure length" by simp
qed

declare split_ws.simps [simp del]

lemma dropWhile_idem [simp]: "dropWhile p (dropWhile p s) = dropWhile p s"
  by (induction s) auto

lemma strip_by_Nil [simp]: "strip_by p [] = []"
  by (simp add: strip_by_def)

lemma dropWhile_snoc: "\<not> p c \<Longrightarrow> dropWhile p (xs @ [c]) = dropWhile p xs @ [c]"
  by (induction xs) auto

lemma dropWhile_rev_dropWhile:
  "dropWhile p (rev (dropWhile p (rev (dropWhile p s)))) = rev (dropWhile p (rev (dropWhile p s)))"
proof (cases "dropWhile p s")
  case Nil
  then show ?thesis by (simp only: rev.simps dropWhile.simps)
next
  case (Cons c cs)
  then have "\<not> p c" using hd_dropWhile [of p s] by simp
  with Cons show ?thesis by (simp add: dropWhile_snoc)
qed

lemma strip_by_idem [simp]: "strip_by p (strip_by p s) = strip_by p s"
  by (simp add: strip_by_def dropWhile_rev_dropWhile)

lemma strip_idem [simp]: "strip (strip s) = strip s"
  by (simp add: strip_def)

lemma length_strip_by: "length (strip_by p s) \<le> length s"
proof -
  have "length (dropWhile p (rev (dropWhile p s))) \<le> length (dropWhile p s)"
    using length_dropWhile_le [of p "rev (dropWhile p s)"] by simp
  then show ?thesis
    using length_dropWhile_le [of p s] by (simp add: strip_by_def)
qed

lemma length_strip: "length (strip s) \<le> length s"
  by (simp add: strip_def length_strip_by)

lemma strip_Nil [simp]: "strip [] = []"
  by (simp add: strip_def)

lemma set_strip_subset: "set (strip s) \<subseteq> set s"
  by (auto simp: strip_def strip_by_def dest!: set_dropWhileD)

lemma strip_by_fixed:
  "s = [] \<or> (\<not> p (hd s) \<and> \<not> p (last s)) \<Longrightarrow> strip_by p s = s"
  by (cases "s = []") (auto simp: strip_by_def dropWhile_eq_self_iff [THEN iffD2] hd_rev)

lemma strip_hd: "strip s \<noteq> [] \<Longrightarrow> \<not> isspace (hd (strip s))"
  using dropWhile_rev_dropWhile [of isspace s]
  by (metis hd_dropWhile strip_by_def strip_def)

text \<open>\<open>strip\<close> is the middle part between two runs of whitespace, and the only trimmed one.\<close>

definition blank :: "string \<Rightarrow> bool" where
  "blank s \<longleftrightarrow> (\<forall>c\<in>set s. isspace c)"

definition trimmed :: "string \<Rightarrow> bool" where
  "trimmed b \<longleftrightarrow> b = [] \<or> (\<not> isspace (hd b) \<and> \<not> isspace (last b))"

lemma dropWhile_blank: "blank a \<Longrightarrow> dropWhile isspace (a @ t) = dropWhile isspace t"
  by (induction a) (auto simp: blank_def)

lemma dropWhile_hd: "t \<noteq> [] \<Longrightarrow> \<not> p (hd t) \<Longrightarrow> dropWhile p t = t"
  by (cases t) auto

lemma strip_unique:
  assumes "blank a" and "blank c" and "trimmed b"
  shows "strip (a @ b @ c) = b"
proof (cases "b = []")
  case True
  have "dropWhile isspace c = []" using assms(2) by (simp add: blank_def)
  with True assms(1) show ?thesis
    by (simp add: strip_def strip_by_def dropWhile_blank del: dropWhile_eq_Nil_conv)
next
  case False
  with assms have "dropWhile isspace (a @ b @ c) = b @ c"
    by (auto simp: dropWhile_blank trimmed_def intro!: dropWhile_hd)
  moreover have "blank (rev c)" using assms(2) by (simp add: blank_def)
  moreover have "dropWhile isspace (rev b) = rev b"
    using False assms(3) by (intro dropWhile_hd) (auto simp: trimmed_def hd_rev)
  ultimately show ?thesis by (simp add: strip_def strip_by_def dropWhile_blank)
qed

lemma blank_takeWhile: "blank (takeWhile isspace s)" "blank (rev (takeWhile isspace s))"
  by (auto simp: blank_def dest: set_takeWhileD)

lemma strip_decomp:
  obtains a c where "s = a @ strip s @ c" "blank a" "blank c" "trimmed (strip s)"
proof -
  let ?r = "dropWhile isspace s"
  have r: "?r = strip s @ rev (takeWhile isspace (rev ?r))"
    unfolding strip_def strip_by_def by (metis rev_append rev_rev_ident takeWhile_dropWhile_id)
  have "s = takeWhile isspace s @ strip s @ rev (takeWhile isspace (rev ?r))"
    using r by (metis takeWhile_dropWhile_id)
  moreover have "trimmed (strip s)"
  proof (cases "strip s = []")
    case False
    then have "\<not> isspace (last (strip s))"
      unfolding strip_def strip_by_def by (metis hd_dropWhile last_rev rev_is_Nil_conv)
    with False strip_hd [OF False] show ?thesis by (simp add: trimmed_def)
  qed (simp add: trimmed_def)
  ultimately show ?thesis using that blank_takeWhile by blast
qed

lemma strip_trimmed: "trimmed b \<Longrightarrow> strip b = b"
  using strip_unique [of "[]" "[]" b] by (simp add: blank_def)

lemma lower_Nil [simp]: "lower [] = []"
  by (simp add: lower_def)

lemma lower_eq_Nil [simp]: "lower s = [] \<longleftrightarrow> s = []"
  by (simp add: lower_def)

lemma length_lower [simp]: "length (lower s) = length s"
  by (simp add: lower_def)

lemma lower_idem [simp]: "lower (lower s) = lower s"
  by (simp add: lower_def)

lemma dropWhile_isspace_lower: "dropWhile isspace (lower s) = lower (dropWhile isspace s)"
  by (simp add: lower_def dropWhile_map comp_def)

lemma strip_lower: "strip (lower s) = lower (strip s)"
proof -
  have r: "rev (lower t) = lower (rev t)" for t
    by (simp add: lower_def rev_map)
  show ?thesis
    by (simp add: strip_def strip_by_def dropWhile_isspace_lower r)
qed

lemma lower_append: "lower (s @ t) = lower s @ lower t"
  by (simp add: lower_def)

lemma startswith_append [simp]: "startswith (p @ s) p"
  by (simp add: startswith_def)

lemma startswith_iff: "startswith s p \<longleftrightarrow> (\<exists>t. s = p @ t)"
  unfolding startswith_def by (metis append_eq_conv_conj append_take_drop_id)

lemma contains_iff: "contains s p \<longleftrightarrow> (\<exists>a b. s = a @ p @ b)"
proof (induction s)
  case Nil
  then show ?case by auto
next
  case (Cons c cs)
  have "(\<exists>a b. c # cs = a @ p @ b) \<longleftrightarrow> (\<exists>b. c # cs = p @ b) \<or> (\<exists>a b. cs = a @ p @ b)"
    by (metis Cons_eq_append_conv append_Cons append_Nil)
  with Cons show ?case by (simp add: startswith_iff)
qed

lemma str_partition_append:
  assumes "sep \<notin> set a"
  shows "str_partition sep (a @ sep # b) = (a, b)"
proof -
  have "\<forall>c\<in>set a. c \<noteq> sep" using assms by auto
  then have "takeWhile (\<lambda>c. c \<noteq> sep) (a @ sep # b) = a"
    and "dropWhile (\<lambda>c. c \<noteq> sep) (a @ sep # b) = sep # b"
    by (simp_all add: takeWhile_append2 dropWhile_append2)
  then show ?thesis by (simp add: str_partition_def)
qed

lemma split_ws_tokens: "t \<in> set (split_ws s) \<Longrightarrow> t \<noteq> [] \<and> (\<forall>c\<in>set t. \<not> isspace c)"
proof (induction s arbitrary: t rule: split_ws.induct)
  case (1 s)
  show ?case
  proof (cases "dropWhile isspace s")
    case Nil
    with "1.prems" show ?thesis by (simp add: split_ws.simps [of s])
  next
    case (Cons c cs)
    then have c: "\<not> isspace c" using hd_dropWhile [of isspace s] by simp
    from "1.prems" Cons consider
      (first) "t = takeWhile (\<lambda>x. \<not> isspace x) (c # cs)"
      | (rest) "t \<in> set (split_ws (dropWhile (\<lambda>x. \<not> isspace x) (c # cs)))"
      by (auto simp: split_ws.simps [of s])
    then show ?thesis
    proof cases
      case first
      with c have "t \<noteq> []" by simp
      moreover from first have "\<forall>x\<in>set t. \<not> isspace x"
        using set_takeWhileD [of _ "\<lambda>x. \<not> isspace x" "c # cs"] by blast
      ultimately show ?thesis by blast
    next
      case rest
      then show ?thesis by (rule "1.IH" [OF Cons])
    qed
  qed
qed

lemma split_on_nonempty [simp]: "split_on sep s \<noteq> []"
  by (induction s) (auto split: list.splits)

lemma split_on_hd: "hd (split_on sep s) = fst (str_partition sep s)"
  by (induction s) (auto simp: str_partition_def split: list.splits)

section \<open>Decimal text of integers\<close>

fun nat_str :: "nat \<Rightarrow> string" where
  "nat_str n = (if n < 10 then [char_of (48 + n)] else nat_str (n div 10) @ [char_of (48 + n mod 10)])"

declare nat_str.simps [simp del]

definition int_str :: "int \<Rightarrow> string" where
  "int_str i = (if i < 0 then ''-'' @ nat_str (nat (- i)) else nat_str (nat i))"

section \<open>Sequence indexing\<close>

text \<open>\<open>xs[i]\<close>: a negative index counts from the end, and any other miss is an \<open>IndexError\<close>.\<close>

definition py_index :: "'a list \<Rightarrow> int \<Rightarrow> 'a option" where
  "py_index xs i =
     (let n = int (length xs); j = (if i < 0 then n + i else i)
      in if 0 \<le> j \<and> j < n then Some (xs ! nat j) else None)"

lemma py_index_nth: "0 \<le> i \<Longrightarrow> i < int (length xs) \<Longrightarrow> py_index xs i = Some (xs ! nat i)"
  by (simp add: py_index_def)

lemma py_index_0: "py_index xs 0 = (case xs of [] \<Rightarrow> None | x # _ \<Rightarrow> Some x)"
  by (simp add: py_index_def split: list.splits)

end
