(* ===== verification/Lead.thy ===== *)
theory Lead
  imports Py_Text
begin

text \<open>
  The lead of \<open>contexts/campaign/domain/lead.py\<close>: its states, the reasons it stops, the
  frozen model \<open>Lead\<close> with its constructor, and the normalisation of addresses that the
  campaign context shares. A \<open>StrEnum\<close> is a datatype with its \<open>value\<close>; the conversion of
  a stored string, \<open>LeadState(text)\<close>, searches the members and fails on any other text.
\<close>

section \<open>Enumerations\<close>

datatype lead_state = PENDING | SCHEDULED | SENT | PAUSED | DONE | FAILED

datatype stop_reason = REPLIED | UNSUBSCRIBED | BOUNCED | SUPPRESSED | SEND_FAILED

primrec lead_state_value :: "lead_state \<Rightarrow> string" where
  "lead_state_value PENDING = ''pending''"
| "lead_state_value SCHEDULED = ''scheduled''"
| "lead_state_value SENT = ''sent''"
| "lead_state_value PAUSED = ''paused''"
| "lead_state_value DONE = ''done''"
| "lead_state_value FAILED = ''failed''"

primrec stop_reason_value :: "stop_reason \<Rightarrow> string" where
  "stop_reason_value REPLIED = ''replied''"
| "stop_reason_value UNSUBSCRIBED = ''unsubscribed''"
| "stop_reason_value BOUNCED = ''bounced''"
| "stop_reason_value SUPPRESSED = ''suppressed''"
| "stop_reason_value SEND_FAILED = ''send_failed''"

text \<open>The members in the order of their declaration, as iteration over the enum gives them.\<close>

instantiation lead_state :: enum
begin
definition "enum_lead_state = [PENDING, SCHEDULED, SENT, PAUSED, DONE, FAILED]"
definition "enum_all_lead_state P \<longleftrightarrow> P PENDING \<and> P SCHEDULED \<and> P SENT \<and> P PAUSED \<and> P DONE \<and> P FAILED"
definition "enum_ex_lead_state P \<longleftrightarrow> P PENDING \<or> P SCHEDULED \<or> P SENT \<or> P PAUSED \<or> P DONE \<or> P FAILED"
instance
proof
  show "(UNIV :: lead_state set) = set enum_class.enum"
    by (auto simp: enum_lead_state_def) (metis lead_state.exhaust)
qed (auto simp: enum_lead_state_def enum_all_lead_state_def enum_ex_lead_state_def
       intro: lead_state.exhaust; metis lead_state.exhaust)+
end

instantiation stop_reason :: enum
begin
definition "enum_stop_reason = [REPLIED, UNSUBSCRIBED, BOUNCED, SUPPRESSED, SEND_FAILED]"
definition "enum_all_stop_reason P \<longleftrightarrow> P REPLIED \<and> P UNSUBSCRIBED \<and> P BOUNCED \<and> P SUPPRESSED \<and> P SEND_FAILED"
definition "enum_ex_stop_reason P \<longleftrightarrow> P REPLIED \<or> P UNSUBSCRIBED \<or> P BOUNCED \<or> P SUPPRESSED \<or> P SEND_FAILED"
instance
proof
  show "(UNIV :: stop_reason set) = set enum_class.enum"
    by (auto simp: enum_stop_reason_def) (metis stop_reason.exhaust)
qed (auto simp: enum_stop_reason_def enum_all_stop_reason_def enum_ex_stop_reason_def
       intro: stop_reason.exhaust; metis stop_reason.exhaust)+
end

definition lead_state_of :: "string \<Rightarrow> lead_state option" where
  "lead_state_of s = find (\<lambda>m. lead_state_value m = s) Enum.enum"

definition stop_reason_of :: "string \<Rightarrow> stop_reason option" where
  "stop_reason_of s = find (\<lambda>m. stop_reason_value m = s) Enum.enum"

lemma lead_state_of_value [simp]: "lead_state_of (lead_state_value m) = Some m"
  by (cases m) (simp_all add: lead_state_of_def enum_lead_state_def)

lemma stop_reason_of_value [simp]: "stop_reason_of (stop_reason_value m) = Some m"
  by (cases m) (simp_all add: stop_reason_of_def enum_stop_reason_def)

lemma lead_state_of_Some: "lead_state_of s = Some m \<longleftrightarrow> s = lead_state_value m"
  using find_Some_in [of "\<lambda>m. lead_state_value m = s" Enum.enum m]
  by (auto simp: lead_state_of_def [symmetric])

lemma lead_state_value_inj [simp]: "lead_state_value a = lead_state_value b \<longleftrightarrow> a = b"
  by (metis lead_state_of_value option.inject)

section \<open>The lead\<close>

record lead =
  l_id :: uuid
  l_workspace_id :: uuid
  l_campaign_id :: uuid
  l_email :: string
  l_state :: lead_state
  l_steps_sent :: int
  l_stop_reason :: "stop_reason option"
  l_reply_intent :: "string option"
  l_created_at :: time
  l_updated_at :: time

definition normalize_email :: "string \<Rightarrow> string" where
  "normalize_email email = lower (strip email)"

text \<open>\<open>Lead.new\<close> reads the clock once, then draws the identifier.\<close>

definition Lead_new :: "uuid \<Rightarrow> uuid \<Rightarrow> string \<Rightarrow> ('z env_scheme, 'e, lead) proc" where
  "Lead_new workspace_id campaign_id email =
     bindp now (\<lambda>created_at. bindp uuid7 (\<lambda>i. ret
       \<lparr> l_id = i, l_workspace_id = workspace_id, l_campaign_id = campaign_id,
         l_email = normalize_email email, l_state = PENDING, l_steps_sent = 0,
         l_stop_reason = None, l_reply_intent = None,
         l_created_at = created_at, l_updated_at = created_at \<rparr>))"

definition is_stopped :: "lead \<Rightarrow> bool" where
  "is_stopped l \<longleftrightarrow> l_state l \<in> {PAUSED, FAILED}"

lemma normalize_email_idem [simp]: "normalize_email (normalize_email e) = normalize_email e"
  by (simp add: normalize_email_def strip_lower)

lemma normalize_email_Nil [simp]: "normalize_email [] = []"
  by (simp add: normalize_email_def)

lemma normalize_email_lower [simp]: "normalize_email (lower e) = normalize_email e"
  by (simp add: normalize_email_def strip_lower)

lemma normalize_email_strip [simp]: "normalize_email (strip e) = normalize_email e"
  by (simp add: normalize_email_def)

lemma Lead_new_run [proc_simps]:
  "Lead_new ws c e w =
     (Inr \<lparr> l_id = next_uuid w, l_workspace_id = ws, l_campaign_id = c,
        l_email = normalize_email e, l_state = PENDING, l_steps_sent = 0,
        l_stop_reason = None, l_reply_intent = None,
        l_created_at = clock_at w (reads w), l_updated_at = clock_at w (reads w) \<rparr>,
      w\<lparr>reads := Suc (reads w), next_uuid := Suc (next_uuid w)\<rparr>)"
  by (simp add: Lead_new_def bindp_run)

end
