(* ===== verification/Errors.thy ===== *)
theory Errors
  imports Lead
begin

text \<open>
  Every exception that the modelled code raises or handles: the domain and application
  errors of each context, the HTTP errors of the routes, and the built-in and library
  errors that its handlers name in an \<open>except\<close> clause or let through.
\<close>

datatype exn =
    CampaignHasNoStepsError
  | NegativeStepDelayError
  | CampaignNotActiveError
  | LeadNotInCampaignError
  | LeadTransitionError lead_state string
  | CampaignNotFoundError
  | MailboxNotConnectedError
  | CampaignHasNoLeadsError
  | SendJobNotClaimedError
  | MailboxNotConfiguredError
  | RecipientSuppressedError
  | MailboxBusyError
  | DailySendCapReachedError time
  | WorkspaceNotFoundError
  | HistoryGoneError
  | RejectedCredentialsError int string
  | HTTPException int string
  | RequestValidationError
  | ValueError string
  | KeyError string
  | TypeError string
  | IndexError string
  | AttributeError string
  | RuntimeError string
  | HTTPError string string
  | IntegrityError string
  | DataError string
  | ProgrammingError string

type_synonym ('w, 'a) handler = "('w, exn, 'a) proc"

text \<open>\<open>exc.__class__.__name__\<close>; an \<open>httpx\<close> error carries the name of its class.\<close>

fun exn_class :: "exn \<Rightarrow> string" where
  "exn_class CampaignHasNoStepsError = ''CampaignHasNoStepsError''"
| "exn_class NegativeStepDelayError = ''NegativeStepDelayError''"
| "exn_class CampaignNotActiveError = ''CampaignNotActiveError''"
| "exn_class LeadNotInCampaignError = ''LeadNotInCampaignError''"
| "exn_class (LeadTransitionError _ _) = ''LeadTransitionError''"
| "exn_class CampaignNotFoundError = ''CampaignNotFoundError''"
| "exn_class MailboxNotConnectedError = ''MailboxNotConnectedError''"
| "exn_class CampaignHasNoLeadsError = ''CampaignHasNoLeadsError''"
| "exn_class SendJobNotClaimedError = ''SendJobNotClaimedError''"
| "exn_class MailboxNotConfiguredError = ''MailboxNotConfiguredError''"
| "exn_class RecipientSuppressedError = ''RecipientSuppressedError''"
| "exn_class MailboxBusyError = ''MailboxBusyError''"
| "exn_class (DailySendCapReachedError _) = ''DailySendCapReachedError''"
| "exn_class WorkspaceNotFoundError = ''WorkspaceNotFoundError''"
| "exn_class HistoryGoneError = ''_HistoryGoneError''"
| "exn_class (RejectedCredentialsError _ _) = ''_RejectedCredentialsError''"
| "exn_class (HTTPException _ _) = ''HTTPException''"
| "exn_class RequestValidationError = ''RequestValidationError''"
| "exn_class (ValueError _) = ''ValueError''"
| "exn_class (KeyError _) = ''KeyError''"
| "exn_class (TypeError _) = ''TypeError''"
| "exn_class (IndexError _) = ''IndexError''"
| "exn_class (AttributeError _) = ''AttributeError''"
| "exn_class (RuntimeError _) = ''RuntimeError''"
| "exn_class (HTTPError name _) = name"
| "exn_class (IntegrityError _) = ''IntegrityError''"
| "exn_class (DataError _) = ''DataError''"
| "exn_class (ProgrammingError _) = ''ProgrammingError''"

text \<open>\<open>str(exc)\<close>, for the errors that carry a message.\<close>

fun exn_text :: "exn \<Rightarrow> string" where
  "exn_text (LeadTransitionError st action) =
     ''lead in state '' @ lead_state_value st @ '' cannot '' @ action"
| "exn_text (RejectedCredentialsError _ detail) = detail"
| "exn_text (HTTPException status detail) = int_str status @ '': '' @ detail"
| "exn_text (ValueError m) = m"
| "exn_text (KeyError m) = m"
| "exn_text (TypeError m) = m"
| "exn_text (IndexError m) = m"
| "exn_text (AttributeError m) = m"
| "exn_text (RuntimeError m) = m"
| "exn_text (HTTPError _ m) = m"
| "exn_text (IntegrityError m) = m"
| "exn_text (DataError m) = m"
| "exn_text (ProgrammingError m) = m"
| "exn_text _ = []"

end
