(* ===== verification/Json.thy ===== *)
theory Json
  imports Errors
begin

text \<open>
  JSON values with the accesses the source makes on them, and HTTP exchanges: a client is
  a function from a request to the error it raises or the response it got, a parameter of
  every definition that calls it (\<open>httpx\<close> and the services behind it are not part of the
  repository).
\<close>

section \<open>JSON\<close>

datatype json =
    JNull
  | JBool bool
  | JInt int
  | JStr string
  | JArr "json list"
  | JObj "(string \<times> json) list"

text \<open>\<open>j[key]\<close> with a string key.\<close>

fun j_item :: "json \<Rightarrow> string \<Rightarrow> exn + json" where
  "j_item (JObj kvs) k = (case map_of kvs k of None \<Rightarrow> Inl (KeyError k) | Some v \<Rightarrow> Inr v)"
| "j_item _ k = Inl (TypeError ''string key'')"

text \<open>\<open>j[i]\<close> with an integer: a list, the characters of a string, or no key of an object.\<close>

fun j_nth :: "json \<Rightarrow> int \<Rightarrow> exn + json" where
  "j_nth (JArr xs) i =
     (case py_index xs i of None \<Rightarrow> Inl (IndexError ''list index out of range'') | Some v \<Rightarrow> Inr v)"
| "j_nth (JStr s) i =
     (case py_index s i of None \<Rightarrow> Inl (IndexError ''string index out of range'')
      | Some c \<Rightarrow> Inr (JStr [c]))"
| "j_nth (JObj _) i = Inl (KeyError (int_str i))"
| "j_nth _ i = Inl (TypeError ''not subscriptable'')"

text \<open>\<open>j.get(key)\<close>, with \<open>None\<close> for an absent key.\<close>

fun j_get :: "json \<Rightarrow> string \<Rightarrow> exn + json option" where
  "j_get (JObj kvs) k = Inr (map_of kvs k)"
| "j_get _ k = Inl (AttributeError ''get'')"

definition sum_bind :: "'e + 'a \<Rightarrow> ('a \<Rightarrow> 'e + 'b) \<Rightarrow> 'e + 'b" where
  "sum_bind r f = (case r of Inl e \<Rightarrow> Inl e | Inr x \<Rightarrow> f x)"

lemma sum_bind_simps [simp]: "sum_bind (Inl e) f = Inl e" "sum_bind (Inr x) f = f x"
  by (simp_all add: sum_bind_def)

lemma sum_bind_Inr: "sum_bind r f = Inr y \<longleftrightarrow> (\<exists>x. r = Inr x \<and> f x = Inr y)"
  by (cases r) auto

section \<open>HTTP\<close>

record http_request =
  rq_url :: string
  rq_headers :: "(string \<times> string) list"
  rq_body :: json

text \<open>
  A response: its status, the outcome of \<open>response.json()\<close>, and the text of the error that
  \<open>raise_for_status\<close> raises for any status that is not a success.
\<close>

record http_response =
  rs_status :: int
  rs_json :: "exn + json"
  rs_error_text :: string

type_synonym http_client = "http_request \<Rightarrow> exn + http_response"

definition raise_for_status :: "http_response \<Rightarrow> exn + http_response" where
  "raise_for_status r =
     (if 200 \<le> rs_status r \<and> rs_status r < 300 then Inr r
      else Inl (HTTPError ''HTTPStatusError'' (rs_error_text r)))"

end
