(* ===== verification/Uuid_Text.thy ===== *)
theory Uuid_Text
  imports Json
begin

text \<open>
  The text forms of the standard library's values that the program stores in JSON and
  reads back: \<open>str(uuid)\<close> and \<open>UUID(text)\<close>, \<open>datetime.isoformat()\<close>, and the values an
  outbox payload is built from.
\<close>

section \<open>Hexadecimal text\<close>

definition hex_digits :: string where
  "hex_digits = ''0123456789abcdef''"

primrec hex_text :: "nat \<Rightarrow> nat \<Rightarrow> string" where
  "hex_text 0 n = []"
| "hex_text (Suc k) n = hex_text k (n div 16) @ [hex_digits ! (n mod 16)]"

definition hex_value :: "char \<Rightarrow> nat option" where
  "hex_value c = (let k = code c in
     if 48 \<le> k \<and> k \<le> 57 then Some (k - 48)
     else if 97 \<le> k \<and> k \<le> 102 then Some (k - 87)
     else if 65 \<le> k \<and> k \<le> 70 then Some (k - 55)
     else None)"

text \<open>The digits of \<open>int(text, 16)\<close> after the first, with single underscores between digits.\<close>

fun hex_rest :: "nat \<Rightarrow> string \<Rightarrow> nat option" where
  "hex_rest acc [] = Some acc"
| "hex_rest acc [c] = (case hex_value c of Some v \<Rightarrow> Some (acc * 16 + v) | None \<Rightarrow> None)"
| "hex_rest acc (c # d # cs) =
     (case hex_value c of
        Some v \<Rightarrow> hex_rest (acc * 16 + v) (d # cs)
      | None \<Rightarrow> if c = CHR ''_''
                then (case hex_value d of Some v \<Rightarrow> hex_rest (acc * 16 + v) cs | None \<Rightarrow> None)
                else None)"

definition hex_start :: "string \<Rightarrow> nat option" where
  "hex_start s = (case s of [] \<Rightarrow> None
     | c # cs \<Rightarrow> (case hex_value c of Some v \<Rightarrow> hex_rest v cs | None \<Rightarrow> None))"

text \<open>
  \<open>int(text, 16)\<close> for a text without a minus sign: surrounding whitespace, a plus sign and
  a prefix \<open>0x\<close> (which an underscore may follow) are accepted.
\<close>

definition int_base16 :: "string \<Rightarrow> nat option" where
  "int_base16 s =
     (let t = strip s;
          u = (if take 1 t = ''+'' then drop 1 t else t)
      in if lower (take 2 u) = ''0x''
         then hex_start (if take 1 (drop 2 u) = ''_'' then drop 3 u else drop 2 u)
         else hex_start u)"

section \<open>UUIDs\<close>

definition uuid_hex :: "uuid \<Rightarrow> string" where
  "uuid_hex n = hex_text 32 n"

definition uuid_str :: "uuid \<Rightarrow> string" where
  "uuid_str n = (let h = uuid_hex n in
     take 8 h @ ''-'' @ take 4 (drop 8 h) @ ''-'' @ take 4 (drop 12 h) @ ''-''
     @ take 4 (drop 16 h) @ ''-'' @ drop 20 h)"

text \<open>\<open>s.replace(sub, "")\<close>.\<close>

fun str_remove :: "string \<Rightarrow> string \<Rightarrow> string" where
  "str_remove sub [] = []"
| "str_remove sub (c # cs) =
     (if sub \<noteq> [] \<and> startswith (c # cs) sub then str_remove sub (drop (length sub) (c # cs))
      else c # str_remove sub cs)"

definition brace :: "char \<Rightarrow> bool" where
  "brace c \<longleftrightarrow> c = CHR 0x7B \<or> c = CHR 0x7D"

text \<open>\<open>UUID(text)\<close>. Thirty-two hexadecimal digits are always below \<open>2 ^ 128\<close>.\<close>

definition UUID_parse :: "string \<Rightarrow> exn + uuid" where
  "UUID_parse s =
     (let h = str_remove ''-'' (strip_by brace (str_remove ''uuid:'' (str_remove ''urn:'' s)))
      in if length h \<noteq> 32 then Inl (ValueError ''badly formed hexadecimal UUID string'')
         else case int_base16 h of
             None \<Rightarrow> Inl (ValueError (''invalid literal for int() with base 16: '' @ h))
           | Some n \<Rightarrow> Inr n)"

section \<open>Round trip\<close>

lemma length_hex_text [simp]: "length (hex_text k n) = k"
  by (induction k arbitrary: n) auto

lemma hex_digit_value: "d < 16 \<Longrightarrow> hex_value (hex_digits ! d) = Some d"
proof -
  assume "d < 16"
  then have "d \<in> set [0..<16]" by simp
  moreover have "\<forall>d \<in> set [0..<16]. hex_value (hex_digits ! d) = Some d"
    by code_simp
  ultimately show ?thesis by blast
qed

lemma hex_text_chars: "c \<in> set (hex_text k n) \<Longrightarrow> \<exists>v<16. hex_value c = Some v"
proof (induction k arbitrary: n)
  case (Suc k)
  then show ?case
    using hex_digit_value [of "n mod 16"] by fastforce
qed simp

lemma hex_rest_append:
  assumes "\<forall>c\<in>set s. hex_value c \<noteq> None"
  shows "hex_rest acc (s @ [c]) =
    (case hex_rest acc s of None \<Rightarrow> None
     | Some a \<Rightarrow> (case hex_value c of None \<Rightarrow> None | Some v \<Rightarrow> Some (a * 16 + v)))"
  using assms
proof (induction acc s rule: hex_rest.induct)
  case (2 acc d)
  then show ?case by (auto split: option.splits)
next
  case (3 acc d e cs)
  then show ?case by (auto split: option.splits)
qed simp

lemma hex_rest_text: "n < 16 ^ k \<Longrightarrow> hex_rest acc (hex_text k n) = Some (acc * 16 ^ k + n)"
proof (induction k arbitrary: n)
  case (Suc k)
  have "\<forall>c\<in>set (hex_text k (n div 16)). hex_value c \<noteq> None"
    using hex_text_chars by fastforce
  moreover have "n div 16 < 16 ^ k" using Suc.prems by (simp add: less_mult_imp_div_less)
  ultimately show ?case
    using Suc.IH [of "n div 16"] by (simp add: hex_rest_append hex_digit_value algebra_simps)
qed simp

lemma hex_start_text:
  assumes "n < 16 ^ Suc k"
  shows "hex_start (hex_text (Suc k) n) = Some n"
proof -
  have "hex_rest 0 (hex_text (Suc k) n) = Some n" using hex_rest_text [OF assms, of 0] by simp
  moreover obtain c cs where s: "hex_text (Suc k) n = c # cs"
    by (metis length_hex_text length_Suc_conv)
  moreover obtain v where "hex_value c = Some v"
    using hex_text_chars [of c "Suc k" n] s by (metis list.set_intros(1))
  ultimately show ?thesis by (cases cs) (simp_all add: hex_start_def)
qed

lemma str_remove_absent: "hd sub \<notin> set s \<Longrightarrow> str_remove sub s = s"
proof (induction s)
  case (Cons c cs)
  then have "sub = [] \<or> \<not> startswith (c # cs) sub"
    by (cases sub) (auto simp: startswith_def)
  with Cons show ?case by auto
qed simp

lemma str_remove_char: "str_remove [d] s = filter (\<lambda>c. c \<noteq> d) s"
  by (induction s) (auto simp: startswith_def)

lemma no_hex_value:
  "hex_value CHR ''u'' = None" "hex_value CHR ''-'' = None" "hex_value CHR ''x'' = None"
  "hex_value CHR ''X'' = None" "hex_value CHR ''+'' = None"
  "hex_value CHR 0x7B = None" "hex_value CHR 0x7D = None"
  by (simp_all add: hex_value_def)

lemma hex_value_visible: "hex_value c \<noteq> None \<Longrightarrow> \<not> isspace c \<and> \<not> brace c"
proof -
  assume v: "hex_value c \<noteq> None"
  then have "\<not> isspace c" by (auto simp: hex_value_def isspace_def Let_def split: if_splits)
  moreover have "\<not> brace c" using v no_hex_value by (auto simp: brace_def)
  ultimately show ?thesis ..
qed

lemma lower_char_x: "lower_char c = CHR ''x'' \<Longrightarrow> hex_value c = None"
proof -
  assume "lower_char c = CHR ''x''"
  then have "code (lower_char c) = 120" by simp
  then have "code c = 120 \<or> code c = 88" by (auto simp: code_lower_char split: if_splits)
  then show ?thesis by (auto simp: hex_value_def)
qed

lemma int_base16_hex:
  assumes v: "\<And>c. c \<in> set h \<Longrightarrow> hex_value c \<noteq> None" and h: "h = a # b # cs"
  shows "int_base16 h = hex_start h"
proof -
  have "hd h \<in> set h" "last h \<in> set h" unfolding h by auto
  then have "trimmed h" using v hex_value_visible by (auto simp: trimmed_def)
  then have t: "strip h = h" by (rule strip_trimmed)
  have a: "a \<noteq> CHR ''+''" and b: "lower_char b \<noteq> CHR ''x''"
    using v [of a] v [of b] no_hex_value lower_char_x unfolding h by auto
  show ?thesis
    unfolding int_base16_def Let_def t using a b by (simp add: h lower_def)
qed

lemma uuid_fields:
  "take 8 h @ take 4 (drop 8 h) @ take 4 (drop 12 h) @ take 4 (drop 16 h) @ drop 20 h = h"
proof -
  have "take 4 (drop 16 h) @ drop 20 h = drop 16 h"
    using append_take_drop_id [of 4 "drop 16 h"] by simp
  moreover have "take 4 (drop 12 h) @ drop 16 h = drop 12 h"
    using append_take_drop_id [of 4 "drop 12 h"] by simp
  moreover have "take 4 (drop 8 h) @ drop 12 h = drop 8 h"
    using append_take_drop_id [of 4 "drop 8 h"] by simp
  ultimately show ?thesis by simp
qed

text \<open>The dashes between the groups of digits, and that the parser undoes them.\<close>

definition dashed :: "string \<Rightarrow> string" where
  "dashed h = take 8 h @ ''-'' @ take 4 (drop 8 h) @ ''-'' @ take 4 (drop 12 h) @ ''-''
     @ take 4 (drop 16 h) @ ''-'' @ drop 20 h"

lemma uuid_str_dashed: "uuid_str n = dashed (uuid_hex n)"
  by (simp add: uuid_str_def dashed_def Let_def)

lemma undashed:
  assumes "\<And>c. c \<in> set h \<Longrightarrow> c \<noteq> CHR ''-''"
  shows "filter (\<lambda>c. c \<noteq> CHR ''-'') (dashed h) = h"
proof -
  have sub: "set (take 8 h) \<subseteq> set h" "set (drop 20 h) \<subseteq> set h"
    "set (take 4 (drop 8 h)) \<subseteq> set h" "set (take 4 (drop 12 h)) \<subseteq> set h"
    "set (take 4 (drop 16 h)) \<subseteq> set h"
    by (meson set_take_subset set_drop_subset order.trans)+
  have all: "filter (\<lambda>c. c \<noteq> CHR ''-'') xs = xs" if "set xs \<subseteq> set h" for xs
    using that assms by (auto simp: filter_id_conv)
  have "filter (\<lambda>c. c \<noteq> CHR ''-'') (dashed h)
      = take 8 h @ take 4 (drop 8 h) @ take 4 (drop 12 h) @ take 4 (drop 16 h) @ drop 20 h"
    unfolding dashed_def filter_append by (simp add: all sub)
  then show ?thesis by (simp only: uuid_fields)
qed

lemma dashed_chars: "c \<in> set (dashed h) \<Longrightarrow> c \<in> set h \<or> c = CHR ''-''"
  unfolding dashed_def by (auto dest: in_set_takeD in_set_dropD)

lemma UUID_parse_dashed:
  assumes v: "\<And>c. c \<in> set h \<Longrightarrow> hex_value c \<noteq> None" and len: "length h = 32"
  shows "UUID_parse (dashed h) = (case hex_start h of
      None \<Rightarrow> Inl (ValueError (''invalid literal for int() with base 16: '' @ h)) | Some n \<Rightarrow> Inr n)"
proof -
  have chars: "hex_value c \<noteq> None \<or> c = CHR ''-''" if "c \<in> set (dashed h)" for c
    using dashed_chars [OF that] v by blast
  have "CHR ''u'' \<notin> set (dashed h)" using chars [of "CHR ''u''"] no_hex_value by auto
  then have u: "str_remove ''uuid:'' (str_remove ''urn:'' (dashed h)) = dashed h"
    by (simp add: str_remove_absent)
  have "\<not> brace c" if "c \<in> set (dashed h)" for c
    using chars [OF that] hex_value_visible by (auto simp: brace_def)
  moreover have "dashed h \<noteq> []" by (simp add: dashed_def)
  ultimately have b: "strip_by brace (dashed h) = dashed h"
    by (intro strip_by_fixed) (simp add: hd_in_set last_in_set)
  have "c \<noteq> CHR ''-''" if "c \<in> set h" for c using v [OF that] no_hex_value by auto
  then have d: "str_remove ''-'' (dashed h) = h" unfolding str_remove_char by (rule undashed)
  obtain a h1 where "h = a # h1" "length h1 = 31" using len by (cases h) simp_all
  moreover obtain d cs where "h1 = d # cs" using calculation(2) by (cases h1) simp_all
  ultimately have "int_base16 h = hex_start h" using int_base16_hex [OF v] by simp
  then show ?thesis by (simp add: UUID_parse_def Let_def u b d len)
qed

lemma hex_digits_all: "c \<in> set (uuid_hex n) \<Longrightarrow> hex_value c \<noteq> None"
  using hex_text_chars unfolding uuid_hex_def by blast

lemma UUID_parse_str: "n < 2 ^ 128 \<Longrightarrow> UUID_parse (uuid_str n) = Inr n"
proof -
  assume "n < 2 ^ 128"
  then have "n < 16 ^ Suc 31" by simp
  then have "hex_start (hex_text (Suc 31) n) = Some n" by (rule hex_start_text)
  then have "hex_start (uuid_hex n) = Some n" by (simp add: uuid_hex_def del: hex_text.simps)
  moreover have "length (uuid_hex n) = 32" by (simp add: uuid_hex_def)
  ultimately show ?thesis using UUID_parse_dashed [OF hex_digits_all] by (simp add: uuid_str_dashed)
qed

text \<open>Hexadecimal digits are always a number.\<close>

lemma hex_rest_digits: "(\<And>c. c \<in> set s \<Longrightarrow> hex_value c \<noteq> None) \<Longrightarrow> \<exists>n. hex_rest acc s = Some n"
proof (induction acc s rule: hex_rest.induct)
  case (2 acc c)
  then obtain v where "hex_value c = Some v" by (metis list.set_intros(1) not_Some_eq)
  then show ?case by simp
next
  case (3 acc c d cs)
  from "3.prems" obtain v where v: "hex_value c = Some v" by (metis list.set_intros(1) not_Some_eq)
  have "\<exists>n. hex_rest (acc * 16 + v) (d # cs) = Some n" by (rule "3.IH"(2) [OF v]) (rule "3.prems", simp)
  then show ?case by (simp only: hex_rest.simps(3) v option.case)
qed simp

lemma hex_start_digits:
  assumes "\<And>c. c \<in> set h \<Longrightarrow> hex_value c \<noteq> None" and "h \<noteq> []"
  shows "\<exists>n. hex_start h = Some n"
proof -
  from assms(2) obtain c cs where h: "h = c # cs" by (cases h) auto
  with assms(1) obtain v where "hex_value c = Some v" by fastforce
  moreover have "\<exists>n. hex_rest v cs = Some n" using assms(1) by (intro hex_rest_digits) (simp add: h)
  ultimately show ?thesis by (simp add: hex_start_def h)
qed

lemma uuid_str_nonempty [simp]: "uuid_str n \<noteq> []"
  by (simp add: uuid_str_def Let_def)

section \<open>Datetimes\<close>

text \<open>The proleptic Gregorian date of a day counted from the epoch.\<close>

definition civil_date :: "int \<Rightarrow> int \<times> int \<times> int" where
  "civil_date days =
     (let z = days + 719468;
          era = z div 146097;
          doe = z mod 146097;
          yoe = (doe - doe div 1460 + doe div 36524 - doe div 146096) div 365;
          doy = doe - (365 * yoe + yoe div 4 - yoe div 100);
          mp = (5 * doy + 2) div 153;
          d = doy - (153 * mp + 2) div 5 + 1;
          m = (if mp < 10 then mp + 3 else mp - 9)
      in (yoe + era * 400 + (if m \<le> 2 then 1 else 0), m, d))"

definition padded :: "nat \<Rightarrow> int \<Rightarrow> string" where
  "padded width n = (let s = int_str n in replicate (width - length s) (CHR ''0'') @ s)"

definition isoformat :: "time \<Rightarrow> string" where
  "isoformat t =
     (let (y, m, d) = civil_date (t div one_day);
          us = t mod one_day;
          secs = us div 1000000;
          frac = us mod 1000000
      in padded 4 y @ ''-'' @ padded 2 m @ ''-'' @ padded 2 d @ ''T''
         @ padded 2 (secs div 3600) @ '':'' @ padded 2 (secs div 60 mod 60) @ '':''
         @ padded 2 (secs mod 60) @ (if frac = 0 then [] else ''.'' @ padded 6 frac)
         @ ''+00:00'')"

end
