(* ===== verification/Messaging.thy ===== *)
theory Messaging
  imports Errors
begin

text \<open>
  The domain of the messaging context (\<open>contexts/messaging/domain\<close>): intents, outbound and
  inbound messages and suppressions, with the value objects of its ports, and the mailbox
  of \<open>contexts/mailbox/domain/mailbox.py\<close>.
\<close>

section \<open>Intents\<close>

datatype intent = POSITIVE | NEGATIVE | OOO | UNSUBSCRIBE | UNCLEAR | BOUNCE

primrec intent_value :: "intent \<Rightarrow> string" where
  "intent_value POSITIVE = ''positive''"
| "intent_value NEGATIVE = ''negative''"
| "intent_value OOO = ''ooo''"
| "intent_value UNSUBSCRIBE = ''unsubscribe''"
| "intent_value UNCLEAR = ''unclear''"
| "intent_value BOUNCE = ''bounce''"

instantiation intent :: enum
begin
definition "enum_intent = [POSITIVE, NEGATIVE, OOO, UNSUBSCRIBE, UNCLEAR, BOUNCE]"
definition "enum_all_intent P \<longleftrightarrow> P POSITIVE \<and> P NEGATIVE \<and> P OOO \<and> P UNSUBSCRIBE \<and> P UNCLEAR \<and> P BOUNCE"
definition "enum_ex_intent P \<longleftrightarrow> P POSITIVE \<or> P NEGATIVE \<or> P OOO \<or> P UNSUBSCRIBE \<or> P UNCLEAR \<or> P BOUNCE"
instance
proof
  show "(UNIV :: intent set) = set enum_class.enum"
    by (auto simp: enum_intent_def) (metis intent.exhaust)
qed (auto simp: enum_intent_def enum_all_intent_def enum_ex_intent_def
       intro: intent.exhaust; metis intent.exhaust)+
end

definition intent_of :: "string \<Rightarrow> intent option" where
  "intent_of s = find (\<lambda>m. intent_value m = s) Enum.enum"

lemma intent_of_value [simp]: "intent_of (intent_value i) = Some i"
  by (cases i) (simp_all add: intent_of_def enum_intent_def)

lemma intent_of_Some: "intent_of s = Some i \<longleftrightarrow> s = intent_value i"
  using find_Some_in [of "\<lambda>m. intent_value m = s" Enum.enum i]
  by (auto simp: intent_of_def [symmetric])

lemma intent_value_inj [simp]: "intent_value a = intent_value b \<longleftrightarrow> a = b"
  by (metis intent_of_value option.inject)

section \<open>Messages\<close>

record outbound_message =
  om_id :: uuid
  om_workspace_id :: uuid
  om_mailbox_id :: uuid
  om_to_email :: string
  om_subject :: string
  om_body :: string
  om_rfc822_message_id :: string
  om_provider_message_id :: "string option"
  om_provider_thread_id :: "string option"
  om_created_at :: time

definition OutboundMessage_new ::
  "uuid \<Rightarrow> uuid \<Rightarrow> string \<Rightarrow> string \<Rightarrow> string \<Rightarrow> string
   \<Rightarrow> ('z env_scheme, 'e, outbound_message) proc" where
  "OutboundMessage_new workspace_id mailbox_id to_email subject body rfc822_message_id =
     bindp uuid7 (\<lambda>i. bindp now (\<lambda>created_at. ret
       \<lparr> om_id = i, om_workspace_id = workspace_id, om_mailbox_id = mailbox_id,
         om_to_email = to_email, om_subject = subject, om_body = body,
         om_rfc822_message_id = rfc822_message_id, om_provider_message_id = None,
         om_provider_thread_id = None, om_created_at = created_at \<rparr>))"

definition sent :: "outbound_message \<Rightarrow> string \<Rightarrow> string \<Rightarrow> outbound_message" where
  "sent m provider_message_id provider_thread_id =
     m\<lparr>om_provider_message_id := Some provider_message_id,
       om_provider_thread_id := Some provider_thread_id\<rparr>"

record inbound_message =
  im_id :: uuid
  im_workspace_id :: uuid
  im_mailbox_id :: uuid
  im_provider_message_id :: string
  im_provider_thread_id :: string
  im_from_email :: string
  im_subject :: string
  im_snippet :: string
  im_in_reply_to_header :: "string option"
  im_references_header :: "string option"
  im_matched_outbound_id :: "uuid option"
  im_intent :: "intent option"
  im_received_at :: time
  im_created_at :: time

record fetched_message =
  fm_provider_message_id :: string
  fm_provider_thread_id :: string
  fm_from_email :: string
  fm_subject :: string
  fm_snippet :: string
  fm_in_reply_to_header :: "string option"
  fm_references_header :: "string option"
  fm_received_at :: time
  fm_body_text :: string
  fm_is_bounce :: bool

record fetch_result =
  fr_new_cursor :: string
  fr_messages :: "fetched_message list"

text \<open>
  \<open>InboundMessage.new\<close> takes each field of the fetched message by keyword; its caller
  passes exactly these.
\<close>

definition InboundMessage_new ::
  "uuid \<Rightarrow> uuid \<Rightarrow> fetched_message \<Rightarrow> ('z env_scheme, 'e, inbound_message) proc" where
  "InboundMessage_new workspace_id mailbox_id f =
     bindp uuid7 (\<lambda>i. bindp now (\<lambda>created_at. ret
       \<lparr> im_id = i, im_workspace_id = workspace_id, im_mailbox_id = mailbox_id,
         im_provider_message_id = fm_provider_message_id f,
         im_provider_thread_id = fm_provider_thread_id f,
         im_from_email = fm_from_email f, im_subject = fm_subject f, im_snippet = fm_snippet f,
         im_in_reply_to_header = fm_in_reply_to_header f,
         im_references_header = fm_references_header f,
         im_matched_outbound_id = None, im_intent = None,
         im_received_at = fm_received_at f, im_created_at = created_at \<rparr>))"

definition matched_to :: "inbound_message \<Rightarrow> uuid \<Rightarrow> inbound_message" where
  "matched_to m outbound_id = m\<lparr>im_matched_outbound_id := Some outbound_id\<rparr>"

definition classified_as :: "inbound_message \<Rightarrow> intent \<Rightarrow> inbound_message" where
  "classified_as m i = m\<lparr>im_intent := Some i\<rparr>"

section \<open>Suppressions\<close>

datatype suppression_reason = SUPPRESS_UNSUBSCRIBE | HARD_BOUNCE

primrec suppression_reason_value :: "suppression_reason \<Rightarrow> string" where
  "suppression_reason_value SUPPRESS_UNSUBSCRIBE = ''unsubscribe''"
| "suppression_reason_value HARD_BOUNCE = ''hard_bounce''"

record suppression =
  su_id :: uuid
  su_workspace_id :: uuid
  su_email :: string
  su_reason :: suppression_reason
  su_source_inbound_id :: "uuid option"
  su_created_at :: time

definition Suppression_new ::
  "uuid \<Rightarrow> string \<Rightarrow> suppression_reason \<Rightarrow> uuid option
   \<Rightarrow> ('z env_scheme, 'e, suppression) proc" where
  "Suppression_new workspace_id email reason source_inbound_id =
     bindp uuid7 (\<lambda>i. bindp now (\<lambda>created_at. ret
       \<lparr> su_id = i, su_workspace_id = workspace_id, su_email = lower (strip email),
         su_reason = reason, su_source_inbound_id = source_inbound_id,
         su_created_at = created_at \<rparr>))"

section \<open>The mailbox\<close>

definition DEFAULT_DAILY_SEND_CAP :: int where
  "DEFAULT_DAILY_SEND_CAP = 20"

record mailbox =
  mb_id :: uuid
  mb_workspace_id :: uuid
  mb_email_address :: string
  mb_last_sync_cursor :: "string option"
  mb_daily_send_cap :: int
  mb_created_at :: time

definition Mailbox_new ::
  "uuid \<Rightarrow> string \<Rightarrow> int \<Rightarrow> ('z env_scheme, 'e, mailbox) proc" where
  "Mailbox_new workspace_id email_address daily_send_cap =
     bindp uuid7 (\<lambda>i. bindp now (\<lambda>created_at. ret
       \<lparr> mb_id = i, mb_workspace_id = workspace_id, mb_email_address = lower email_address,
         mb_last_sync_cursor = None, mb_daily_send_cap = daily_send_cap,
         mb_created_at = created_at \<rparr>))"

definition with_cursor :: "mailbox \<Rightarrow> string \<Rightarrow> mailbox" where
  "with_cursor m sync_cursor = m\<lparr>mb_last_sync_cursor := Some sync_cursor\<rparr>"

record mailbox_view =
  mv_id :: uuid
  mv_workspace_id :: uuid
  mv_email_address :: string
  mv_last_sync_cursor :: "string option"
  mv_daily_send_cap :: int

record sent_email =
  se_provider_message_id :: string
  se_provider_thread_id :: string

lemma OutboundMessage_new_run [proc_simps]:
  "OutboundMessage_new ws mb t s b r w =
     (Inr \<lparr> om_id = next_uuid w, om_workspace_id = ws, om_mailbox_id = mb, om_to_email = t,
        om_subject = s, om_body = b, om_rfc822_message_id = r, om_provider_message_id = None,
        om_provider_thread_id = None, om_created_at = clock_at w (reads w) \<rparr>,
      w\<lparr>next_uuid := Suc (next_uuid w), reads := Suc (reads w)\<rparr>)"
  by (simp add: OutboundMessage_new_def bindp_run)

lemma Suppression_new_run [proc_simps]:
  "Suppression_new ws e r src w =
     (Inr \<lparr> su_id = next_uuid w, su_workspace_id = ws, su_email = lower (strip e), su_reason = r,
        su_source_inbound_id = src, su_created_at = clock_at w (reads w) \<rparr>,
      w\<lparr>next_uuid := Suc (next_uuid w), reads := Suc (reads w)\<rparr>)"
  by (simp add: Suppression_new_def bindp_run)

end
