(* ===== verification/Send_Job.thy ===== *)
theory Send_Job
  imports Prelude
begin

text \<open>
  The send job of \<open>contexts/campaign/domain/send_job.py\<close>: its statuses, the payload of
  version 1, the job itself and the retry schedule.
\<close>

definition MAX_SEND_ATTEMPTS :: int where
  "MAX_SEND_ATTEMPTS = 3"

definition RETRY_BACKOFF :: time where
  "RETRY_BACKOFF = seconds 60"

definition CLAIM_LEASE :: time where
  "CLAIM_LEASE = seconds (5 * 60)"

datatype send_job_status = JPENDING | JRUNNING | JDONE | JFAILED | JCANCELLED

primrec send_job_status_value :: "send_job_status \<Rightarrow> string" where
  "send_job_status_value JPENDING = ''pending''"
| "send_job_status_value JRUNNING = ''running''"
| "send_job_status_value JDONE = ''done''"
| "send_job_status_value JFAILED = ''failed''"
| "send_job_status_value JCANCELLED = ''cancelled''"

record send_job_payload =
  p_job_version :: int
  p_campaign_id :: uuid
  p_lead_id :: uuid
  p_step_id :: uuid
  p_step_position :: int
  p_to_email :: string
  p_subject :: string
  p_body :: string

record send_job =
  j_id :: uuid
  j_workspace_id :: uuid
  j_mailbox_id :: uuid
  j_lead_id :: uuid
  j_step_id :: uuid
  j_payload :: send_job_payload
  j_scheduled_at :: time
  j_status :: send_job_status
  j_attempts :: int
  j_created_at :: time

definition SendJob_new ::
  "uuid \<Rightarrow> uuid \<Rightarrow> send_job_payload \<Rightarrow> time \<Rightarrow> ('z env_scheme, 'e, send_job) proc" where
  "SendJob_new workspace_id mailbox_id payload scheduled_at =
     bindp uuid7 (\<lambda>i. bindp now (\<lambda>created_at. ret
       \<lparr> j_id = i, j_workspace_id = workspace_id, j_mailbox_id = mailbox_id,
         j_lead_id = p_lead_id payload, j_step_id = p_step_id payload, j_payload = payload,
         j_scheduled_at = scheduled_at, j_status = JPENDING, j_attempts = 0,
         j_created_at = created_at \<rparr>))"

definition next_retry_at :: "int \<Rightarrow> time \<Rightarrow> time option" where
  "next_retry_at attempts moment =
     (if attempts \<ge> MAX_SEND_ATTEMPTS then None else Some (moment + RETRY_BACKOFF * attempts))"

lemma SendJob_new_run [proc_simps]:
  "SendJob_new ws mb p at w =
     (Inr \<lparr> j_id = next_uuid w, j_workspace_id = ws, j_mailbox_id = mb,
        j_lead_id = p_lead_id p, j_step_id = p_step_id p, j_payload = p,
        j_scheduled_at = at, j_status = JPENDING, j_attempts = 0,
        j_created_at = clock_at w (reads w) \<rparr>,
      w\<lparr>next_uuid := Suc (next_uuid w), reads := Suc (reads w)\<rparr>)"
  by (simp add: SendJob_new_def bindp_run)

lemma next_retry_at_None: "next_retry_at n m = None \<longleftrightarrow> 3 \<le> n"
  by (simp add: next_retry_at_def MAX_SEND_ATTEMPTS_def)

lemma next_retry_at_Some: "n < 3 \<Longrightarrow> next_retry_at n m = Some (m + seconds (60 * n))"
  by (simp add: next_retry_at_def MAX_SEND_ATTEMPTS_def RETRY_BACKOFF_def seconds_def)

end
