(* ===== verification/Database.thy ===== *)
theory Database
  imports Uuid_Text Messaging Campaign
begin

text \<open>
  The tables of the SQLAlchemy models (\<open>infrastructure/db/models.py\<close> of each context), the
  row level security of the migrations, the session with its transactions and savepoints
  (\<open>shared/infrastructure/db/session.py\<close>), and the world every handler runs in.

  A column that stores the \<open>value\<close> of an enum holds the member itself, and the payload of
  a send job is the record that \<open>model_dump\<close> writes and \<open>model_validate\<close> reads back; the theories
  \<open>Rows\<close> and \<open>Queue_Sql\<close> say why these stand for the columns. A
  query that leaves the order of equal keys open returns them in the order of the table.
\<close>

section \<open>Rows\<close>

record campaign_row =
  cr_id :: uuid
  cr_workspace_id :: uuid
  cr_mailbox_id :: uuid
  cr_name :: string
  cr_status :: campaign_status
  cr_created_at :: time

record step_row =
  sr_id :: uuid
  sr_workspace_id :: uuid
  sr_campaign_id :: uuid
  sr_position :: int
  sr_subject :: string
  sr_body :: string
  sr_delay_seconds :: int
  sr_created_at :: time

record send_job_row =
  jr_id :: uuid
  jr_workspace_id :: uuid
  jr_mailbox_id :: uuid
  jr_lead_id :: uuid
  jr_step_id :: uuid
  jr_payload :: send_job_payload
  jr_scheduled_at :: time
  jr_status :: send_job_status
  jr_attempts :: int
  jr_locked_at :: "time option"
  jr_locked_by :: "string option"
  jr_last_error :: "string option"
  jr_outbound_message_id :: "uuid option"
  jr_created_at :: time
  jr_updated_at :: time

record processed_event =
  pe_event_id :: uuid
  pe_workspace_id :: uuid
  pe_processed_at :: time

record outbox_event =
  oe_id :: uuid
  oe_workspace_id :: uuid
  oe_event_type :: string
  oe_aggregate_id :: uuid
  oe_payload :: json
  oe_created_at :: time

record workspace =
  ws_id :: uuid
  ws_name :: string
  ws_created_at :: time

record api_key =
  ak_id :: uuid
  ak_workspace_id :: uuid
  ak_prefix :: string
  ak_secret_hash :: string
  ak_created_at :: time
  ak_revoked_at :: "time option"

text \<open>
  The rows of the other tables have exactly the fields of their domain model: \<open>lead\<close>,
  \<open>outbound_message\<close>, \<open>inbound_message\<close>, \<open>suppression\<close> and \<open>mailbox\<close>.
\<close>

record database =
  t_campaigns :: "campaign_row list"
  t_steps :: "step_row list"
  t_leads :: "lead list"
  t_send_jobs :: "send_job_row list"
  t_processed :: "processed_event list"
  t_outbound :: "outbound_message list"
  t_inbound :: "inbound_message list"
  t_outbox :: "outbox_event list"
  t_suppressions :: "suppression list"
  t_mailboxes :: "mailbox list"
  t_workspaces :: "workspace list"
  t_api_keys :: "api_key list"

section \<open>The world\<close>

text \<open>A call of the mail provider, with what it answered.\<close>

record mail =
  ml_from :: string
  ml_to :: string
  ml_subject :: string
  ml_body :: string
  ml_message_id :: string

text \<open>
  An increment of one of the counters of \<open>shared/infrastructure/metrics.py\<close>, and a line
  printed by the worker, with the values it interpolates.
\<close>

datatype metric =
    EMAILS_SENT
  | SEND_JOB_LATENCY time
  | SEND_FAILURES string
  | REPLIES_CLASSIFIED string
  | LEAD_PAUSED string

datatype log_line =
    LogText string
  | LogSendJob uuid uuid int string
  | LogStoppedLead uuid lead_state "stop_reason option" "string option"

text \<open>
  \<open>guc\<close> is the transaction's \<open>app.workspace_id\<close>. \<open>row_locks\<close> are the rows that other
  transactions hold \<open>FOR UPDATE\<close>, \<open>held\<close> the advisory keys they hold and \<open>own\<close> the keys of
  this transaction; \<open>hashtext\<close> is the function of that name of the server. \<open>random_hex\<close> are
  the results of \<open>uuid4().hex\<close> in the order of the calls. \<open>wire\<close>, \<open>metrics\<close> and \<open>log_lines\<close> only
  grow, and no rollback takes anything back from them.
\<close>

record world = env +
  db :: database
  guc :: "uuid option"
  row_locks :: "uuid list"
  held :: "int list"
  own :: "int list"
  hashtext :: "string \<Rightarrow> int"
  random_hex :: "nat \<Rightarrow> string"
  draws :: nat
  wire :: "(mail \<times> (exn + sent_email)) list"
  metrics :: "metric list"
  log_lines :: "log_line list"

type_synonym 'a act = "(world, exn, 'a) proc"

section \<open>Statements\<close>

text \<open>
  Policy \<open>workspace_isolation\<close>: a statement sees, and may write, the rows whose workspace is
  the setting; with no setting it sees none. It is forced for the owner of the tables and
  holds for every tenant table; \<open>identity__workspaces\<close> and \<open>identity__api_keys\<close> have none.
\<close>

definition sees :: "world \<Rightarrow> uuid \<Rightarrow> bool" where
  "sees w workspace_id \<longleftrightarrow> guc w = Some workspace_id"

primrec first_some :: "'a option list \<Rightarrow> 'a option" where
  "first_some [] = None"
| "first_some (x # xs) = (case x of None \<Rightarrow> first_some xs | Some y \<Rightarrow> Some y)"

definition violated :: "bool \<Rightarrow> exn \<Rightarrow> exn option" where
  "violated b e = (if b then Some e else None)"

definition row_security :: "world \<Rightarrow> uuid \<Rightarrow> exn option" where
  "row_security w workspace_id =
     violated (\<not> sees w workspace_id) (ProgrammingError ''new row violates row-level security policy'')"

definition too_long :: "nat \<Rightarrow> string \<Rightarrow> exn option" where
  "too_long n s = violated (n < length s) (DataError ''value too long for type character varying'')"

definition not_int4 :: "int \<Rightarrow> exn option" where
  "not_int4 i = violated (\<not> (- (2 ^ 31) \<le> i \<and> i < 2 ^ 31)) (DataError ''value out of int32 range'')"

definition duplicate :: "bool \<Rightarrow> exn option" where
  "duplicate b = violated b (IntegrityError ''duplicate key value violates unique constraint'')"

text \<open>An \<open>INSERT\<close> of one row: the first check that fails raises, otherwise the row is there.\<close>

definition insert_row ::
  "(world \<Rightarrow> exn option list) \<Rightarrow> (database \<Rightarrow> database) \<Rightarrow> unit act" where
  "insert_row checks ins =
     (\<lambda>w. case first_some (checks w) of
            Some e \<Rightarrow> (Inl e, w)
          | None \<Rightarrow> (Inr (), w\<lparr>db := ins (db w)\<rparr>))"

definition update_rows :: "('r \<Rightarrow> bool) \<Rightarrow> ('r \<Rightarrow> 'r) \<Rightarrow> 'r list \<Rightarrow> 'r list" where
  "update_rows P f rows = map (\<lambda>r. if P r then f r else r) rows"

definition modify_db :: "(world \<Rightarrow> database \<Rightarrow> database) \<Rightarrow> unit act" where
  "modify_db f = modify (\<lambda>w. w\<lparr>db := f w (db w)\<rparr>)"

section \<open>Transactions\<close>

text \<open>
  \<open>session_for_workspace\<close> and \<open>get_session\<close>: a session whose transaction starts with
  \<open>set_config(..., true)\<close> when there is a workspace, commits when its block ends and rolls
  back when it raises; the setting and the advisory locks end with it. What left through
  the wire stays sent.
\<close>

definition session :: "uuid option \<Rightarrow> 'a act \<Rightarrow> 'a act" where
  "session workspace_id m =
     (\<lambda>w. case m (w\<lparr>guc := workspace_id, own := []\<rparr>) of
            (Inr x, w') \<Rightarrow> (Inr x, w'\<lparr>guc := None, own := []\<rparr>)
          | (Inl e, w') \<Rightarrow> (Inl e, w'\<lparr>db := db w, guc := None, own := []\<rparr>))"

definition session_for_workspace :: "uuid \<Rightarrow> 'a act \<Rightarrow> 'a act" where
  "session_for_workspace workspace_id m = session (Some workspace_id) m"

text \<open>\<open>begin_nested\<close>: a savepoint; rolling back to it also releases the locks taken since.\<close>

definition savepoint :: "'a act \<Rightarrow> 'a act" where
  "savepoint m =
     (\<lambda>w. case m w of
            (Inr x, w') \<Rightarrow> (Inr x, w')
          | (Inl e, w') \<Rightarrow> (Inl e, w'\<lparr>db := db w, own := own w\<rparr>))"

section \<open>Lemmas\<close>

lemma violated_simps [simp]:
  "violated b e = None \<longleftrightarrow> \<not> b" "violated b e = Some e' \<longleftrightarrow> b \<and> e' = e"
  by (auto simp: violated_def)

lemma first_some_None [simp]: "first_some xs = None \<longleftrightarrow> set xs \<subseteq> {None}"
  by (induction xs) (auto split: option.splits)

lemma row_security_None [simp]: "row_security w i = None \<longleftrightarrow> guc w = Some i"
  by (auto simp: row_security_def sees_def)

lemma too_long_None [simp]: "too_long n s = None \<longleftrightarrow> length s \<le> n"
  by (auto simp: too_long_def)

lemma duplicate_None [simp]: "duplicate b = None \<longleftrightarrow> \<not> b"
  by (auto simp: duplicate_def)

lemma modify_db_run [proc_simps, simp]: "modify_db f w = (Inr (), w\<lparr>db := f w (db w)\<rparr>)"
  by (simp add: modify_db_def)

lemma insert_row_Inr:
  "insert_row checks ins w = (Inr u, w') \<longleftrightarrow>
     set (checks w) \<subseteq> {None} \<and> w' = w\<lparr>db := ins (db w)\<rparr>"
  using first_some_None [of "checks w"]
  by (auto simp: insert_row_def simp del: first_some_None split: option.splits)

lemma insert_row_Inl: "insert_row checks ins w = (Inl e, w') \<Longrightarrow> w' = w"
  by (auto simp: insert_row_def split: option.splits)

lemma insert_row_ok: "set (checks w) \<subseteq> {None} \<Longrightarrow> insert_row checks ins w = (Inr (), w\<lparr>db := ins (db w)\<rparr>)"
  by (simp add: insert_row_Inr)

lemma keeps_insert_row: "(\<And>w. I w \<Longrightarrow> I (w\<lparr>db := ins (db w)\<rparr>)) \<Longrightarrow> keeps I (insert_row checks ins)"
  by (auto simp: keeps_def insert_row_def split: option.splits)

lemma keeps_insert_checked:
  "(\<And>w. I w \<Longrightarrow> set (checks w) \<subseteq> {None} \<Longrightarrow> I (w\<lparr>db := ins (db w)\<rparr>)) \<Longrightarrow> keeps I (insert_row checks ins)"
  unfolding keeps_def insert_row_def
  using first_some_None by (auto simp del: first_some_None split: option.splits)

lemma keeps_modify_db: "(\<And>w. I w \<Longrightarrow> I (w\<lparr>db := f w (db w)\<rparr>)) \<Longrightarrow> keeps I (modify_db f)"
  by (simp add: keeps_def)

lemma keeps_now [keep_intros]: "(\<And>w n. I w \<Longrightarrow> I (w\<lparr>reads := n\<rparr>)) \<Longrightarrow> keeps I now"
  by (simp add: keeps_def)

lemma keeps_uuid7 [keep_intros]: "(\<And>w n. I w \<Longrightarrow> I (w\<lparr>next_uuid := n\<rparr>)) \<Longrightarrow> keeps I uuid7"
  by (simp add: keeps_def)

lemma keeps_savepoint:
  assumes "keeps I m" and "\<And>w w'. I w \<Longrightarrow> I w' \<Longrightarrow> I (w'\<lparr>db := db w, own := own w\<rparr>)"
  shows "keeps I (savepoint m)"
proof (rule keepsI)
  fix w assume I: "I w"
  obtain r w' where mw: "m w = (r, w')" by fastforce
  have I': "I w'" using keepsD [OF assms(1) I] mw by simp
  show "I (snd (savepoint m w))"
    using mw I' assms(2) [OF I I'] by (cases r) (simp_all add: savepoint_def)
qed

lemma set_update_rows: "set (update_rows P f rows) = (\<lambda>r. if P r then f r else r) ` set rows"
  by (simp add: update_rows_def)

lemma update_rows_none: "(\<And>r. r \<in> set rows \<Longrightarrow> \<not> P r) \<Longrightarrow> update_rows P f rows = rows"
  by (simp add: update_rows_def map_idI)

lemma map_update_rows: "(\<And>r. k (f r) = k r) \<Longrightarrow> map k (update_rows P f rows) = map k rows"
  by (simp add: update_rows_def)

lemma update_rows_filter:
  "(\<And>r. P r \<Longrightarrow> Q (f r) = Q r) \<Longrightarrow> filter Q (update_rows P f rows) = update_rows P f (filter Q rows)"
  by (induction rows) (auto simp: update_rows_def)

lemma find_update_rows:
  "(\<And>r. Q (f r) = Q r) \<Longrightarrow> find Q (update_rows P f rows) = map_option (\<lambda>r. if P r then f r else r) (find Q rows)"
  by (induction rows) (auto simp: update_rows_def)

end
