(* ===== verification/Campaign_Repos.thy ===== *)
theory Campaign_Repos
  imports Database "HOL-Library.Product_Lexorder"
begin

text \<open>
  The repositories of the campaign context (\<open>contexts/campaign/infrastructure/persistence\<close>):
  campaigns with their steps, leads, and the queue of send jobs. A query returns the rows
  that the policies show to the session.
\<close>

section \<open>Visible rows\<close>

definition campaign_rows :: "world \<Rightarrow> campaign_row list" where
  "campaign_rows w = filter (\<lambda>r. sees w (cr_workspace_id r)) (t_campaigns (db w))"

definition step_rows :: "world \<Rightarrow> step_row list" where
  "step_rows w = filter (\<lambda>r. sees w (sr_workspace_id r)) (t_steps (db w))"

definition lead_rows :: "world \<Rightarrow> lead list" where
  "lead_rows w = filter (\<lambda>r. sees w (l_workspace_id r)) (t_leads (db w))"

definition send_job_rows :: "world \<Rightarrow> send_job_row list" where
  "send_job_rows w = filter (\<lambda>r. sees w (jr_workspace_id r)) (t_send_jobs (db w))"

section \<open>Campaigns\<close>

definition insert_campaign_row :: "campaign_row \<Rightarrow> unit act" where
  "insert_campaign_row r = insert_row
     (\<lambda>w. [too_long 200 (cr_name r), row_security w (cr_workspace_id r),
           duplicate (cr_id r \<in> cr_id ` set (t_campaigns (db w)))])
     (\<lambda>d. d\<lparr>t_campaigns := t_campaigns d @ [r]\<rparr>)"

definition insert_step_row :: "step_row \<Rightarrow> unit act" where
  "insert_step_row r = insert_row
     (\<lambda>w. [not_int4 (sr_position r), not_int4 (sr_delay_seconds r),
           row_security w (sr_workspace_id r),
           duplicate (sr_id r \<in> sr_id ` set (t_steps (db w))),
           duplicate ((sr_campaign_id r, sr_position r)
             \<in> (\<lambda>s. (sr_campaign_id s, sr_position s)) ` set (t_steps (db w)))])
     (\<lambda>d. d\<lparr>t_steps := t_steps d @ [r]\<rparr>)"

definition campaign_to_row :: "campaign \<Rightarrow> campaign_row" where
  "campaign_to_row c = \<lparr> cr_id = c_id c, cr_workspace_id = c_workspace_id c,
     cr_mailbox_id = c_mailbox_id c, cr_name = c_name c, cr_status = c_status c,
     cr_created_at = c_created_at c \<rparr>"

definition step_to_row :: "campaign \<Rightarrow> step \<Rightarrow> step_row" where
  "step_to_row c s = \<lparr> sr_id = s_id s, sr_workspace_id = c_workspace_id c,
     sr_campaign_id = c_id c, sr_position = s_position s, sr_subject = s_subject s,
     sr_body = s_body s, sr_delay_seconds = s_delay_seconds s,
     sr_created_at = c_created_at c \<rparr>"

definition campaigns_add :: "campaign \<Rightarrow> unit act" where
  "campaigns_add c =
     thenp (insert_campaign_row (campaign_to_row c))
     (forp (\<lambda>s. insert_step_row (step_to_row c s)) (c_steps c))"

definition step_of_row :: "step_row \<Rightarrow> step" where
  "step_of_row r = \<lparr> s_id = sr_id r, s_position = sr_position r, s_subject = sr_subject r,
     s_body = sr_body r, s_delay_seconds = sr_delay_seconds r \<rparr>"

text \<open>\<open>grouped\<close>: the steps of each campaign of the list, ordered by their position.\<close>

definition steps_by_campaign :: "world \<Rightarrow> uuid list \<Rightarrow> uuid \<rightharpoonup> step list" where
  "steps_by_campaign w campaign_ids = (\<lambda>c.
     case map step_of_row (sort_key sr_position
            (filter (\<lambda>r. sr_campaign_id r \<in> set campaign_ids \<and> sr_campaign_id r = c) (step_rows w)))
     of [] \<Rightarrow> None | ss \<Rightarrow> Some ss)"

definition campaign_of_row :: "campaign_row \<Rightarrow> step list \<Rightarrow> campaign" where
  "campaign_of_row r steps = \<lparr> c_id = cr_id r, c_workspace_id = cr_workspace_id r,
     c_mailbox_id = cr_mailbox_id r, c_name = cr_name r, c_status = cr_status r,
     c_steps = steps, c_created_at = cr_created_at r \<rparr>"

definition or_empty :: "'a list option \<Rightarrow> 'a list" where
  "or_empty x = (case x of None \<Rightarrow> [] | Some xs \<Rightarrow> xs)"

definition campaign_in :: "world \<Rightarrow> uuid \<Rightarrow> campaign option" where
  "campaign_in w campaign_id =
     (case find (\<lambda>r. cr_id r = campaign_id) (campaign_rows w) of
        None \<Rightarrow> None
      | Some r \<Rightarrow> Some (campaign_of_row r (or_empty (steps_by_campaign w [campaign_id] campaign_id))))"

definition campaigns_get :: "uuid \<Rightarrow> campaign option act" where
  "campaigns_get campaign_id = gets (\<lambda>w. campaign_in w campaign_id)"

definition campaigns_list :: "campaign list act" where
  "campaigns_list = gets (\<lambda>w.
     let rows = sort_key (\<lambda>r. (- cr_created_at r, - int (cr_id r))) (campaign_rows w);
         steps = steps_by_campaign w (map cr_id rows)
     in map (\<lambda>r. campaign_of_row r (or_empty (steps (cr_id r)))) rows)"

definition not_found :: "string \<Rightarrow> uuid \<Rightarrow> exn" where
  "not_found what i = ValueError (what @ '' '' @ uuid_str i @ '' not found'')"

definition campaigns_update_status :: "campaign \<Rightarrow> unit act" where
  "campaigns_update_status c =
     bindp (gets (\<lambda>w. find (\<lambda>r. cr_id r = c_id c) (campaign_rows w))) (\<lambda>row.
       if row = None then raise (not_found ''campaign'' (c_id c))
       else modify_db (\<lambda>w d. d\<lparr>t_campaigns :=
              update_rows (\<lambda>r. cr_id r = c_id c \<and> sees w (cr_workspace_id r))
                (\<lambda>r. r\<lparr>cr_status := c_status c\<rparr>) (t_campaigns d)\<rparr>))"

section \<open>Leads\<close>

definition insert_lead_row :: "lead \<Rightarrow> unit act" where
  "insert_lead_row l = insert_row
     (\<lambda>w. [too_long 320 (l_email l), row_security w (l_workspace_id l),
           duplicate (l_id l \<in> l_id ` set (t_leads (db w))),
           duplicate ((l_campaign_id l, l_email l)
             \<in> (\<lambda>x. (l_campaign_id x, l_email x)) ` set (t_leads (db w)))])
     (\<lambda>d. d\<lparr>t_leads := t_leads d @ [l]\<rparr>)"

definition leads_add_many :: "lead list \<Rightarrow> unit act" where
  "leads_add_many leads = forp insert_lead_row leads"

definition lead_in :: "world \<Rightarrow> uuid \<Rightarrow> lead option" where
  "lead_in w lead_id = find (\<lambda>l. l_id l = lead_id) (lead_rows w)"

definition leads_get :: "uuid \<Rightarrow> lead option act" where
  "leads_get lead_id = gets (\<lambda>w. lead_in w lead_id)"

definition leads_list_by_campaign :: "uuid \<Rightarrow> lead list act" where
  "leads_list_by_campaign campaign_id = gets (\<lambda>w.
     sort_key (\<lambda>l. (l_created_at l, l_id l)) (filter (\<lambda>l. l_campaign_id l = campaign_id) (lead_rows w)))"

definition leads_list_pending :: "uuid \<Rightarrow> lead list act" where
  "leads_list_pending campaign_id = gets (\<lambda>w.
     sort_key (\<lambda>l. (l_created_at l, l_id l))
       (filter (\<lambda>l. l_campaign_id l = campaign_id \<and> l_state l = PENDING) (lead_rows w)))"

definition leads_emails :: "uuid \<Rightarrow> string list act" where
  "leads_emails campaign_id = gets (\<lambda>w.
     map l_email (filter (\<lambda>l. l_campaign_id l = campaign_id) (lead_rows w)))"

text \<open>The body of the loop of \<open>update_many\<close>: the row takes over five fields of the lead.\<close>

definition overwrite :: "lead \<Rightarrow> lead \<Rightarrow> lead" where
  "overwrite l r = r\<lparr>l_state := l_state l, l_steps_sent := l_steps_sent l,
     l_stop_reason := l_stop_reason l, l_reply_intent := l_reply_intent l,
     l_updated_at := l_updated_at l\<rparr>"

definition update_lead :: "lead \<Rightarrow> unit act" where
  "update_lead l =
     bindp (leads_get (l_id l)) (\<lambda>row.
       if row = None then raise (not_found ''lead'' (l_id l))
       else modify_db (\<lambda>w d. d\<lparr>t_leads :=
              update_rows (\<lambda>r. l_id r = l_id l \<and> sees w (l_workspace_id r)) (overwrite l) (t_leads d)\<rparr>))"

definition leads_update_many :: "lead list \<Rightarrow> unit act" where
  "leads_update_many leads = forp update_lead leads"

definition leads_count_by_state :: "uuid list \<Rightarrow> (uuid \<rightharpoonup> (lead_state \<rightharpoonup> nat)) act" where
  "leads_count_by_state campaign_ids = gets (\<lambda>w c.
     let rows = filter (\<lambda>l. l_campaign_id l \<in> set campaign_ids \<and> l_campaign_id l = c) (lead_rows w)
     in if rows = [] then None
        else Some (\<lambda>st. let n = length (filter (\<lambda>l. l_state l = st) rows)
                        in if n = 0 then None else Some n))"

record lead_stats =
  st_leads :: nat
  st_contacted :: nat
  st_emails_sent :: int
  st_bounced :: nat
  st_in_progress :: nat
  st_completed :: nat
  st_reply_intents :: "(string \<times> nat) list"

definition in_progress_states :: "lead_state set" where
  "in_progress_states = {PENDING, SCHEDULED, SENT}"

definition count :: "('r \<Rightarrow> bool) \<Rightarrow> 'r list \<Rightarrow> nat" where
  "count P rows = length (filter P rows)"

definition stats_of :: "lead list \<Rightarrow> lead_stats" where
  "stats_of rows =
     \<lparr> st_leads = length rows,
       st_contacted = count (\<lambda>l. l_steps_sent l > 0) rows,
       st_emails_sent = sum_list (map l_steps_sent rows),
       st_bounced = count (\<lambda>l. l_stop_reason l = Some BOUNCED) rows,
       st_in_progress = count (\<lambda>l. l_state l \<in> in_progress_states) rows,
       st_completed = count (\<lambda>l. l_state l = DONE) rows,
       st_reply_intents =
         map (\<lambda>i. (i, count (\<lambda>l. l_reply_intent l = Some i) rows))
           (remdups (List.map_filter l_reply_intent rows)) \<rparr>"

definition leads_stats :: "uuid \<Rightarrow> lead_stats act" where
  "leads_stats campaign_id = gets (\<lambda>w.
     stats_of (filter (\<lambda>l. l_campaign_id l = campaign_id) (lead_rows w)))"

section \<open>Send jobs\<close>

record claimed_job =
  cj_id :: uuid
  cj_workspace_id :: uuid
  cj_mailbox_id :: uuid
  cj_lead_id :: uuid
  cj_payload :: send_job_payload
  cj_attempts :: int
  cj_scheduled_at :: time

definition claimed_of_row :: "send_job_row \<Rightarrow> claimed_job" where
  "claimed_of_row r = \<lparr> cj_id = jr_id r, cj_workspace_id = jr_workspace_id r,
     cj_mailbox_id = jr_mailbox_id r, cj_lead_id = jr_lead_id r, cj_payload = jr_payload r,
     cj_attempts = jr_attempts r, cj_scheduled_at = jr_scheduled_at r \<rparr>"

definition send_job_to_row :: "send_job \<Rightarrow> send_job_row" where
  "send_job_to_row j = \<lparr> jr_id = j_id j, jr_workspace_id = j_workspace_id j,
     jr_mailbox_id = j_mailbox_id j, jr_lead_id = j_lead_id j, jr_step_id = j_step_id j,
     jr_payload = j_payload j, jr_scheduled_at = j_scheduled_at j, jr_status = j_status j,
     jr_attempts = j_attempts j, jr_locked_at = None, jr_locked_by = None,
     jr_last_error = None, jr_outbound_message_id = None, jr_created_at = j_created_at j,
     jr_updated_at = j_created_at j \<rparr>"

definition insert_send_job_row :: "send_job_row \<Rightarrow> unit act" where
  "insert_send_job_row r = insert_row
     (\<lambda>w. [row_security w (jr_workspace_id r),
           duplicate (jr_id r \<in> jr_id ` set (t_send_jobs (db w)))])
     (\<lambda>d. d\<lparr>t_send_jobs := t_send_jobs d @ [r]\<rparr>)"

definition jobs_add_many :: "send_job list \<Rightarrow> unit act" where
  "jobs_add_many jobs = forp (\<lambda>j. insert_send_job_row (send_job_to_row j)) jobs"

text \<open>The \<open>WHERE\<close> clause of the claim, and the rows that its subquery locks.\<close>

definition claimable :: "uuid \<Rightarrow> time \<Rightarrow> time \<Rightarrow> send_job_row \<Rightarrow> bool" where
  "claimable workspace_id moment lease_expired_before r \<longleftrightarrow>
     jr_workspace_id r = workspace_id \<and>
     (jr_status r = JPENDING \<and> jr_scheduled_at r \<le> moment \<or>
      jr_status r = JRUNNING \<and>
        (case jr_locked_at r of None \<Rightarrow> False | Some at \<Rightarrow> at < lease_expired_before))"

definition claim_rows :: "world \<Rightarrow> uuid \<Rightarrow> nat \<Rightarrow> time \<Rightarrow> time \<Rightarrow> send_job_row list" where
  "claim_rows w workspace_id lim moment lease_expired_before =
     take lim (filter (\<lambda>r. jr_id r \<notin> set (row_locks w))
       (sort_key jr_scheduled_at
         (filter (claimable workspace_id moment lease_expired_before) (send_job_rows w))))"

definition claimed_row :: "time \<Rightarrow> string \<Rightarrow> send_job_row \<Rightarrow> send_job_row" where
  "claimed_row moment worker_id r = r\<lparr>jr_status := JRUNNING, jr_locked_at := Some moment,
     jr_locked_by := Some worker_id, jr_attempts := jr_attempts r + 1, jr_updated_at := moment\<rparr>"

definition jobs_claim :: "uuid \<Rightarrow> string \<Rightarrow> nat \<Rightarrow> time \<Rightarrow> time \<Rightarrow> claimed_job list act" where
  "jobs_claim workspace_id worker_id lim moment lease =
     bindp (gets (\<lambda>w. map jr_id (claim_rows w workspace_id lim moment (moment - lease)))) (\<lambda>ids.
     thenp (modify_db (\<lambda>w d. d\<lparr>t_send_jobs :=
              update_rows (\<lambda>r. jr_id r \<in> set ids \<and> sees w (jr_workspace_id r))
                (claimed_row moment worker_id) (t_send_jobs d)\<rparr>))
     (gets (\<lambda>w. sort_key cj_scheduled_at
        (map claimed_of_row (filter (\<lambda>r. jr_id r \<in> set ids) (send_job_rows w))))))"

definition jobs_get_claimed :: "uuid \<Rightarrow> uuid \<Rightarrow> claimed_job option act" where
  "jobs_get_claimed job_id workspace_id = gets (\<lambda>w.
     map_option claimed_of_row (find (\<lambda>r. jr_id r = job_id \<and> jr_workspace_id r = workspace_id
       \<and> jr_status r = JRUNNING) (send_job_rows w)))"

definition jobs_set :: "uuid \<Rightarrow> time \<Rightarrow> (send_job_row \<Rightarrow> send_job_row) \<Rightarrow> unit act" where
  "jobs_set job_id moment f = modify_db (\<lambda>w d. d\<lparr>t_send_jobs :=
     update_rows (\<lambda>r. jr_id r = job_id \<and> sees w (jr_workspace_id r))
       (\<lambda>r. (f r)\<lparr>jr_updated_at := moment\<rparr>) (t_send_jobs d)\<rparr>)"

definition jobs_reschedule :: "uuid \<Rightarrow> time \<Rightarrow> time \<Rightarrow> (send_job_row \<Rightarrow> send_job_row) \<Rightarrow> unit act" where
  "jobs_reschedule job_id retry_at moment f = jobs_set job_id moment
     (\<lambda>r. (f r)\<lparr>jr_status := JPENDING, jr_scheduled_at := retry_at, jr_locked_at := None,
               jr_locked_by := None\<rparr>)"

definition jobs_complete :: "uuid \<Rightarrow> uuid \<Rightarrow> time \<Rightarrow> unit act" where
  "jobs_complete job_id outbound_message_id moment = jobs_set job_id moment
     (\<lambda>r. r\<lparr>jr_status := JDONE, jr_outbound_message_id := Some outbound_message_id,
            jr_last_error := None\<rparr>)"

definition jobs_release :: "uuid \<Rightarrow> time \<Rightarrow> string \<Rightarrow> time \<Rightarrow> unit act" where
  "jobs_release job_id retry_at reason moment = jobs_reschedule job_id retry_at moment
     (\<lambda>r. r\<lparr>jr_last_error := Some reason, jr_attempts := jr_attempts r - 1\<rparr>)"

definition jobs_retry_later :: "uuid \<Rightarrow> time \<Rightarrow> string \<Rightarrow> time \<Rightarrow> unit act" where
  "jobs_retry_later job_id retry_at error moment = jobs_reschedule job_id retry_at moment
     (\<lambda>r. r\<lparr>jr_last_error := Some error\<rparr>)"

definition jobs_fail :: "uuid \<Rightarrow> string \<Rightarrow> time \<Rightarrow> unit act" where
  "jobs_fail job_id error moment = jobs_set job_id moment
     (\<lambda>r. r\<lparr>jr_status := JFAILED, jr_last_error := Some error\<rparr>)"

definition jobs_cancel :: "uuid \<Rightarrow> time \<Rightarrow> unit act" where
  "jobs_cancel job_id moment = jobs_set job_id moment (\<lambda>r. r\<lparr>jr_status := JCANCELLED\<rparr>)"

definition jobs_cancel_pending_for_lead :: "uuid \<Rightarrow> time \<Rightarrow> unit act" where
  "jobs_cancel_pending_for_lead lead_id moment = modify_db (\<lambda>w d. d\<lparr>t_send_jobs :=
     update_rows (\<lambda>r. jr_lead_id r = lead_id \<and> jr_status r = JPENDING \<and> sees w (jr_workspace_id r))
       (\<lambda>r. r\<lparr>jr_status := JCANCELLED, jr_updated_at := moment\<rparr>) (t_send_jobs d)\<rparr>)"

definition jobs_find_lead_id :: "uuid \<Rightarrow> uuid option act" where
  "jobs_find_lead_id outbound_message_id = gets (\<lambda>w.
     map_option jr_lead_id
       (find (\<lambda>r. jr_outbound_message_id r = Some outbound_message_id) (send_job_rows w)))"

definition jobs_next_send_at :: "uuid \<Rightarrow> (uuid \<rightharpoonup> time) act" where
  "jobs_next_send_at campaign_id = gets (\<lambda>w lead_id.
     let at = map jr_scheduled_at (filter (\<lambda>r. jr_lead_id r = lead_id
                \<and> jr_status r \<in> {JPENDING, JRUNNING}
                \<and> list_ex (\<lambda>l. l_id l = lead_id \<and> l_campaign_id l = campaign_id) (lead_rows w))
              (send_job_rows w))
     in case at of [] \<Rightarrow> None | t # ts \<Rightarrow> Some (fold min ts t))"

section \<open>Running the repositories\<close>

text \<open>The world after an update of one lead, and after an update of one job.\<close>

definition put_lead :: "lead \<Rightarrow> world \<Rightarrow> world" where
  "put_lead l w = w\<lparr>db := (db w)\<lparr>t_leads :=
     update_rows (\<lambda>r. l_id r = l_id l \<and> sees w (l_workspace_id r)) (overwrite l) (t_leads (db w))\<rparr>\<rparr>"

definition put_job :: "uuid \<Rightarrow> (send_job_row \<Rightarrow> send_job_row) \<Rightarrow> world \<Rightarrow> world" where
  "put_job i f w = w\<lparr>db := (db w)\<lparr>t_send_jobs :=
     update_rows (\<lambda>r. jr_id r = i \<and> sees w (jr_workspace_id r)) f (t_send_jobs (db w))\<rparr>\<rparr>"

definition job_in :: "world \<Rightarrow> uuid \<Rightarrow> send_job_row option" where
  "job_in w i = find (\<lambda>r. jr_id r = i) (send_job_rows w)"

lemma leads_get_run [proc_simps, simp]: "leads_get i w = (Inr (lead_in w i), w)"
  by (simp add: leads_get_def)

lemma campaigns_get_run [proc_simps, simp]: "campaigns_get i w = (Inr (campaign_in w i), w)"
  by (simp add: campaigns_get_def)

lemma put_lead_frame [simp]:
  "guc (put_lead l w) = guc w" "wire (put_lead l w) = wire w" "next_uuid (put_lead l w) = next_uuid w"
  "reads (put_lead l w) = reads w" "clock_at (put_lead l w) = clock_at w"
  "row_locks (put_lead l w) = row_locks w" "sees (put_lead l w) = sees w"
  "t_campaigns (db (put_lead l w)) = t_campaigns (db w)" "t_steps (db (put_lead l w)) = t_steps (db w)"
  "t_send_jobs (db (put_lead l w)) = t_send_jobs (db w)"
  "t_processed (db (put_lead l w)) = t_processed (db w)"
  "t_outbound (db (put_lead l w)) = t_outbound (db w)" "t_outbox (db (put_lead l w)) = t_outbox (db w)"
  "t_suppressions (db (put_lead l w)) = t_suppressions (db w)"
  "t_mailboxes (db (put_lead l w)) = t_mailboxes (db w)"
  by (simp_all add: put_lead_def sees_def fun_eq_iff)

lemma put_job_frame [simp]:
  "guc (put_job i f w) = guc w" "wire (put_job i f w) = wire w" "next_uuid (put_job i f w) = next_uuid w"
  "reads (put_job i f w) = reads w" "clock_at (put_job i f w) = clock_at w"
  "row_locks (put_job i f w) = row_locks w" "sees (put_job i f w) = sees w"
  "t_campaigns (db (put_job i f w)) = t_campaigns (db w)" "t_steps (db (put_job i f w)) = t_steps (db w)"
  "t_leads (db (put_job i f w)) = t_leads (db w)"
  "t_processed (db (put_job i f w)) = t_processed (db w)"
  "t_outbound (db (put_job i f w)) = t_outbound (db w)" "t_outbox (db (put_job i f w)) = t_outbox (db w)"
  "t_suppressions (db (put_job i f w)) = t_suppressions (db w)"
  "t_mailboxes (db (put_job i f w)) = t_mailboxes (db w)"
  by (simp_all add: put_job_def sees_def fun_eq_iff)

lemma overwrite_sel [simp]:
  "l_id (overwrite l r) = l_id r" "l_workspace_id (overwrite l r) = l_workspace_id r"
  "l_campaign_id (overwrite l r) = l_campaign_id r" "l_email (overwrite l r) = l_email r"
  "l_state (overwrite l r) = l_state l" "l_steps_sent (overwrite l r) = l_steps_sent l"
  "l_stop_reason (overwrite l r) = l_stop_reason l" "l_reply_intent (overwrite l r) = l_reply_intent l"
  by (simp_all add: overwrite_def)

lemma update_lead_run [proc_simps]:
  "update_lead l w = (if lead_in w (l_id l) = None then (Inl (not_found ''lead'' (l_id l)), w)
                      else (Inr (), put_lead l w))"
  by (simp add: update_lead_def bindp_run put_lead_def)

lemma update_many_one [proc_simps]: "leads_update_many [l] w = update_lead l w"
  by (simp add: leads_update_many_def thenp_run update_lead_run)

lemma lead_rows_put: "lead_rows (put_lead l w)
    = update_rows (\<lambda>r. l_id r = l_id l) (overwrite l) (lead_rows w)"
proof -
  have "filter (\<lambda>r. sees w (l_workspace_id r))
      (update_rows (\<lambda>r. l_id r = l_id l \<and> sees w (l_workspace_id r)) (overwrite l) rows)
    = update_rows (\<lambda>r. l_id r = l_id l) (overwrite l) (filter (\<lambda>r. sees w (l_workspace_id r)) rows)" for rows
    by (induction rows) (auto simp: update_rows_def)
  then show ?thesis by (simp add: lead_rows_def) (simp add: put_lead_def)
qed

lemma lead_in_put:
  "lead_in (put_lead l w) i = (if i = l_id l then map_option (overwrite l) (lead_in w i) else lead_in w i)"
proof -
  have "find (\<lambda>x. l_id x = i) (update_rows (\<lambda>r. l_id r = l_id l) (overwrite l) rows)
      = map_option (\<lambda>r. if l_id r = l_id l then overwrite l r else r) (find (\<lambda>x. l_id x = i) rows)" for rows
    by (rule find_update_rows) simp
  moreover have "map_option (\<lambda>r. if l_id r = l_id l then overwrite l r else r) (find (\<lambda>x. l_id x = i) rows)
      = (if i = l_id l then map_option (overwrite l) (find (\<lambda>x. l_id x = i) rows)
         else find (\<lambda>x. l_id x = i) rows)" for rows
    by (cases "find (\<lambda>x. l_id x = i) rows") (auto dest: find_Some_in)
  ultimately show ?thesis by (simp add: lead_in_def lead_rows_put)
qed

lemma lead_in_id: "lead_in w i = Some l \<Longrightarrow> l_id l = i"
  by (auto simp: lead_in_def dest: find_Some_in)

lemma job_in_id: "job_in w i = Some r \<Longrightarrow> jr_id r = i"
  by (auto simp: job_in_def dest: find_Some_in)

lemma rows_cong:
  "guc v = guc w \<Longrightarrow> t_leads (db v) = t_leads (db w) \<Longrightarrow> lead_rows v = lead_rows w"
  "guc v = guc w \<Longrightarrow> t_send_jobs (db v) = t_send_jobs (db w) \<Longrightarrow> send_job_rows v = send_job_rows w"
  by (simp_all add: lead_rows_def send_job_rows_def sees_def)

lemma lead_in_cong: "guc v = guc w \<Longrightarrow> t_leads (db v) = t_leads (db w) \<Longrightarrow> lead_in v i = lead_in w i"
  using rows_cong(1) [of v w] by (simp only: lead_in_def)

lemma job_in_cong: "guc v = guc w \<Longrightarrow> t_send_jobs (db v) = t_send_jobs (db w) \<Longrightarrow> job_in v i = job_in w i"
  using rows_cong(2) [of v w] by (simp only: job_in_def)

lemma campaign_in_cong:
  "guc v = guc w \<Longrightarrow> t_campaigns (db v) = t_campaigns (db w) \<Longrightarrow> t_steps (db v) = t_steps (db w)
    \<Longrightarrow> campaign_in v i = campaign_in w i"
proof -
  assume "guc v = guc w" "t_campaigns (db v) = t_campaigns (db w)" "t_steps (db v) = t_steps (db w)"
  then have "campaign_rows v = campaign_rows w" "step_rows v = step_rows w"
    by (simp_all add: campaign_rows_def step_rows_def sees_def)
  then show ?thesis by (simp only: campaign_in_def steps_by_campaign_def)
qed

lemma campaign_in_id: "campaign_in w i = Some c \<Longrightarrow> c_id c = i"
  by (auto simp: campaign_in_def campaign_of_row_def split: option.splits dest: find_Some_in)

lemma put_simps [simp]:
  "campaign_in (put_lead l w) i = campaign_in w i" "campaign_in (put_job j f w) i = campaign_in w i"
  "lead_in (put_job j f w) i = lead_in w i" "job_in (put_lead l w) i = job_in w i"
  by (rule campaign_in_cong, simp_all) (rule campaign_in_cong, simp_all, rule lead_in_cong, simp_all,
      rule job_in_cong, simp_all)

lemma send_job_rows_put:
  assumes "\<And>r. jr_workspace_id (f r) = jr_workspace_id r"
  shows "send_job_rows (put_job i f w) = update_rows (\<lambda>r. jr_id r = i) f (send_job_rows w)"
proof -
  have "filter (\<lambda>r. sees w (jr_workspace_id r))
      (update_rows (\<lambda>r. jr_id r = i \<and> sees w (jr_workspace_id r)) f rows)
    = update_rows (\<lambda>r. jr_id r = i) f (filter (\<lambda>r. sees w (jr_workspace_id r)) rows)" for rows
    by (induction rows) (auto simp: update_rows_def assms)
  then show ?thesis by (simp add: send_job_rows_def) (simp add: put_job_def)
qed

lemma job_in_put:
  assumes "\<And>r. jr_workspace_id (f r) = jr_workspace_id r" and "\<And>r. jr_id (f r) = jr_id r"
  shows "job_in (put_job j f w) i = (if i = j then map_option f (job_in w i) else job_in w i)"
proof -
  have "find (\<lambda>x. jr_id x = i) (update_rows (\<lambda>r. jr_id r = j) f rows)
      = map_option (\<lambda>r. if jr_id r = j then f r else r) (find (\<lambda>x. jr_id x = i) rows)" for rows
    by (rule find_update_rows) (simp add: assms)
  moreover have "map_option (\<lambda>r. if jr_id r = j then f r else r) (find (\<lambda>x. jr_id x = i) rows)
      = (if i = j then map_option f (find (\<lambda>x. jr_id x = i) rows) else find (\<lambda>x. jr_id x = i) rows)" for rows
    by (cases "find (\<lambda>x. jr_id x = i) rows") (auto dest: find_Some_in)
  ultimately show ?thesis by (simp add: job_in_def send_job_rows_put assms)
qed

lemma jobs_set_run [proc_simps]:
  "jobs_set i m f w = (Inr (), put_job i (\<lambda>r. (f r)\<lparr>jr_updated_at := m\<rparr>) w)"
  by (simp add: jobs_set_def put_job_def)

lemmas jobs_ops = jobs_complete_def jobs_release_def jobs_retry_later_def jobs_fail_def
  jobs_cancel_def jobs_reschedule_def jobs_set_run

text \<open>Appending one job.\<close>

definition with_job :: "send_job_row \<Rightarrow> world \<Rightarrow> world" where
  "with_job r w = w\<lparr>db := (db w)\<lparr>t_send_jobs := t_send_jobs (db w) @ [r]\<rparr>\<rparr>"

lemma with_job_frame [simp]:
  "guc (with_job r w) = guc w" "wire (with_job r w) = wire w" "sees (with_job r w) = sees w"
  "t_leads (db (with_job r w)) = t_leads (db w)"
  "t_send_jobs (db (with_job r w)) = t_send_jobs (db w) @ [r]"
  by (simp_all add: with_job_def sees_def fun_eq_iff)

lemma insert_send_job_cases:
  obtains e where "insert_send_job_row r w = (Inl e, w)"
  | "insert_send_job_row r w = (Inr (), with_job r w)"
      "guc w = Some (jr_workspace_id r)" "jr_id r \<notin> jr_id ` set (t_send_jobs (db w))"
proof (cases "insert_send_job_row r w")
  case (Pair res w')
  then show ?thesis
  proof (cases res)
    case (Inl e)
    then show ?thesis using that(1) Pair insert_row_Inl by (auto simp: insert_send_job_row_def)
  next
    case (Inr u)
    then show ?thesis
      using that(2) Pair by (auto simp: insert_send_job_row_def insert_row_Inr with_job_def)
  qed
qed

lemma jobs_add_one: "jobs_add_many [j] w = insert_send_job_row (send_job_to_row j) w"
  by (rule insert_send_job_cases [of "send_job_to_row j" w])
     (simp_all add: jobs_add_many_def thenp_run)

end
