(* ===== verification/Campaign_Laws.thy ===== *)
theory Campaign_Laws
  imports Campaign
begin

text \<open>
  What the aggregate of \<open>Campaign.thy\<close> promises: the shape of a new campaign, the
  behaviour of every operation on every branch, the lead's state machine as a step
  relation over the aggregate's own operations, its reachable leads and their invariant,
  and the refinement of the documented state diagram.
\<close>

named_theorems aggregate_simps "the operations of the aggregate, branch by branch"

section \<open>New campaigns\<close>

definition wf_campaign :: "campaign \<Rightarrow> bool" where
  "wf_campaign c \<longleftrightarrow> c_steps c \<noteq> [] \<and> (\<forall>s\<in>set (c_steps c). 0 \<le> s_delay_seconds s)
     \<and> (\<forall>i<length (c_steps c). s_position (c_steps c ! i) = int i + 1)"

lemma new_steps_run:
  "new_steps ds p w =
     (Inr (map (\<lambda>(i, d). \<lparr> s_id = next_uuid w + i, s_position = p + int i,
                s_subject = d_subject d, s_body = d_body d,
                s_delay_seconds = d_delay_seconds d \<rparr>) (List.enumerate 0 ds)),
      w\<lparr>next_uuid := next_uuid w + length ds\<rparr>)"
proof (induction ds arbitrary: p w)
  case Nil
  then show ?case by simp
next
  case (Cons d ds)
  have "map (\<lambda>(i, d). \<lparr> s_id = Suc (next_uuid w) + i, s_position = p + 1 + int i,
                s_subject = d_subject d, s_body = d_body d,
                s_delay_seconds = d_delay_seconds d \<rparr>) (List.enumerate 0 ds)
      = map (\<lambda>(i, d). \<lparr> s_id = next_uuid w + i, s_position = p + int i,
                s_subject = d_subject d, s_body = d_body d,
                s_delay_seconds = d_delay_seconds d \<rparr>) (List.enumerate 1 ds)"
    using map_enumerate_Suc [where n = 0 and xs = ds and
        f = "\<lambda>i d. \<lparr> s_id = next_uuid w + i, s_position = p + int i, s_subject = d_subject d,
                s_body = d_body d, s_delay_seconds = d_delay_seconds d \<rparr>"]
    by (simp add: ac_simps)
  then show ?case by (simp add: Cons.IH bindp_run)
qed

lemma Campaign_new_run:
  assumes "ds \<noteq> []" and "\<forall>d\<in>set ds. 0 \<le> d_delay_seconds d"
  shows "Campaign_new ws mb name ds w =
     (Inr \<lparr> c_id = next_uuid w, c_workspace_id = ws, c_mailbox_id = mb, c_name = name,
        c_status = DRAFT,
        c_steps = map (\<lambda>(i, d). \<lparr> s_id = Suc (next_uuid w) + i, s_position = 1 + int i,
                s_subject = d_subject d, s_body = d_body d,
                s_delay_seconds = d_delay_seconds d \<rparr>) (List.enumerate 0 ds),
        c_created_at = clock_at w (reads w) \<rparr>,
      w\<lparr>next_uuid := Suc (next_uuid w) + length ds, reads := Suc (reads w)\<rparr>)"
proof -
  have "\<not> list_ex (\<lambda>d. d_delay_seconds d < 0) ds"
    using assms(2) by (force simp: list_ex_iff)
  with assms(1) show ?thesis
    by (simp add: Campaign_new_def bindp_run new_steps_run)
qed

lemma Campaign_new_no_steps: "Campaign_new ws mb name [] w = (Inl CampaignHasNoStepsError, w)"
  by (simp add: Campaign_new_def)

lemma Campaign_new_negative_delay:
  "d \<in> set ds \<Longrightarrow> d_delay_seconds d < 0
     \<Longrightarrow> Campaign_new ws mb name ds w = (Inl NegativeStepDelayError, w)"
  by (auto simp: Campaign_new_def list_ex_iff)

lemma Campaign_new_Inr_iff:
  "(\<exists>c w'. Campaign_new ws mb name ds w = (Inr c, w'))
     \<longleftrightarrow> ds \<noteq> [] \<and> (\<forall>d\<in>set ds. 0 \<le> d_delay_seconds d)"
proof (cases "ds \<noteq> [] \<and> (\<forall>d\<in>set ds. 0 \<le> d_delay_seconds d)")
  case True
  then show ?thesis by (simp add: Campaign_new_run)
next
  case False
  then consider "ds = []" | d where "d \<in> set ds" "d_delay_seconds d < 0" by force
  then show ?thesis
    by cases (use False in \<open>auto simp: Campaign_new_no_steps Campaign_new_negative_delay\<close>)
qed

lemma Campaign_new_wf:
  assumes "Campaign_new ws mb name ds w = (Inr c, w')"
  shows "wf_campaign c" and "c_status c = DRAFT" and "length (c_steps c) = length ds"
    and "c_workspace_id c = ws" and "c_mailbox_id c = mb"
proof -
  have ok: "ds \<noteq> []" "\<forall>d\<in>set ds. 0 \<le> d_delay_seconds d"
    using assms Campaign_new_Inr_iff by blast+
  note c = assms [unfolded Campaign_new_run [OF ok]]
  show "c_status c = DRAFT" "length (c_steps c) = length ds"
    "c_workspace_id c = ws" "c_mailbox_id c = mb"
    using c by auto
  show "wf_campaign c"
    using c ok by (auto simp: wf_campaign_def nth_enumerate_eq in_set_enumerate_eq)
qed

lemma wf_campaign_ACTIVE [simp]: "wf_campaign (c\<lparr>c_status := st\<rparr>) = wf_campaign c"
  by (simp add: wf_campaign_def)

section \<open>Adding leads\<close>

text \<open>
  The reference: the normalised addresses that are not empty and not known, each at its
  first occurrence.
\<close>

definition first_occurrences :: "'a list \<Rightarrow> 'a list" where
  "first_occurrences xs = rev (remdups (rev xs))"

lemma first_occurrences_Nil [simp]: "first_occurrences [] = []"
  by (simp add: first_occurrences_def)

lemma first_occurrences_Cons:
  "first_occurrences (x # xs) = x # first_occurrences (filter (\<lambda>y. y \<noteq> x) xs)"
proof -
  have "remdups (ys @ [x]) = remdups (filter (\<lambda>y. y \<noteq> x) ys) @ [x]" for ys :: "'a list"
    by (induction ys) auto
  then show ?thesis by (simp add: first_occurrences_def rev_filter)
qed

lemma set_first_occurrences [simp]: "set (first_occurrences xs) = set xs"
  and distinct_first_occurrences [simp]: "distinct (first_occurrences xs)"
  by (simp_all add: first_occurrences_def)

definition new_emails :: "string list \<Rightarrow> string set \<Rightarrow> string list" where
  "new_emails emails seen =
     first_occurrences (filter (\<lambda>e. e \<noteq> [] \<and> e \<notin> seen) (map normalize_email emails))"

definition pending_lead :: "uuid \<Rightarrow> uuid \<Rightarrow> string \<Rightarrow> uuid \<Rightarrow> time \<Rightarrow> lead" where
  "pending_lead ws c e i t = \<lparr> l_id = i, l_workspace_id = ws, l_campaign_id = c, l_email = e,
     l_state = PENDING, l_steps_sent = 0, l_stop_reason = None, l_reply_intent = None,
     l_created_at = t, l_updated_at = t \<rparr>"

lemma new_emails_Cons:
  "new_emails (raw # emails) seen =
     (let e = normalize_email raw in
      if e = [] \<or> e \<in> seen then new_emails emails seen
      else e # new_emails emails (insert e seen))"
proof -
  have "filter (\<lambda>y. y \<noteq> e) (filter (\<lambda>e. e \<noteq> [] \<and> e \<notin> seen) es)
      = filter (\<lambda>x. x \<noteq> [] \<and> x \<notin> insert e seen) es" for e :: string and es
    by (induction es) auto
  then show ?thesis by (auto simp: new_emails_def Let_def first_occurrences_Cons)
qed

lemma add_leads_loop_run:
  "add_leads_loop c emails seen acc w =
     (Inr (acc @ map (\<lambda>(i, e). pending_lead (c_workspace_id c) (c_id c) e
              (next_uuid w + i) (clock_at w (reads w + i)))
            (List.enumerate 0 (new_emails emails seen))),
      w\<lparr>next_uuid := next_uuid w + length (new_emails emails seen),
        reads := reads w + length (new_emails emails seen)\<rparr>)"
proof (induction emails arbitrary: seen acc w)
  case Nil
  then show ?case by (simp add: new_emails_def)
next
  case (Cons raw emails)
  let ?e = "normalize_email raw"
  show ?case
  proof (cases "?e = [] \<or> ?e \<in> seen")
    case True
    then show ?thesis by (simp add: Cons.IH new_emails_Cons Let_def)
  next
    case False
    let ?w = "w\<lparr>reads := Suc (reads w), next_uuid := Suc (next_uuid w)\<rparr>"
    let ?es = "new_emails emails (insert ?e seen)"
    have shift: "map (\<lambda>(i, e). pending_lead (c_workspace_id c) (c_id c) e
              (Suc (next_uuid w) + i) (clock_at w (Suc (reads w) + i))) (List.enumerate 0 ?es)
        = map (\<lambda>(i, e). pending_lead (c_workspace_id c) (c_id c) e
              (next_uuid w + i) (clock_at w (reads w + i))) (List.enumerate 1 ?es)"
      using map_enumerate_Suc [where n = 0 and xs = ?es and
          f = "\<lambda>i e. pending_lead (c_workspace_id c) (c_id c) e (next_uuid w + i) (clock_at w (reads w + i))"]
      by simp
    from False show ?thesis
      by (simp add: Cons.IH new_emails_Cons Let_def bindp_run Lead_new_run shift [simplified])
         (simp add: pending_lead_def)
  qed
qed

lemma add_leads_run:
  "add_leads c emails known w =
     (Inr (map (\<lambda>(i, e). pending_lead (c_workspace_id c) (c_id c) e
              (next_uuid w + i) (clock_at w (reads w + i)))
            (List.enumerate 0 (new_emails emails (normalize_email ` set known)))),
      w\<lparr>next_uuid := next_uuid w + length (new_emails emails (normalize_email ` set known)),
        reads := reads w + length (new_emails emails (normalize_email ` set known))\<rparr>)"
  by (simp add: add_leads_def add_leads_loop_run)

lemma add_leads_emails:
  assumes "add_leads c emails known w = (Inr ls, w')"
  shows "map l_email ls = new_emails emails (normalize_email ` set known)"
proof -
  have "l_email \<circ> (\<lambda>(i, e). pending_lead (c_workspace_id c) (c_id c) e
          (next_uuid w + i) (clock_at w (reads w + i))) = (\<lambda>(i, e). e)"
    by (auto simp: pending_lead_def)
  with assms map_enumerate_snd [of id 0 "new_emails emails (normalize_email ` set known)"]
  show ?thesis by (auto simp: add_leads_run)
qed

section \<open>Scheduling\<close>

definition payload_of :: "campaign \<Rightarrow> lead \<Rightarrow> step \<Rightarrow> send_job_payload" where
  "payload_of c l s = \<lparr> p_job_version = 1, p_campaign_id = c_id c, p_lead_id = l_id l,
     p_step_id = s_id s, p_step_position = s_position s, p_to_email = l_email l,
     p_subject = s_subject s, p_body = s_body s \<rparr>"

definition job_for :: "campaign \<Rightarrow> step \<Rightarrow> time \<Rightarrow> lead \<Rightarrow> uuid \<Rightarrow> time \<Rightarrow> send_job" where
  "job_for c s after l i created = \<lparr> j_id = i, j_workspace_id = c_workspace_id c,
     j_mailbox_id = c_mailbox_id c, j_lead_id = l_id l, j_step_id = s_id s,
     j_payload = payload_of c l s, j_scheduled_at = after + seconds (s_delay_seconds s),
     j_status = JPENDING, j_attempts = 0, j_created_at = created \<rparr>"

lemma job_run [proc_simps]:
  "job c l s after w =
     (Inr (job_for c s after l (next_uuid w) (clock_at w (reads w))),
      w\<lparr>next_uuid := Suc (next_uuid w), reads := Suc (reads w)\<rparr>)"
  by (simp add: job_def job_for_def payload_of_def SendJob_new_run)

lemma schedule_loop_run:
  assumes "\<forall>l\<in>set ls. l_campaign_id l = c_id c \<and> l_state l = PENDING"
  shows "schedule_loop c s m ls ls0 js0 w =
     (Inr (ls0 @ map (\<lambda>l. moved l SCHEDULED m (\<lambda>x. x)) ls,
           js0 @ map (\<lambda>(i, l). job_for c s m l (next_uuid w + i) (clock_at w (reads w + i)))
                   (List.enumerate 0 ls)),
      w\<lparr>next_uuid := next_uuid w + length ls, reads := reads w + length ls\<rparr>)"
  using assms
proof (induction ls arbitrary: ls0 js0 w)
  case Nil
  then show ?case by simp
next
  case (Cons l ls)
  have shift: "map (\<lambda>(i, l). job_for c s m l (Suc (next_uuid w) + i) (clock_at w (Suc (reads w) + i)))
          (List.enumerate 0 ls)
      = map (\<lambda>(i, l). job_for c s m l (next_uuid w + i) (clock_at w (reads w + i)))
          (List.enumerate 1 ls)"
    using map_enumerate_Suc [where n = 0 and xs = ls and
        f = "\<lambda>i l. job_for c s m l (next_uuid w + i) (clock_at w (reads w + i))"]
    by simp
  from Cons.prems have l: "l_campaign_id l = c_id c" "l_state l = PENDING" by simp_all
  from Cons.prems have rest: "\<forall>l\<in>set ls. l_campaign_id l = c_id c \<and> l_state l = PENDING"
    by simp
  show ?case
    using Cons.IH [OF rest] l shift
    by (simp add: thenp_run bindp_run ensure_member_def job_run)
qed

lemma schedule_loop_Inl:
  assumes "\<exists>l\<in>set ls. l_campaign_id l \<noteq> c_id c \<or> l_state l \<noteq> PENDING"
  shows "\<exists>e w'. schedule_loop c s m ls ls0 js0 w = (Inl e, w')
           \<and> (e = LeadNotInCampaignError \<or> (\<exists>st. st \<noteq> PENDING \<and> e = LeadTransitionError st ''be scheduled''))"
  using assms
proof (induction ls arbitrary: ls0 js0 w)
  case (Cons l ls)
  show ?case
  proof (cases "l_campaign_id l = c_id c \<and> l_state l = PENDING")
    case True
    with Cons.prems have "\<exists>l\<in>set ls. l_campaign_id l \<noteq> c_id c \<or> l_state l \<noteq> PENDING" by auto
    from Cons.IH [OF this] True show ?thesis
      by (simp add: thenp_run bindp_run ensure_member_def job_run)
  next
    case False
    then show ?thesis by (auto simp: thenp_run ensure_member_def)
  qed
qed simp

lemma schedule_run:
  assumes "is_active c" and "c_steps c = s # ss"
    and "\<forall>l\<in>set ls. l_campaign_id l = c_id c \<and> l_state l = PENDING"
  shows "schedule c ls m w =
     (Inr (map (\<lambda>l. moved l SCHEDULED m (\<lambda>x. x)) ls,
           map (\<lambda>(i, l). job_for c s m l (next_uuid w + i) (clock_at w (reads w + i)))
                   (List.enumerate 0 ls)),
      w\<lparr>next_uuid := next_uuid w + length ls, reads := reads w + length ls\<rparr>)"
  using assms by (simp add: schedule_def py_index_0 schedule_loop_run)

lemma schedule_Inr_D:
  assumes "schedule c ls m w = (Inr (ls', js), w')"
  shows "is_active c" and "c_steps c \<noteq> []"
    and "\<forall>l\<in>set ls. l_campaign_id l = c_id c \<and> l_state l = PENDING"
    and "ls' = map (\<lambda>l. moved l SCHEDULED m (\<lambda>x. x)) ls"
    and "js = map (\<lambda>(i, l). job_for c (hd (c_steps c)) m l (next_uuid w + i) (clock_at w (reads w + i)))
                   (List.enumerate 0 ls)"
    and "w' = w\<lparr>next_uuid := next_uuid w + length ls, reads := reads w + length ls\<rparr>"
proof -
  show act: "is_active c" using assms by (auto simp: schedule_def split: if_splits)
  show ne: "c_steps c \<noteq> []" using assms act by (auto simp: schedule_def py_index_0 split: list.splits)
  then obtain s ss where s: "c_steps c = s # ss" by (cases "c_steps c") auto
  show ok: "\<forall>l\<in>set ls. l_campaign_id l = c_id c \<and> l_state l = PENDING"
  proof (rule ccontr)
    assume "\<not> ?thesis"
    then have "\<exists>l\<in>set ls. l_campaign_id l \<noteq> c_id c \<or> l_state l \<noteq> PENDING" by blast
    from schedule_loop_Inl [OF this, of s m "[]" "[]" w] assms act s show False
      by (auto simp: schedule_def py_index_0)
  qed
  from assms schedule_run [OF act s ok, of m w]
  show "ls' = map (\<lambda>l. moved l SCHEDULED m (\<lambda>x. x)) ls"
    "js = map (\<lambda>(i, l). job_for c (hd (c_steps c)) m l (next_uuid w + i) (clock_at w (reads w + i)))
                   (List.enumerate 0 ls)"
    "w' = w\<lparr>next_uuid := next_uuid w + length ls, reads := reads w + length ls\<rparr>"
    using s by auto
qed

section \<open>Sending, replies and failures\<close>

lemma ensure_member_Inr [simp]: "ensure_member c l = Inr u \<longleftrightarrow> l_campaign_id l = c_id c"
  by (auto simp: ensure_member_def)

lemma moved_sel [simp]:
  "l_state (moved l st m (\<lambda>x. x)) = st" "l_updated_at (moved l st m (\<lambda>x. x)) = m"
  "l_id (moved l st m (\<lambda>x. x)) = l_id l" "l_campaign_id (moved l st m (\<lambda>x. x)) = l_campaign_id l"
  by (simp_all add: moved_def)

lemma accepts_send_active: "accepts_send c l k \<Longrightarrow> is_active c"
  by (simp add: accepts_send_def)

lemma accepts_send_not_stopped: "accepts_send c l k \<Longrightarrow> \<not> is_stopped l"
  by (auto simp: accepts_send_def SENDABLE_STATES_def is_stopped_def)

lemma accepts_send_once: "accepts_send c l k \<Longrightarrow> l_steps_sent l' = k \<Longrightarrow> \<not> accepts_send c' l' k"
  by (simp add: accepts_send_def)

lemma record_sent_last [aggregate_simps]:
  assumes "accepts_send c l k" and "k = int (length (c_steps c))"
  shows "record_sent c l k t w
     = (Inr (l\<lparr>l_state := DONE, l_updated_at := t, l_steps_sent := k\<rparr>, None), w)"
  using assms by (simp add: record_sent_def accepts_send_def thenp_run ensure_member_def moved_def)

lemma record_sent_next [aggregate_simps]:
  assumes "accepts_send c l k" and "0 < k" and "k < int (length (c_steps c))"
  shows "record_sent c l k t w
     = (Inr (l\<lparr>l_state := SENT, l_updated_at := t, l_steps_sent := k\<rparr>,
             Some (job_for c (c_steps c ! nat k) t l (next_uuid w) (clock_at w (reads w)))),
        w\<lparr>next_uuid := Suc (next_uuid w), reads := Suc (reads w)\<rparr>)"
  using assms
  by (simp add: record_sent_def accepts_send_def thenp_run bindp_run ensure_member_def
        py_index_nth job_run moved_def)

lemma record_sent_refused [aggregate_simps]:
  assumes "l_campaign_id l = c_id c" and "\<not> accepts_send c l k"
  shows "record_sent c l k t w
     = (Inl (LeadTransitionError (l_state l) (''record step '' @ int_str k @ '' sent'')), w)"
  using assms by (simp add: record_sent_def thenp_run ensure_member_def)

lemma record_sent_Inr_D:
  assumes "record_sent c l k t w = (Inr (l', nj), w')"
  shows "accepts_send c l k" and "l_steps_sent l' = k"
    and "(k = int (length (c_steps c)) \<and> nj = None
            \<and> l' = l\<lparr>l_state := DONE, l_updated_at := t, l_steps_sent := k\<rparr>)
       \<or> (k \<noteq> int (length (c_steps c)) \<and> nj \<noteq> None \<and> py_index (c_steps c) k \<noteq> None
            \<and> l' = l\<lparr>l_state := SENT, l_updated_at := t, l_steps_sent := k\<rparr>)"
  using assms
  by (auto simp: record_sent_def thenp_run bindp_run ensure_member_def moved_def job_run
        split: if_splits option.splits)

lemma stop_on_reply_stopped [aggregate_simps]:
  "l_campaign_id l = c_id c \<Longrightarrow> is_stopped l \<Longrightarrow> stop_on_reply c l i t = Inr l"
  by (simp add: stop_on_reply_def ensure_member_def)

lemma stop_on_reply_bounce [aggregate_simps]:
  "l_campaign_id l = c_id c \<Longrightarrow> l_state l \<in> REPLYABLE_STATES \<Longrightarrow>
     stop_on_reply c l BOUNCE_INTENT t
       = Inr (l\<lparr>l_state := FAILED, l_updated_at := t, l_stop_reason := Some BOUNCED,
                l_reply_intent := Some BOUNCE_INTENT\<rparr>)"
  by (auto simp: stop_on_reply_def ensure_member_def REPLYABLE_STATES_def is_stopped_def moved_def)

lemma stop_on_reply_reply [aggregate_simps]:
  "l_campaign_id l = c_id c \<Longrightarrow> l_state l \<in> REPLYABLE_STATES \<Longrightarrow> i \<noteq> BOUNCE_INTENT \<Longrightarrow>
     stop_on_reply c l i t
       = Inr (l\<lparr>l_state := PAUSED, l_updated_at := t,
                l_stop_reason := Some (if i = UNSUBSCRIBE_INTENT then UNSUBSCRIBED else REPLIED),
                l_reply_intent := Some i\<rparr>)"
  by (auto simp: stop_on_reply_def ensure_member_def REPLYABLE_STATES_def is_stopped_def moved_def)

lemma stop_on_reply_early [aggregate_simps]:
  "l_campaign_id l = c_id c \<Longrightarrow> l_state l \<in> {PENDING, SCHEDULED} \<Longrightarrow>
     stop_on_reply c l i t = Inl (LeadTransitionError (l_state l) ''stop on a reply'')"
  by (auto simp: stop_on_reply_def ensure_member_def REPLYABLE_STATES_def is_stopped_def)

lemma stop_on_reply_Inr_D:
  assumes "stop_on_reply c l i t = Inr l'"
  shows "l_campaign_id l = c_id c"
    and "(is_stopped l \<and> l' = l)
       \<or> (l_state l \<in> REPLYABLE_STATES \<and> is_stopped l' \<and> l' \<noteq> l
           \<and> l_id l' = l_id l \<and> l_campaign_id l' = l_campaign_id l
           \<and> l_steps_sent l' = l_steps_sent l \<and> l_stop_reason l' \<noteq> None
           \<and> l_reply_intent l' = Some i
           \<and> (l_state l' = FAILED \<longleftrightarrow> i = BOUNCE_INTENT))"
proof -
  show m: "l_campaign_id l = c_id c"
    using assms by (auto simp: stop_on_reply_def ensure_member_def split: if_splits)
  show "(is_stopped l \<and> l' = l)
       \<or> (l_state l \<in> REPLYABLE_STATES \<and> is_stopped l' \<and> l' \<noteq> l
           \<and> l_id l' = l_id l \<and> l_campaign_id l' = l_campaign_id l
           \<and> l_steps_sent l' = l_steps_sent l \<and> l_stop_reason l' \<noteq> None
           \<and> l_reply_intent l' = Some i
           \<and> (l_state l' = FAILED \<longleftrightarrow> i = BOUNCE_INTENT))"
  proof (cases "is_stopped l")
    case True
    with assms m show ?thesis by (simp add: aggregate_simps)
  next
    case False
    with assms m have r: "l_state l \<in> REPLYABLE_STATES"
      by (auto simp: stop_on_reply_def ensure_member_def split: if_splits)
    have "l' \<noteq> l" if "is_stopped l'" using that False by blast
    moreover have "is_stopped l' \<and> l_id l' = l_id l \<and> l_campaign_id l' = l_campaign_id l
        \<and> l_steps_sent l' = l_steps_sent l \<and> l_stop_reason l' \<noteq> None
        \<and> l_reply_intent l' = Some i \<and> (l_state l' = FAILED \<longleftrightarrow> i = BOUNCE_INTENT)"
      using assms m r by (cases "i = BOUNCE_INTENT") (auto simp: aggregate_simps is_stopped_def)
    ultimately show ?thesis using r by blast
  qed
qed

lemma fail_lead_sendable [aggregate_simps]:
  "l_campaign_id l = c_id c \<Longrightarrow> l_state l \<in> SENDABLE_STATES \<Longrightarrow>
     fail_lead c l r t = Inr (l\<lparr>l_state := FAILED, l_updated_at := t, l_stop_reason := Some r\<rparr>)"
  by (auto simp: fail_lead_def ensure_member_def SENDABLE_STATES_def is_stopped_def moved_def)

lemma fail_lead_stopped [aggregate_simps]:
  "l_campaign_id l = c_id c \<Longrightarrow> is_stopped l \<Longrightarrow> fail_lead c l r t = Inr l"
  by (simp add: fail_lead_def ensure_member_def)

lemma fail_lead_accepted:
  "accepts_send c l k \<Longrightarrow>
     fail_lead c l r t = Inr (l\<lparr>l_state := FAILED, l_updated_at := t, l_stop_reason := Some r\<rparr>)"
  by (simp add: accepts_send_def fail_lead_sendable)

lemma fail_lead_Inr_D:
  assumes "fail_lead c l r t = Inr l'"
  shows "(is_stopped l \<and> l' = l)
       \<or> (l_state l \<in> SENDABLE_STATES
           \<and> l' = l\<lparr>l_state := FAILED, l_updated_at := t, l_stop_reason := Some r\<rparr>)"
    and "l_campaign_id l = c_id c"
  using assms by (auto simp: fail_lead_def ensure_member_def moved_def split: if_splits)

section \<open>The lead's state machine\<close>

text \<open>
  \<open>lead_move c l l'\<close>: one operation of the aggregate took lead \<open>l\<close> to \<open>l'\<close>. The reasons of
  \<open>fail_lead\<close> are those its callers pass. A lead is reachable when the constructor and a
  sequence of moves produce it.
\<close>

inductive lead_move :: "campaign \<Rightarrow> lead \<Rightarrow> lead \<Rightarrow> bool" where
  schedules: "schedule c ls m (w :: env) = (Inr (ls', js), w') \<Longrightarrow> i < length ls
     \<Longrightarrow> lead_move c (ls ! i) (ls' ! i)"
| sends: "record_sent c l k t (w :: env) = (Inr (l', nj), w') \<Longrightarrow> lead_move c l l'"
| replies: "stop_on_reply c l intent t = Inr l' \<Longrightarrow> lead_move c l l'"
| fails: "fail_lead c l reason t = Inr l' \<Longrightarrow> reason \<in> {SUPPRESSED, SEND_FAILED}
     \<Longrightarrow> lead_move c l l'"

inductive lead_reachable :: "campaign \<Rightarrow> lead \<Rightarrow> bool" where
  fresh: "Lead_new ws (c_id c) e (w :: env) = (Inr l :: exn + lead, w') \<Longrightarrow> lead_reachable c l"
| step: "lead_reachable c l \<Longrightarrow> lead_move c l l' \<Longrightarrow> lead_reachable c l'"

inductive_cases lead_moveE: "lead_move c l l'"

text \<open>The state diagram of the plan: the states a lead may move to.\<close>

inductive documented_edge :: "lead_state \<Rightarrow> lead_state \<Rightarrow> bool" where
  "documented_edge PENDING SCHEDULED"
| "documented_edge SCHEDULED SENT"
| "documented_edge SCHEDULED DONE"
| "documented_edge SCHEDULED FAILED"
| "documented_edge SENT SENT"
| "documented_edge SENT DONE"
| "documented_edge SENT PAUSED"
| "documented_edge SENT FAILED"
| "documented_edge DONE PAUSED"
| "documented_edge DONE FAILED"

inductive_simps documented_edge_simps [simp]: "documented_edge a b"

lemma lead_move_cases:
  assumes "lead_move c l l'"
  obtains
    (scheduled) m where "l_state l = PENDING" "l' = l\<lparr>l_state := SCHEDULED, l_updated_at := m\<rparr>"
      "l_campaign_id l = c_id c"
  | (sent) k t where "accepts_send c l k" "k \<noteq> int (length (c_steps c))"
      "py_index (c_steps c) k \<noteq> None"
      "l' = l\<lparr>l_state := SENT, l_updated_at := t, l_steps_sent := k\<rparr>"
  | (completed) t where "accepts_send c l (int (length (c_steps c)))"
      "l' = l\<lparr>l_state := DONE, l_updated_at := t, l_steps_sent := int (length (c_steps c))\<rparr>"
  | (bounced) t where "l_state l \<in> REPLYABLE_STATES" "l_campaign_id l = c_id c"
      "l' = l\<lparr>l_state := FAILED, l_updated_at := t, l_stop_reason := Some BOUNCED,
              l_reply_intent := Some BOUNCE_INTENT\<rparr>"
  | (replied) i t where "l_state l \<in> REPLYABLE_STATES" "l_campaign_id l = c_id c" "i \<noteq> BOUNCE_INTENT"
      "l' = l\<lparr>l_state := PAUSED, l_updated_at := t,
              l_stop_reason := Some (if i = UNSUBSCRIBE_INTENT then UNSUBSCRIBED else REPLIED),
              l_reply_intent := Some i\<rparr>"
  | (failed) r t where "l_state l \<in> SENDABLE_STATES" "l_campaign_id l = c_id c"
      "r \<in> {SUPPRESSED, SEND_FAILED}"
      "l' = l\<lparr>l_state := FAILED, l_updated_at := t, l_stop_reason := Some r\<rparr>"
  | (kept) "is_stopped l" "l' = l" "l_campaign_id l = c_id c"
  using assms
proof (cases rule: lead_move.cases)
  case (schedules ls m w ls' js w' i)
  note D = schedule_Inr_D [OF schedules(3)]
  have "ls ! i \<in> set ls" using schedules(4) by simp
  then have p: "l_state l = PENDING" "l_campaign_id l = c_id c"
    unfolding schedules(1) using D(3) by blast+
  have "l' = l\<lparr>l_state := SCHEDULED, l_updated_at := m\<rparr>"
    unfolding schedules(1,2) using D(4) schedules(4) by (simp add: moved_def)
  with p(1) show ?thesis using p(2) by (rule that(1))
next
  case (sends k t w nj w')
  note D = record_sent_Inr_D [OF sends]
  from D(3) show ?thesis
  proof (elim disjE conjE)
    assume k: "k = int (length (c_steps c))"
      and l': "l' = l\<lparr>l_state := DONE, l_updated_at := t, l_steps_sent := k\<rparr>"
    show ?thesis using D(1) l' unfolding k by (rule that(3))
  next
    assume "k \<noteq> int (length (c_steps c))" "py_index (c_steps c) k \<noteq> None"
      "l' = l\<lparr>l_state := SENT, l_updated_at := t, l_steps_sent := k\<rparr>"
    with D(1) show ?thesis by (rule that(2))
  qed
next
  case (replies intent t)
  note m = stop_on_reply_Inr_D(1) [OF replies]
  from stop_on_reply_Inr_D(2) [OF replies] show ?thesis
  proof
    assume "is_stopped l \<and> l' = l"
    then show ?thesis using that(7) m by blast
  next
    assume "l_state l \<in> REPLYABLE_STATES \<and> is_stopped l' \<and> l' \<noteq> l
           \<and> l_id l' = l_id l \<and> l_campaign_id l' = l_campaign_id l
           \<and> l_steps_sent l' = l_steps_sent l \<and> l_stop_reason l' \<noteq> None
           \<and> l_reply_intent l' = Some intent
           \<and> (l_state l' = FAILED \<longleftrightarrow> intent = BOUNCE_INTENT)"
    then have r: "l_state l \<in> REPLYABLE_STATES" by blast
    show ?thesis
    proof (cases "intent = BOUNCE_INTENT")
      case True
      with replies stop_on_reply_bounce [OF m r, of t] show ?thesis
        by (intro that(4) [OF r m, of t]) simp
    next
      case False
      with replies stop_on_reply_reply [OF m r False, of t] show ?thesis
        by (intro that(5) [OF r m False, of t]) simp
    qed
  qed
next
  case (fails reason t)
  from fail_lead_Inr_D [OF fails(1)] fails(2) show ?thesis
    using that(6) [of reason t] that(7) by auto
qed

text \<open>The invariant of reachable leads.\<close>

definition wf_lead :: "campaign \<Rightarrow> lead \<Rightarrow> bool" where
  "wf_lead c l \<longleftrightarrow> l_campaign_id l = c_id c
     \<and> 0 \<le> l_steps_sent l \<and> l_steps_sent l \<le> int (length (c_steps c))
     \<and> (l_stop_reason l \<noteq> None \<longleftrightarrow> is_stopped l)
     \<and> (l_reply_intent l \<noteq> None \<longleftrightarrow> l_stop_reason l \<in> {Some REPLIED, Some UNSUBSCRIBED, Some BOUNCED})
     \<and> (l_reply_intent l = Some BOUNCE_INTENT \<longleftrightarrow> l_stop_reason l = Some BOUNCED)
     \<and> (l_reply_intent l \<noteq> None \<longrightarrow> 0 < l_steps_sent l)
     \<and> (case l_state l of
          PENDING \<Rightarrow> l_steps_sent l = 0
        | SCHEDULED \<Rightarrow> l_steps_sent l = 0
        | SENT \<Rightarrow> 0 < l_steps_sent l \<and> l_steps_sent l < int (length (c_steps c))
        | DONE \<Rightarrow> l_steps_sent l = int (length (c_steps c))
        | PAUSED \<Rightarrow> l_stop_reason l \<in> {Some REPLIED, Some UNSUBSCRIBED}
        | FAILED \<Rightarrow> l_stop_reason l \<in> {Some BOUNCED, Some SUPPRESSED, Some SEND_FAILED})"

lemma lead_move_wf:
  assumes "lead_move c l l'" and "wf_lead c l" and "c_steps c \<noteq> []"
  shows "wf_lead c l'"
  using assms(1)
proof (cases rule: lead_move_cases)
  case (scheduled m)
  with assms(2) show ?thesis by (auto simp: wf_lead_def is_stopped_def)
next
  case (sent k t)
  have k: "k = l_steps_sent l + 1" using sent(1) by (simp add: accepts_send_def)
  with sent(3) assms(2) have "k < int (length (c_steps c))"
    by (auto simp: py_index_def wf_lead_def Let_def split: if_splits)
  with sent assms(2) k show ?thesis
    by (auto simp: wf_lead_def is_stopped_def accepts_send_def SENDABLE_STATES_def)
next
  case (completed t)
  with assms(2,3) show ?thesis
    by (auto simp: wf_lead_def is_stopped_def accepts_send_def SENDABLE_STATES_def)
next
  case (bounced t)
  with assms(2,3) show ?thesis
    by (auto simp: wf_lead_def is_stopped_def REPLYABLE_STATES_def)
next
  case (replied i t)
  with assms(2,3) show ?thesis
    by (auto simp: wf_lead_def is_stopped_def REPLYABLE_STATES_def)
next
  case (failed r t)
  with assms(2) show ?thesis
    by (auto simp: wf_lead_def is_stopped_def SENDABLE_STATES_def)
next
  case kept
  with assms(2) show ?thesis by simp
qed

lemma lead_reachable_wf:
  assumes "lead_reachable c l" and "c_steps c \<noteq> []"
  shows "wf_lead c l"
  using assms
proof (induction rule: lead_reachable.induct)
  case (fresh ws c e w l w')
  then show ?case by (auto simp: Lead_new_run wf_lead_def is_stopped_def)
next
  case (step c l l')
  then show ?case using lead_move_wf by blast
qed

lemma lead_move_documented:
  assumes "lead_move c l l'" and "l' \<noteq> l"
  shows "documented_edge (l_state l) (l_state l')"
  using assms(1)
  by (cases rule: lead_move_cases)
     (use assms(2) in \<open>auto simp: accepts_send_def SENDABLE_STATES_def REPLYABLE_STATES_def\<close>)

lemma lead_move_stopped: "lead_move c l l' \<Longrightarrow> is_stopped l \<Longrightarrow> l' = l"
  by (erule lead_move_cases)
     (auto simp: is_stopped_def accepts_send_def SENDABLE_STATES_def REPLYABLE_STATES_def)

lemma lead_move_steps: "lead_move c l l' \<Longrightarrow> l_steps_sent l' \<in> {l_steps_sent l, l_steps_sent l + 1}"
  by (erule lead_move_cases) (auto simp: accepts_send_def)

end
