(* ===== verification/Messaging_Repos.thy ===== *)
theory Messaging_Repos
  imports Database "HOL-Library.AList"
begin

text \<open>
  The repositories of the messaging and mailbox contexts
  (\<open>contexts/messaging/infrastructure/persistence\<close>, \<open>contexts/mailbox/infrastructure\<close>): the
  outbound and inbound messages, suppressions, the outbox, mailboxes with their gateway
  and activity, and the advisory lock that serialises the sends of one mailbox.
\<close>

section \<open>Visible rows\<close>

definition outbound_rows :: "world \<Rightarrow> outbound_message list" where
  "outbound_rows w = filter (\<lambda>r. sees w (om_workspace_id r)) (t_outbound (db w))"

definition inbound_rows :: "world \<Rightarrow> inbound_message list" where
  "inbound_rows w = filter (\<lambda>r. sees w (im_workspace_id r)) (t_inbound (db w))"

definition suppression_rows :: "world \<Rightarrow> suppression list" where
  "suppression_rows w = filter (\<lambda>r. sees w (su_workspace_id r)) (t_suppressions (db w))"

definition outbox_rows :: "world \<Rightarrow> outbox_event list" where
  "outbox_rows w = filter (\<lambda>r. sees w (oe_workspace_id r)) (t_outbox (db w))"

definition mailbox_rows :: "world \<Rightarrow> mailbox list" where
  "mailbox_rows w = filter (\<lambda>r. sees w (mb_workspace_id r)) (t_mailboxes (db w))"

definition missing_row :: "string \<Rightarrow> uuid \<Rightarrow> exn" where
  "missing_row what i = ValueError (what @ '' '' @ uuid_str i @ '' not found'')"

section \<open>Outbound messages\<close>

definition outbound_add :: "outbound_message \<Rightarrow> unit act" where
  "outbound_add m = insert_row
     (\<lambda>w. [too_long 320 (om_to_email m), too_long 998 (om_rfc822_message_id m),
           row_security w (om_workspace_id m),
           duplicate (om_id m \<in> om_id ` set (t_outbound (db w))),
           duplicate (om_rfc822_message_id m \<in> om_rfc822_message_id ` set (t_outbound (db w)))])
     (\<lambda>d. d\<lparr>t_outbound := t_outbound d @ [m]\<rparr>)"

definition opt_too_long :: "nat \<Rightarrow> string option \<Rightarrow> exn option" where
  "opt_too_long n s = (case s of None \<Rightarrow> None | Some t \<Rightarrow> too_long n t)"

definition outbound_mark_sent :: "outbound_message \<Rightarrow> unit act" where
  "outbound_mark_sent m =
     bindp (gets (\<lambda>w. find (\<lambda>r. om_id r = om_id m) (outbound_rows w))) (\<lambda>row.
       if row = None then raise (missing_row ''outbound message'' (om_id m))
       else case first_some [opt_too_long 64 (om_provider_message_id m),
                             opt_too_long 64 (om_provider_thread_id m)] of
           Some e \<Rightarrow> raise e
         | None \<Rightarrow> modify_db (\<lambda>w d. d\<lparr>t_outbound :=
              update_rows (\<lambda>r. om_id r = om_id m \<and> sees w (om_workspace_id r))
                (\<lambda>r. r\<lparr>om_provider_message_id := om_provider_message_id m,
                       om_provider_thread_id := om_provider_thread_id m\<rparr>) (t_outbound d)\<rparr>))"

definition CANDIDATE_LIMIT :: nat where
  "CANDIDATE_LIMIT = 100"

definition unanswered :: "world \<Rightarrow> uuid \<Rightarrow> outbound_message list" where
  "unanswered w mailbox_id =
     take CANDIDATE_LIMIT (sort_key (\<lambda>r. - om_created_at r)
       (filter (\<lambda>r. om_mailbox_id r = mailbox_id \<and> om_provider_message_id r \<noteq> None
          \<and> \<not> list_ex (\<lambda>i. im_matched_outbound_id i = Some (om_id r)) (inbound_rows w))
        (outbound_rows w)))"

definition outbound_list_unanswered :: "uuid \<Rightarrow> outbound_message list act" where
  "outbound_list_unanswered mailbox_id = gets (\<lambda>w. unanswered w mailbox_id)"

definition sent_since :: "world \<Rightarrow> uuid \<Rightarrow> time \<Rightarrow> int" where
  "sent_since w mailbox_id since =
     int (length (filter (\<lambda>r. om_mailbox_id r = mailbox_id \<and> om_provider_message_id r \<noteq> None
        \<and> since \<le> om_created_at r) (outbound_rows w)))"

definition outbound_count_sent_since :: "uuid \<Rightarrow> time \<Rightarrow> int act" where
  "outbound_count_sent_since mailbox_id since = gets (\<lambda>w. sent_since w mailbox_id since)"

section \<open>Inbound messages\<close>

definition inbound_add :: "inbound_message \<Rightarrow> unit act" where
  "inbound_add m = insert_row
     (\<lambda>w. [too_long 64 (im_provider_message_id m), too_long 64 (im_provider_thread_id m),
           too_long 320 (im_from_email m), row_security w (im_workspace_id m),
           duplicate (im_id m \<in> im_id ` set (t_inbound (db w))),
           duplicate ((im_mailbox_id m, im_provider_message_id m)
             \<in> (\<lambda>x. (im_mailbox_id x, im_provider_message_id x)) ` set (t_inbound (db w)))])
     (\<lambda>d. d\<lparr>t_inbound := t_inbound d @ [m]\<rparr>)"

definition inbound_update :: "inbound_message \<Rightarrow> unit act" where
  "inbound_update m =
     bindp (gets (\<lambda>w. find (\<lambda>r. im_id r = im_id m) (inbound_rows w))) (\<lambda>row.
       if row = None then raise (missing_row ''inbound message'' (im_id m))
       else modify_db (\<lambda>w d. d\<lparr>t_inbound :=
              update_rows (\<lambda>r. im_id r = im_id m \<and> sees w (im_workspace_id r))
                (\<lambda>r. r\<lparr>im_matched_outbound_id := im_matched_outbound_id m,
                       im_intent := im_intent m\<rparr>) (t_inbound d)\<rparr>))"

definition inbound_known :: "world \<Rightarrow> uuid \<Rightarrow> string \<Rightarrow> bool" where
  "inbound_known w mailbox_id provider_message_id =
     list_ex (\<lambda>r. im_mailbox_id r = mailbox_id \<and> im_provider_message_id r = provider_message_id)
       (inbound_rows w)"

definition inbound_exists :: "uuid \<Rightarrow> string \<Rightarrow> bool act" where
  "inbound_exists mailbox_id provider_message_id =
     gets (\<lambda>w. inbound_known w mailbox_id provider_message_id)"

section \<open>The outbox\<close>

text \<open>What a payload holds before \<open>_json_safe\<close>: the Python values the writer is given.\<close>

datatype py_value =
    VStr string
  | VInt int
  | VUuid uuid
  | VTime time
  | VList "py_value list"
  | VDict "(string \<times> py_value) list"

primrec json_safe :: "py_value \<Rightarrow> json" where
  "json_safe (VStr s) = JStr s"
| "json_safe (VInt i) = JInt i"
| "json_safe (VUuid u) = JStr (uuid_str u)"
| "json_safe (VTime t) = JStr (isoformat t)"
| "json_safe (VList vs) = JArr (map json_safe vs)"
| "json_safe (VDict kvs) = JObj (map (map_prod id json_safe) kvs)"

definition outbox_record ::
  "string \<Rightarrow> uuid \<Rightarrow> uuid \<Rightarrow> (string \<times> py_value) list \<Rightarrow> unit act" where
  "outbox_record event_type workspace_id aggregate_id payload =
     bindp uuid7 (\<lambda>i. bindp now (\<lambda>created_at.
       insert_row
         (\<lambda>w. [too_long 64 event_type, row_security w workspace_id,
               duplicate (i \<in> oe_id ` set (t_outbox (db w)))])
         (\<lambda>d. d\<lparr>t_outbox := t_outbox d @
            [\<lparr> oe_id = i, oe_workspace_id = workspace_id, oe_event_type = event_type,
               oe_aggregate_id = aggregate_id,
               oe_payload = json_safe (VDict (AList.update ''event_type'' (VStr event_type) payload)),
               oe_created_at = created_at \<rparr>]\<rparr>)))"

section \<open>Suppressions\<close>

definition suppressions_add :: "suppression \<Rightarrow> unit act" where
  "suppressions_add s =
     (\<lambda>w. case first_some [too_long 320 (su_email s), row_security w (su_workspace_id s),
                          duplicate (su_id s \<in> su_id ` set (t_suppressions (db w)))] of
            Some e \<Rightarrow> (Inl e, w)
          | None \<Rightarrow>
              if list_ex (\<lambda>r. su_workspace_id r = su_workspace_id s \<and> su_email r = su_email s
                            \<and> su_reason r = su_reason s) (t_suppressions (db w))
              then (Inr (), w)
              else (Inr (), w\<lparr>db := (db w)\<lparr>t_suppressions := t_suppressions (db w) @ [s]\<rparr>\<rparr>))"

definition is_suppressed_in :: "world \<Rightarrow> uuid \<Rightarrow> string \<Rightarrow> bool" where
  "is_suppressed_in w workspace_id email =
     list_ex (\<lambda>r. su_workspace_id r = workspace_id \<and> su_email r = lower (strip email))
       (suppression_rows w)"

definition suppressions_is_suppressed :: "uuid \<Rightarrow> string \<Rightarrow> bool act" where
  "suppressions_is_suppressed workspace_id email = gets (\<lambda>w. is_suppressed_in w workspace_id email)"

definition suppressions_count_addresses :: "uuid \<Rightarrow> nat act" where
  "suppressions_count_addresses workspace_id = gets (\<lambda>w.
     length (remdups (map su_email (filter (\<lambda>r. su_workspace_id r = workspace_id) (suppression_rows w)))))"

section \<open>Mailboxes\<close>

definition mailbox_of :: "world \<Rightarrow> uuid \<Rightarrow> mailbox option" where
  "mailbox_of w workspace_id =
     (case sort_key mb_created_at (filter (\<lambda>r. mb_workspace_id r = workspace_id) (mailbox_rows w)) of
        [] \<Rightarrow> None | r # _ \<Rightarrow> Some r)"

definition mailboxes_get_by_workspace :: "uuid \<Rightarrow> mailbox option act" where
  "mailboxes_get_by_workspace workspace_id = gets (\<lambda>w. mailbox_of w workspace_id)"

definition mailboxes_list_by_workspace :: "uuid \<Rightarrow> mailbox list act" where
  "mailboxes_list_by_workspace workspace_id = gets (\<lambda>w.
     sort_key mb_created_at (sort_key mb_id
       (filter (\<lambda>r. mb_workspace_id r = workspace_id) (mailbox_rows w))))"

definition mailboxes_add :: "mailbox \<Rightarrow> unit act" where
  "mailboxes_add m = insert_row
     (\<lambda>w. [too_long 320 (mb_email_address m), opt_too_long 64 (mb_last_sync_cursor m),
           not_int4 (mb_daily_send_cap m), row_security w (mb_workspace_id m),
           duplicate (mb_id m \<in> mb_id ` set (t_mailboxes (db w)))])
     (\<lambda>d. d\<lparr>t_mailboxes := t_mailboxes d @ [m]\<rparr>)"

definition mailboxes_update_cursor :: "mailbox \<Rightarrow> unit act" where
  "mailboxes_update_cursor m =
     bindp (gets (\<lambda>w. find (\<lambda>r. mb_id r = mb_id m) (mailbox_rows w))) (\<lambda>row.
       if row = None then raise (missing_row ''mailbox'' (mb_id m))
       else case opt_too_long 64 (mb_last_sync_cursor m) of
           Some e \<Rightarrow> raise e
         | None \<Rightarrow> modify_db (\<lambda>w d. d\<lparr>t_mailboxes :=
              update_rows (\<lambda>r. mb_id r = mb_id m \<and> sees w (mb_workspace_id r))
                (\<lambda>r. r\<lparr>mb_last_sync_cursor := mb_last_sync_cursor m\<rparr>) (t_mailboxes d)\<rparr>))"

definition view_of :: "mailbox \<Rightarrow> mailbox_view" where
  "view_of m = \<lparr> mv_id = mb_id m, mv_workspace_id = mb_workspace_id m,
     mv_email_address = mb_email_address m, mv_last_sync_cursor = mb_last_sync_cursor m,
     mv_daily_send_cap = mb_daily_send_cap m \<rparr>"

definition gateway_get_by_workspace :: "uuid \<Rightarrow> mailbox_view option act" where
  "gateway_get_by_workspace workspace_id =
     bindp (mailboxes_get_by_workspace workspace_id) (\<lambda>mailbox. ret (map_option view_of mailbox))"

definition gateway_advance_cursor :: "uuid \<Rightarrow> string \<Rightarrow> unit act" where
  "gateway_advance_cursor workspace_id sync_cursor =
     bindp (mailboxes_get_by_workspace workspace_id) (\<lambda>mailbox.
       case mailbox of
         None \<Rightarrow> raise (ValueError (''no mailbox for workspace '' @ uuid_str workspace_id))
       | Some m \<Rightarrow> mailboxes_update_cursor (with_cursor m sync_cursor))"

text \<open>\<open>MailboxLookup.mailbox_id_for\<close> and the port \<open>MailboxActivityPort\<close>.\<close>

definition mailbox_id_for :: "uuid \<Rightarrow> uuid option act" where
  "mailbox_id_for workspace_id =
     bindp (mailboxes_get_by_workspace workspace_id) (\<lambda>mailbox. ret (map_option mb_id mailbox))"

definition activity_sent_since :: "uuid \<Rightarrow> time \<Rightarrow> int act" where
  "activity_sent_since mailbox_id since = outbound_count_sent_since mailbox_id since"

definition activity_suppressed_addresses :: "uuid \<Rightarrow> nat act" where
  "activity_suppressed_addresses workspace_id = suppressions_count_addresses workspace_id"

section \<open>The send lock\<close>

definition lock_try_acquire :: "uuid \<Rightarrow> bool act" where
  "lock_try_acquire mailbox_id = (\<lambda>w.
     let key = hashtext w (uuid_str mailbox_id) in
     if key \<in> set (held w) then (Inr False, w) else (Inr True, w\<lparr>own := key # own w\<rparr>))"

section \<open>What the repositories promise\<close>

text \<open>
  A suppression list: adding an address suppresses every spelling of it in its workspace,
  and nothing that was suppressed stops being so. The consumer of the list only needs
  these laws.
\<close>

locale suppression_list =
  fixes add :: "suppression \<Rightarrow> world \<Rightarrow> (exn + unit) \<times> world"
    and check :: "uuid \<Rightarrow> string \<Rightarrow> world \<Rightarrow> (exn + bool) \<times> world"
  assumes add_check: "add s w = (Inr (), w') \<Longrightarrow> normalize_email email = su_email s
      \<Longrightarrow> check (su_workspace_id s) email w' = (Inr True, w')"
    and add_keeps: "add s w = (Inr (), w') \<Longrightarrow> check ws email w = (Inr True, w)
      \<Longrightarrow> check ws email w' = (Inr True, w')"
begin

lemma adds_check:
  assumes "forp add ss w = (Inr u, w')" and "s \<in> set ss" and "normalize_email email = su_email s"
  shows "check (su_workspace_id s) email w' = (Inr True, w')"
  using assms
proof (induction ss arbitrary: w)
  case (Cons x xs)
  from Cons.prems(1) obtain w1 where x: "add x w = (Inr (), w1)" and xs: "forp add xs w1 = (Inr u, w')"
    by (auto elim: thenp_InrE)
  have keep: "check ws e w1 = (Inr True, w1) \<Longrightarrow> check ws e w' = (Inr True, w')" for ws e
    using xs
  proof (induction xs arbitrary: w1)
    case (Cons y ys)
    then obtain w2 where "add y w1 = (Inr (), w2)" "forp add ys w2 = (Inr u, w')"
      by (auto elim: thenp_InrE)
    with Cons show ?case using add_keeps by blast
  qed simp
  show ?case
  proof (cases "s = x")
    case True
    then show ?thesis using keep add_check [OF x] Cons.prems(3) by blast
  next
    case False
    then show ?thesis using Cons.IH [OF xs] Cons.prems(2,3) by simp
  qed
qed simp

end

lemma suppressions_add_Inr:
  assumes "suppressions_add s w = (Inr u, w')"
  shows "guc w = Some (su_workspace_id s)"
    and "w' = w\<lparr>db := (db w)\<lparr>t_suppressions := t_suppressions (db w)\<rparr>\<rparr>
             \<and> list_ex (\<lambda>r. su_workspace_id r = su_workspace_id s \<and> su_email r = su_email s) (t_suppressions (db w))
       \<or> w' = w\<lparr>db := (db w)\<lparr>t_suppressions := t_suppressions (db w) @ [s]\<rparr>\<rparr>"
proof -
  have n: "first_some [too_long 320 (su_email s), row_security w (su_workspace_id s),
      duplicate (su_id s \<in> su_id ` set (t_suppressions (db w)))] = None"
    using assms by (auto simp: suppressions_add_def split: option.splits)
  then show "guc w = Some (su_workspace_id s)" by (simp only: first_some_None) simp
  show "w' = w\<lparr>db := (db w)\<lparr>t_suppressions := t_suppressions (db w)\<rparr>\<rparr>
             \<and> list_ex (\<lambda>r. su_workspace_id r = su_workspace_id s \<and> su_email r = su_email s) (t_suppressions (db w))
       \<or> w' = w\<lparr>db := (db w)\<lparr>t_suppressions := t_suppressions (db w) @ [s]\<rparr>\<rparr>"
    using assms unfolding suppressions_add_def n by (auto simp: list_ex_iff split: if_splits)
qed

interpretation suppressions: suppression_list suppressions_add suppressions_is_suppressed
proof unfold_locales
  fix s w w' email
  assume "suppressions_add s w = (Inr (), w')" and e: "normalize_email email = su_email s"
  from suppressions_add_Inr [OF this(1)] e
  show "suppressions_is_suppressed (su_workspace_id s) email w' = (Inr True, w')"
    by (auto simp: suppressions_is_suppressed_def is_suppressed_in_def suppression_rows_def sees_def
          list_ex_iff normalize_email_def)
next
  fix s w w' ws email
  assume "suppressions_add s w = (Inr (), w')"
    and "suppressions_is_suppressed ws email w = (Inr True, w)"
  from suppressions_add_Inr [OF this(1)] this(2)
  show "suppressions_is_suppressed ws email w' = (Inr True, w')"
    by (auto simp: suppressions_is_suppressed_def is_suppressed_in_def suppression_rows_def sees_def
          list_ex_iff)
qed

lemma lock_try_acquire_run [proc_simps]:
  "lock_try_acquire m w =
     (if hashtext w (uuid_str m) \<in> set (held w) then (Inr False, w)
      else (Inr True, w\<lparr>own := hashtext w (uuid_str m) # own w\<rparr>))"
  by (simp add: lock_try_acquire_def Let_def)

lemma mailbox_of_Some:
  assumes "mailbox_of w ws = Some m"
  shows "m \<in> set (t_mailboxes (db w))" and "mb_workspace_id m = ws" and "guc w = Some ws"
proof -
  from assms obtain ms where
    s: "sort_key mb_created_at (filter (\<lambda>r. mb_workspace_id r = ws) (mailbox_rows w)) = m # ms"
    by (auto simp: mailbox_of_def split: list.splits)
  have "m \<in> set (sort_key mb_created_at (filter (\<lambda>r. mb_workspace_id r = ws) (mailbox_rows w)))"
    unfolding s by simp
  then show "m \<in> set (t_mailboxes (db w))" "mb_workspace_id m = ws" "guc w = Some ws"
    by (auto simp: mailbox_rows_def sees_def)
qed

end
