(* ===== verification/Send_Email.thy ===== *)
theory Send_Email
  imports Messaging_Repos
begin

text \<open>
  Sending one email: \<open>SendEmailHandler\<close> (\<open>contexts/messaging/application/commands\<close>) with its
  guards, the message identifier, and \<open>MessagingEmailDispatch\<close>
  (\<open>contexts/campaign/infrastructure/messaging/email_dispatch.py\<close>), which runs the handler in
  a savepoint and turns its exceptions into results. The provider is a parameter: what it
  answers to the \<open>n\<close>-th mail it is given.
\<close>

section \<open>The handler\<close>

type_synonym sender = "nat \<Rightarrow> mail \<Rightarrow> exn + sent_email"

definition send_mail :: "sender \<Rightarrow> mail \<Rightarrow> sent_email act" where
  "send_mail sender m = (\<lambda>w. let r = sender (length (wire w)) m in (r, w\<lparr>wire := wire w @ [(m, r)]\<rparr>))"

definition make_message_id :: "string \<Rightarrow> string act" where
  "make_message_id domain = (\<lambda>w.
     (Inr (''<'' @ random_hex w (draws w) @ ''@'' @ domain @ ''>''), w\<lparr>draws := Suc (draws w)\<rparr>))"

record send_email_command =
  sc_to_email :: string
  sc_subject :: string
  sc_body :: string

definition send_email :: "sender \<Rightarrow> send_email_command \<Rightarrow> uuid \<Rightarrow> outbound_message act" where
  "send_email sender command workspace_id =
     bindp (gateway_get_by_workspace workspace_id) (\<lambda>view.
       case view of None \<Rightarrow> raise MailboxNotConfiguredError
       | Some mailbox \<Rightarrow>
     bindp (suppressions_is_suppressed workspace_id (sc_to_email command)) (\<lambda>suppressed.
     thenp (guardp (\<not> suppressed) RecipientSuppressedError) (
     bindp (lock_try_acquire (mv_id mailbox)) (\<lambda>acquired.
     thenp (guardp acquired MailboxBusyError) (
     bindp now (\<lambda>moment.
     let day_start = start_of_utc_day moment in
     bindp (outbound_count_sent_since (mv_id mailbox) day_start) (\<lambda>sent_today.
     thenp (guardp (sent_today < mv_daily_send_cap mailbox)
              (DailySendCapReachedError (day_start + one_day))) (
     bindp (make_message_id (last (split_on CHR ''@'' (mv_email_address mailbox)))) (\<lambda>message_id.
     bindp (OutboundMessage_new workspace_id (mv_id mailbox) (sc_to_email command)
              (sc_subject command) (sc_body command) message_id) (\<lambda>outbound.
     thenp (outbound_add outbound) (
     bindp (send_mail sender \<lparr> ml_from = mv_email_address mailbox, ml_to = sc_to_email command,
              ml_subject = sc_subject command, ml_body = sc_body command,
              ml_message_id = message_id \<rparr>) (\<lambda>answer.
     let delivered = sent outbound (se_provider_message_id answer) (se_provider_thread_id answer) in
     thenp (outbound_mark_sent delivered) (ret delivered)))))))))))))"

section \<open>The dispatch\<close>

datatype dispatch_result =
    DispatchSent uuid time
  | DispatchDeferred time string
  | DispatchSuppressed
  | DispatchFailed string

definition BUSY_MAILBOX_RETRY_DELAY :: time where
  "BUSY_MAILBOX_RETRY_DELAY = seconds 5"

definition on_send_error :: "exn \<Rightarrow> dispatch_result act" where
  "on_send_error e =
     (case e of
        RecipientSuppressedError \<Rightarrow> ret DispatchSuppressed
      | MailboxBusyError \<Rightarrow>
          bindp now (\<lambda>t. ret (DispatchDeferred (t + BUSY_MAILBOX_RETRY_DELAY) ''mailbox busy''))
      | DailySendCapReachedError retry_at \<Rightarrow>
          ret (DispatchDeferred retry_at ''daily send cap reached'')
      | MailboxNotConfiguredError \<Rightarrow> ret (DispatchFailed ''mailbox not configured'')
      | _ \<Rightarrow> ret (DispatchFailed (exn_class e @ '': '' @ exn_text e)))"

definition email_dispatch ::
  "sender \<Rightarrow> uuid \<Rightarrow> string \<Rightarrow> string \<Rightarrow> string \<Rightarrow> dispatch_result act" where
  "email_dispatch sender workspace_id to_email subject body =
     tryp (bindp (savepoint (send_email sender
              \<lparr> sc_to_email = to_email, sc_subject = subject, sc_body = body \<rparr> workspace_id))
            (\<lambda>outbound. ret (DispatchSent (om_id outbound) (om_created_at outbound))))
          on_send_error"

section \<open>Behaviour of the handler\<close>

lemma send_mail_run [proc_simps]:
  "send_mail sender m w = (sender (length (wire w)) m,
     w\<lparr>wire := wire w @ [(m, sender (length (wire w)) m)]\<rparr>)"
  by (simp add: send_mail_def Let_def)

lemma make_message_id_run [proc_simps]:
  "make_message_id d w =
     (Inr (''<'' @ random_hex w (draws w) @ ''@'' @ d @ ''>''), w\<lparr>draws := Suc (draws w)\<rparr>)"
  by (simp add: make_message_id_def)

lemma gateway_get_run [proc_simps]:
  "gateway_get_by_workspace ws w = (Inr (map_option view_of (mailbox_of w ws)), w)"
  by (simp add: gateway_get_by_workspace_def mailboxes_get_by_workspace_def bindp_run)

text \<open>The first stage: the guards. They leave the tables and the wire as they are.\<close>

definition lock_key :: "world \<Rightarrow> mailbox \<Rightarrow> int" where
  "lock_key w mb = hashtext w (uuid_str (mb_id mb))"

definition today :: "world \<Rightarrow> time" where
  "today w = start_of_utc_day (clock_at w (reads w))"

definition may_send :: "world \<Rightarrow> uuid \<Rightarrow> string \<Rightarrow> mailbox \<Rightarrow> bool" where
  "may_send w ws email mb \<longleftrightarrow> mailbox_of w ws = Some mb \<and> \<not> is_suppressed_in w ws email
     \<and> lock_key w mb \<notin> set (held w) \<and> sent_since w (mb_id mb) (today w) < mb_daily_send_cap mb"

definition guarded :: "world \<Rightarrow> mailbox \<Rightarrow> world" where
  "guarded w mb = w\<lparr>own := lock_key w mb # own w, reads := Suc (reads w)\<rparr>"

definition sending_stage :: "sender \<Rightarrow> send_email_command \<Rightarrow> uuid \<Rightarrow> mailbox \<Rightarrow> outbound_message act" where
  "sending_stage sender command ws mb =
     bindp (make_message_id (last (split_on CHR ''@'' (mb_email_address mb)))) (\<lambda>message_id.
     bindp (OutboundMessage_new ws (mb_id mb) (sc_to_email command)
              (sc_subject command) (sc_body command) message_id) (\<lambda>outbound.
     thenp (outbound_add outbound) (
     bindp (send_mail sender \<lparr> ml_from = mb_email_address mb, ml_to = sc_to_email command,
              ml_subject = sc_subject command, ml_body = sc_body command,
              ml_message_id = message_id \<rparr>) (\<lambda>answer.
     let delivered = sent outbound (se_provider_message_id answer) (se_provider_thread_id answer) in
     thenp (outbound_mark_sent delivered) (ret delivered)))))"

lemma sent_since_frame [simp]:
  "sent_since (w\<lparr>reads := n\<rparr>) m t = sent_since w m t"
  "sent_since (w\<lparr>own := k\<rparr>) m t = sent_since w m t"
  by (simp_all add: sent_since_def outbound_rows_def sees_def)

lemma guarded_frame [simp]:
  "db (guarded w mb) = db w" "wire (guarded w mb) = wire w" "guc (guarded w mb) = guc w"
  "next_uuid (guarded w mb) = next_uuid w" "clock_at (guarded w mb) = clock_at w"
  "reads (guarded w mb) = Suc (reads w)" "draws (guarded w mb) = draws w"
  "random_hex (guarded w mb) = random_hex w" "row_locks (guarded w mb) = row_locks w"
  "held (guarded w mb) = held w"
  by (simp_all add: guarded_def)

lemma send_email_stages:
  assumes "may_send w ws (sc_to_email command) mb"
  shows "send_email sender command ws w = sending_stage sender command ws mb (guarded w mb)"
  using assms
  by (simp add: send_email_def sending_stage_def may_send_def guarded_def lock_key_def today_def
        bindp_run thenp_run gateway_get_run suppressions_is_suppressed_def lock_try_acquire_run
        outbound_count_sent_since_def view_of_def Let_def)

lemma send_email_refused:
  assumes "\<And>mb. \<not> may_send w ws (sc_to_email command) mb"
  obtains e w' where "send_email sender command ws w = (Inl e, w')"
    and "db w' = db w" and "wire w' = wire w" and "guc w' = guc w"
    and "(e = MailboxNotConfiguredError \<and> mailbox_of w ws = None)
       \<or> (e = RecipientSuppressedError \<and> is_suppressed_in w ws (sc_to_email command))
       \<or> (\<exists>mb. e = MailboxBusyError \<and> mailbox_of w ws = Some mb \<and> lock_key w mb \<in> set (held w))
       \<or> (\<exists>mb. e = DailySendCapReachedError (today w + one_day) \<and> mailbox_of w ws = Some mb
            \<and> mb_daily_send_cap mb \<le> sent_since w (mb_id mb) (today w))"
proof (cases "mailbox_of w ws")
  case None
  then show ?thesis
    using that [of MailboxNotConfiguredError w]
    by (simp add: send_email_def bindp_run gateway_get_run)
next
  case (Some mb)
  show ?thesis
  proof (cases "is_suppressed_in w ws (sc_to_email command)")
    case True
    then show ?thesis
      using that [of RecipientSuppressedError w] Some
      by (simp add: send_email_def bindp_run thenp_run gateway_get_run suppressions_is_suppressed_def)
  next
    case supp: False
    show ?thesis
    proof (cases "lock_key w mb \<in> set (held w)")
      case True
      then show ?thesis
        using that [of MailboxBusyError w] Some supp
        by (simp add: send_email_def bindp_run thenp_run gateway_get_run suppressions_is_suppressed_def
              lock_try_acquire_run lock_key_def view_of_def)
    next
      case False
      with assms [of mb] Some supp have "\<not> sent_since w (mb_id mb) (today w) < mb_daily_send_cap mb"
        by (simp add: may_send_def)
      then show ?thesis
        using that [of "DailySendCapReachedError (today w + one_day)" "guarded w mb"] Some supp False
        by (simp add: send_email_def bindp_run thenp_run gateway_get_run suppressions_is_suppressed_def
              lock_try_acquire_run lock_key_def view_of_def today_def guarded_def
              outbound_count_sent_since_def Let_def)
    qed
  qed
qed

text \<open>The second stage: the row, the provider, the provider's identifiers.\<close>

definition message_for :: "world \<Rightarrow> mailbox \<Rightarrow> send_email_command \<Rightarrow> mail" where
  "message_for w mb command = \<lparr> ml_from = mb_email_address mb, ml_to = sc_to_email command,
     ml_subject = sc_subject command, ml_body = sc_body command,
     ml_message_id = ''<'' @ random_hex w (draws w) @ ''@''
       @ last (split_on CHR ''@'' (mb_email_address mb)) @ ''>'' \<rparr>"

definition outbound_for :: "world \<Rightarrow> uuid \<Rightarrow> mailbox \<Rightarrow> send_email_command \<Rightarrow> outbound_message" where
  "outbound_for w ws mb command = \<lparr> om_id = next_uuid w, om_workspace_id = ws,
     om_mailbox_id = mb_id mb, om_to_email = sc_to_email command,
     om_subject = sc_subject command, om_body = sc_body command,
     om_rfc822_message_id = ml_message_id (message_for w mb command),
     om_provider_message_id = None, om_provider_thread_id = None,
     om_created_at = clock_at w (reads w) \<rparr>"

definition marked :: "outbound_message \<Rightarrow> sent_email \<Rightarrow> outbound_message" where
  "marked msg answer = sent msg (se_provider_message_id answer) (se_provider_thread_id answer)"

definition drawn :: "world \<Rightarrow> world" where
  "drawn w = w\<lparr>draws := Suc (draws w), next_uuid := Suc (next_uuid w), reads := Suc (reads w)\<rparr>"

definition with_outbound :: "outbound_message \<Rightarrow> world \<Rightarrow> world" where
  "with_outbound msg w = w\<lparr>db := (db w)\<lparr>t_outbound := t_outbound (db w) @ [msg]\<rparr>\<rparr>"

definition with_wire :: "mail \<Rightarrow> exn + sent_email \<Rightarrow> world \<Rightarrow> world" where
  "with_wire m r w = w\<lparr>wire := wire w @ [(m, r)]\<rparr>"

lemma sending_stage_run:
  "sending_stage sender command ws mb w =
     (let msg = outbound_for w ws mb command; m = message_for w mb command in
      thenp (outbound_add msg)
      (bindp (send_mail sender m) (\<lambda>answer.
         thenp (outbound_mark_sent (marked msg answer)) (ret (marked msg answer)))) (drawn w))"
  by (simp add: sending_stage_def make_message_id_run OutboundMessage_new_run bindp_run Let_def
        outbound_for_def message_for_def marked_def drawn_def)

lemma sending_stage_cases:
  obtains (no_row) e where "sending_stage sender command ws mb w = (Inl e, drawn w)"
      "outbound_add (outbound_for w ws mb command) (drawn w) = (Inl e, drawn w)"
  | (no_answer) e where
      "sending_stage sender command ws mb w
         = (Inl e, with_wire (message_for w mb command) (Inl e)
                     (with_outbound (outbound_for w ws mb command) (drawn w)))"
      "sender (length (wire w)) (message_for w mb command) = Inl e"
  | (no_mark) e answer where
      "sending_stage sender command ws mb w
         = (Inl e, with_wire (message_for w mb command) (Inr answer)
                     (with_outbound (outbound_for w ws mb command) (drawn w)))"
      "sender (length (wire w)) (message_for w mb command) = Inr answer"
      "64 < length (se_provider_message_id answer) \<or> 64 < length (se_provider_thread_id answer)"
  | (delivered) answer where
      "sending_stage sender command ws mb w
         = (Inr (marked (outbound_for w ws mb command) answer),
            with_wire (message_for w mb command) (Inr answer)
              (with_outbound (marked (outbound_for w ws mb command) answer) (drawn w)))"
      "sender (length (wire w)) (message_for w mb command) = Inr answer"
proof -
  let ?o = "outbound_for w ws mb command" and ?m = "message_for w mb command"
  let ?w1 = "with_outbound ?o (drawn w)"
  note run = sending_stage_run [of sender command ws mb w, unfolded Let_def]
  have len: "length (wire ?w1) = length (wire w)"
    by (simp add: with_outbound_def drawn_def)
  obtain r wa where add: "outbound_add ?o (drawn w) = (r, wa)" by fastforce
  show ?thesis
  proof (cases r)
    case (Inl e)
    then have "wa = drawn w" using add insert_row_Inl by (auto simp: outbound_add_def)
    then show ?thesis using no_row [of e] run add Inl by simp
  next
    case (Inr u)
    then have wa: "wa = ?w1"
      and fresh: "guc w = Some ws" "om_id ?o \<notin> om_id ` set (t_outbound (db w))"
      using add by (auto simp: outbound_add_def insert_row_Inr with_outbound_def drawn_def outbound_for_def)
    have other: "om_id x \<noteq> next_uuid w" if "x \<in> set (t_outbound (db w))" for x
      using fresh(2) that by (force simp: outbound_for_def)
    have sent: "send_mail sender ?m ?w1
        = (sender (length (wire w)) ?m, with_wire ?m (sender (length (wire w)) ?m) ?w1)"
      by (simp add: send_mail_run len with_wire_def)
    show ?thesis
    proof (cases "sender (length (wire w)) ?m")
      case (Inl e)
      then show ?thesis using no_answer [of e] run add \<open>r = Inr u\<close> sent wa by simp
    next
      case ans: (Inr answer)
      let ?w2 = "with_wire ?m (Inr answer) ?w1" and ?d = "marked ?o answer"
      have find: "find (\<lambda>r. om_id r = om_id ?d) (outbound_rows ?w2) = Some ?o"
      proof -
        have "find (\<lambda>r. om_id r = om_id ?d)
            (filter (\<lambda>r. guc w = Some (om_workspace_id r)) (t_outbound (db w))) = None"
          using fresh(2) by (auto simp: find_None marked_def sent_def) (metis image_eqI)
        then show ?thesis
          using fresh(1)
          by (simp add: outbound_rows_def sees_def with_wire_def with_outbound_def drawn_def
                find_append marked_def sent_def outbound_for_def)
      qed
      have upd: "update_rows (\<lambda>r. om_id r = om_id ?d \<and> sees ?w2 (om_workspace_id r))
            (\<lambda>r. r\<lparr>om_provider_message_id := om_provider_message_id ?d,
                   om_provider_thread_id := om_provider_thread_id ?d\<rparr>) (t_outbound (db ?w2))
          = t_outbound (db w) @ [?d]"
        using fresh(1)
        by (auto simp: other update_rows_def with_wire_def with_outbound_def drawn_def sees_def
              marked_def sent_def outbound_for_def intro!: map_idI)
      show ?thesis
      proof (cases "length (se_provider_message_id answer) \<le> 64 \<and> length (se_provider_thread_id answer) \<le> 64")
        case True
        then have chk: "first_some [opt_too_long 64 (om_provider_message_id ?d),
            opt_too_long 64 (om_provider_thread_id ?d)] = None"
          unfolding first_some_None by (simp add: opt_too_long_def marked_def sent_def)
        have "outbound_mark_sent ?d ?w2 = (Inr (), with_wire ?m (Inr answer) (with_outbound ?d (drawn w)))"
          unfolding outbound_mark_sent_def bindp_run gets_run find chk
          by (simp add: upd) (simp add: with_wire_def with_outbound_def drawn_def)
        then show ?thesis
          using delivered [OF _ ans] run add \<open>r = Inr u\<close> sent wa ans by (simp add: thenp_run)
      next
        case False
        then obtain e where chk: "first_some [opt_too_long 64 (om_provider_message_id ?d),
            opt_too_long 64 (om_provider_thread_id ?d)] = Some e"
          using first_some_None [of "[opt_too_long 64 (om_provider_message_id ?d),
            opt_too_long 64 (om_provider_thread_id ?d)]"]
          by (cases "first_some [opt_too_long 64 (om_provider_message_id ?d),
            opt_too_long 64 (om_provider_thread_id ?d)]")
             (auto simp: opt_too_long_def marked_def sent_def simp del: first_some.simps)
        have "outbound_mark_sent ?d ?w2 = (Inl e, ?w2)"
          unfolding outbound_mark_sent_def bindp_run gets_run find chk by simp
        then show ?thesis
          using no_mark [OF _ ans, of e] False run add \<open>r = Inr u\<close> sent wa ans
          by (auto simp: thenp_run)
      qed
    qed
  qed
qed

section \<open>Behaviour of the dispatch\<close>

lemma drawn_frame [simp]:
  "db (drawn w) = db w" "wire (drawn w) = wire w" "guc (drawn w) = guc w"
  "next_uuid (drawn w) = Suc (next_uuid w)" "clock_at (drawn w) = clock_at w"
  "reads (drawn w) = Suc (reads w)" "row_locks (drawn w) = row_locks w" "held (drawn w) = held w"
  by (simp_all add: drawn_def)

lemma with_outbound_frame [simp]:
  "db (with_outbound msg w) = (db w)\<lparr>t_outbound := t_outbound (db w) @ [msg]\<rparr>"
  "wire (with_outbound msg w) = wire w" "guc (with_outbound msg w) = guc w"
  "next_uuid (with_outbound msg w) = next_uuid w" "clock_at (with_outbound msg w) = clock_at w"
  "reads (with_outbound msg w) = reads w" "row_locks (with_outbound msg w) = row_locks w"
  "held (with_outbound msg w) = held w"
  by (simp_all add: with_outbound_def)

lemma with_wire_frame [simp]:
  "db (with_wire m r w) = db w" "wire (with_wire m r w) = wire w @ [(m, r)]"
  "guc (with_wire m r w) = guc w" "next_uuid (with_wire m r w) = next_uuid w"
  "clock_at (with_wire m r w) = clock_at w" "reads (with_wire m r w) = reads w"
  "row_locks (with_wire m r w) = row_locks w" "held (with_wire m r w) = held w"
  by (simp_all add: with_wire_def)

text \<open>The mail and the row of a dispatch that reaches the provider.\<close>

definition command_of :: "string \<Rightarrow> string \<Rightarrow> string \<Rightarrow> send_email_command" where
  "command_of to_email subject body = \<lparr> sc_to_email = to_email, sc_subject = subject, sc_body = body \<rparr>"

lemma command_sel [simp]:
  "sc_to_email (command_of t s b) = t" "sc_subject (command_of t s b) = s"
  "sc_body (command_of t s b) = b"
  by (simp_all add: command_of_def)

definition mail_of :: "world \<Rightarrow> mailbox \<Rightarrow> string \<Rightarrow> string \<Rightarrow> string \<Rightarrow> mail" where
  "mail_of w mb to_email subject body = message_for (guarded w mb) mb (command_of to_email subject body)"

definition row_of :: "world \<Rightarrow> uuid \<Rightarrow> mailbox \<Rightarrow> string \<Rightarrow> string \<Rightarrow> string \<Rightarrow> outbound_message" where
  "row_of w ws mb to_email subject body =
     outbound_for (guarded w mb) ws mb (command_of to_email subject body)"

definition dispatched ::
  "world \<Rightarrow> uuid \<Rightarrow> mailbox \<Rightarrow> string \<Rightarrow> string \<Rightarrow> string \<Rightarrow> sent_email \<Rightarrow> world" where
  "dispatched w ws mb to_email subject body answer =
     with_wire (mail_of w mb to_email subject body) (Inr answer)
       (with_outbound (marked (row_of w ws mb to_email subject body) answer) (drawn (guarded w mb)))"

lemma on_send_error_run:
  obtains r w' where "on_send_error e w = (Inr r, w')" "db w' = db w" "wire w' = wire w"
    "guc w' = guc w" "\<And>i t. r \<noteq> DispatchSent i t"
  by (cases e) (auto simp: on_send_error_def bindp_run)

lemma email_dispatch_savepoint:
  assumes "send_email sender (command_of to_email subject body) ws w = (Inl e, w')"
  shows "email_dispatch sender ws to_email subject body w
    = on_send_error e (w'\<lparr>db := db w, own := own w\<rparr>)"
  using assms by (simp add: email_dispatch_def tryp_run bindp_run savepoint_def command_of_def)

lemma email_dispatch_Inl:
  assumes "send_email sender (command_of to_email subject body) ws w = (Inl e, w1)"
    and "guc w1 = guc w"
  obtains r w' where "email_dispatch sender ws to_email subject body w = (Inr r, w')"
    "db w' = db w" "guc w' = guc w" "\<And>i t. r \<noteq> DispatchSent i t" "wire w' = wire w1"
proof -
  obtain r w' where r: "on_send_error e (w1\<lparr>db := db w, own := own w\<rparr>) = (Inr r, w')"
    "db w' = db (w1\<lparr>db := db w, own := own w\<rparr>)" "wire w' = wire (w1\<lparr>db := db w, own := own w\<rparr>)"
    "guc w' = guc (w1\<lparr>db := db w, own := own w\<rparr>)" "\<And>i t. r \<noteq> DispatchSent i t"
    by (rule on_send_error_run [of e "w1\<lparr>db := db w, own := own w\<rparr>"]) blast
  show ?thesis
    using email_dispatch_savepoint [OF assms(1)] r assms(2) by (intro that [of r w']) auto
qed

lemma email_dispatch_delivered:
  assumes "send_email sender (command_of to_email subject body) ws w
      = sending_stage sender (command_of to_email subject body) ws mb (guarded w mb)"
    and "sending_stage sender (command_of to_email subject body) ws mb (guarded w mb)
      = (Inr (marked (outbound_for (guarded w mb) ws mb (command_of to_email subject body)) answer),
         with_wire (message_for (guarded w mb) mb (command_of to_email subject body)) (Inr answer)
           (with_outbound (marked (outbound_for (guarded w mb) ws mb (command_of to_email subject body)) answer)
             (drawn (guarded w mb))))"
  shows "email_dispatch sender ws to_email subject body w
    = (Inr (DispatchSent (next_uuid w) (clock_at w (Suc (reads w)))),
       dispatched w ws mb to_email subject body answer)"
  using assms
  by (simp add: email_dispatch_def tryp_run bindp_run savepoint_def command_of_def
        dispatched_def mail_of_def row_of_def outbound_for_def marked_def sent_def)

lemma email_dispatch_cases:
  obtains (sent) mb answer where "may_send w ws to_email mb"
      "sender (length (wire w)) (mail_of w mb to_email subject body) = Inr answer"
      "email_dispatch sender ws to_email subject body w
         = (Inr (DispatchSent (next_uuid w) (clock_at w (Suc (reads w)))),
            dispatched w ws mb to_email subject body answer)"
  | (refused) r w' where "\<And>mb. \<not> may_send w ws to_email mb"
      "email_dispatch sender ws to_email subject body w = (Inr r, w')"
      "db w' = db w" "wire w' = wire w" "guc w' = guc w" "\<And>i t. r \<noteq> DispatchSent i t"
      "(r = DispatchFailed ''mailbox not configured'' \<and> mailbox_of w ws = None)
       \<or> (r = DispatchSuppressed \<and> is_suppressed_in w ws to_email)
       \<or> (\<exists>mb t. r = DispatchDeferred t ''mailbox busy'' \<and> mailbox_of w ws = Some mb
             \<and> lock_key w mb \<in> set (held w))
       \<or> (\<exists>mb. r = DispatchDeferred (today w + one_day) ''daily send cap reached''
             \<and> mailbox_of w ws = Some mb \<and> mb_daily_send_cap mb \<le> sent_since w (mb_id mb) (today w))"
  | (failed) mb r w' answer where "may_send w ws to_email mb"
      "email_dispatch sender ws to_email subject body w = (Inr r, w')"
      "db w' = db w" "guc w' = guc w" "\<And>i t. r \<noteq> DispatchSent i t"
      "wire w' = wire w \<or> wire w' = wire w @ [(mail_of w mb to_email subject body, answer)]"
proof (cases "\<exists>mb. may_send w ws to_email mb")
  case False
  let ?cmd = "command_of to_email subject body"
  have none: "\<not> may_send w ws (sc_to_email ?cmd) mb" for mb
    using False by simp
  obtain e w1 where e: "send_email sender ?cmd ws w = (Inl e, w1)"
    "db w1 = db w" "wire w1 = wire w" and g: "guc w1 = guc w" and cause:
    "(e = MailboxNotConfiguredError \<and> mailbox_of w ws = None)
       \<or> (e = RecipientSuppressedError \<and> is_suppressed_in w ws to_email)
       \<or> (\<exists>mb. e = MailboxBusyError \<and> mailbox_of w ws = Some mb \<and> lock_key w mb \<in> set (held w))
       \<or> (\<exists>mb. e = DailySendCapReachedError (today w + one_day) \<and> mailbox_of w ws = Some mb
            \<and> mb_daily_send_cap mb \<le> sent_since w (mb_id mb) (today w))"
    using send_email_refused [OF none, of sender thesis] unfolding command_sel by blast
  obtain r w' where r: "on_send_error e (w1\<lparr>db := db w, own := own w\<rparr>) = (Inr r, w')"
    "db w' = db w" "wire w' = wire w" "guc w' = guc w" "\<And>i t. r \<noteq> DispatchSent i t"
    using on_send_error_run [of e "w1\<lparr>db := db w, own := own w\<rparr>"] e(3) g by auto
  show ?thesis
    using False email_dispatch_savepoint [OF e(1)] r cause
    by (intro refused [of r w']) (auto simp: on_send_error_def bindp_run)
next
  case True
  then obtain mb where m: "may_send w ws to_email mb" by blast
  let ?cmd = "command_of to_email subject body"
  have stage: "send_email sender ?cmd ws w = sending_stage sender ?cmd ws mb (guarded w mb)"
    using m by (intro send_email_stages) (simp add: command_of_def)
  show ?thesis
  proof (cases rule: sending_stage_cases [of sender ?cmd ws mb "guarded w mb"])
    case (no_row e)
    show ?thesis
      by (rule email_dispatch_Inl [OF stage [unfolded no_row(1)]])
         (use failed [OF m] in \<open>auto\<close>)
  next
    case (no_answer e)
    show ?thesis
      by (rule email_dispatch_Inl [OF stage [unfolded no_answer(1)]])
         (use failed [OF m] in \<open>auto simp: mail_of_def\<close>)
  next
    case (no_mark e answer)
    show ?thesis
      by (rule email_dispatch_Inl [OF stage [unfolded no_mark(1)]])
         (use failed [OF m] in \<open>auto simp: mail_of_def\<close>)
  next
    case (delivered answer)
    show ?thesis
      using sent [OF m _ email_dispatch_delivered [OF stage delivered(1)]] delivered(2)
      by (simp add: mail_of_def)
  qed
qed

end
