(* ===== verification/Process_Jobs.thy ===== *)
theory Process_Jobs
  imports Campaign_Repos Campaign_Laws Send_Email
begin

text \<open>
  The consumers of the job queue, \<open>contexts/campaign/application/process_send_jobs.py\<close>:
  claiming the due jobs, processing a claimed job, and processing one by its identifier.
\<close>

section \<open>The handlers\<close>

datatype send_job_outcome = O_SENT | O_DEFERRED | O_SUPPRESSED | O_RETRYING | O_FAILED | O_CANCELLED

primrec outcome_value :: "send_job_outcome \<Rightarrow> string" where
  "outcome_value O_SENT = ''sent''"
| "outcome_value O_DEFERRED = ''deferred''"
| "outcome_value O_SUPPRESSED = ''suppressed''"
| "outcome_value O_RETRYING = ''retrying''"
| "outcome_value O_FAILED = ''failed''"
| "outcome_value O_CANCELLED = ''cancelled''"

record processed_send_job =
  ps_job :: claimed_job
  ps_outcome :: send_job_outcome

definition claim_due_send_jobs :: "uuid \<Rightarrow> string \<Rightarrow> nat \<Rightarrow> time \<Rightarrow> claimed_job list act" where
  "claim_due_send_jobs workspace_id worker_id lim moment =
     jobs_claim workspace_id worker_id lim moment CLAIM_LEASE"

type_synonym dispatcher = "uuid \<Rightarrow> string \<Rightarrow> string \<Rightarrow> string \<Rightarrow> dispatch_result act"

text \<open>The \<open>match\<close> on the result of the dispatch, with the job, the campaign and its lead.\<close>

definition settle ::
  "claimed_job \<Rightarrow> time \<Rightarrow> campaign \<Rightarrow> lead \<Rightarrow> dispatch_result \<Rightarrow> send_job_outcome act" where
  "settle claim moment c l result =
     (case result of
        DispatchSent outbound_message_id sent_at \<Rightarrow>
          bindp (record_sent c l (p_step_position (cj_payload claim)) sent_at) (\<lambda>(advanced, next_job).
          thenp (leads_update_many [advanced]) (
          thenp (jobs_complete (cj_id claim) outbound_message_id moment) (
          thenp (case next_job of None \<Rightarrow> ret () | Some j \<Rightarrow> jobs_add_many [j])
          (ret O_SENT))))
      | DispatchDeferred retry_at reason \<Rightarrow>
          thenp (jobs_release (cj_id claim) retry_at reason moment) (ret O_DEFERRED)
      | DispatchSuppressed \<Rightarrow>
          bindp (lift (fail_lead c l SUPPRESSED moment)) (\<lambda>failed.
          thenp (leads_update_many [failed]) (
          thenp (jobs_cancel (cj_id claim) moment) (ret O_SUPPRESSED)))
      | DispatchFailed error \<Rightarrow>
          (case next_retry_at (cj_attempts claim) moment of
             Some retry_at \<Rightarrow>
               thenp (jobs_retry_later (cj_id claim) retry_at error moment) (ret O_RETRYING)
           | None \<Rightarrow>
               bindp (lift (fail_lead c l SEND_FAILED moment)) (\<lambda>failed.
               thenp (leads_update_many [failed]) (
               thenp (jobs_fail (cj_id claim) error moment) (ret O_FAILED)))))"

definition process_claimed :: "dispatcher \<Rightarrow> claimed_job \<Rightarrow> time \<Rightarrow> send_job_outcome act" where
  "process_claimed dispatch claim moment =
     bindp (campaigns_get (p_campaign_id (cj_payload claim))) (\<lambda>campaign.
     bindp (leads_get (cj_lead_id claim)) (\<lambda>lead.
       case (campaign, lead) of
         (Some c, Some l) \<Rightarrow>
           if accepts_send c l (p_step_position (cj_payload claim))
           then bindp (dispatch (cj_workspace_id claim) (p_to_email (cj_payload claim))
                         (p_subject (cj_payload claim)) (p_body (cj_payload claim)))
                  (settle claim moment c l)
           else thenp (jobs_cancel (cj_id claim) moment) (ret O_CANCELLED)
       | _ \<Rightarrow> thenp (jobs_cancel (cj_id claim) moment) (ret O_CANCELLED)))"

definition process_by_id :: "dispatcher \<Rightarrow> uuid \<Rightarrow> uuid \<Rightarrow> time \<Rightarrow> processed_send_job act" where
  "process_by_id dispatch job_id workspace_id moment =
     bindp (jobs_get_claimed job_id workspace_id) (\<lambda>claimed.
       case claimed of None \<Rightarrow> raise SendJobNotClaimedError
       | Some j \<Rightarrow> bindp (process_claimed dispatch j moment) (\<lambda>outcome.
                    ret \<lparr> ps_job = j, ps_outcome = outcome \<rparr>))"

section \<open>The port to the messaging context\<close>

text \<open>What the campaign context's handlers depend on: the setting and the campaign tables.\<close>

definition same_campaign_side :: "world \<Rightarrow> world \<Rightarrow> bool" where
  "same_campaign_side v w \<longleftrightarrow> guc v = guc w \<and> t_campaigns (db v) = t_campaigns (db w)
     \<and> t_steps (db v) = t_steps (db w) \<and> t_leads (db v) = t_leads (db w)
     \<and> t_send_jobs (db v) = t_send_jobs (db w) \<and> t_processed (db v) = t_processed (db w)"

lemma same_campaign_side_refl [simp]: "same_campaign_side w w"
  by (simp add: same_campaign_side_def)

lemma same_campaign_side_views:
  assumes "same_campaign_side v w"
  shows "campaign_in v i = campaign_in w i" "lead_in v i = lead_in w i" "job_in v i = job_in w i"
    "guc v = guc w"
  using assms unfolding same_campaign_side_def
  by (auto intro: campaign_in_cong lead_in_cong job_in_cong)

text \<open>
  \<open>EmailDispatchPort\<close>: a dispatch always answers with a result, and leaves the tables of
  the campaign context alone.
\<close>

locale dispatch_port =
  fixes dispatch :: dispatcher
  assumes answers: "\<exists>r. fst (dispatch ws t s b w) = Inr r"
    and keeps_side: "same_campaign_side (snd (dispatch ws t s b w)) w"
begin

lemma accepted:
  assumes "campaign_in w (p_campaign_id (cj_payload claim)) = Some c"
    and "lead_in w (cj_lead_id claim) = Some l"
    and "accepts_send c l (p_step_position (cj_payload claim))"
  obtains r w1 where
    "dispatch (cj_workspace_id claim) (p_to_email (cj_payload claim)) (p_subject (cj_payload claim))
       (p_body (cj_payload claim)) w = (Inr r, w1)"
    "same_campaign_side w1 w"
    "process_claimed dispatch claim moment w = settle claim moment c l r w1"
proof -
  let ?d = "dispatch (cj_workspace_id claim) (p_to_email (cj_payload claim))
    (p_subject (cj_payload claim)) (p_body (cj_payload claim))"
  obtain r where "fst (?d w) = Inr r" using answers by blast
  then obtain w1 where d: "?d w = (Inr r, w1)" by (cases "?d w") auto
  moreover have "same_campaign_side w1 w"
    using keeps_side [of "cj_workspace_id claim" "p_to_email (cj_payload claim)"
        "p_subject (cj_payload claim)" "p_body (cj_payload claim)" w] d by simp
  ultimately show ?thesis
    using assms by (intro that [of r w1]) (simp_all add: process_claimed_def bindp_run)
qed

end

interpretation messaging: dispatch_port "email_dispatch sender" for sender
proof unfold_locales
  fix ws t s b w
  show "\<exists>r. fst (email_dispatch sender ws t s b w) = Inr r"
    by (cases rule: email_dispatch_cases [of w ws t sender s b]) simp_all
  show "same_campaign_side (snd (email_dispatch sender ws t s b w)) w"
    by (cases rule: email_dispatch_cases [of w ws t sender s b])
       (simp_all add: same_campaign_side_def dispatched_def)
qed

section \<open>Outcomes\<close>

lemma process_refused:
  assumes "\<And>c l. campaign_in w (p_campaign_id (cj_payload claim)) = Some c \<Longrightarrow>
      lead_in w (cj_lead_id claim) = Some l \<Longrightarrow>
      \<not> accepts_send c l (p_step_position (cj_payload claim))"
  shows "process_claimed dispatch claim moment w = (Inr O_CANCELLED,
    put_job (cj_id claim) (\<lambda>r. r\<lparr>jr_status := JCANCELLED, jr_updated_at := moment\<rparr>) w)"
  using assms
  by (cases "campaign_in w (p_campaign_id (cj_payload claim))"; cases "lead_in w (cj_lead_id claim)")
     (simp_all add: process_claimed_def bindp_run thenp_run jobs_ops)

text \<open>The lead and the job that each result of the dispatch leaves behind.\<close>

definition job_done :: "uuid \<Rightarrow> time \<Rightarrow> send_job_row \<Rightarrow> send_job_row" where
  "job_done out moment r = r\<lparr>jr_status := JDONE, jr_outbound_message_id := Some out,
     jr_last_error := None, jr_updated_at := moment\<rparr>"

lemma settle_deferred:
  "settle claim moment c l (DispatchDeferred at reason) w = (Inr O_DEFERRED,
     put_job (cj_id claim) (\<lambda>r. r\<lparr>jr_last_error := Some reason, jr_attempts := jr_attempts r - 1,
       jr_status := JPENDING, jr_scheduled_at := at, jr_locked_at := None, jr_locked_by := None,
       jr_updated_at := moment\<rparr>) w)"
  by (simp add: settle_def thenp_run jobs_ops)

lemma settle_suppressed:
  assumes "lead_in w (l_id l) \<noteq> None" and "accepts_send c l k"
  shows "settle claim moment c l DispatchSuppressed w = (Inr O_SUPPRESSED,
     put_job (cj_id claim) (\<lambda>r. r\<lparr>jr_status := JCANCELLED, jr_updated_at := moment\<rparr>)
       (put_lead (l\<lparr>l_state := FAILED, l_updated_at := moment, l_stop_reason := Some SUPPRESSED\<rparr>) w))"
  using assms
  by (simp add: settle_def bindp_run thenp_run fail_lead_accepted update_many_one update_lead_run jobs_ops)

lemma settle_retrying:
  assumes "next_retry_at (cj_attempts claim) moment = Some at"
  shows "settle claim moment c l (DispatchFailed err) w = (Inr O_RETRYING,
     put_job (cj_id claim) (\<lambda>r. r\<lparr>jr_last_error := Some err, jr_status := JPENDING,
       jr_scheduled_at := at, jr_locked_at := None, jr_locked_by := None, jr_updated_at := moment\<rparr>) w)"
  using assms by (simp add: settle_def thenp_run jobs_ops)

lemma settle_failed:
  assumes "next_retry_at (cj_attempts claim) moment = None"
    and "lead_in w (l_id l) \<noteq> None" and "accepts_send c l k"
  shows "settle claim moment c l (DispatchFailed err) w = (Inr O_FAILED,
     put_job (cj_id claim) (\<lambda>r. r\<lparr>jr_status := JFAILED, jr_last_error := Some err, jr_updated_at := moment\<rparr>)
       (put_lead (l\<lparr>l_state := FAILED, l_updated_at := moment, l_stop_reason := Some SEND_FAILED\<rparr>) w))"
  using assms
  by (simp add: settle_def bindp_run thenp_run fail_lead_accepted update_many_one update_lead_run jobs_ops)

lemma settle_sent_last:
  assumes "lead_in w (l_id l) \<noteq> None" and "accepts_send c l k"
    and "k = int (length (c_steps c))" and "p_step_position (cj_payload claim) = k"
  shows "settle claim moment c l (DispatchSent out at) w = (Inr O_SENT,
     put_job (cj_id claim) (job_done out moment)
       (put_lead (l\<lparr>l_state := DONE, l_updated_at := at, l_steps_sent := k\<rparr>) w))"
  using assms
  by (simp add: settle_def bindp_run thenp_run record_sent_last update_many_one update_lead_run
        jobs_ops job_done_def [abs_def])

lemma settle_sent_next:
  assumes "lead_in w (l_id l) \<noteq> None" and "accepts_send c l k" and "0 < k"
    and "k < int (length (c_steps c))" and "p_step_position (cj_payload claim) = k"
  shows "settle claim moment c l (DispatchSent out at) w =
     thenp (jobs_add_many [job_for c (c_steps c ! nat k) at l (next_uuid w) (clock_at w (reads w))])
       (ret O_SENT)
     (put_job (cj_id claim) (job_done out moment)
       (put_lead (l\<lparr>l_state := SENT, l_updated_at := at, l_steps_sent := k\<rparr>)
         (w\<lparr>next_uuid := Suc (next_uuid w), reads := Suc (reads w)\<rparr>)))"
proof -
  have "lead_in (w\<lparr>next_uuid := Suc (next_uuid w), reads := Suc (reads w)\<rparr>) (l_id l) = lead_in w (l_id l)"
    by (rule lead_in_cong) simp_all
  with assms show ?thesis
    by (auto simp: settle_def bindp_run thenp_run record_sent_next update_many_one update_lead_run
          jobs_ops job_done_def [abs_def])
qed

end
