(* ===== verification/Json_Text.thy ===== *)
theory Json_Text
  imports Uuid_Text
begin

text \<open>
  What the source does with a decoded JSON value beyond reading a field: its \<open>str\<close>, its truth
  value, iteration, \<open>in\<close>, equality of keys, and the conversions \<open>int(\<dots>)\<close> and
  \<open>datetime.fromtimestamp(ms / 1000)\<close>.
\<close>

section \<open>The text of a JSON value\<close>

text \<open>\<open>repr\<close> of a string, and \<open>str\<close> of a decoded JSON value.\<close>

definition repr_char :: "char \<Rightarrow> char \<Rightarrow> string" where
  "repr_char quote c =
     (let k = code c; bs = CHR 0x5C in
      if c = quote \<or> c = bs then [bs, c]
      else if k = 10 then [bs, CHR ''n'']
      else if k = 13 then [bs, CHR ''r'']
      else if k = 9 then [bs, CHR ''t'']
      else if k < 32 \<or> (127 \<le> k \<and> k \<le> 160) \<or> k = 173 then bs # ''x'' @ hex_text 2 k
      else [c])"

definition repr_str :: "string \<Rightarrow> string" where
  "repr_str s =
     (let quote = (if CHR 0x27 \<in> set s \<and> CHR 0x22 \<notin> set s then CHR 0x22 else CHR 0x27)
      in [quote] @ concat (map (repr_char quote) s) @ [quote])"

fun joined :: "string \<Rightarrow> string list \<Rightarrow> string" where
  "joined sep [] = []"
| "joined sep [x] = x"
| "joined sep (x # y # zs) = x @ sep @ joined sep (y # zs)"

fun py_repr :: "json \<Rightarrow> string" where
  "py_repr JNull = ''None''"
| "py_repr (JBool b) = (if b then ''True'' else ''False'')"
| "py_repr (JInt i) = int_str i"
| "py_repr (JStr s) = repr_str s"
| "py_repr (JArr xs) = ''['' @ joined '', '' (map py_repr xs) @ '']''"
| "py_repr (JObj kvs) =
     [CHR 0x7B] @ joined '', '' (map (\<lambda>(k, v). repr_str k @ '': '' @ py_repr v) kvs) @ [CHR 0x7D]"

definition py_str :: "json \<Rightarrow> string" where
  "py_str j = (case j of JStr s \<Rightarrow> s | _ \<Rightarrow> py_repr j)"

section \<open>Truth, iteration and membership\<close>

text \<open>\<open>if j:\<close>\<close>

definition truthy :: "json \<Rightarrow> bool" where
  "truthy j \<longleftrightarrow> j \<notin> {JNull, JBool False, JInt 0, JStr [], JArr [], JObj []}"

text \<open>\<open>j.get(key, default)\<close>\<close>

definition j_get_default :: "json \<Rightarrow> string \<Rightarrow> json \<Rightarrow> exn + json" where
  "j_get_default j k d = sum_bind (j_get j k) (\<lambda>v. Inr (case v of None \<Rightarrow> d | Some x \<Rightarrow> x))"

text \<open>\<open>for x in j\<close>: the items of a list, the keys of an object, the characters of a string.\<close>

fun j_iter :: "json \<Rightarrow> exn + json list" where
  "j_iter (JArr xs) = Inr xs"
| "j_iter (JObj kvs) = Inr (map (JStr \<circ> fst) kvs)"
| "j_iter (JStr s) = Inr (map (\<lambda>c. JStr [c]) s)"
| "j_iter _ = Inl (TypeError ''object is not iterable'')"

text \<open>\<open>text in j\<close>, for a string on the left.\<close>

fun j_contains :: "json \<Rightarrow> string \<Rightarrow> exn + bool" where
  "j_contains (JArr xs) s = Inr (JStr s \<in> set xs)"
| "j_contains (JObj kvs) s = Inr (s \<in> fst ` set kvs)"
| "j_contains (JStr t) s = Inr (contains t s)"
| "j_contains _ s = Inl (TypeError ''argument is not iterable'')"

text \<open>
  A value as a member of a Python set: a list or an object has no hash, and \<open>True\<close> and \<open>False\<close>
  are the integers 1 and 0.
\<close>

fun j_key :: "json \<Rightarrow> exn + json" where
  "j_key (JArr _) = Inl (TypeError ''unhashable type: list'')"
| "j_key (JObj _) = Inl (TypeError ''unhashable type: dict'')"
| "j_key (JBool b) = Inr (JInt (if b then 1 else 0))"
| "j_key j = Inr j"

text \<open>
  A value where the source needs a string: the method call that fails otherwise, and the
  fields that the remote interface documents as strings (Python would carry another value
  on to the database driver, which refuses it).
\<close>

definition str_method :: "json \<Rightarrow> string \<Rightarrow> exn + string" where
  "str_method j method = (case j of JStr s \<Rightarrow> Inr s | _ \<Rightarrow> Inl (AttributeError method))"

definition str_field :: "json \<Rightarrow> exn + string" where
  "str_field j = (case j of JStr s \<Rightarrow> Inr s | _ \<Rightarrow> Inl (TypeError ''str expected''))"

section \<open>Numbers\<close>

text \<open>\<open>int(text)\<close>: surrounding whitespace, a sign, and digits with single underscores between.\<close>

definition digit_value :: "char \<Rightarrow> nat option" where
  "digit_value c = (let k = code c in if 48 \<le> k \<and> k \<le> 57 then Some (k - 48) else None)"

fun digits_rest :: "nat \<Rightarrow> string \<Rightarrow> nat option" where
  "digits_rest acc [] = Some acc"
| "digits_rest acc [c] = map_option (\<lambda>v. acc * 10 + v) (digit_value c)"
| "digits_rest acc (c # d # cs) =
     (case digit_value c of
        Some v \<Rightarrow> digits_rest (acc * 10 + v) (d # cs)
      | None \<Rightarrow> if c = CHR ''_''
                then (case digit_value d of Some v \<Rightarrow> digits_rest (acc * 10 + v) cs | None \<Rightarrow> None)
                else None)"

definition digits_start :: "string \<Rightarrow> nat option" where
  "digits_start s = (case s of [] \<Rightarrow> None
     | c # cs \<Rightarrow> (case digit_value c of Some v \<Rightarrow> digits_rest v cs | None \<Rightarrow> None))"

definition int_of_text :: "string \<Rightarrow> int option" where
  "int_of_text s =
     (case strip s of
        [] \<Rightarrow> None
      | c # cs \<Rightarrow> if c = CHR ''-'' then map_option (\<lambda>n. - int n) (digits_start cs)
                  else if c = CHR ''+'' then map_option int (digits_start cs)
                  else map_option int (digits_start (c # cs)))"

fun py_int :: "json \<Rightarrow> exn + int" where
  "py_int (JInt i) = Inr i"
| "py_int (JBool b) = Inr (if b then 1 else 0)"
| "py_int (JStr s) = (case int_of_text s of Some i \<Rightarrow> Inr i
     | None \<Rightarrow> Inl (ValueError (''invalid literal for int() with base 10: '' @ repr_str s)))"
| "py_int _ = Inl (TypeError ''int() argument must be a string or a real number'')"

end
