(* ===== verification/Replies.thy ===== *)
theory Replies
  imports Process_Jobs Json_Text
begin

text \<open>
  The consumer of classified replies: the feed over the outbox
  (\<open>contexts/campaign/infrastructure/messaging/reply_feed.py\<close>) and the handler that stops
  the lead a reply belongs to (\<open>contexts/campaign/application/handle_classified_replies.py\<close>).
\<close>

section \<open>The feed\<close>

definition REPLY_CLASSIFIED :: string where
  "REPLY_CLASSIFIED = ''ReplyClassified''"

record classified_reply =
  cl_event_id :: uuid
  cl_workspace_id :: uuid
  cl_matched_outbound_id :: "uuid option"
  cl_intent :: string

text \<open>\<open>version >= 2\<close> for the value of \<open>payload.get("event_version", 1)\<close>.\<close>

definition at_least_two :: "json option \<Rightarrow> exn + bool" where
  "at_least_two v = (case v of None \<Rightarrow> Inr False
     | Some (JInt i) \<Rightarrow> Inr (2 \<le> i)
     | Some (JBool b) \<Rightarrow> Inr False
     | Some _ \<Rightarrow> Inl (TypeError ''>= not supported''))"

text \<open>\<open>UUID(value) if value else None\<close>.\<close>

definition uuid_or_none :: "json option \<Rightarrow> exn + uuid option" where
  "uuid_or_none v = (case v of None \<Rightarrow> Inr None
     | Some (JStr s) \<Rightarrow> if s = [] then Inr None
                        else (case UUID_parse s of Inl e \<Rightarrow> Inl e | Inr u \<Rightarrow> Inr (Some u))
     | Some j \<Rightarrow> if j \<in> {JNull, JBool False, JInt 0, JArr [], JObj []} then Inr None
                 else Inl (AttributeError ''replace''))"

definition to_reply :: "outbox_event \<Rightarrow> exn + classified_reply" where
  "to_reply e =
     sum_bind (j_get (oe_payload e) ''event_version'') (\<lambda>version.
     sum_bind (at_least_two version) (\<lambda>current.
     sum_bind (if current then j_get (oe_payload e) ''matched_outbound_id'' else Inr None) (\<lambda>matched.
     sum_bind (uuid_or_none matched) (\<lambda>matched_id.
     sum_bind (j_item (oe_payload e) ''intent'') (\<lambda>intent.
       Inr \<lparr> cl_event_id = oe_id e, cl_workspace_id = oe_workspace_id e,
             cl_matched_outbound_id = matched_id, cl_intent = py_str intent \<rparr>)))))"

definition processed_rows :: "world \<Rightarrow> processed_event list" where
  "processed_rows w = filter (\<lambda>r. sees w (pe_workspace_id r)) (t_processed (db w))"

definition open_events :: "world \<Rightarrow> uuid \<Rightarrow> nat \<Rightarrow> outbox_event list" where
  "open_events w workspace_id lim =
     take lim (filter (\<lambda>r. oe_id r \<notin> set (row_locks w))
       (sort_key (\<lambda>r. (oe_created_at r, oe_id r))
         (filter (\<lambda>r. oe_workspace_id r = workspace_id \<and> oe_event_type r = REPLY_CLASSIFIED
            \<and> \<not> list_ex (\<lambda>p. pe_event_id p = oe_id r) (processed_rows w)) (outbox_rows w))))"

definition feed_claim :: "uuid \<Rightarrow> nat \<Rightarrow> classified_reply list act" where
  "feed_claim workspace_id lim =
     bindp (gets (\<lambda>w. open_events w workspace_id lim)) (mapp (\<lambda>e. lift (to_reply e)))"

definition feed_acknowledge :: "classified_reply \<Rightarrow> time \<Rightarrow> unit act" where
  "feed_acknowledge reply moment = (\<lambda>w.
     case row_security w (cl_workspace_id reply) of
       Some e \<Rightarrow> (Inl e, w)
     | None \<Rightarrow>
         if list_ex (\<lambda>p. pe_event_id p = cl_event_id reply) (t_processed (db w)) then (Inr (), w)
         else (Inr (), w\<lparr>db := (db w)\<lparr>t_processed := t_processed (db w) @
                [\<lparr> pe_event_id = cl_event_id reply, pe_workspace_id = cl_workspace_id reply,
                   pe_processed_at = moment \<rparr>]\<rparr>\<rparr>))"

section \<open>The handler\<close>

text \<open>
  \<open>stopped is lead\<close> holds exactly when \<open>stop_on_reply\<close> hands back its argument, which is
  when the result equals the lead (\<open>stop_on_reply_Inr_D\<close>).
\<close>

definition stop_lead :: "classified_reply \<Rightarrow> time \<Rightarrow> lead option act" where
  "stop_lead reply moment =
     (case cl_matched_outbound_id reply of None \<Rightarrow> ret None
      | Some outbound_id \<Rightarrow>
          bindp (jobs_find_lead_id outbound_id) (\<lambda>lead_id.
          bindp (case lead_id of None \<Rightarrow> ret None | Some i \<Rightarrow> leads_get i) (\<lambda>found.
            case found of None \<Rightarrow> ret None
            | Some l \<Rightarrow>
                bindp (campaigns_get (l_campaign_id l)) (\<lambda>campaign.
                  case campaign of None \<Rightarrow> ret None
                  | Some c \<Rightarrow>
                      (case stop_on_reply c l (cl_intent reply) moment of
                         Inl (LeadTransitionError _ _) \<Rightarrow> ret None
                       | Inl e \<Rightarrow> raise e
                       | Inr stopped \<Rightarrow>
                           if stopped = l then ret None
                           else thenp (leads_update_many [stopped])
                               (thenp (jobs_cancel_pending_for_lead (l_id l) moment)
                                 (ret (Some stopped))))))))"

definition handle_reply ::
  "(classified_reply \<Rightarrow> time \<Rightarrow> unit act) \<Rightarrow> time \<Rightarrow> classified_reply \<Rightarrow> lead list \<Rightarrow> lead list act" where
  "handle_reply acknowledge moment reply stopped =
     bindp (stop_lead reply moment) (\<lambda>l.
     thenp (acknowledge reply moment)
       (ret (case l of None \<Rightarrow> stopped | Some s \<Rightarrow> stopped @ [s])))"

definition handle_replies ::
  "(uuid \<Rightarrow> nat \<Rightarrow> classified_reply list act) \<Rightarrow> (classified_reply \<Rightarrow> time \<Rightarrow> unit act)
   \<Rightarrow> uuid \<Rightarrow> nat \<Rightarrow> time \<Rightarrow> lead list act" where
  "handle_replies claim acknowledge workspace_id lim moment =
     bindp (claim workspace_id lim) (\<lambda>replies.
       foldp (handle_reply acknowledge moment) replies [])"

definition run_replies :: "uuid \<Rightarrow> nat \<Rightarrow> time \<Rightarrow> lead list act" where
  "run_replies workspace_id lim moment =
     handle_replies feed_claim feed_acknowledge workspace_id lim moment"

section \<open>What a reply does\<close>

definition cancel_pending :: "uuid \<Rightarrow> time \<Rightarrow> world \<Rightarrow> world" where
  "cancel_pending lead_id moment w = w\<lparr>db := (db w)\<lparr>t_send_jobs :=
     update_rows (\<lambda>r. jr_lead_id r = lead_id \<and> jr_status r = JPENDING \<and> sees w (jr_workspace_id r))
       (\<lambda>r. r\<lparr>jr_status := JCANCELLED, jr_updated_at := moment\<rparr>) (t_send_jobs (db w))\<rparr>\<rparr>"

definition lead_of_outbound :: "world \<Rightarrow> uuid \<Rightarrow> uuid option" where
  "lead_of_outbound w outbound_id = map_option jr_lead_id
     (find (\<lambda>r. jr_outbound_message_id r = Some outbound_id) (send_job_rows w))"

lemma jobs_find_lead_id_run [proc_simps]: "jobs_find_lead_id i w = (Inr (lead_of_outbound w i), w)"
  by (simp add: jobs_find_lead_id_def lead_of_outbound_def)

lemma cancel_pending_frame [simp]:
  "guc (cancel_pending i m w) = guc w" "log_lines (cancel_pending i m w) = log_lines w"
  "wire (cancel_pending i m w) = wire w" "sees (cancel_pending i m w) = sees w"
  "t_leads (db (cancel_pending i m w)) = t_leads (db w)"
  "t_outbox (db (cancel_pending i m w)) = t_outbox (db w)"
  "t_processed (db (cancel_pending i m w)) = t_processed (db w)"
  "t_campaigns (db (cancel_pending i m w)) = t_campaigns (db w)"
  "t_steps (db (cancel_pending i m w)) = t_steps (db w)"
  by (simp_all add: cancel_pending_def sees_def fun_eq_iff)

lemma cancel_pending_lead_in [simp]: "lead_in (cancel_pending i m w) j = lead_in w j"
  by (rule lead_in_cong) simp_all

lemma stop_lead_cases:
  obtains (kept) "stop_lead reply moment w = (Inr None, w)"
  | (stops) out i l c l' where "cl_matched_outbound_id reply = Some out"
      "lead_of_outbound w out = Some i" "lead_in w i = Some l"
      "campaign_in w (l_campaign_id l) = Some c" "l_state l \<in> REPLYABLE_STATES"
      "stop_on_reply c l (cl_intent reply) moment = Inr l'" "is_stopped l'"
      "l_id l' = i" "l_steps_sent l' = l_steps_sent l"
      "stop_lead reply moment w = (Inr (Some l'), cancel_pending i moment (put_lead l' w))"
proof (cases "\<exists>out i l c. cl_matched_outbound_id reply = Some out \<and> lead_of_outbound w out = Some i
    \<and> lead_in w i = Some l \<and> campaign_in w (l_campaign_id l) = Some c")
  case False
  then have "stop_lead reply moment w = (Inr None, w)"
    by (auto simp: stop_lead_def bindp_run jobs_find_lead_id_run split: option.splits)
  then show ?thesis by (rule kept)
next
  case True
  then obtain out i l c where *: "cl_matched_outbound_id reply = Some out" "lead_of_outbound w out = Some i"
    "lead_in w i = Some l" "campaign_in w (l_campaign_id l) = Some c" by blast
  have id: "l_id l = i" by (rule lead_in_id [OF *(3)])
  have m: "l_campaign_id l = c_id c" using campaign_in_id [OF *(4)] by simp
  consider "is_stopped l" | "l_state l \<in> {PENDING, SCHEDULED}" | "l_state l \<in> REPLYABLE_STATES"
    by (cases "l_state l") (auto simp: is_stopped_def REPLYABLE_STATES_def)
  then show ?thesis
  proof cases
    case 1
    with * m have "stop_lead reply moment w = (Inr None, w)"
      by (simp add: stop_lead_def bindp_run jobs_find_lead_id_run stop_on_reply_stopped)
    then show ?thesis by (rule kept)
  next
    case 2
    with * m have "stop_lead reply moment w = (Inr None, w)"
      by (simp add: stop_lead_def bindp_run jobs_find_lead_id_run stop_on_reply_early)
    then show ?thesis by (rule kept)
  next
    case 3
    obtain l' where l': "stop_on_reply c l (cl_intent reply) moment = Inr l'"
      using stop_on_reply_bounce [OF m 3] stop_on_reply_reply [OF m 3]
      by (cases "cl_intent reply = BOUNCE_INTENT") auto
    have "\<not> is_stopped l" using 3 by (auto simp: is_stopped_def REPLYABLE_STATES_def)
    then have D: "is_stopped l'" "l' \<noteq> l" "l_id l' = i" "l_steps_sent l' = l_steps_sent l"
      using stop_on_reply_Inr_D(2) [OF l'] id by auto
    have "stop_lead reply moment w = (Inr (Some l'), cancel_pending i moment (put_lead l' w))"
      using * l' D id
      by (simp add: stop_lead_def bindp_run thenp_run jobs_find_lead_id_run update_many_one
            update_lead_run jobs_cancel_pending_for_lead_def cancel_pending_def)
    then show ?thesis using stops [OF * 3 l' D(1,3,4)] by blast
  qed
qed

end
