(* ===== verification/Matching.thy ===== *)
theory Matching
  imports Messaging
begin

text \<open>
  Reply matching, \<open>contexts/messaging/application/matching.py\<close>: message identifiers and
  subjects are normalised, and \<open>match_reply\<close> tries \<open>In-Reply-To\<close>, then \<open>References\<close>, then
  the provider's thread, then the subject together with the address. The dictionaries of
  the source keep the last candidate of a key, as a comprehension does.
\<close>

section \<open>Normalisation\<close>

text \<open>
  The pattern of a subject prefix, \<open>(re|fwd|fw)\s*:\s*\<close> at the start without regard to
  case. The alternatives are tried in their order; \<open>\s*\<close> before the colon backtracks only
  into whitespace, which is no colon, so the match is the alternative, the whole run of
  whitespace, the colon and the whole run after it. \<open>fwd\<close> and \<open>fw\<close> cannot both match.
\<close>

definition prefix_words :: "string list" where
  "prefix_words = [''re'', ''fwd'', ''fw'']"

fun match_prefix_words :: "string list \<Rightarrow> string \<Rightarrow> string option" where
  "match_prefix_words [] s = None"
| "match_prefix_words (p # ps) s =
     (if lower (take (length p) s) = p then
        (case dropWhile isspace (drop (length p) s) of
           c # rest \<Rightarrow> if c = CHR '':'' then Some (dropWhile isspace rest)
                       else match_prefix_words ps s
         | [] \<Rightarrow> match_prefix_words ps s)
      else match_prefix_words ps s)"

text \<open>\<open>_SUBJECT_PREFIX.sub("", text, count=1)\<close>.\<close>

definition sub_prefix :: "string \<Rightarrow> string" where
  "sub_prefix s = (case match_prefix_words prefix_words s of None \<Rightarrow> s | Some rest \<Rightarrow> rest)"

lemma match_prefix_words_Cons_D:
  "match_prefix_words (p # ps) s = Some r \<Longrightarrow>
     match_prefix_words ps s = Some r
     \<or> (\<exists>rest. dropWhile isspace (drop (length p) s) = CHR '':'' # rest \<and> r = dropWhile isspace rest)"
  by (auto split: if_splits list.splits)

lemma match_prefix_words_length:
  "[] \<notin> set ps \<Longrightarrow> match_prefix_words ps s = Some r \<Longrightarrow> length r < length s"
proof (induction ps)
  case (Cons p ps)
  from match_prefix_words_Cons_D [OF Cons.prems(2)] show ?case
  proof
    assume "match_prefix_words ps s = Some r"
    with Cons show ?thesis by simp
  next
    assume "\<exists>rest. dropWhile isspace (drop (length p) s) = CHR '':'' # rest \<and> r = dropWhile isspace rest"
    then obtain rest where d: "dropWhile isspace (drop (length p) s) = CHR '':'' # rest"
      and r: "r = dropWhile isspace rest" by blast
    have "length r \<le> length rest" using length_dropWhile_le r by blast
    moreover have "Suc (length rest) \<le> length s - length p"
      using length_dropWhile_le [of isspace "drop (length p) s"] by (simp add: d)
    ultimately show ?thesis by simp
  qed
qed simp

lemma sub_prefix_length: "sub_prefix s \<noteq> s \<Longrightarrow> length (sub_prefix s) < length s"
proof -
  assume ne: "sub_prefix s \<noteq> s"
  then obtain r where r: "match_prefix_words prefix_words s = Some r"
    by (cases "match_prefix_words prefix_words s") (auto simp: sub_prefix_def)
  then have "sub_prefix s = r" by (simp add: sub_prefix_def)
  moreover have "length r < length s"
    using match_prefix_words_length [OF _ r] by (simp add: prefix_words_def)
  ultimately show ?thesis by simp
qed

text \<open>The \<open>while True\<close> loop; each further round has a shorter text.\<close>

function strip_prefixes :: "string \<Rightarrow> string" where
  "strip_prefixes t =
     (let stripped = strip (sub_prefix t) in
      if stripped = t then t else strip_prefixes stripped)"
  by pat_completeness auto
termination
proof (relation "measure (\<lambda>s. if strip s = s then 2 * length s else 2 * length s + 1)", simp)
  fix t stripped
  assume s: "stripped = strip (sub_prefix t)" and ne: "stripped \<noteq> t"
  then have fixed: "strip stripped = stripped" by simp
  have "length stripped < length t \<or> (length stripped \<le> length t \<and> strip t \<noteq> t)"
  proof (cases "sub_prefix t = t")
    case True
    with s ne length_strip [of t] show ?thesis by auto
  next
    case False
    with sub_prefix_length [OF False] length_strip [of "sub_prefix t"] s show ?thesis by simp
  qed
  with fixed show "(stripped, t) \<in> measure (\<lambda>s. if strip s = s then 2 * length s else 2 * length s + 1)"
    by auto
qed

declare strip_prefixes.simps [simp del]

definition normalize_subject :: "string \<Rightarrow> string" where
  "normalize_subject subject = lower (strip_prefixes (strip subject))"

definition angle :: "char \<Rightarrow> bool" where
  "angle c \<longleftrightarrow> c = CHR ''<'' \<or> c = CHR ''>''"

definition normalize_message_id :: "string option \<Rightarrow> string option" where
  "normalize_message_id message_id =
     (case message_id of None \<Rightarrow> None
      | Some s \<Rightarrow> let stripped = lower (strip (strip_by angle (strip s)))
                  in if stripped = [] then None else Some stripped)"

definition reference_ids :: "string option \<Rightarrow> string list" where
  "reference_ids references_header =
     (case references_header of None \<Rightarrow> []
      | Some h \<Rightarrow> List.map_filter (\<lambda>token. normalize_message_id (Some token)) (split_ws h))"

section \<open>Matching\<close>

text \<open>A dictionary comprehension: later entries replace earlier ones.\<close>

definition dict_of :: "('k \<times> 'v) list \<Rightarrow> 'k \<rightharpoonup> 'v" where
  "dict_of kvs = map_of (rev kvs)"

definition by_message_id :: "outbound_message list \<Rightarrow> string \<rightharpoonup> outbound_message" where
  "by_message_id candidates = dict_of (List.map_filter
     (\<lambda>c. map_option (\<lambda>k. (k, c)) (normalize_message_id (Some (om_rfc822_message_id c)))) candidates)"

definition by_thread :: "outbound_message list \<Rightarrow> string \<rightharpoonup> outbound_message" where
  "by_thread candidates = dict_of (List.map_filter
     (\<lambda>c. map_option (\<lambda>k. (k, c)) (om_provider_thread_id c)) candidates)"

primrec first_reference :: "(string \<rightharpoonup> outbound_message) \<Rightarrow> string list \<Rightarrow> outbound_message option" where
  "first_reference d [] = None"
| "first_reference d (r # rs) = (case d r of Some c \<Rightarrow> Some c | None \<Rightarrow> first_reference d rs)"

definition match_reply :: "fetched_message \<Rightarrow> outbound_message list \<Rightarrow> outbound_message option" where
  "match_reply inbound candidates =
     (let d = by_message_id candidates;
          in_reply_to = normalize_message_id (fm_in_reply_to_header inbound)
      in case Option.bind in_reply_to d of Some c \<Rightarrow> Some c
       | None \<Rightarrow>
      (case first_reference d (reference_ids (fm_references_header inbound)) of Some c \<Rightarrow> Some c
       | None \<Rightarrow>
      (case by_thread candidates (fm_provider_thread_id inbound) of Some c \<Rightarrow> Some c
       | None \<Rightarrow>
      (let inbound_subject = normalize_subject (fm_subject inbound)
       in if inbound_subject \<noteq> []
          then find (\<lambda>c. lower (om_to_email c) = lower (fm_from_email inbound)
                       \<and> normalize_subject (om_subject c) = inbound_subject) candidates
          else None))))"

section \<open>Facts about subjects\<close>

lemma strip_prefixes_step: "strip_prefixes t = strip_prefixes (strip (sub_prefix t))"
  by (cases "strip (sub_prefix t) = t") (simp_all add: strip_prefixes.simps [of t] Let_def)

lemma strip_prefixes_fixed: "strip (sub_prefix (strip_prefixes t)) = strip_prefixes t"
proof (induction t rule: strip_prefixes.induct)
  case (1 t)
  show ?case
  proof (cases "strip (sub_prefix t) = t")
    case True
    then have "strip_prefixes t = t" by (subst strip_prefixes.simps) (simp add: Let_def)
    with True show ?thesis by simp
  next
    case False
    with "1.IH" [OF refl False] show ?thesis by (metis strip_prefixes_step)
  qed
qed

lemma strip_prefixes_of_fixed: "strip (sub_prefix t) = t \<Longrightarrow> strip_prefixes t = t"
  by (subst strip_prefixes.simps) (simp add: Let_def)

lemma strip_strip_prefixes [simp]: "strip (strip_prefixes t) = strip_prefixes t"
  by (metis strip_idem strip_prefixes_fixed)

lemma lower_char_colon [simp]: "lower_char c = CHR '':'' \<longleftrightarrow> c = CHR '':''"
proof
  assume "lower_char c = CHR '':''"
  then have "code (lower_char c) = 58" by simp
  then have "code c = 58" by (auto simp: code_lower_char isupper_def Let_def split: if_splits)
  then have "char_of (code c) = (char_of (58 :: nat) :: char)" by (rule arg_cong)
  then show "c = CHR '':''" by (simp add: char_of_eq_iff)
qed (simp add: lower_char_def isupper_def)

lemma lower_Cons: "lower (c # cs) = lower_char c # lower cs"
  by (simp add: lower_def)

lemma take_lower: "take n (lower s) = lower (take n s)"
  and drop_lower: "drop n (lower s) = lower (drop n s)"
  by (simp_all add: lower_def take_map drop_map)

lemma match_prefix_words_lower:
  "match_prefix_words ps (lower s) = map_option lower (match_prefix_words ps s)"
proof (induction ps)
  case (Cons p ps)
  have "dropWhile isspace (drop (length p) (lower s)) = lower (dropWhile isspace (drop (length p) s))"
    by (simp add: drop_lower dropWhile_isspace_lower)
  with Cons show ?case
    by (cases "dropWhile isspace (drop (length p) s)")
       (simp_all add: take_lower lower_Cons dropWhile_isspace_lower del: dropWhile_eq_Nil_conv)
qed simp

lemma sub_prefix_lower: "sub_prefix (lower s) = lower (sub_prefix s)"
  by (simp add: sub_prefix_def match_prefix_words_lower split: option.splits)

lemma strip_prefixes_lower: "strip_prefixes (lower t) = lower (strip_prefixes t)"
proof (induction t rule: strip_prefixes.induct)
  case (1 t)
  have s: "strip (sub_prefix (lower t)) = lower (strip (sub_prefix t))"
    by (simp add: sub_prefix_lower strip_lower)
  show ?case
  proof (cases "strip (sub_prefix t) = t")
    case True
    with s show ?thesis by (simp add: strip_prefixes_of_fixed)
  next
    case False
    with 1 s show ?thesis by (metis strip_prefixes_step)
  qed
qed

lemma normalize_subject_lower: "normalize_subject (lower s) = normalize_subject s"
  by (simp add: normalize_subject_def strip_lower strip_prefixes_lower)

lemma normalize_subject_idempotent: "normalize_subject (normalize_subject s) = normalize_subject s"
proof -
  let ?t = "strip_prefixes (strip s)"
  have "strip (sub_prefix (lower ?t)) = lower ?t"
    by (simp add: sub_prefix_lower strip_lower strip_prefixes_fixed)
  then have "strip_prefixes (lower ?t) = lower ?t" by (rule strip_prefixes_of_fixed)
  then show ?thesis by (simp add: normalize_subject_def strip_lower)
qed

lemma normalize_subject_Re: "normalize_subject (''Re: '' @ s) = normalize_subject s"
proof -
  have chars: "isspace CHR '' ''" "\<not> isspace CHR ''R''" "\<not> isspace CHR '':''"
    by (simp_all add: isspace_def)
  have re: "lower ''Re'' = ''re''" by (simp add: lower_def lower_char_def isupper_def char_of_eq_iff)
  obtain a c where s: "s = a @ strip s @ c" and b: "blank a" "blank c" "trimmed (strip s)"
    by (rule strip_decomp)
  have "strip (sub_prefix (strip (''Re: '' @ s))) = strip s"
  proof (cases "strip s = []")
    case True
    with s b chars have "blank ('' '' @ s)" by (auto simp: blank_def)
    then have "strip ([] @ ''Re:'' @ '' '' @ s) = ''Re:''"
      by (intro strip_unique) (auto simp: blank_def trimmed_def chars)
    with True re chars show ?thesis by (simp add: sub_prefix_def prefix_words_def)
  next
    case False
    with b chars have "trimmed (''Re: '' @ a @ strip s)" by (simp add: trimmed_def)
    then have "strip ([] @ (''Re: '' @ a @ strip s) @ c) = ''Re: '' @ a @ strip s"
      by (intro strip_unique b(2)) (simp_all add: blank_def)
    with s have st: "strip (''Re: '' @ s) = ''Re: '' @ a @ strip s" by simp
    have "dropWhile isspace (a @ strip s) = strip s"
      using False b(1,3) by (auto simp: dropWhile_blank trimmed_def intro: dropWhile_hd)
    with st re chars show ?thesis by (simp add: sub_prefix_def prefix_words_def)
  qed
  then have "strip_prefixes (strip (''Re: '' @ s)) = strip_prefixes (strip s)"
    by (metis strip_prefixes_step)
  then show ?thesis by (simp add: normalize_subject_def)
qed

section \<open>Facts about matching\<close>

text \<open>The reasons for which a candidate answers an inbound message.\<close>

definition same_message_id :: "fetched_message \<Rightarrow> outbound_message \<Rightarrow> bool" where
  "same_message_id f c \<longleftrightarrow> normalize_message_id (fm_in_reply_to_header f) \<noteq> None
     \<and> normalize_message_id (Some (om_rfc822_message_id c)) = normalize_message_id (fm_in_reply_to_header f)"

definition referenced :: "fetched_message \<Rightarrow> outbound_message \<Rightarrow> bool" where
  "referenced f c \<longleftrightarrow> (\<exists>r\<in>set (reference_ids (fm_references_header f)).
     normalize_message_id (Some (om_rfc822_message_id c)) = Some r)"

definition same_thread :: "fetched_message \<Rightarrow> outbound_message \<Rightarrow> bool" where
  "same_thread f c \<longleftrightarrow> om_provider_thread_id c = Some (fm_provider_thread_id f)"

definition same_subject :: "fetched_message \<Rightarrow> outbound_message \<Rightarrow> bool" where
  "same_subject f c \<longleftrightarrow> lower (om_to_email c) = lower (fm_from_email f)
     \<and> normalize_subject (om_subject c) = normalize_subject (fm_subject f)
     \<and> normalize_subject (fm_subject f) \<noteq> []"

lemma map_filter_pair:
  "(k, v) \<in> set (List.map_filter (\<lambda>c. map_option (\<lambda>k. (k, c)) (f c)) cs) \<longleftrightarrow> v \<in> set cs \<and> f v = Some k"
  by (induction cs) (auto split: option.splits)

lemma dict_of_Some: "dict_of kvs k = Some v \<Longrightarrow> (k, v) \<in> set kvs"
  by (auto simp: dict_of_def dest: map_of_SomeD)

lemma dict_of_None: "dict_of kvs k = None \<longleftrightarrow> (\<forall>v. (k, v) \<notin> set kvs)"
  by (force simp: dict_of_def map_of_eq_None_iff)

lemma by_message_id_Some:
  "by_message_id cs k = Some c \<Longrightarrow> c \<in> set cs \<and> normalize_message_id (Some (om_rfc822_message_id c)) = Some k"
  unfolding by_message_id_def by (drule dict_of_Some) (simp add: map_filter_pair)

lemma by_message_id_None:
  "by_message_id cs k = None \<longleftrightarrow> (\<forall>c\<in>set cs. normalize_message_id (Some (om_rfc822_message_id c)) \<noteq> Some k)"
  by (auto simp: by_message_id_def dict_of_None map_filter_pair)

lemma by_thread_Some: "by_thread cs k = Some c \<Longrightarrow> c \<in> set cs \<and> om_provider_thread_id c = Some k"
  unfolding by_thread_def by (drule dict_of_Some) (simp add: map_filter_pair)

lemma by_thread_None: "by_thread cs k = None \<longleftrightarrow> (\<forall>c\<in>set cs. om_provider_thread_id c \<noteq> Some k)"
  by (auto simp: by_thread_def dict_of_None map_filter_pair)

lemma first_reference_Some:
  "first_reference d rs = Some c \<Longrightarrow> \<exists>r\<in>set rs. d r = Some c"
  by (induction rs) (auto split: option.splits)

lemma first_reference_None: "first_reference d rs = None \<longleftrightarrow> (\<forall>r\<in>set rs. d r = None)"
  by (induction rs) (auto split: option.splits)

text \<open>The four tiers of \<open>match_reply\<close>, each as the candidate it finds.\<close>

definition tier_reply_to :: "fetched_message \<Rightarrow> outbound_message list \<Rightarrow> outbound_message option" where
  "tier_reply_to f cs = Option.bind (normalize_message_id (fm_in_reply_to_header f)) (by_message_id cs)"

definition tier_references :: "fetched_message \<Rightarrow> outbound_message list \<Rightarrow> outbound_message option" where
  "tier_references f cs = first_reference (by_message_id cs) (reference_ids (fm_references_header f))"

definition tier_subject :: "fetched_message \<Rightarrow> outbound_message list \<Rightarrow> outbound_message option" where
  "tier_subject f cs = find (same_subject f) cs"

lemma match_reply_tiers:
  "match_reply f cs =
     (case tier_reply_to f cs of Some c \<Rightarrow> Some c | None \<Rightarrow>
     (case tier_references f cs of Some c \<Rightarrow> Some c | None \<Rightarrow>
     (case by_thread cs (fm_provider_thread_id f) of Some c \<Rightarrow> Some c | None \<Rightarrow> tier_subject f cs)))"
proof -
  have "tier_subject f cs =
      (if normalize_subject (fm_subject f) \<noteq> []
       then find (\<lambda>c. lower (om_to_email c) = lower (fm_from_email f)
               \<and> normalize_subject (om_subject c) = normalize_subject (fm_subject f)) cs
       else None)"
    by (induction cs) (auto simp: tier_subject_def same_subject_def)
  then show ?thesis
    unfolding match_reply_def tier_reply_to_def tier_references_def Let_def by (simp only:)
qed

lemma tier_reply_to_Some: "tier_reply_to f cs = Some c \<Longrightarrow> c \<in> set cs \<and> same_message_id f c"
  by (auto simp: tier_reply_to_def same_message_id_def bind_eq_Some_conv dest: by_message_id_Some)

lemma tier_reply_to_None: "tier_reply_to f cs = None \<longleftrightarrow> (\<forall>c\<in>set cs. \<not> same_message_id f c)"
  by (cases "normalize_message_id (fm_in_reply_to_header f)")
     (auto simp: tier_reply_to_def same_message_id_def by_message_id_None)

lemma tier_references_Some: "tier_references f cs = Some c \<Longrightarrow> c \<in> set cs \<and> referenced f c"
  by (auto simp: tier_references_def referenced_def dest!: first_reference_Some by_message_id_Some)

lemma tier_references_None: "tier_references f cs = None \<longleftrightarrow> (\<forall>c\<in>set cs. \<not> referenced f c)"
  by (auto simp: tier_references_def referenced_def first_reference_None by_message_id_None)

lemma by_thread_same_thread:
  "by_thread cs (fm_provider_thread_id f) = Some c \<Longrightarrow> c \<in> set cs \<and> same_thread f c"
  by (auto simp: same_thread_def dest: by_thread_Some)

lemma tier_subject_Some: "tier_subject f cs = Some c \<Longrightarrow> c \<in> set cs \<and> same_subject f c"
  unfolding tier_subject_def by (rule find_Some_in)

lemma match_reply_Some:
  assumes "match_reply f cs = Some c"
  shows "c \<in> set cs"
    and "same_message_id f c
      \<or> (\<forall>c'\<in>set cs. \<not> same_message_id f c') \<and> (referenced f c
      \<or> (\<forall>c'\<in>set cs. \<not> referenced f c') \<and> (same_thread f c
      \<or> (\<forall>c'\<in>set cs. \<not> same_thread f c') \<and> same_subject f c))"
proof -
  have none: "by_thread cs (fm_provider_thread_id f) = None \<Longrightarrow> \<forall>c'\<in>set cs. \<not> same_thread f c'"
    by (simp add: by_thread_None same_thread_def)
  have "c \<in> set cs \<and> (same_message_id f c
      \<or> (\<forall>c'\<in>set cs. \<not> same_message_id f c') \<and> (referenced f c
      \<or> (\<forall>c'\<in>set cs. \<not> referenced f c') \<and> (same_thread f c
      \<or> (\<forall>c'\<in>set cs. \<not> same_thread f c') \<and> same_subject f c)))"
    using assms none unfolding match_reply_tiers
    by (cases "tier_reply_to f cs"; cases "tier_references f cs";
        cases "by_thread cs (fm_provider_thread_id f)")
       (auto simp: tier_reply_to_None tier_references_None
          dest: tier_reply_to_Some tier_references_Some by_thread_same_thread tier_subject_Some)
  then show "c \<in> set cs"
    and "same_message_id f c
      \<or> (\<forall>c'\<in>set cs. \<not> same_message_id f c') \<and> (referenced f c
      \<or> (\<forall>c'\<in>set cs. \<not> referenced f c') \<and> (same_thread f c
      \<or> (\<forall>c'\<in>set cs. \<not> same_thread f c') \<and> same_subject f c))" by blast+
qed

lemma match_reply_None:
  "match_reply f cs = None \<longleftrightarrow> (\<forall>c\<in>set cs. \<not> same_message_id f c \<and> \<not> referenced f c
      \<and> \<not> same_thread f c \<and> \<not> same_subject f c)"
proof -
  have "by_thread cs (fm_provider_thread_id f) = None \<longleftrightarrow> (\<forall>c\<in>set cs. \<not> same_thread f c)"
    by (simp add: by_thread_None same_thread_def)
  moreover have "tier_subject f cs = None \<longleftrightarrow> (\<forall>c\<in>set cs. \<not> same_subject f c)"
    by (simp add: tier_subject_def find_None)
  ultimately show ?thesis
    unfolding match_reply_tiers
    using tier_reply_to_None [of f cs] tier_references_None [of f cs]
    by (auto split: option.splits)
qed

end
