(* ===== verification/Classifier.thy ===== *)
theory Classifier
  imports Messaging Json
begin

text \<open>
  Intent classification (\<open>contexts/messaging/infrastructure/classifier\<close> and \<open>llm\<close>): the
  keyword rules, the label parser with its fallback, the two chat clients and the choice
  between them.
\<close>

section \<open>The rules\<close>

definition RULES :: "(intent \<times> string list) list" where
  "RULES =
    [(UNSUBSCRIBE,
      [''unsubscribe'', ''remove me'', ''opt out'', ''opt-out'', ''take me off'',
       ''stop emailing'', ''stop contacting'']),
     (OOO,
      [''out of office'', ''ooo'', ''on vacation'', ''annual leave'', ''parental leave'',
       ''maternity leave'', ''currently away'', ''away until'', ''auto-reply'', ''autoreply'',
       ''automatic reply'']),
     (NEGATIVE,
      [''not interested'', ''no thanks'', ''no thank you'', ''not a fit'', ''not the right'',
       ''we pass'', ''please stop'', ''do not contact'', ''don'' @ [CHR 0x27] @ ''t contact'',
       ''no need'']),
     (POSITIVE,
      [''interested'', ''sounds good'', ''let'' @ [CHR 0x27] @ ''s talk'', ''lets talk'',
       ''let'' @ [CHR 0x27] @ ''s chat'', ''lets chat'', ''happy to'', ''book a'', ''schedule a'',
       ''set up a call'', ''tell me more'', ''works for me'', ''yes please'', ''yes''])]"

text \<open>
  The pattern of a rule is the alternation of \<open>\b\<close>, the escaped keyword and \<open>\b\<close>; a search
  finds it when some keyword stands somewhere between two word boundaries. \<open>prev\<close> tells
  whether the character before the rest of the text is a word character.
\<close>

definition next_is_word :: "string \<Rightarrow> bool" where
  "next_is_word s = (case s of [] \<Rightarrow> False | c # _ \<Rightarrow> word_char c)"

definition keyword_at :: "bool \<Rightarrow> string \<Rightarrow> string \<Rightarrow> bool" where
  "keyword_at prev s k \<longleftrightarrow> startswith s k \<and> prev \<noteq> next_is_word s
     \<and> (if k = [] then prev else word_char (last k)) \<noteq> next_is_word (drop (length k) s)"

fun keyword_search :: "bool \<Rightarrow> string \<Rightarrow> string \<Rightarrow> bool" where
  "keyword_search prev [] k = keyword_at prev [] k"
| "keyword_search prev (c # cs) k =
     (keyword_at prev (c # cs) k \<or> keyword_search (word_char c) cs k)"

definition pattern_search :: "string list \<Rightarrow> string \<Rightarrow> bool" where
  "pattern_search keywords haystack = list_ex (keyword_search False haystack) keywords"

definition deterministic_classify :: "string \<Rightarrow> string \<Rightarrow> intent" where
  "deterministic_classify subject body =
     (let haystack = lower (subject @ [CHR 0x0A] @ body)
      in case find (\<lambda>(i, keywords). pattern_search keywords haystack) RULES of
           Some (i, _) \<Rightarrow> i
         | None \<Rightarrow> UNCLEAR)"

section \<open>The language model\<close>

text \<open>The label set: every intent but \<open>BOUNCE\<close>.\<close>

definition CLASSIFIER_LABELS :: "intent set" where
  "CLASSIFIER_LABELS = set Enum.enum - {BOUNCE}"

definition parse_label :: "string \<Rightarrow> exn + intent" where
  "parse_label answer =
     (case intent_of (lower (strip answer)) of
        None \<Rightarrow> Inl (ValueError (lower (strip answer) @ '' is not a valid Intent''))
      | Some i \<Rightarrow> if i \<notin> CLASSIFIER_LABELS
                  then Inl (ValueError (intent_value i @ '' is not a classifier label''))
                  else Inr i)"

definition prompt_text :: "string \<Rightarrow> string \<Rightarrow> string" where
  "prompt_text subject body =
     ''Classify the intent of this email reply. Reply with exactly one word from: ''
     @ ''positive, negative, ooo, unsubscribe, unclear.'' @ [CHR 0x0A, CHR 0x0A]
     @ ''Subject: '' @ subject @ [CHR 0x0A, CHR 0x0A] @ ''Body: '' @ body"

text \<open>The exceptions that \<open>LlmIntentClassifier.classify\<close> turns into the fallback.\<close>

fun falls_back :: "exn \<Rightarrow> bool" where
  "falls_back (HTTPError _ _) = True"
| "falls_back (KeyError _) = True"
| "falls_back (IndexError _) = True"
| "falls_back (TypeError _) = True"
| "falls_back (ValueError _) = True"
| "falls_back (AttributeError _) = True"
| "falls_back _ = False"

definition llm_classify :: "(string \<Rightarrow> exn + string) \<Rightarrow> string \<Rightarrow> string \<Rightarrow> exn + intent" where
  "llm_classify complete subject body =
     (case sum_bind (complete (prompt_text subject body)) parse_label of
        Inr i \<Rightarrow> Inr i
      | Inl e \<Rightarrow> if falls_back e then Inr (deterministic_classify subject body) else Inl e)"

text \<open>
  The chat clients. What they return is typed \<open>str\<close>; a value of another JSON type has no
  \<open>strip\<close>, which the label parser meets as an \<open>AttributeError\<close>.
\<close>

definition as_text :: "json \<Rightarrow> exn + string" where
  "as_text j = (case j of JStr s \<Rightarrow> Inr s | _ \<Rightarrow> Inl (AttributeError ''strip''))"

definition anthropic_complete ::
  "http_client \<Rightarrow> string \<Rightarrow> string \<Rightarrow> string \<Rightarrow> exn + string" where
  "anthropic_complete post api_key model prompt =
     sum_bind (post \<lparr> rq_url = ''https://api.anthropic.com/v1/messages'',
         rq_headers = [(''x-api-key'', api_key), (''anthropic-version'', ''2023-06-01''),
                       (''content-type'', ''application/json'')],
         rq_body = JObj [(''model'', JStr model), (''max_tokens'', JInt 16),
           (''messages'', JArr [JObj [(''role'', JStr ''user''), (''content'', JStr prompt)]])] \<rparr>)
    (\<lambda>response. sum_bind (raise_for_status response)
    (\<lambda>response. sum_bind (rs_json response)
    (\<lambda>data. sum_bind (j_item data ''content'')
    (\<lambda>content. sum_bind (j_nth content 0)
    (\<lambda>block. sum_bind (j_item block ''text'') as_text)))))"

definition openai_complete ::
  "http_client \<Rightarrow> string \<Rightarrow> string \<Rightarrow> string \<Rightarrow> exn + string" where
  "openai_complete post api_key model prompt =
     sum_bind (post \<lparr> rq_url = ''https://api.openai.com/v1/chat/completions'',
         rq_headers = [(''authorization'', ''Bearer '' @ api_key),
                       (''content-type'', ''application/json'')],
         rq_body = JObj [(''model'', JStr model), (''max_tokens'', JInt 16),
           (''messages'', JArr [JObj [(''role'', JStr ''user''), (''content'', JStr prompt)]])] \<rparr>)
    (\<lambda>response. sum_bind (raise_for_status response)
    (\<lambda>response. sum_bind (rs_json response)
    (\<lambda>data. sum_bind (j_item data ''choices'')
    (\<lambda>choices. sum_bind (j_nth choices 0)
    (\<lambda>choice. sum_bind (j_item choice ''message'')
    (\<lambda>message. sum_bind (j_item message ''content'') as_text))))))"

section \<open>The choice of a classifier\<close>

datatype llm_provider = ANTHROPIC | OPENAI

record llm_settings =
  llm_enabled :: bool
  llm_provider_name :: llm_provider
  anthropic_api_key :: string
  openai_api_key :: string

definition build_intent_classifier ::
  "('z llm_settings_scheme) \<Rightarrow> http_client \<Rightarrow> string \<Rightarrow> string \<Rightarrow> exn + intent" where
  "build_intent_classifier settings client =
     (if \<not> llm_enabled settings then (\<lambda>subject body. Inr (deterministic_classify subject body))
      else if llm_provider_name settings = ANTHROPIC \<and> anthropic_api_key settings \<noteq> []
      then llm_classify (anthropic_complete client (anthropic_api_key settings) ''claude-3-5-haiku-latest'')
      else if llm_provider_name settings = OPENAI \<and> openai_api_key settings \<noteq> []
      then llm_classify (openai_complete client (openai_api_key settings) ''gpt-4o-mini'')
      else (\<lambda>subject body. Inr (deterministic_classify subject body)))"

section \<open>What a classifier promises\<close>

text \<open>
  The port \<open>IntentClassifierPort\<close>: every label it returns is one a classifier may give.
  The consumer's lemma is that a classified reply is never taken for a bounce.
\<close>

locale intent_classifier =
  fixes classify :: "string \<Rightarrow> string \<Rightarrow> exn + intent"
  assumes label: "classify subject body = Inr i \<Longrightarrow> i \<in> CLASSIFIER_LABELS"
begin

lemma never_bounce: "classify subject body \<noteq> Inr BOUNCE"
  using label [of subject body BOUNCE] by (auto simp: CLASSIFIER_LABELS_def)

end

lemma CLASSIFIER_LABELS_iff [simp]: "i \<in> CLASSIFIER_LABELS \<longleftrightarrow> i \<noteq> BOUNCE"
  by (cases i) (auto simp: CLASSIFIER_LABELS_def enum_intent_def)

lemma deterministic_not_bounce [simp]: "deterministic_classify s b \<noteq> BOUNCE"
  by (simp add: deterministic_classify_def RULES_def Let_def)

lemma parse_label_Inr: "parse_label a = Inr i \<longleftrightarrow> lower (strip a) = intent_value i \<and> i \<noteq> BOUNCE"
  by (auto simp: parse_label_def intent_of_Some split: option.splits if_splits)

lemma llm_not_bounce: "llm_classify complete s b = Inr i \<Longrightarrow> i \<noteq> BOUNCE"
  by (auto simp: llm_classify_def sum_bind_def parse_label_Inr split: sum.splits if_splits)

interpretation rules: intent_classifier "\<lambda>s b. Inr (deterministic_classify s b)"
  by unfold_locales auto

interpretation built: intent_classifier "build_intent_classifier settings client"
  by unfold_locales (auto simp: build_intent_classifier_def dest: llm_not_bounce split: if_splits)

text \<open>The searches in terms of occurrences between word boundaries.\<close>

definition prev_is_word :: "string \<Rightarrow> bool" where
  "prev_is_word s \<longleftrightarrow> s \<noteq> [] \<and> word_char (last s)"

definition occurs_as_word :: "string \<Rightarrow> string \<Rightarrow> bool" where
  "occurs_as_word k s \<longleftrightarrow> (\<exists>a b. s = a @ k @ b \<and> prev_is_word a \<noteq> next_is_word (k @ b)
     \<and> prev_is_word (a @ k) \<noteq> next_is_word b)"

lemma occurrence_cases:
  "(\<exists>a b. c # cs = a @ k @ b \<and> P a b) \<longleftrightarrow>
     (\<exists>b. c # cs = k @ b \<and> P [] b) \<or> (\<exists>a b. cs = a @ k @ b \<and> P (c # a) b)"
    (is "?l \<longleftrightarrow> ?n \<or> ?c")
proof
  assume ?l
  then obtain a b where "c # cs = a @ k @ b" "P a b" by blast
  then show "?n \<or> ?c" by (cases a) auto
next
  assume "?n \<or> ?c"
  then show ?l
  proof
    assume ?n
    then obtain b where "c # cs = [] @ k @ b" "P [] b" by auto
    then show ?l by blast
  next
    assume ?c
    then obtain a b where "c # cs = (c # a) @ k @ b" "P (c # a) b" by auto
    then show ?l by blast
  qed
qed

lemma keyword_search_iff:
  assumes "k \<noteq> []"
  shows "keyword_search (prev_is_word p) s k \<longleftrightarrow>
    (\<exists>a b. s = a @ k @ b \<and> prev_is_word (p @ a) \<noteq> next_is_word (k @ b)
       \<and> prev_is_word (p @ a @ k) \<noteq> next_is_word b)"
    (is "_ \<longleftrightarrow> (\<exists>a b. ?occ p s a b)")
proof (induction s arbitrary: p)
  case Nil
  with assms show ?case by (simp add: keyword_at_def startswith_iff)
next
  case (Cons c cs)
  have at: "keyword_at (prev_is_word p) (c # cs) k \<longleftrightarrow> (\<exists>b. ?occ p (c # cs) [] b)"
    using assms by (auto simp: keyword_at_def startswith_iff prev_is_word_def)
  have step: "prev_is_word (p @ [c]) = word_char c" by (simp add: prev_is_word_def)
  have "(\<exists>a b. ?occ p (c # cs) a b) \<longleftrightarrow>
      (\<exists>b. ?occ p (c # cs) [] b) \<or> (\<exists>a b. ?occ (p @ [c]) cs a b)"
    using occurrence_cases [of c cs k "\<lambda>a b. prev_is_word (p @ a) \<noteq> next_is_word (k @ b)
      \<and> prev_is_word (p @ a @ k) \<noteq> next_is_word b"] by simp
  then show ?case
    using at Cons.IH [of "p @ [c]"] unfolding step by simp
qed

lemma keyword_search_occurs: "k \<noteq> [] \<Longrightarrow> keyword_search False s k \<longleftrightarrow> occurs_as_word k s"
  using keyword_search_iff [of k "[]" s] by (simp add: occurs_as_word_def prev_is_word_def)

lemma RULES_keywords: "(i, ks) \<in> set RULES \<Longrightarrow> k \<in> set ks \<Longrightarrow> k \<noteq> []"
  by (auto simp: RULES_def)

lemma pattern_search_iff:
  assumes "(i, ks) \<in> set RULES"
  shows "pattern_search ks s \<longleftrightarrow> (\<exists>k\<in>set ks. occurs_as_word k s)"
proof -
  have "keyword_search False s k \<longleftrightarrow> occurs_as_word k s" if "k \<in> set ks" for k
    using RULES_keywords [OF assms that] by (rule keyword_search_occurs)
  then show ?thesis by (auto simp: pattern_search_def list_ex_iff)
qed

section \<open>Failures of the language model\<close>

lemma j_item_Inl: "j_item j k = Inl e \<Longrightarrow> falls_back e"
  by (cases "(j, k)" rule: j_item.cases) (auto split: option.splits)

lemma j_nth_Inl: "j_nth j i = Inl e \<Longrightarrow> falls_back e"
  by (cases "(j, i)" rule: j_nth.cases) (auto split: option.splits)

lemma as_text_Inl: "as_text j = Inl e \<Longrightarrow> falls_back e"
  by (auto simp: as_text_def split: json.splits)

lemma parse_label_Inl: "parse_label a = Inl e \<Longrightarrow> falls_back e"
  by (auto simp: parse_label_def split: option.splits if_splits)

lemma raise_for_status_Inl: "raise_for_status r = Inl e \<Longrightarrow> falls_back e"
  by (auto simp: raise_for_status_def split: if_splits)

lemma sum_bind_Inl: "sum_bind r f = Inl e \<longleftrightarrow> r = Inl e \<or> (\<exists>x. r = Inr x \<and> f x = Inl e)"
  by (cases r) auto

lemma raise_for_status_Inr: "raise_for_status r = Inr r' \<Longrightarrow> r' = r"
  by (simp add: raise_for_status_def split: if_splits)

lemmas client_failures = j_item_Inl j_nth_Inl as_text_Inl raise_for_status_Inl

lemma complete_falls_back:
  assumes "\<And>rq e. client rq = Inl e \<Longrightarrow> falls_back e"
    and "\<And>rq r e. client rq = Inr r \<Longrightarrow> rs_json r = Inl e \<Longrightarrow> falls_back e"
  shows "anthropic_complete client key model prompt = Inl e \<Longrightarrow> falls_back e"
    and "openai_complete client key model prompt = Inl e \<Longrightarrow> falls_back e"
  using assms client_failures
  by (auto simp: anthropic_complete_def openai_complete_def sum_bind_Inl dest!: raise_for_status_Inr)

lemma llm_total:
  assumes "\<And>p e. complete p = Inl e \<Longrightarrow> falls_back e"
  shows "\<exists>i. llm_classify complete s b = Inr i"
proof (cases "sum_bind (complete (prompt_text s b)) parse_label")
  case (Inl e)
  then have "falls_back e" using assms parse_label_Inl by (auto simp: sum_bind_Inl)
  then show ?thesis by (simp add: llm_classify_def Inl)
qed (simp add: llm_classify_def)

lemma complete_request_fails:
  assumes "\<And>rq. \<exists>e. client rq = Inl e"
  shows "\<exists>e. anthropic_complete client key model prompt = Inl e"
    and "\<exists>e. openai_complete client key model prompt = Inl e"
  by (simp_all add: anthropic_complete_def openai_complete_def sum_bind_Inl) (use assms in blast)+

lemma llm_request_fails:
  assumes "\<And>p e. complete p = Inl e \<Longrightarrow> falls_back e" and "\<And>p. \<exists>e. complete p = Inl e"
  shows "llm_classify complete s b = Inr (deterministic_classify s b)"
proof -
  obtain e where e: "complete (prompt_text s b) = Inl e" using assms(2) by blast
  with assms(1) have "falls_back e" by blast
  with e show ?thesis by (simp add: llm_classify_def)
qed

end
