(* ===== verification/Poll_Inbox.thy ===== *)
theory Poll_Inbox
  imports Messaging_Repos Matching Classifier
begin

text \<open>
  Polling a mailbox, \<open>contexts/messaging/application/poll_inbox.py\<close>: every message that was
  not seen before is stored and announced, matched to an email that was sent, classified,
  and turned into a suppression where its intent asks for one; the cursor moves last.
\<close>

definition REPLY_CLASSIFIED_VERSION :: int where
  "REPLY_CLASSIFIED_VERSION = 2"

definition suppression_for :: "intent \<Rightarrow> suppression_reason option" where
  "suppression_for i =
     (if i = UNSUBSCRIBE then Some SUPPRESS_UNSUBSCRIBE
      else if i = BOUNCE then Some HARD_BOUNCE else None)"

record poll_result =
  pr_processed :: nat
  pr_classified :: "intent list"

text \<open>
  A receiver answers from the state of the mail service, which the world's tables do not
  hold: its answer may depend on everything that happened, and it writes nothing.
\<close>

type_synonym receiver = "string \<Rightarrow> string option \<Rightarrow> world \<Rightarrow> exn + fetch_result"
type_synonym classifier = "string \<Rightarrow> string \<Rightarrow> exn + intent"

text \<open>The three payloads of the outbox.\<close>

definition received_payload :: "mailbox_view \<Rightarrow> inbound_message \<Rightarrow> (string \<times> py_value) list" where
  "received_payload mailbox inbound =
     [(''workspace_id'', VUuid (mv_workspace_id mailbox)),
      (''mailbox_id'', VUuid (mv_id mailbox)),
      (''inbound_id'', VUuid (im_id inbound)),
      (''provider_message_id'', VStr (im_provider_message_id inbound)),
      (''provider_thread_id'', VStr (im_provider_thread_id inbound)),
      (''from_email'', VStr (im_from_email inbound)),
      (''subject'', VStr (im_subject inbound)),
      (''received_at'', VTime (im_received_at inbound))]"

definition matched_payload ::
  "mailbox_view \<Rightarrow> inbound_message \<Rightarrow> outbound_message \<Rightarrow> (string \<times> py_value) list" where
  "matched_payload mailbox inbound matched =
     [(''workspace_id'', VUuid (mv_workspace_id mailbox)),
      (''inbound_id'', VUuid (im_id inbound)),
      (''matched_outbound_id'', VUuid (om_id matched)),
      (''provider_thread_id'', VStr (im_provider_thread_id inbound))]"

definition classified_payload ::
  "mailbox_view \<Rightarrow> inbound_message \<Rightarrow> outbound_message \<Rightarrow> intent \<Rightarrow> (string \<times> py_value) list" where
  "classified_payload mailbox inbound matched i =
     [(''event_version'', VInt REPLY_CLASSIFIED_VERSION),
      (''workspace_id'', VUuid (mv_workspace_id mailbox)),
      (''inbound_id'', VUuid (im_id inbound)),
      (''matched_outbound_id'', VUuid (om_id matched)),
      (''intent'', VStr (intent_value i))]"

text \<open>The \<open>if matched is not None\<close> block after the candidate has been removed.\<close>

definition classify_reply ::
  "classifier \<Rightarrow> mailbox_view \<Rightarrow> fetched_message \<Rightarrow> inbound_message \<Rightarrow> outbound_message \<Rightarrow> intent act" where
  "classify_reply classify mailbox fetched message matched =
     (let inbound = matched_to message (om_id matched) in
      thenp (outbox_record ''ReplyMatched'' (mv_workspace_id mailbox) (im_id inbound)
               (matched_payload mailbox inbound matched)) (
      bindp (lift (if fm_is_bounce fetched then Inr BOUNCE
                   else classify (fm_subject fetched)
                          (if fm_body_text fetched \<noteq> [] then fm_body_text fetched
                           else fm_snippet fetched))) (\<lambda>i.
      thenp (inbound_update (classified_as inbound i)) (
      thenp (case suppression_for i of None \<Rightarrow> ret ()
             | Some reason \<Rightarrow>
                 bindp (Suppression_new (mv_workspace_id mailbox) (om_to_email matched) reason
                          (Some (im_id inbound))) suppressions_add) (
      thenp (outbox_record ''ReplyClassified'' (mv_workspace_id mailbox) (im_id inbound)
               (classified_payload mailbox inbound matched i)) (ret i))))))"

text \<open>The body of the loop; its state is the candidates left, the count and the intents.\<close>

type_synonym poll_state = "outbound_message list \<times> nat \<times> intent list"

definition poll_one ::
  "classifier \<Rightarrow> mailbox_view \<Rightarrow> fetched_message \<Rightarrow> poll_state \<Rightarrow> poll_state act" where
  "poll_one classify mailbox fetched state =
     (case state of (candidates, processed, classified) \<Rightarrow>
      bindp (inbound_exists (mv_id mailbox) (fm_provider_message_id fetched)) (\<lambda>known.
        if known then ret (candidates, processed, classified)
        else
          bindp (InboundMessage_new (mv_workspace_id mailbox) (mv_id mailbox) fetched) (\<lambda>inbound.
          thenp (inbound_add inbound) (
          thenp (outbox_record ''InboundReceived'' (mv_workspace_id mailbox) (im_id inbound)
                   (received_payload mailbox inbound)) (
            case match_reply fetched candidates of
              None \<Rightarrow> ret (candidates, Suc processed, classified)
            | Some matched \<Rightarrow>
                bindp (classify_reply classify mailbox fetched inbound matched) (\<lambda>i.
                  ret (filter (\<lambda>c. om_id c \<noteq> om_id matched) candidates, Suc processed,
                       classified @ [i])))))))"

definition poll_inbox :: "receiver \<Rightarrow> classifier \<Rightarrow> mailbox_view \<Rightarrow> poll_result act" where
  "poll_inbox receive classify mailbox =
     bindp (\<lambda>w. (receive (mv_email_address mailbox) (mv_last_sync_cursor mailbox) w, w)) (\<lambda>fetched.
     bindp (outbound_list_unanswered (mv_id mailbox)) (\<lambda>candidates.
     bindp (foldp (poll_one classify mailbox) (fr_messages fetched) (candidates, 0, [])) (\<lambda>state.
       case state of (_, processed, classified) \<Rightarrow>
       thenp (gateway_advance_cursor (mv_workspace_id mailbox) (fr_new_cursor fetched))
         (ret \<lparr> pr_processed = processed, pr_classified = classified \<rparr>))))"

end
