(* ===== verification/Config.thy ===== *)
theory Config
  imports Classifier Uuid_Text
begin

text \<open>
  The settings of the process (\<open>app/config.py\<close>) and the address of the database that the engine
  is made with (\<open>shared/infrastructure/db/engine.py\<close>). Reading them from the environment is
  \<open>pydantic-settings\<close>, and taking a URL apart is SQLAlchemy's \<open>make_url\<close>; neither is modelled.
\<close>

section \<open>Settings\<close>

datatype app_env = LOCAL_ENV | CI_ENV | PRODUCTION

primrec app_env_value :: "app_env \<Rightarrow> string" where
  "app_env_value LOCAL_ENV = ''local''"
| "app_env_value CI_ENV = ''ci''"
| "app_env_value PRODUCTION = ''production''"

datatype sender_impl = PYTHON_SENDER | GO_SENDER

primrec sender_impl_value :: "sender_impl \<Rightarrow> string" where
  "sender_impl_value PYTHON_SENDER = ''python''"
| "sender_impl_value GO_SENDER = ''go''"

record settings = llm_settings +
  database_url :: string
  api_domain :: string
  app_env_setting :: app_env
  git_sha :: string
  google_client_id :: string
  google_client_secret :: string
  google_refresh_token :: string
  gmail_user_email :: string
  mailbox_workspace_id :: string
  poll_interval_seconds :: int
  poll_jitter_seconds :: int
  sender_impl_setting :: sender_impl
  internal_api_token :: string
  worker_metrics_port :: int

text \<open>The settings of an environment that names only what has no default.\<close>

definition default_settings :: "string \<Rightarrow> string \<Rightarrow> app_env \<Rightarrow> settings" where
  "default_settings url domain env =
     \<lparr> llm_enabled = True, llm_provider_name = ANTHROPIC, anthropic_api_key = [], openai_api_key = [],
       database_url = url, api_domain = domain, app_env_setting = env, git_sha = ''dev'',
       google_client_id = [], google_client_secret = [], google_refresh_token = [],
       gmail_user_email = [], mailbox_workspace_id = [], poll_interval_seconds = 15,
       poll_jitter_seconds = 5, sender_impl_setting = PYTHON_SENDER, internal_api_token = [],
       worker_metrics_port = 0 \<rparr>"

text \<open>\<open>s.replace(old, new, 1)\<close> for a text \<open>old\<close> that is not empty.\<close>

fun replace_once :: "string \<Rightarrow> string \<Rightarrow> string \<Rightarrow> string" where
  "replace_once old new [] = []"
| "replace_once old new (c # s) =
     (if startswith (c # s) old then new @ drop (length old) (c # s)
      else c # replace_once old new s)"

definition normalize_db_scheme :: "string \<Rightarrow> string" where
  "normalize_db_scheme v =
     replace_once ''postgres://'' ''postgresql+asyncpg://''
       (replace_once ''postgresql://'' ''postgresql+asyncpg://'' v)"

text \<open>The validator in front of the provider: its text in lower case, then one of the two names.\<close>

definition llm_provider_of :: "string \<Rightarrow> llm_provider option" where
  "llm_provider_of v =
     (let name = lower v in
      if name = ''anthropic'' then Some ANTHROPIC else if name = ''openai'' then Some OPENAI else None)"

definition resolve_workspace_id :: "settings \<Rightarrow> exn + uuid" where
  "resolve_workspace_id s =
     (let raw = mailbox_workspace_id s in
      if raw = [] then Inl (RuntimeError ''MAILBOX_WORKSPACE_ID is not set'') else UUID_parse raw)"

section \<open>The address of the database\<close>

text \<open>
  An \<open>sqlalchemy.URL\<close>: what stands before the query, and the query as a dict whose values are
  the texts given for a key, one or a tuple of several.
\<close>

record db_url =
  du_base :: string
  du_query :: "(string \<times> string list) list"

definition LIBPQ_ONLY_QUERY :: "string list" where
  "LIBPQ_ONLY_QUERY = [''sslmode'', ''channel_binding'']"

text \<open>
  \<open>asyncpg_url_and_connect_args\<close> after \<open>make_url\<close>: the address without the parameters of libpq,
  and the \<open>ssl\<close> argument. A parameter without a text is empty, and false.
\<close>

definition asyncpg_url_and_connect_args :: "db_url \<Rightarrow> db_url \<times> (string \<times> string) list" where
  "asyncpg_url_and_connect_args url =
     (let connect_args = (case map_of (du_query url) ''sslmode'' of
            None \<Rightarrow> []
          | Some [] \<Rightarrow> []
          | Some [sslmode] \<Rightarrow> if sslmode = [] then [] else [(''ssl'', sslmode)]
          | Some (first # _) \<Rightarrow> [(''ssl'', first)])
      in (url\<lparr>du_query := filter (\<lambda>(k, v). k \<notin> set LIBPQ_ONLY_QUERY) (du_query url)\<rparr>, connect_args))"

section \<open>Lemmas\<close>

lemma replace_once_at: "old \<noteq> [] \<Longrightarrow> replace_once old new (old @ s) = new @ s"
  using startswith_append [of old s] by (cases old) auto

lemma replace_once_not: "\<not> contains s old \<Longrightarrow> replace_once old new s = s"
  by (induction s) auto

text \<open>The three spellings of a PostgreSQL address come out as the one the driver takes.\<close>

lemma normalize_spellings:
  assumes "\<not> contains (''postgresql+asyncpg://'' @ rest) ''postgres://''"
    and "\<not> contains (''postgres://'' @ rest) ''postgresql://''"
    and "\<not> contains (''postgresql+asyncpg://'' @ rest) ''postgresql://''"
  shows "normalize_db_scheme (''postgresql://'' @ rest) = ''postgresql+asyncpg://'' @ rest"
    and "normalize_db_scheme (''postgres://'' @ rest) = ''postgresql+asyncpg://'' @ rest"
    and "normalize_db_scheme (''postgresql+asyncpg://'' @ rest) = ''postgresql+asyncpg://'' @ rest"
proof -
  have long: "replace_once ''postgresql://'' ''postgresql+asyncpg://'' (''postgresql://'' @ rest)
      = ''postgresql+asyncpg://'' @ rest"
    and short: "replace_once ''postgres://'' ''postgresql+asyncpg://'' (''postgres://'' @ rest)
      = ''postgresql+asyncpg://'' @ rest"
    by (rule replace_once_at, simp)+
  show "normalize_db_scheme (''postgresql://'' @ rest) = ''postgresql+asyncpg://'' @ rest"
    unfolding normalize_db_scheme_def long by (rule replace_once_not [OF assms(1)])
  show "normalize_db_scheme (''postgres://'' @ rest) = ''postgresql+asyncpg://'' @ rest"
    unfolding normalize_db_scheme_def replace_once_not [OF assms(2)] by (rule short)
  show "normalize_db_scheme (''postgresql+asyncpg://'' @ rest) = ''postgresql+asyncpg://'' @ rest"
    unfolding normalize_db_scheme_def replace_once_not [OF assms(3)] by (rule replace_once_not [OF assms(1)])
qed

lemma libpq_parameters_gone:
  "set (map fst (du_query (fst (asyncpg_url_and_connect_args url)))) \<inter> set LIBPQ_ONLY_QUERY = {}"
  by (auto simp: asyncpg_url_and_connect_args_def Let_def)

end
