(* ===== verification/Worker.thy ===== *)
theory Worker
  imports Replies Poll_Inbox Config
begin

text \<open>
  The worker process, \<open>entrypoints/worker.py\<close>: one tick polls the inbox, dispatches the
  classified replies and, when this process is the sender, claims and processes the due
  jobs; a stage that raises is logged and the next one runs. The metrics of
  \<open>contexts/campaign/infrastructure/metrics.py\<close> and the lines it logs are kept as lists.
\<close>

section \<open>What a worker does\<close>

definition SEND_BATCH_SIZE :: nat where
  "SEND_BATCH_SIZE = 10"

definition REPLY_BATCH_SIZE :: nat where
  "REPLY_BATCH_SIZE = 50"

definition drains_send_jobs :: "settings \<Rightarrow> bool" where
  "drains_send_jobs s \<longleftrightarrow> sender_impl_setting s = PYTHON_SENDER"

definition loops_text :: "settings \<Rightarrow> string" where
  "loops_text s = ''poll inbox -> dispatch classified replies -> '' @
     (if drains_send_jobs s then ''drain send jobs''
      else ''send jobs left to the '' @ sender_impl_value (sender_impl_setting s) @ '' sender'')"

definition worker_id_of :: "string \<Rightarrow> nat \<Rightarrow> string" where
  "worker_id_of host pid = ''python-'' @ host @ ''-'' @ nat_str pid"

definition missing_runtime_config :: "settings \<Rightarrow> string list" where
  "missing_runtime_config s =
     (let required = [(''GOOGLE_REFRESH_TOKEN'', google_refresh_token s),
                      (''GMAIL_USER_EMAIL'', gmail_user_email s),
                      (''MAILBOX_WORKSPACE_ID'', mailbox_workspace_id s)]
      in map fst (filter (\<lambda>(name, v). v = []) required))"

section \<open>Metrics and log\<close>

definition emit :: "metric list \<Rightarrow> unit act" where
  "emit ms = modify (\<lambda>w. w\<lparr>metrics := metrics w @ ms\<rparr>)"

definition print_line :: "log_line \<Rightarrow> unit act" where
  "print_line x = modify (\<lambda>w. w\<lparr>log_lines := log_lines w @ [x]\<rparr>)"

definition record_send_job_outcome :: "claimed_job \<Rightarrow> send_job_outcome \<Rightarrow> time \<Rightarrow> unit act" where
  "record_send_job_outcome j outcome moment =
     (if outcome = O_SENT
      then emit [EMAILS_SENT, SEND_JOB_LATENCY (max (moment - cj_scheduled_at j) 0)]
      else if outcome \<in> {O_RETRYING, O_FAILED, O_SUPPRESSED}
      then emit [SEND_FAILURES (outcome_value outcome)]
      else ret ())"

definition record_stopped_leads :: "lead list \<Rightarrow> unit act" where
  "record_stopped_leads leads =
     forp (\<lambda>l. case l_stop_reason l of
                 Some reason \<Rightarrow> if l_state l = PAUSED then emit [LEAD_PAUSED (stop_reason_value reason)]
                               else ret ()
               | None \<Rightarrow> ret ()) leads"

section \<open>The stages\<close>

definition worker_poll_inbox :: "uuid \<Rightarrow> receiver \<Rightarrow> classifier \<Rightarrow> string act" where
  "worker_poll_inbox workspace_id receive classify =
     bindp (session_for_workspace workspace_id
       (bindp (gateway_get_by_workspace workspace_id) (\<lambda>mailbox.
          case mailbox of
            None \<Rightarrow> ret (Inl (''no mailbox seeded for workspace '' @ uuid_str workspace_id))
          | Some m \<Rightarrow> bindp (poll_inbox receive classify m) (\<lambda>result. ret (Inr result))))) (\<lambda>outcome.
       case outcome of
         Inl reason \<Rightarrow> ret reason
       | Inr result \<Rightarrow>
           thenp (emit (map (\<lambda>i. REPLIES_CLASSIFIED (intent_value i)) (pr_classified result))) (
           thenp (if pr_processed result \<noteq> 0
                  then print_line (LogText (''processed '' @ nat_str (pr_processed result) @ '' new reply(ies)''))
                  else ret ())
           (ret [])))"

definition worker_dispatch_replies :: "uuid \<Rightarrow> unit act" where
  "worker_dispatch_replies workspace_id =
     bindp (session_for_workspace workspace_id
       (bindp now (\<lambda>moment. run_replies workspace_id REPLY_BATCH_SIZE moment))) (\<lambda>stopped.
     thenp (record_stopped_leads stopped)
       (forp (\<lambda>l. print_line (LogStoppedLead (l_id l) (l_state l) (l_stop_reason l) (l_reply_intent l)))
         stopped))"

definition worker_process_job :: "uuid \<Rightarrow> sender \<Rightarrow> claimed_job \<Rightarrow> unit act" where
  "worker_process_job workspace_id sender j =
     bindp (session_for_workspace workspace_id
       (bindp now (\<lambda>moment. process_claimed (email_dispatch sender) j moment))) (\<lambda>outcome.
     bindp now (\<lambda>moment.
     thenp (record_send_job_outcome j outcome moment)
       (print_line (LogSendJob (cj_id j) (cj_lead_id j) (p_step_position (cj_payload j))
          (outcome_value outcome)))))"

definition worker_drain_send_jobs :: "uuid \<Rightarrow> sender \<Rightarrow> string \<Rightarrow> unit act" where
  "worker_drain_send_jobs workspace_id sender worker_id =
     bindp (session_for_workspace workspace_id
       (bindp now (\<lambda>moment. claim_due_send_jobs workspace_id worker_id SEND_BATCH_SIZE moment)))
       (forp (worker_process_job workspace_id sender))"

text \<open>\<open>except Exception as exc: _log(...)\<close>.\<close>

definition logged :: "string \<Rightarrow> 'a \<Rightarrow> 'a act \<Rightarrow> 'a act" where
  "logged what fallback m =
     tryp m (\<lambda>e. thenp (print_line (LogText (what @ '' error ('' @ exn_class e @ ''): '' @ exn_text e)))
                   (ret fallback))"

definition worker_tick ::
  "settings \<Rightarrow> receiver \<Rightarrow> classifier \<Rightarrow> sender \<Rightarrow> string \<Rightarrow> string act" where
  "worker_tick s receive classify sender worker_id =
     (let missing = missing_runtime_config s in
      if missing \<noteq> [] then ret (''missing config '' @ py_repr (JArr (map JStr missing)))
      else bindp (lift (UUID_parse (mailbox_workspace_id s))) (\<lambda>workspace_id.
        bindp (logged ''poll'' [] (worker_poll_inbox workspace_id receive classify)) (\<lambda>idle_reason.
        thenp (logged ''reply dispatch'' () (worker_dispatch_replies workspace_id)) (
        thenp (if drains_send_jobs s
               then logged ''send'' () (worker_drain_send_jobs workspace_id sender worker_id)
               else ret ())
          (ret idle_reason)))))"

text \<open>
  The endless loop, for its first \<open>n\<close> rounds: the reason for being idle is logged when it
  changes. The pauses between rounds only move the clock.
\<close>

primrec worker_loop ::
  "nat \<Rightarrow> settings \<Rightarrow> receiver \<Rightarrow> classifier \<Rightarrow> sender \<Rightarrow> string \<Rightarrow> string option \<Rightarrow> unit act" where
  "worker_loop 0 s receive classify sender worker_id last_idle = ret ()"
| "worker_loop (Suc n) s receive classify sender worker_id last_idle =
     bindp (worker_tick s receive classify sender worker_id) (\<lambda>idle_reason.
     thenp (if Some idle_reason \<noteq> last_idle \<and> idle_reason \<noteq> []
            then print_line (LogText (''idle: '' @ idle_reason)) else ret ())
       (worker_loop n s receive classify sender worker_id (Some idle_reason)))"

text \<open>
  \<open>_run\<close> and \<open>main\<close>: what the process reports about itself, then the loop. The class of the
  classifier is the one that \<open>build_intent_classifier\<close> makes; the clients that the loop uses are
  its arguments. The start of the metrics server is not modelled.
\<close>

definition classifier_class :: "settings \<Rightarrow> string" where
  "classifier_class s =
     (if llm_enabled s \<and> (llm_provider_name s = ANTHROPIC \<and> anthropic_api_key s \<noteq> []
         \<or> llm_provider_name s = OPENAI \<and> openai_api_key s \<noteq> [])
      then ''LlmIntentClassifier'' else ''DeterministicIntentClassifier'')"

definition worker_run ::
  "nat \<Rightarrow> settings \<Rightarrow> receiver \<Rightarrow> classifier \<Rightarrow> sender \<Rightarrow> string \<Rightarrow> unit act" where
  "worker_run n s receive classify sender worker_id =
     thenp (if worker_metrics_port s \<noteq> 0
            then print_line (LogText (''metrics on :'' @ int_str (worker_metrics_port s) @ ''/metrics''))
            else ret ()) (
     thenp (print_line (LogText (''loops: '' @ loops_text s @ ''; workspace '' @
              (if mailbox_workspace_id s = [] then ''not set'' else mailbox_workspace_id s)
              @ ''; classifier '' @ classifier_class s)))
       (worker_loop n s receive classify sender worker_id None))"

definition worker_main ::
  "nat \<Rightarrow> settings \<Rightarrow> receiver \<Rightarrow> classifier \<Rightarrow> sender \<Rightarrow> string \<Rightarrow> nat \<Rightarrow> unit act" where
  "worker_main n s receive classify sender host pid =
     thenp (print_line (LogText (''starting (APP_ENV='' @ app_env_value (app_env_setting s) @ '')'')))
       (worker_run n s receive classify sender (worker_id_of host pid))"

section \<open>The internal route\<close>

text \<open>
  \<open>hmac.compare_digest\<close> compares texts of ASCII characters and raises for others.
  \<open>POST /internal/send-jobs/{job_id}/process\<close>
  (\<open>contexts/campaign/presentation/routes/internal_send_jobs.py\<close>): the token guard, then the
  workspace of the request, then one claimed job in the session of that workspace.
\<close>

definition compare_digest :: "string \<Rightarrow> string \<Rightarrow> exn + bool" where
  "compare_digest a b =
     (if list_ex (\<lambda>c. 128 \<le> code c) (a @ b)
      then Inl (TypeError ''comparing strings with non-ASCII characters is not supported'')
      else Inr (a = b))"

definition require_internal_token :: "settings \<Rightarrow> string option \<Rightarrow> unit act" where
  "require_internal_token s x_internal_token =
     (let expected = internal_api_token s;
          refuse = raise (HTTPException 401 ''Invalid internal token'')
      in if expected = [] then refuse
         else case x_internal_token of None \<Rightarrow> refuse
           | Some token \<Rightarrow>
               bindp (lift (compare_digest token expected)) (\<lambda>same. if same then ret () else refuse))"

definition route_process_send_job ::
  "settings \<Rightarrow> sender \<Rightarrow> string option \<Rightarrow> uuid option \<Rightarrow> uuid \<Rightarrow> (uuid \<times> string) act" where
  "route_process_send_job s sender x_internal_token context job_id =
     thenp (require_internal_token s x_internal_token) (
     bindp (case context of None \<Rightarrow> raise (HTTPException 401
               ''Missing credentials: send Authorization: Bearer <api-key>'')
            | Some i \<Rightarrow> ret i) (\<lambda>workspace_id.
     session context (
       bindp (tryp (bindp now (\<lambda>moment. process_by_id (email_dispatch sender) job_id workspace_id moment))
                (\<lambda>e. if e = SendJobNotClaimedError
                     then raise (HTTPException 409 ''Send job is not claimed'') else raise e)) (\<lambda>processed.
       bindp now (\<lambda>moment.
       thenp (record_send_job_outcome (ps_job processed) (ps_outcome processed) moment)
         (ret (job_id, outcome_value (ps_outcome processed))))))))"

end
