(* ===== verification/Job_Laws.thy ===== *)
theory Job_Laws
  imports Worker
begin

text \<open>
  What the job queue and its consumers promise: which rows a claim takes, that a claim is
  not taken again before its lease ends, how processing moves leads, and that a step never
  leaves twice.
\<close>

section \<open>Claiming\<close>

lemma claim_rows_subset:
  "set (claim_rows w ws lim m exp) \<subseteq> {r \<in> set (send_job_rows w). claimable ws m exp r \<and> jr_id r \<notin> set (row_locks w)}"
  by (auto simp: claim_rows_def dest!: in_set_takeD)

lemma length_claim_rows: "length (claim_rows w ws lim m exp) \<le> lim"
  by (simp add: claim_rows_def)

definition claimed_world :: "uuid set \<Rightarrow> time \<Rightarrow> string \<Rightarrow> world \<Rightarrow> world" where
  "claimed_world ids moment worker_id w = w\<lparr>db := (db w)\<lparr>t_send_jobs :=
     update_rows (\<lambda>r. jr_id r \<in> ids \<and> sees w (jr_workspace_id r)) (claimed_row moment worker_id)
       (t_send_jobs (db w))\<rparr>\<rparr>"

lemma claimed_world_frame [simp]:
  "guc (claimed_world ids m k w) = guc w" "sees (claimed_world ids m k w) = sees w"
  "t_leads (db (claimed_world ids m k w)) = t_leads (db w)"
  "t_campaigns (db (claimed_world ids m k w)) = t_campaigns (db w)"
  "t_steps (db (claimed_world ids m k w)) = t_steps (db w)"
  "wire (claimed_world ids m k w) = wire w" "log_lines (claimed_world ids m k w) = log_lines w"
  by (simp_all add: claimed_world_def sees_def fun_eq_iff)

lemma claimed_row_sel [simp]:
  "jr_id (claimed_row m k r) = jr_id r" "jr_workspace_id (claimed_row m k r) = jr_workspace_id r"
  "jr_status (claimed_row m k r) = JRUNNING" "jr_locked_at (claimed_row m k r) = Some m"
  "jr_attempts (claimed_row m k r) = jr_attempts r + 1" "jr_lead_id (claimed_row m k r) = jr_lead_id r"
  "jr_scheduled_at (claimed_row m k r) = jr_scheduled_at r" "jr_payload (claimed_row m k r) = jr_payload r"
  "jr_mailbox_id (claimed_row m k r) = jr_mailbox_id r"
  by (simp_all add: claimed_row_def)

lemma claimed_rows:
  "send_job_rows (claimed_world ids m k w)
     = update_rows (\<lambda>r. jr_id r \<in> ids) (claimed_row m k) (send_job_rows w)"
proof -
  have "filter (\<lambda>r. sees w (jr_workspace_id r))
      (update_rows (\<lambda>r. jr_id r \<in> ids \<and> sees w (jr_workspace_id r)) (claimed_row m k) rows)
    = update_rows (\<lambda>r. jr_id r \<in> ids) (claimed_row m k) (filter (\<lambda>r. sees w (jr_workspace_id r)) rows)" for rows
    by (induction rows) (auto simp: update_rows_def)
  then show ?thesis by (simp add: send_job_rows_def) (simp add: claimed_world_def)
qed

lemma jobs_claim_run:
  fixes ws worker_id lim moment lease w
  defines "ids \<equiv> jr_id ` set (claim_rows w ws lim moment (moment - lease))"
  shows "jobs_claim ws worker_id lim moment lease w =
    (Inr (sort_key cj_scheduled_at (map (claimed_of_row \<circ> claimed_row moment worker_id)
       (filter (\<lambda>r. jr_id r \<in> ids) (send_job_rows w)))), claimed_world ids moment worker_id w)"
proof -
  have "filter (\<lambda>r. jr_id r \<in> ids) (update_rows (\<lambda>r. jr_id r \<in> ids) (claimed_row moment worker_id) rows)
      = map (claimed_row moment worker_id) (filter (\<lambda>r. jr_id r \<in> ids) rows)" for rows
    by (induction rows) (auto simp: update_rows_def)
  then have "map claimed_of_row (filter (\<lambda>r. jr_id r \<in> ids) (send_job_rows (claimed_world ids moment worker_id w)))
      = map (claimed_of_row \<circ> claimed_row moment worker_id) (filter (\<lambda>r. jr_id r \<in> ids) (send_job_rows w))"
    by (simp add: claimed_rows)
  moreover have "jobs_claim ws worker_id lim moment lease w =
    (Inr (sort_key cj_scheduled_at (map claimed_of_row
       (filter (\<lambda>r. jr_id r \<in> ids) (send_job_rows (claimed_world ids moment worker_id w))))),
     claimed_world ids moment worker_id w)"
    by (simp add: jobs_claim_def bindp_run thenp_run ids_def claimed_world_def)
  ultimately show ?thesis by simp
qed

text \<open>The identifiers of the table of jobs are its primary key.\<close>

definition job_keys :: "world \<Rightarrow> bool" where
  "job_keys w \<longleftrightarrow> distinct (map jr_id (t_send_jobs (db w)))"

lemma job_keys_rows: "job_keys w \<Longrightarrow> distinct (map jr_id (send_job_rows w))"
  by (simp add: job_keys_def send_job_rows_def distinct_map_filter)

lemma job_keys_unique:
  "job_keys w \<Longrightarrow> r \<in> set (send_job_rows w) \<Longrightarrow> r' \<in> set (send_job_rows w) \<Longrightarrow> jr_id r = jr_id r' \<Longrightarrow> r = r'"
  using job_keys_rows [of w] by (auto simp: distinct_map inj_on_def)

lemma jobs_claim_result:
  assumes "job_keys w" and "jobs_claim ws worker_id lim moment lease w = (Inr js, w')"
  shows "length js \<le> lim" and "sorted (map cj_scheduled_at js)" and "distinct (map cj_id js)"
    and "j \<in> set js \<Longrightarrow> \<exists>r\<in>set (send_job_rows w). claimable ws moment (moment - lease) r
           \<and> jr_id r \<notin> set (row_locks w) \<and> j = claimed_of_row (claimed_row moment worker_id r)"
    and "w' = claimed_world (cj_id ` set js) moment worker_id w"
proof -
  let ?c = "claim_rows w ws lim moment (moment - lease)"
  let ?ids = "jr_id ` set ?c"
  let ?f = "filter (\<lambda>r. jr_id r \<in> ?ids) (send_job_rows w)"
  note run = assms(2) [unfolded jobs_claim_run]
  have js: "js = sort_key cj_scheduled_at (map (claimed_of_row \<circ> claimed_row moment worker_id) ?f)"
    and w': "w' = claimed_world ?ids moment worker_id w" using run by simp_all
  have cid: "cj_id (claimed_of_row r) = jr_id r" for r by (simp add: claimed_of_row_def)
  have f: "set ?f = set ?c"
  proof -
    have sub: "r \<in> set (send_job_rows w)" if "r \<in> set ?c" for r
      using claim_rows_subset [of w ws lim moment "moment - lease"] that by blast
    have "r \<in> set ?c" if "r \<in> set ?f" for r
    proof -
      from that have r: "r \<in> set (send_job_rows w)" "jr_id r \<in> ?ids" by simp_all
      from r(2) obtain r' where r': "jr_id r = jr_id r'" "r' \<in> set ?c" by (rule imageE)
      have "r = r'" using r(1) sub [OF r'(2)] r'(1) by (rule job_keys_unique [OF assms(1)])
      with r'(2) show ?thesis by simp
    qed
    moreover have "r \<in> set ?f" if "r \<in> set ?c" for r
      using sub [OF that] that by simp
    ultimately show ?thesis by blast
  qed
  have d: "distinct (map jr_id ?f)" using job_keys_rows [OF assms(1)] by (rule distinct_map_filter)
  have ids: "?ids = jr_id ` set ?f" using f by simp
  have "distinct ?f" using d unfolding distinct_map by blast
  then have "length ?f = card (set ?f)" by (rule distinct_card [symmetric])
  also have "\<dots> \<le> length ?c" unfolding f by (rule card_length)
  finally show "length js \<le> lim" using length_claim_rows [of w ws lim moment "moment - lease"] js by simp
  show "sorted (map cj_scheduled_at js)" unfolding js by (rule sorted_sort_key)
  have e: "map cj_id (map (claimed_of_row \<circ> claimed_row moment worker_id) ?f) = map jr_id ?f"
    by (simp add: cid)
  have "distinct (map cj_id (map (claimed_of_row \<circ> claimed_row moment worker_id) ?f))"
    unfolding e by (rule d)
  then show "distinct (map cj_id js)"
    unfolding js by (simp only: distinct_map distinct_sort set_sort)
  show "\<exists>r\<in>set (send_job_rows w). claimable ws moment (moment - lease) r
           \<and> jr_id r \<notin> set (row_locks w) \<and> j = claimed_of_row (claimed_row moment worker_id r)"
    if "j \<in> set js"
  proof -
    from that js have "j \<in> (claimed_of_row \<circ> claimed_row moment worker_id) ` set ?f"
      by (simp only: set_sort set_map)
    then show ?thesis
      using f claim_rows_subset [of w ws lim moment "moment - lease"] by auto
  qed
  have "cj_id ` set js = ?ids"
  proof -
    have "cj_id ` set js = cj_id ` (claimed_of_row \<circ> claimed_row moment worker_id) ` set ?f"
      using js by (simp only: set_sort set_map)
    also have "\<dots> = jr_id ` set ?f" by (simp add: image_image cid)
    finally show ?thesis using ids by simp
  qed
  with w' show "w' = claimed_world (cj_id ` set js) moment worker_id w" by simp
qed

lemma not_claimable_again:
  assumes "job_keys w" and "jobs_claim ws k lim moment lease w = (Inr js, w')"
    and "j \<in> set js" and "r \<in> set (send_job_rows w')" and "jr_id r = cj_id j"
    and "moment' - lease \<le> moment"
  shows "\<not> claimable ws' moment' (moment' - lease) r"
proof -
  have w': "w' = claimed_world (cj_id ` set js) moment k w" by (rule jobs_claim_result(5) [OF assms(1,2)])
  from assms(4) obtain r0 where "r0 \<in> set (send_job_rows w)"
    "r = (if jr_id r0 \<in> cj_id ` set js then claimed_row moment k r0 else r0)"
    unfolding w' claimed_rows set_update_rows by auto
  with assms(3,5,6) show ?thesis by (auto simp: claimable_def split: if_splits)
qed

section \<open>Leads under processing\<close>

lemma record_sent_move:
  assumes "record_sent c l k t w = (Inr (l', nj), w')"
  shows "lead_move c l l'"
proof -
  let ?v = "\<lparr> clock_at = clock_at w, reads = reads w, next_uuid = next_uuid w \<rparr> :: env"
  have acc: "accepts_send c l k" by (rule record_sent_Inr_D(1) [OF assms])
  then have m: "l_campaign_id l = c_id c" by (simp add: accepts_send_def)
  from record_sent_Inr_D(3) [OF assms]
  have "\<exists>nj w2. record_sent c l k t ?v = (Inr (l', nj), w2)"
    using acc m by (auto simp: record_sent_def ensure_member_def thenp_run bindp_run job_run moved_def)
  then show ?thesis using sends by blast
qed

text \<open>
  One job takes at most its own lead one step of the lead's state machine; it is the step
  of the job when the outcome is \<open>SENT\<close>.
\<close>

definition lead_effect :: "claimed_job \<Rightarrow> (exn + send_job_outcome) \<Rightarrow> world \<Rightarrow> world \<Rightarrow> bool" where
  "lead_effect claim res w w' \<longleftrightarrow>
     guc w' = guc w \<and> t_campaigns (db w') = t_campaigns (db w) \<and> t_steps (db w') = t_steps (db w) \<and>
     (t_leads (db w') = t_leads (db w) \<and> res \<noteq> Inr O_SENT
      \<or> (\<exists>c l l'. campaign_in w (p_campaign_id (cj_payload claim)) = Some c
           \<and> lead_in w (cj_lead_id claim) = Some l
           \<and> accepts_send c l (p_step_position (cj_payload claim))
           \<and> lead_move c l l' \<and> l_id l' = l_id l \<and> overwrite l' l = l'
           \<and> t_leads (db w') = t_leads (db (put_lead l' w))
           \<and> (res = Inr O_SENT \<longrightarrow> l_steps_sent l' = p_step_position (cj_payload claim))))"

lemma lead_effectI_none:
  "guc w' = guc w \<Longrightarrow> t_campaigns (db w') = t_campaigns (db w) \<Longrightarrow> t_steps (db w') = t_steps (db w)
    \<Longrightarrow> t_leads (db w') = t_leads (db w) \<Longrightarrow> res \<noteq> Inr O_SENT \<Longrightarrow> lead_effect claim res w w'"
  by (simp add: lead_effect_def)

lemma jobs_add_many_frame:
  "jobs_add_many js w = (r, w') \<Longrightarrow> guc w' = guc w \<and> t_leads (db w') = t_leads (db w)
     \<and> t_campaigns (db w') = t_campaigns (db w) \<and> t_steps (db w') = t_steps (db w)"
proof -
  assume r: "jobs_add_many js w = (r, w')"
  let ?I = "\<lambda>v. guc v = guc w \<and> t_leads (db v) = t_leads (db w)
     \<and> t_campaigns (db v) = t_campaigns (db w) \<and> t_steps (db v) = t_steps (db w)"
  have "keeps ?I (jobs_add_many js)"
    unfolding jobs_add_many_def insert_send_job_row_def
    by (intro keep_intros keeps_insert_row) auto
  from keepsD_run [OF this _ r] show ?thesis by simp
qed

lemma put_lead_t_leads_cong:
  "guc v = guc w \<Longrightarrow> t_leads (db v) = t_leads (db w) \<Longrightarrow> t_leads (db (put_lead l v)) = t_leads (db (put_lead l w))"
  by (simp add: put_lead_def sees_def)

context dispatch_port
begin

lemma process_effect:
  assumes "process_claimed dispatch claim moment w = (res, w')"
  shows "lead_effect claim res w w'"
proof (cases "\<exists>c l. campaign_in w (p_campaign_id (cj_payload claim)) = Some c
    \<and> lead_in w (cj_lead_id claim) = Some l \<and> accepts_send c l (p_step_position (cj_payload claim))")
  case False
  then have "process_claimed dispatch claim moment w = (Inr O_CANCELLED,
    put_job (cj_id claim) (\<lambda>r. r\<lparr>jr_status := JCANCELLED, jr_updated_at := moment\<rparr>) w)"
    by (intro process_refused) auto
  with assms show ?thesis by (intro lead_effectI_none) auto
next
  case True
  then obtain c l where c: "campaign_in w (p_campaign_id (cj_payload claim)) = Some c"
    and l: "lead_in w (cj_lead_id claim) = Some l"
    and acc: "accepts_send c l (p_step_position (cj_payload claim))" by blast
  obtain r w1 where side: "same_campaign_side w1 w"
    and run: "process_claimed dispatch claim moment w = settle claim moment c l r w1"
    using accepted [OF c l acc] by blast
  have fr: "guc w1 = guc w" "t_leads (db w1) = t_leads (db w)"
    "t_campaigns (db w1) = t_campaigns (db w)" "t_steps (db w1) = t_steps (db w)"
    using side by (simp_all add: same_campaign_side_def)
  have some: "lead_in w1 (l_id l) \<noteq> None"
    using same_campaign_side_views(2) [OF side] l lead_in_id [OF l] by simp
  have m: "l_campaign_id l = c_id c" using acc by (simp add: accepts_send_def)
  have moved: "lead_effect claim res w w'"
    if "lead_move c l l'" "l_id l' = l_id l" "overwrite l' l = l'"
      and "t_leads (db w') = t_leads (db (put_lead l' w1))" "guc w' = guc w"
      "t_campaigns (db w') = t_campaigns (db w)" "t_steps (db w') = t_steps (db w)"
      and "res = Inr O_SENT \<longrightarrow> l_steps_sent l' = p_step_position (cj_payload claim)" for l'
    using that c l acc put_lead_t_leads_cong [OF fr(1,2), of l'] unfolding lead_effect_def by auto
  show ?thesis
  proof (cases r)
    case (DispatchDeferred at reason)
    with assms run fr show ?thesis
      by (intro lead_effectI_none) (auto simp: settle_deferred)
  next
    case DispatchSuppressed
    have f: "fail_lead c l SUPPRESSED moment
        = Inr (l\<lparr>l_state := FAILED, l_updated_at := moment, l_stop_reason := Some SUPPRESSED\<rparr>)"
      using acc by (rule fail_lead_accepted)
    have "lead_move c l (l\<lparr>l_state := FAILED, l_updated_at := moment, l_stop_reason := Some SUPPRESSED\<rparr>)"
      using fails [OF f] by simp
    then show ?thesis
      using assms run fr some acc DispatchSuppressed
      by (intro moved [where l' = "l\<lparr>l_state := FAILED, l_updated_at := moment,
            l_stop_reason := Some SUPPRESSED\<rparr>"]) (auto simp: settle_suppressed overwrite_def)
  next
    case (DispatchFailed err)
    show ?thesis
    proof (cases "next_retry_at (cj_attempts claim) moment")
      case (Some at)
      with assms run fr DispatchFailed show ?thesis
        by (intro lead_effectI_none) (auto simp: settle_retrying)
    next
      case None
      have f: "fail_lead c l SEND_FAILED moment
          = Inr (l\<lparr>l_state := FAILED, l_updated_at := moment, l_stop_reason := Some SEND_FAILED\<rparr>)"
        using acc by (rule fail_lead_accepted)
      have "lead_move c l (l\<lparr>l_state := FAILED, l_updated_at := moment, l_stop_reason := Some SEND_FAILED\<rparr>)"
        using fails [OF f] by simp
      then show ?thesis
        using assms run fr some acc DispatchFailed None
        by (intro moved [where l' = "l\<lparr>l_state := FAILED, l_updated_at := moment,
              l_stop_reason := Some SEND_FAILED\<rparr>"]) (auto simp: settle_failed overwrite_def)
    qed
  next
    case (DispatchSent out at)
    obtain res1 v where rec: "record_sent c l (p_step_position (cj_payload claim)) at w1 = (res1, v)" by fastforce
    show ?thesis
    proof (cases res1)
      case (Inl e)
      with rec have "settle claim moment c l r w1 = (Inl e, v)"
        by (simp add: settle_def DispatchSent bindp_run)
      moreover have "v = w1"
        using rec Inl acc m by (auto simp: record_sent_def ensure_member_def thenp_run bindp_run job_run split: if_splits option.splits)
      ultimately show ?thesis using assms run fr by (intro lead_effectI_none) auto
    next
      case (Inr p)
      obtain l' nj where p: "p = (l', nj)" by (cases p)
      note D = record_sent_Inr_D [OF rec [unfolded Inr p]]
      have v: "guc v = guc w1" "db v = db w1"
        using rec Inr p by (auto simp: record_sent_def ensure_member_def thenp_run bindp_run job_run split: if_splits option.splits)
      have some': "lead_in v (l_id l) \<noteq> None"
        using some v lead_in_cong [of v w1 "l_id l"] by simp
      have ids: "l_id l' = l_id l" "overwrite l' l = l'" using D(3) by (auto simp: overwrite_def)
      let ?j = "put_job (cj_id claim) (job_done out moment) (put_lead l' v)"
      have "settle claim moment c l r w1
          = thenp (case nj of None \<Rightarrow> ret () | Some j \<Rightarrow> jobs_add_many [j]) (ret O_SENT) ?j"
        using some' ids(1) rec Inr p
        by (auto simp: settle_def DispatchSent bindp_run thenp_run update_many_one update_lead_run
              jobs_ops job_done_def [abs_def])
      then have "guc w' = guc ?j \<and> t_leads (db w') = t_leads (db ?j)
          \<and> t_campaigns (db w') = t_campaigns (db ?j) \<and> t_steps (db w') = t_steps (db ?j)"
        using assms run by (cases nj)
          (auto simp: thenp_run dest: jobs_add_many_frame split: prod.splits sum.splits)
      then show ?thesis
        using fr v ids D(2) record_sent_move [OF rec [unfolded Inr p]]
          put_lead_t_leads_cong [of v w1 l'] by (intro moved [where l' = l']) auto
    qed
  qed
qed

end

section \<open>A step leaves at most once\<close>

text \<open>
  What the worker's log says was sent, and how far a lead of a workspace has come. Along
  any run, the steps that the log reports as sent lie between the progress before and the
  progress after, so no pair of lead and step occurs twice.
\<close>

definition sent_entry :: "log_line \<Rightarrow> (uuid \<times> int) option" where
  "sent_entry x = (case x of LogSendJob i l p out \<Rightarrow> if out = outcome_value O_SENT then Some (l, p) else None
     | _ \<Rightarrow> None)"

definition sent_steps :: "log_line list \<Rightarrow> (uuid \<times> int) list" where
  "sent_steps xs = List.map_filter sent_entry xs"

definition under :: "uuid \<Rightarrow> world \<Rightarrow> world" where
  "under ws w = w\<lparr>guc := Some ws, own := []\<rparr>"

definition progress :: "uuid \<Rightarrow> world \<Rightarrow> uuid \<Rightarrow> int" where
  "progress ws w i = (case lead_in (under ws w) i of None \<Rightarrow> 0 | Some l \<Rightarrow> l_steps_sent l)"

definition sends_once :: "uuid \<Rightarrow> world \<Rightarrow> world \<Rightarrow> bool" where
  "sends_once ws w w' \<longleftrightarrow> (\<exists>new. log_lines w' = log_lines w @ new \<and> distinct (sent_steps new)
     \<and> (\<forall>i p. (i, p) \<in> set (sent_steps new) \<longrightarrow> progress ws w i < p \<and> p \<le> progress ws w' i))
     \<and> (\<forall>i. progress ws w i \<le> progress ws w' i)"

lemma sent_steps_append [simp]: "sent_steps (xs @ ys) = sent_steps xs @ sent_steps ys"
  by (simp add: sent_steps_def map_filter_def)

lemma progress_cong: "t_leads (db v) = t_leads (db w) \<Longrightarrow> progress ws v i = progress ws w i"
  unfolding progress_def by (subst lead_in_cong [of "under ws v" "under ws w"]) (simp_all add: under_def)

lemma sends_once_quiet:
  assumes "t_leads (db w') = t_leads (db w)" and "log_lines w' = log_lines w @ new" and "sent_steps new = []"
  shows "sends_once ws w w'"
  unfolding sends_once_def using assms progress_cong [OF assms(1)] by auto

lemma sends_once_refl: "sends_once ws w w"
  by (rule sends_once_quiet [where new = "[]"]) (simp_all add: sent_steps_def map_filter_def)

lemma sends_once_trans:
  assumes "sends_once ws a b" and "sends_once ws b c"
  shows "sends_once ws a c"
proof -
  from assms(1) obtain n1 where n1: "log_lines b = log_lines a @ n1" "distinct (sent_steps n1)"
    "\<And>i p. (i, p) \<in> set (sent_steps n1) \<Longrightarrow> progress ws a i < p \<and> p \<le> progress ws b i"
    "\<And>i. progress ws a i \<le> progress ws b i" unfolding sends_once_def by blast
  from assms(2) obtain n2 where n2: "log_lines c = log_lines b @ n2" "distinct (sent_steps n2)"
    "\<And>i p. (i, p) \<in> set (sent_steps n2) \<Longrightarrow> progress ws b i < p \<and> p \<le> progress ws c i"
    "\<And>i. progress ws b i \<le> progress ws c i" unfolding sends_once_def by blast
  have "set (sent_steps n1) \<inter> set (sent_steps n2) = {}"
    using n1(3) n2(3) by fastforce
  then have "distinct (sent_steps (n1 @ n2))" using n1(2) n2(2) by simp
  moreover have "progress ws a i < p \<and> p \<le> progress ws c i" if "(i, p) \<in> set (sent_steps (n1 @ n2))" for i p
    using that n1(3,4) n2(3,4) by (fastforce intro: order.trans order.strict_trans1)
  moreover have "progress ws a i \<le> progress ws c i" for i
    using n1(4) [of i] n2(4) [of i] by simp
  moreover have "log_lines c = log_lines a @ n1 @ n2" using n1(1) n2(1) by simp
  ultimately show ?thesis unfolding sends_once_def by blast
qed

text \<open>Programs all of whose runs send every step at most once.\<close>

definition once :: "uuid \<Rightarrow> 'a act \<Rightarrow> bool" where
  "once ws m \<longleftrightarrow> (\<forall>w. sends_once ws w (snd (m w)))"

lemma once_bindp:
  assumes "once ws m" and "\<And>x. once ws (f x)"
  shows "once ws (bindp m f)"
  unfolding once_def
proof
  fix w
  obtain r w1 where m: "m w = (r, w1)" by fastforce
  have a: "sends_once ws w w1" using assms(1) m unfolding once_def by (metis snd_conv)
  show "sends_once ws w (snd (bindp m f w))"
  proof (cases r)
    case (Inl e)
    with m a show ?thesis by simp
  next
    case (Inr x)
    with m sends_once_trans [OF a, of "snd (f x w1)"] assms(2) [of x] show ?thesis
      by (simp add: once_def)
  qed
qed

lemma once_thenp: "once ws m \<Longrightarrow> once ws k \<Longrightarrow> once ws (thenp m k)"
  by (simp add: thenp_def once_bindp)

lemma once_tryp:
  assumes "once ws m" and "\<And>e. once ws (h e)"
  shows "once ws (tryp m h)"
  unfolding once_def
proof
  fix w
  obtain r w1 where m: "m w = (r, w1)" by fastforce
  have a: "sends_once ws w w1" using assms(1) m unfolding once_def by (metis snd_conv)
  show "sends_once ws w (snd (tryp m h w))"
  proof (cases r)
    case (Inr x)
    with m a show ?thesis by (simp add: tryp_run)
  next
    case (Inl e)
    with m sends_once_trans [OF a, of "snd (h e w1)"] assms(2) [of e] show ?thesis
      by (simp add: once_def tryp_run)
  qed
qed

lemma once_forp: "(\<And>x. x \<in> set xs \<Longrightarrow> once ws (f x)) \<Longrightarrow> once ws (forp f xs)"
  by (induction xs) (auto simp: once_def sends_once_refl intro!: once_thenp [unfolded once_def, rule_format])

lemma once_ret: "once ws (ret x)" "once ws (raise e)" "once ws (lift r)"
  by (simp_all add: once_def sends_once_refl)

lemma once_if: "once ws a \<Longrightarrow> once ws b \<Longrightarrow> once ws (if c then a else b)"
  by simp

text \<open>Programs that log nothing and leave every lead alone.\<close>

definition quiet :: "log_line list \<Rightarrow> lead list \<Rightarrow> world \<Rightarrow> bool" where
  "quiet lg ls w \<longleftrightarrow> log_lines w = lg \<and> t_leads (db w) = ls"

lemma once_quiet: "(\<And>lg ls. keeps (quiet lg ls) m) \<Longrightarrow> once ws m"
  unfolding once_def
proof
  fix w assume "\<And>lg ls. keeps (quiet lg ls) m"
  from keepsD [OF this, of "log_lines w" "t_leads (db w)" w]
  show "sends_once ws w (snd (m w))"
    by (intro sends_once_quiet [where new = "[]"]) (simp_all add: quiet_def sent_steps_def map_filter_def)
qed

lemma once_print: "sent_entry x = None \<Longrightarrow> once ws (print_line x)"
  by (auto simp: once_def print_line_def sent_steps_def map_filter_def
        intro!: sends_once_quiet [where new = "[x]"])

lemma once_emit: "once ws (emit ms)"
  by (rule once_quiet) (simp add: keeps_def emit_def quiet_def)

lemma once_now: "once ws now"
  by (rule once_quiet) (simp add: keeps_def quiet_def)

section \<open>The worker\<close>

lemma keeps_log_settle:
  "keeps (\<lambda>w. log_lines w = lg) (settle claim moment c l r)"
proof (cases r)
  case (DispatchSent out at)
  have "keeps (\<lambda>w. log_lines w = lg) (record_sent c l k at)" for k
    by (auto simp: keeps_def record_sent_def thenp_run bindp_run job_run ensure_member_def
        split: option.splits)
  with DispatchSent show ?thesis
    unfolding settle_def jobs_complete_def jobs_set_def leads_update_many_def update_lead_def
      jobs_add_many_def insert_send_job_row_def leads_get_def
    by (simp, intro keep_intros keeps_modify_db keeps_insert_row) auto
next
  case (DispatchDeferred at reason)
  then show ?thesis by (simp add: keeps_def settle_deferred put_job_def)
next
  case DispatchSuppressed
  then show ?thesis
    unfolding settle_def jobs_cancel_def jobs_set_def leads_update_many_def update_lead_def leads_get_def
    by (simp, intro keep_intros keeps_modify_db) auto
next
  case (DispatchFailed err)
  then show ?thesis
    unfolding settle_def jobs_fail_def jobs_retry_later_def jobs_reschedule_def jobs_set_def
      leads_update_many_def update_lead_def leads_get_def
    by (simp, intro keep_intros keeps_modify_db) auto
qed

lemma keeps_log_dispatch: "keeps (\<lambda>w. log_lines w = lg) (email_dispatch sender ws t s b)"
proof -
  have err: "keeps (\<lambda>w. log_lines w = lg) (on_send_error e)" for e
    by (cases e) (auto simp: keeps_def on_send_error_def bindp_run)
  have lock: "keeps (\<lambda>w. log_lines w = lg) (lock_try_acquire m)"
    and ident: "keeps (\<lambda>w. log_lines w = lg) (make_message_id d)"
    and wire: "keeps (\<lambda>w. log_lines w = lg) (send_mail sender ml)" for m d ml
    by (auto simp: keeps_def lock_try_acquire_run make_message_id_run send_mail_run)
  show ?thesis
    unfolding email_dispatch_def send_email_def gateway_get_by_workspace_def
      mailboxes_get_by_workspace_def suppressions_is_suppressed_def outbound_count_sent_since_def
      OutboundMessage_new_def outbound_add_def outbound_mark_sent_def
    by (intro keep_intros keeps_modify_db keeps_insert_row keeps_savepoint err lock ident wire) auto
qed

lemma keeps_log_process:
  "keeps (\<lambda>w. log_lines w = lg) (process_claimed (email_dispatch sender) claim moment)"
  unfolding process_claimed_def campaigns_get_def leads_get_def jobs_cancel_def jobs_set_def
  by (intro keep_intros keeps_modify_db keeps_log_dispatch keeps_log_settle) auto

lemma once_process_job: "once ws (worker_process_job ws sender claim)"
  unfolding once_def
proof
  fix w
  let ?u = "(under ws w)\<lparr>reads := Suc (reads w)\<rparr>"
  let ?m = "clock_at w (reads w)"
  obtain r w2 where run: "process_claimed (email_dispatch sender) claim ?m ?u = (r, w2)" by fastforce
  have eff: "lead_effect claim r ?u w2" by (rule messaging.process_effect [OF run])
  have lg: "log_lines w2 = log_lines w"
    using keepsD_run [OF keeps_log_process [of "log_lines w"] _ run] by (simp add: under_def)
  have s: "session_for_workspace ws
        (bindp now (\<lambda>moment. process_claimed (email_dispatch sender) claim moment)) w
      = (case (r, w2) of (Inr x, w') \<Rightarrow> (Inr x, w'\<lparr>guc := None, own := []\<rparr>)
          | (Inl e, w') \<Rightarrow> (Inl e, w'\<lparr>db := db w, guc := None, own := []\<rparr>))"
    using run by (simp add: session_for_workspace_def session_def bindp_run under_def)
  show "sends_once ws w (snd (worker_process_job ws sender claim w))"
  proof (cases r)
    case (Inl e)
    with s lg show ?thesis
      by (intro sends_once_quiet [where new = "[]"])
         (simp_all add: worker_process_job_def sent_steps_def map_filter_def)
  next
    case (Inr out)
    let ?e = "LogSendJob (cj_id claim) (cj_lead_id claim) (p_step_position (cj_payload claim)) (outcome_value out)"
    let ?w' = "snd (worker_process_job ws sender claim w)"
    have w': "log_lines ?w' = log_lines w @ [?e]" "t_leads (db ?w') = t_leads (db w2)"
      using s Inr lg
      by (simp_all add: worker_process_job_def bindp_run thenp_run record_send_job_outcome_def emit_def
            print_line_def)
    have pu: "progress ws ?u i = progress ws w i" for i
      by (rule progress_cong) (simp add: under_def)
    have look: "lead_in ?u i = lead_in (under ws w) i" for i
      by (rule lead_in_cong) (simp_all add: under_def)
    have out: "outcome_value out = outcome_value O_SENT \<longleftrightarrow> out = O_SENT" by (cases out) simp_all
    from eff consider
      (none) "t_leads (db w2) = t_leads (db ?u)" "out \<noteq> O_SENT"
    | (one) c l l' where "lead_in ?u (cj_lead_id claim) = Some l" "lead_move c l l'" "l_id l' = l_id l"
        "accepts_send c l (p_step_position (cj_payload claim))"
        "t_leads (db w2) = t_leads (db (put_lead l' ?u))"
        "out = O_SENT \<longrightarrow> l_steps_sent l' = p_step_position (cj_payload claim)"
      using Inr unfolding lead_effect_def by blast
    then show ?thesis
    proof cases
      case none
      then show ?thesis
        using w' out by (intro sends_once_quiet [where new = "[?e]"])
          (simp_all add: under_def sent_steps_def map_filter_def sent_entry_def)
    next
      case one
      have after: "lead_in (under ws ?w') i = lead_in (put_lead l' ?u) i" for i
        by (rule lead_in_cong) (simp_all add: under_def w'(2) one(5) [simplified under_def])
      have id: "l_id l' = cj_lead_id claim" using one(1,3) lead_in_id by metis
      have lu: "lead_in (under ws w) (cj_lead_id claim) = Some l" using one(1) look by simp
      have p': "progress ws ?w' i = (if i = cj_lead_id claim then l_steps_sent l' else progress ws w i)" for i
        using id look [of i] unfolding progress_def after lead_in_put
        by (cases "i = cj_lead_id claim") (simp_all add: lu)
      have p: "progress ws w (cj_lead_id claim) = l_steps_sent l"
        using one(1) look by (simp add: progress_def)
      have acc: "l_steps_sent l = p_step_position (cj_payload claim) - 1"
        using one(4) by (simp add: accepts_send_def)
      have "progress ws w i \<le> progress ws ?w' i" for i
        using lead_move_steps [OF one(2)] p p' by auto
      then show ?thesis
        unfolding sends_once_def
        using w'(1) p p' acc one(6) out
        by (intro conjI exI [of _ "[?e]"]) (auto simp: sent_steps_def map_filter_def sent_entry_def)
    qed
  qed
qed

text \<open>The other stages report nothing as sent and leave the progress of every lead alone.\<close>

definition steady :: "uuid \<Rightarrow> log_line list \<Rightarrow> (uuid \<Rightarrow> int option) \<Rightarrow> world \<Rightarrow> bool" where
  "steady ws lg f w \<longleftrightarrow> guc w = Some ws \<and> log_lines w = lg \<and> (\<forall>i. map_option l_steps_sent (lead_in w i) = f i)"

lemma steady_cong:
  "guc v = guc w \<Longrightarrow> log_lines v = log_lines w \<Longrightarrow> t_leads (db v) = t_leads (db w) \<Longrightarrow> steady ws lg f v = steady ws lg f w"
  using lead_in_cong [of v w] by (simp add: steady_def)

lemma once_session:
  assumes "\<And>lg f. keeps (steady ws lg f) m"
  shows "once ws (session_for_workspace ws m)"
  unfolding once_def
proof
  fix w
  obtain r w2 where run: "m (under ws w) = (r, w2)" by fastforce
  let ?f = "\<lambda>i. map_option l_steps_sent (lead_in (under ws w) i)"
  have "steady ws (log_lines w) ?f (under ws w)" by (simp add: steady_def under_def)
  then have k: "steady ws (log_lines w) ?f w2" using keepsD_run [OF assms _ run] by blast
  have s: "session_for_workspace ws m w
      = (case (r, w2) of (Inr x, w') \<Rightarrow> (Inr x, w'\<lparr>guc := None, own := []\<rparr>)
          | (Inl e, w') \<Rightarrow> (Inl e, w'\<lparr>db := db w, guc := None, own := []\<rparr>))"
    using run by (simp add: session_for_workspace_def session_def under_def)
  show "sends_once ws w (snd (session_for_workspace ws m w))"
  proof (cases r)
    case (Inl e)
    with s k show ?thesis
      by (intro sends_once_quiet [where new = "[]"]) (simp_all add: steady_def sent_steps_def map_filter_def)
  next
    case (Inr x)
    let ?w' = "w2\<lparr>guc := None, own := []\<rparr>"
    have "progress ws ?w' i = progress ws w i" for i
    proof -
      have "lead_in (under ws ?w') i = lead_in w2 i"
        using k by (intro lead_in_cong) (simp_all add: under_def steady_def)
      moreover have "map_option l_steps_sent (lead_in w2 i) = ?f i" using k by (simp add: steady_def)
      ultimately show ?thesis
        unfolding progress_def by (cases "lead_in w2 i"; cases "lead_in (under ws w) i") simp_all
    qed
    with s Inr k show ?thesis
      by (auto simp: sends_once_def steady_def sent_steps_def map_filter_def intro!: exI [of _ "[]"])
  qed
qed

lemma steady_simps [simp]:
  "steady ws lg f (w\<lparr>reads := n\<rparr>) = steady ws lg f w"
  "steady ws lg f (w\<lparr>next_uuid := n\<rparr>) = steady ws lg f w"
  "steady ws lg f (put_job i g w) = steady ws lg f w"
  by (rule steady_cong; simp add: put_job_def)+

lemma steady_db [simp]:
  "steady ws lg f (w\<lparr>db := (db w)\<lparr>t_send_jobs := x\<rparr>\<rparr>) = steady ws lg f w"
  "steady ws lg f (w\<lparr>db := (db w)\<lparr>t_processed := y\<rparr>\<rparr>) = steady ws lg f w"
  "steady ws lg f (w\<lparr>db := (db w)\<lparr>t_inbound := a\<rparr>\<rparr>) = steady ws lg f w"
  "steady ws lg f (w\<lparr>db := (db w)\<lparr>t_outbox := b\<rparr>\<rparr>) = steady ws lg f w"
  "steady ws lg f (w\<lparr>db := (db w)\<lparr>t_suppressions := c\<rparr>\<rparr>) = steady ws lg f w"
  "steady ws lg f (w\<lparr>db := (db w)\<lparr>t_mailboxes := d\<rparr>\<rparr>) = steady ws lg f w"
  by (rule steady_cong; simp)+

lemma steady_put_lead:
  assumes "steady ws lg f w" and "lead_in w (l_id l) = Some l0" and "l_steps_sent l = l_steps_sent l0"
  shows "steady ws lg f (put_lead l w)"
proof -
  have "log_lines (put_lead l w) = log_lines w" by (simp add: put_lead_def)
  moreover have "map_option l_steps_sent (lead_in w i) = f i" for i
    using assms(1) by (simp add: steady_def)
  from this [of "l_id l"] have "f (l_id l) = Some (l_steps_sent l)"
    using assms(2,3) by simp
  ultimately show ?thesis using assms by (auto simp: steady_def lead_in_put)
qed

lemma keeps_stop_lead: "keeps (steady ws lg f) (stop_lead reply moment)"
proof (rule keepsI)
  fix w assume st: "steady ws lg f w"
  show "steady ws lg f (snd (stop_lead reply moment w))"
  proof (cases rule: stop_lead_cases [of reply moment w])
    case kept
    with st show ?thesis by simp
  next
    case (stops out i l c l')
    then have "steady ws lg f (put_lead l' w)" using st by (intro steady_put_lead) auto
    then show ?thesis using stops(10) steady_cong [of "cancel_pending i moment (put_lead l' w)" "put_lead l' w"]
      by simp
  qed
qed

lemma keeps_run_replies: "keeps (steady ws lg f) (run_replies ws lim moment)"
proof -
  have "keeps (steady ws lg f) (feed_acknowledge reply moment)" for reply
    by (auto simp: keeps_def feed_acknowledge_def split: option.splits)
  then show ?thesis
    unfolding run_replies_def handle_replies_def handle_reply_def feed_claim_def
    by (intro keep_intros keeps_stop_lead)
qed

lemma keeps_outbox_record: "keeps (steady ws lg f) (outbox_record t wsp i p)"
  unfolding outbox_record_def by (intro keep_intros keeps_insert_row) auto

lemma keeps_suppressions_add: "keeps (steady ws lg f) (suppressions_add s)"
  by (auto simp: keeps_def suppressions_add_def split: option.splits)

lemma keeps_classify_reply: "keeps (steady ws lg f) (classify_reply classify mailbox fetched message matched)"
  unfolding classify_reply_def inbound_update_def Suppression_new_def
  by (intro keep_intros keeps_modify_db keeps_outbox_record keeps_suppressions_add) auto

lemma keeps_poll_inbox: "keeps (steady ws lg f) (poll_inbox receive classify mailbox)"
proof -
  have rc: "keeps (steady ws lg f) (\<lambda>w. (g w, w))" for g :: "world \<Rightarrow> exn + fetch_result"
    by (simp add: keeps_def)
  show ?thesis
    unfolding poll_inbox_def poll_one_def inbound_exists_def InboundMessage_new_def inbound_add_def
      outbound_list_unanswered_def gateway_advance_cursor_def mailboxes_get_by_workspace_def
      mailboxes_update_cursor_def
    by (intro keep_intros keeps_modify_db keeps_insert_row keeps_outbox_record keeps_classify_reply rc) auto
qed

lemma once_case_sum:
  "(\<And>e. once ws (f e)) \<Longrightarrow> (\<And>x. once ws (g x)) \<Longrightarrow> once ws (case s of Inl e \<Rightarrow> f e | Inr x \<Rightarrow> g x)"
  by (cases s) auto

lemma once_case_option:
  "once ws a \<Longrightarrow> (\<And>x. once ws (g x)) \<Longrightarrow> once ws (case s of None \<Rightarrow> a | Some x \<Rightarrow> g x)"
  by (cases s) auto

lemmas once_intros = once_case_sum once_case_option once_bindp once_thenp once_if once_print once_emit once_ret

lemma once_worker_loop:
  "UUID_parse (mailbox_workspace_id s) = Inr ws
     \<Longrightarrow> once ws (worker_loop n s receive classify sender worker_id last_idle)"
proof (induction n arbitrary: last_idle)
  case 0
  show ?case by (simp only: worker_loop.simps once_ret)
next
  case (Suc n)
  have poll: "once ws (worker_poll_inbox ws receive classify)"
  proof -
    have "keeps (steady ws lg f) (bindp (gateway_get_by_workspace ws) (\<lambda>mailbox.
          case mailbox of
            None \<Rightarrow> ret (Inl (''no mailbox seeded for workspace '' @ uuid_str ws))
          | Some m \<Rightarrow> bindp (poll_inbox receive classify m) (\<lambda>result. ret (Inr result))))" for lg f
      unfolding gateway_get_by_workspace_def mailboxes_get_by_workspace_def
      by (intro keep_intros keeps_poll_inbox)
    note base = once_session [OF this]
    show ?thesis
      unfolding worker_poll_inbox_def
      by (rule once_bindp [OF base]) (intro once_intros, simp add: sent_entry_def)
  qed
  have replies: "once ws (worker_dispatch_replies ws)"
  proof -
    have "keeps (steady ws lg f) (bindp now (\<lambda>moment. run_replies ws REPLY_BATCH_SIZE moment))" for lg f
      by (intro keep_intros keeps_run_replies) simp
    note base = once_session [OF this]
    show ?thesis
      unfolding worker_dispatch_replies_def record_stopped_leads_def
      by (rule once_bindp [OF base]) (intro once_intros once_forp, simp add: sent_entry_def)
  qed
  have drain: "once ws (worker_drain_send_jobs ws sender worker_id)"
  proof -
    have "keeps (steady ws lg f) (bindp now (\<lambda>moment. claim_due_send_jobs ws worker_id SEND_BATCH_SIZE moment))" for lg f
      unfolding claim_due_send_jobs_def jobs_claim_def
      by (intro keep_intros keeps_modify_db) auto
    note base = once_session [OF this]
    show ?thesis
      unfolding worker_drain_send_jobs_def by (rule once_bindp [OF base]) (intro once_forp once_process_job)
  qed
  have safe: "once ws (logged what x m)" if "once ws m" for what x and m :: "'b act"
    unfolding logged_def using that
    by (intro once_tryp once_intros) (simp_all add: sent_entry_def)
  have known: "bindp (lift (Inr ws)) g = g ws" for g :: "uuid \<Rightarrow> string act"
    by (simp add: fun_eq_iff bindp_run)
  have "once ws (worker_tick s receive classify sender worker_id)"
    unfolding worker_tick_def Let_def Suc.prems known
    by (intro once_intros safe poll replies drain)
  then show ?case
    unfolding worker_loop.simps using Suc by (intro once_intros) (auto simp: sent_entry_def)
qed

section \<open>The worker never raises\<close>

lemma logged_Inr:
  obtains x w' where "logged what fallback m w = (Inr x, w')"
  by (cases "m w"; cases "fst (m w)") (auto simp: logged_def tryp_run thenp_run print_line_def)

lemma worker_tick_Inr:
  assumes "UUID_parse (mailbox_workspace_id s) = Inr ws"
  obtains reason w' where "worker_tick s receive classify sender worker_id w = (Inr reason, w')"
proof (cases "missing_runtime_config s = []")
  case True
  obtain x w1 where 1: "logged ''poll'' [] (worker_poll_inbox ws receive classify) w = (Inr x, w1)"
    by (rule logged_Inr)
  obtain y w2 where 2: "logged ''reply dispatch'' () (worker_dispatch_replies ws) w1 = (Inr y, w2)"
    by (rule logged_Inr)
  obtain z w3 where 3: "logged ''send'' () (worker_drain_send_jobs ws sender worker_id) w2 = (Inr z, w3)"
    by (rule logged_Inr)
  show ?thesis
  proof (cases "drains_send_jobs s")
    case True
    with \<open>missing_runtime_config s = []\<close> assms 1 2 3 that show ?thesis
      by (simp add: worker_tick_def bindp_run thenp_run)
  next
    case False
    with \<open>missing_runtime_config s = []\<close> assms 1 2 that show ?thesis
      by (simp add: worker_tick_def bindp_run thenp_run)
  qed
qed (use that in \<open>simp add: worker_tick_def Let_def\<close>)

end
