(* ===== verification/Py_Float.thy ===== *)
theory Py_Float
  imports Errors
begin

text \<open>
  Double-precision arithmetic where its rounding shows: the quotient of two integers, and the
  timestamp \<open>datetime.fromtimestamp(ms / 1000, tz=UTC)\<close>.
\<close>

section \<open>Quotients\<close>

text \<open>
  The nearest double of a quotient is a mantissa over a power of two, ties to even; the
  scale is the least one at which the mantissa reaches 53 bits.
\<close>

definition round_half_even :: "nat \<Rightarrow> nat \<Rightarrow> nat" where
  "round_half_even a b =
     (let q = a div b; r = a mod b
      in if 2 * r < b then q else if b < 2 * r then q + 1 else if even q then q else q + 1)"

function scale_of :: "nat \<Rightarrow> nat \<Rightarrow> nat \<Rightarrow> nat" where
  "scale_of part whole s =
     (if part = 0 \<or> whole = 0 \<or> 2 ^ 52 * whole \<le> part * 2 ^ s then s
      else scale_of part whole (Suc s))"
  by pat_completeness auto
termination
  by (relation "measure (\<lambda>(part, whole, s). 2 ^ 52 * whole - part * 2 ^ s)")
     (auto intro!: diff_less_mono2)

declare scale_of.simps [simp del]

lemma round_half_even_le:
  assumes "a \<le> n * b"
  shows "round_half_even a b \<le> n"
proof (cases "b = 0")
  case False
  show ?thesis
  proof (cases "a div b < n")
    case True
    then show ?thesis by (simp add: round_half_even_def Let_def)
  next
    case not_less: False
    have "a div b \<le> n" using assms False by (metis div_le_mono div_mult_self_is_m neq0_conv)
    with not_less have "a div b = n" by simp
    then have "a mod b = 0"
      using assms by (metis add_cancel_right_right add_leE div_mult_mod_eq le_antisym le_add1)
    with \<open>a div b = n\<close> False show ?thesis by (simp add: round_half_even_def Let_def)
  qed
next
  case True
  with assms show ?thesis by (simp add: round_half_even_def Let_def)
qed

lemma round_half_even_near:
  assumes "0 < b" and "2 * a < 2 * (n * b) + b" and "2 * (n * b) < 2 * a + b"
  shows "round_half_even a b = n"
proof -
  define q r where "q = a div b" and "r = a mod b"
  have a: "a = q * b + r" and r: "r < b" using assms(1) by (simp_all add: q_def r_def)
  have rounded: "round_half_even a b = (if 2 * r < b then q else if b < 2 * r then q + 1
      else if even q then q else q + 1)"
    by (simp add: round_half_even_def Let_def q_def r_def)
  have "q = n \<or> Suc q = n \<or> n + 1 \<le> q \<or> q + 2 \<le> n" by linarith
  then consider "q = n" | "Suc q = n" | d where "q = n + 1 + d" | d where "n = q + 2 + d"
    unfolding le_iff_add by blast
  then show ?thesis
  proof cases
    case 1
    with a assms(2) have "2 * r < b" by simp
    with 1 show ?thesis by (simp add: rounded)
  next
    case 2
    then have "n * b = q * b + b" by auto
    then have "b < 2 * r" using a assms(3) by linarith
    with 2 show ?thesis by (simp add: rounded)
  next
    case (3 d)
    then have "q * b = n * b + b + d * b" by (simp add: add_mult_distrib)
    then have False using a assms(1,2) by linarith
    then show ?thesis ..
  next
    case (4 d)
    then have "n * b = q * b + 2 * b + d * b" by (simp add: add_mult_distrib)
    then have False using a r assms(3) by linarith
    then show ?thesis ..
  qed
qed

lemma round_half_even_error:
  assumes "0 < b"
  shows "2 * a \<le> 2 * (round_half_even a b * b) + b" and "2 * (round_half_even a b * b) \<le> 2 * a + b"
proof -
  define q r where "q = a div b" and "r = a mod b"
  have a: "a = q * b + r" and r: "r < b" using assms by (simp_all add: q_def r_def)
  have "round_half_even a b = (if 2 * r < b then q else if b < 2 * r then q + 1
      else if even q then q else q + 1)"
    by (simp add: round_half_even_def Let_def q_def r_def)
  then have "round_half_even a b * b = q * b \<and> 2 * r \<le> b \<or> round_half_even a b * b = q * b + b \<and> b \<le> 2 * r"
    by (simp add: add_mult_distrib split: if_splits)
  then show "2 * a \<le> 2 * (round_half_even a b * b) + b" "2 * (round_half_even a b * b) \<le> 2 * a + b"
    using a r by linarith+
qed

section \<open>Timestamps\<close>

text \<open>
  The double \<open>ms / 1000\<close> is split into seconds and a fraction, and the fraction is rounded to
  microseconds, ties to even (the product with \<open>1000000\<close> is exact where the fraction has at most
  33 bits, and next to a whole number where it has more). Outside the years 1 to 9999 Python raises a \<open>ValueError\<close>,
  an \<open>OverflowError\<close> or an \<open>OSError\<close> by magnitude; they are one error here.
\<close>

definition micros_of_ms :: "nat \<Rightarrow> nat" where
  "micros_of_ms ms =
     (let s = scale_of ms 1000 0;
          mantissa = round_half_even (ms * 2 ^ s) 1000
      in mantissa div 2 ^ s * 1000000 + round_half_even (mantissa mod 2 ^ s * 1000000) (2 ^ s))"

definition fromtimestamp_ms :: "int \<Rightarrow> exn + time" where
  "fromtimestamp_ms ms =
     (let t = (if ms < 0 then - int (micros_of_ms (nat (- ms))) else int (micros_of_ms (nat ms)))
      in if -62135596800000000 \<le> t \<and> t < 253402300800000000 then Inr t
         else Inl (ValueError ''year is out of range''))"

lemma scale_of_reaches: "0 < part \<Longrightarrow> 0 < whole \<Longrightarrow> 2 ^ 52 * whole \<le> part * 2 ^ scale_of part whole s"
  by (induction part whole s rule: scale_of.induct) (subst scale_of.simps, simp)

text \<open>Until the year 2242 the result is the exact number of microseconds.\<close>

lemma micros_exact:
  assumes "ms < 2 ^ 33 * 1000"
  shows "micros_of_ms ms = ms * 1000"
proof (cases "ms = 0")
  case False
  define p m where "p = (2::nat) ^ scale_of ms 1000 0" and "m = round_half_even (ms * p) 1000"
  have "2 ^ 52 * 1000 \<le> ms * p" using False unfolding p_def by (intro scale_of_reaches) simp_all
  also have "ms * p < 2 ^ 33 * 1000 * p" using assms by (intro mult_strict_right_mono) (simp_all add: p_def)
  finally have "(2::nat) ^ 19 < p" by simp
  then have "19 < scale_of ms 1000 0" unfolding p_def by (rule power_less_imp_less_exp [rotated]) simp
  then have "(2::nat) ^ 20 \<le> p" unfolding p_def by (intro power_increasing) simp_all
  then have p: "1000000 < p" by simp
  define i f where "i = m div p" and "f = m mod p"
  have m: "m = i * p + f" by (simp add: i_def f_def)
  have near: "2 * (ms * p) \<le> 2 * (m * 1000) + 1000" "2 * (m * 1000) \<le> 2 * (ms * p) + 1000"
    using round_half_even_error [of 1000 "ms * p"] by (simp_all add: m_def)
  have "i * 1000 \<le> ms"
  proof (rule ccontr)
    assume "\<not> i * 1000 \<le> ms"
    then have "(ms + 1) * p \<le> i * 1000 * p" by (intro mult_le_mono1) simp
    then show False using near(2) m p by (simp add: algebra_simps)
  qed
  then obtain d where d: "ms = i * 1000 + d" using le_Suc_ex by blast
  then have ms: "ms * p = 1000 * (i * p) + d * p" by (simp add: algebra_simps)
  have "round_half_even (f * 1000000) p = d * 1000"
    by (rule round_half_even_near) (use near m ms p in \<open>simp_all add: algebra_simps\<close>)
  moreover have "micros_of_ms ms = i * 1000000 + round_half_even (f * 1000000) p"
    by (simp add: micros_of_ms_def Let_def flip: p_def m_def i_def f_def)
  ultimately show ?thesis using d by simp
qed (simp add: micros_of_ms_def scale_of.simps round_half_even_def)

end
