(* ===== verification/Campaign_Commands.thy ===== *)
theory Campaign_Commands
  imports Campaign_Repos Campaign_Laws Messaging_Repos Py_Float
begin

text \<open>
  The commands and queries of the campaign context
  (\<open>contexts/campaign/application/commands\<close> and \<open>queries\<close>): creating a campaign, adding
  leads, starting, and the three read models.
\<close>

section \<open>Commands\<close>

record create_campaign_command =
  cc_name :: string
  cc_steps :: "step_draft list"

definition create_campaign :: "create_campaign_command \<Rightarrow> uuid \<Rightarrow> campaign act" where
  "create_campaign command workspace_id =
     bindp (mailbox_id_for workspace_id) (\<lambda>mailbox_id.
       case mailbox_id of None \<Rightarrow> raise MailboxNotConnectedError
       | Some m \<Rightarrow>
           bindp (Campaign_new workspace_id m (cc_name command) (cc_steps command)) (\<lambda>c.
           thenp (campaigns_add c) (ret c)))"

record add_leads_result =
  ar_added :: int
  ar_skipped :: int
  ar_scheduled :: int

definition add_leads_command :: "uuid \<Rightarrow> string list \<Rightarrow> time \<Rightarrow> add_leads_result act" where
  "add_leads_command campaign_id emails moment =
     bindp (campaigns_get campaign_id) (\<lambda>campaign.
       case campaign of None \<Rightarrow> raise CampaignNotFoundError
       | Some c \<Rightarrow>
           bindp (leads_emails campaign_id) (\<lambda>known.
           bindp (add_leads c emails known) (\<lambda>new_leads.
           thenp (leads_add_many new_leads) (
           bindp (if is_active c \<and> new_leads \<noteq> []
                  then bindp (schedule c new_leads moment) (\<lambda>(scheduled_leads, jobs).
                       thenp (leads_update_many scheduled_leads) (
                       thenp (jobs_add_many jobs) (ret (int (length scheduled_leads)))))
                  else ret 0) (\<lambda>scheduled.
           ret \<lparr> ar_added = int (length new_leads),
                 ar_skipped = int (length emails) - int (length new_leads),
                 ar_scheduled = scheduled \<rparr>)))))"

record start_campaign_result =
  sr_campaign :: campaign
  sr_scheduled :: int

definition start_campaign :: "uuid \<Rightarrow> time \<Rightarrow> start_campaign_result act" where
  "start_campaign campaign_id moment =
     bindp (campaigns_get campaign_id) (\<lambda>campaign.
       case campaign of None \<Rightarrow> raise CampaignNotFoundError
       | Some c \<Rightarrow>
           if is_active c then ret \<lparr> sr_campaign = c, sr_scheduled = 0 \<rparr>
           else
             bindp (leads_list_pending campaign_id) (\<lambda>pending.
             thenp (guardp (pending \<noteq> []) CampaignHasNoLeadsError) (
             bindp (start c pending moment) (\<lambda>(started, scheduled, jobs).
             thenp (campaigns_update_status started) (
             thenp (leads_update_many scheduled) (
             thenp (jobs_add_many jobs) (
             ret \<lparr> sr_campaign = started, sr_scheduled = int (length scheduled) \<rparr>)))))))"

section \<open>Queries\<close>

record lead_view =
  lv_lead :: lead
  lv_next_send_at :: "time option"

record campaign_detail =
  cd_campaign :: campaign
  cd_leads :: "lead_view list"

definition get_campaign :: "uuid \<Rightarrow> campaign_detail act" where
  "get_campaign campaign_id =
     bindp (campaigns_get campaign_id) (\<lambda>campaign.
       case campaign of None \<Rightarrow> raise CampaignNotFoundError
       | Some c \<Rightarrow>
           bindp (jobs_next_send_at campaign_id) (\<lambda>next_send_at.
           bindp (leads_list_by_campaign campaign_id) (\<lambda>leads.
           ret \<lparr> cd_campaign = c,
                 cd_leads = map (\<lambda>l. \<lparr> lv_lead = l, lv_next_send_at = next_send_at (l_id l) \<rparr>) leads \<rparr>)))"

record campaign_summary =
  cs_campaign :: campaign
  cs_lead_counts :: "lead_state \<rightharpoonup> nat"

definition list_campaigns :: "campaign_summary list act" where
  "list_campaigns =
     bindp campaigns_list (\<lambda>campaigns.
     bindp (leads_count_by_state (map c_id campaigns)) (\<lambda>counts.
     ret (map (\<lambda>c. \<lparr> cs_campaign = c,
            cs_lead_counts = (case counts (c_id c) of None \<Rightarrow> Map.empty | Some m \<Rightarrow> m) \<rparr>) campaigns)))"

section \<open>Metrics\<close>

text \<open>
  \<open>round(part / whole, 4)\<close> on doubles, as the number of ten-thousandths: the quotient is
  the nearest double (a mantissa of 53 bits over a power of two, ties to even), and
  \<open>round\<close> takes the nearest multiple of \<open>1/10000\<close> of that exact value, ties to even.
\<close>

definition share :: "nat \<Rightarrow> nat \<Rightarrow> nat" where
  "share part whole =
     (if whole = 0 then 0
      else let s = scale_of part whole 0;
               mantissa = round_half_even (part * 2 ^ s) whole
           in round_half_even (mantissa * 10000) (2 ^ s))"

record campaign_metrics =
  cm_campaign_id :: uuid
  cm_leads :: nat
  cm_contacted :: nat
  cm_emails_sent :: int
  cm_replied :: nat
  cm_reply_intents :: "(string \<times> nat) list"
  cm_bounced :: nat
  cm_in_progress :: nat
  cm_completed :: nat
  cm_reply_rate :: nat
  cm_bounce_rate :: nat

definition metrics_of :: "uuid \<Rightarrow> lead_stats \<Rightarrow> campaign_metrics" where
  "metrics_of campaign_id stats =
     (let reply_intents = filter (\<lambda>(i, n). i \<noteq> BOUNCE_INTENT) (st_reply_intents stats);
          replied = sum_list (map snd reply_intents)
      in \<lparr> cm_campaign_id = campaign_id, cm_leads = st_leads stats,
           cm_contacted = st_contacted stats, cm_emails_sent = st_emails_sent stats,
           cm_replied = replied, cm_reply_intents = reply_intents,
           cm_bounced = st_bounced stats, cm_in_progress = st_in_progress stats,
           cm_completed = st_completed stats,
           cm_reply_rate = share replied (st_contacted stats),
           cm_bounce_rate = share (st_bounced stats) (st_contacted stats) \<rparr>)"

definition get_campaign_metrics :: "uuid \<Rightarrow> campaign_metrics act" where
  "get_campaign_metrics campaign_id =
     bindp (campaigns_get campaign_id) (\<lambda>campaign.
       if campaign = None then raise CampaignNotFoundError
       else bindp (leads_stats campaign_id) (\<lambda>stats. ret (metrics_of campaign_id stats)))"

end
