(* ===== verification/Command_Laws.thy ===== *)
theory Command_Laws
  imports Campaign_Commands
begin

text \<open>
  What the commands and queries of the campaign context promise: a campaign that was stored is
  read back as it was, and the numbers of the metrics are consistent.
\<close>

section \<open>Metrics\<close>

lemma share_le:
  assumes "part \<le> whole"
  shows "share part whole \<le> 10000"
proof (cases "whole = 0")
  case False
  let ?s = "scale_of part whole 0"
  have "round_half_even (part * 2 ^ ?s) whole \<le> 2 ^ ?s"
    using assms by (intro round_half_even_le) (simp add: mult.commute)
  then have "round_half_even (round_half_even (part * 2 ^ ?s) whole * 10000) (2 ^ ?s) \<le> 10000"
    by (intro round_half_even_le) simp
  with False show ?thesis by (simp add: share_def Let_def)
qed (simp add: share_def)

lemma share_zero: "share part 0 = 0"
  by (simp add: share_def)

lemma count_mono: "(\<And>x. x \<in> set xs \<Longrightarrow> P x \<Longrightarrow> Q x) \<Longrightarrow> count P xs \<le> count Q xs"
  by (induction xs) (auto simp: count_def)

lemma count_le_length: "count P xs \<le> length xs"
  by (simp add: count_def)

lemma count_disjoint: "(\<And>x. x \<in> set xs \<Longrightarrow> \<not> (P x \<and> Q x)) \<Longrightarrow> count P xs + count Q xs = count (\<lambda>x. P x \<or> Q x) xs"
  by (induction xs) (auto simp: count_def)

lemma sum_count:
  assumes "finite A"
  shows "(\<Sum>i\<in>A. count (\<lambda>x. f x = Some i) xs) = count (\<lambda>x. f x \<in> Some ` A) xs"
proof (induction xs)
  case Nil
  then show ?case by (simp add: count_def)
next
  case (Cons x xs)
  have "(\<Sum>i\<in>A. count (\<lambda>x. f x = Some i) (x # xs))
      = (\<Sum>i\<in>A. (if f x = Some i then 1 else 0) + count (\<lambda>x. f x = Some i) xs)"
    by (rule sum.cong) (simp_all add: count_def)
  also have "\<dots> = (if f x \<in> Some ` A then 1 else 0) + count (\<lambda>x. f x \<in> Some ` A) xs"
    using assms Cons by (cases "f x") (auto simp: sum.distrib)
  also have "\<dots> = count (\<lambda>x. f x \<in> Some ` A) (x # xs)" by (simp add: count_def)
  finally show ?case .
qed

text \<open>The leads that replied: those with an intent other than a bounce.\<close>

definition has_replied :: "lead \<Rightarrow> bool" where
  "has_replied l \<longleftrightarrow> l_reply_intent l \<notin> {None, Some BOUNCE_INTENT}"

lemma replied_count: "cm_replied (metrics_of i (stats_of rows)) = count has_replied rows"
proof -
  let ?A = "{x. Some x \<in> l_reply_intent ` set rows \<and> x \<noteq> BOUNCE_INTENT}"
  let ?is = "remdups (List.map_filter l_reply_intent rows)"
  have set: "set ?is = {x. Some x \<in> l_reply_intent ` set rows}"
  proof -
    have "set (List.map_filter l_reply_intent ls) = {x. Some x \<in> l_reply_intent ` set ls}" for ls
      by (induction ls) (auto simp: List.map_filter_simps image_iff split: option.splits)
    then show ?thesis by simp
  qed
  have "cm_replied (metrics_of i (stats_of rows))
      = sum_list (map (\<lambda>x. count (\<lambda>l. l_reply_intent l = Some x) rows) (filter (\<lambda>x. x \<noteq> BOUNCE_INTENT) ?is))"
    by (simp add: metrics_of_def stats_of_def Let_def filter_map comp_def case_prod_beta')
  also have "\<dots> = (\<Sum>x\<in>set (filter (\<lambda>x. x \<noteq> BOUNCE_INTENT) ?is). count (\<lambda>l. l_reply_intent l = Some x) rows)"
    by (rule sum_list_distinct_conv_sum_set) simp
  also have "set (filter (\<lambda>x. x \<noteq> BOUNCE_INTENT) ?is) = ?A" using set by auto
  also have "(\<Sum>x\<in>?A. count (\<lambda>l. l_reply_intent l = Some x) rows) = count (\<lambda>l. l_reply_intent l \<in> Some ` ?A) rows"
  proof (rule sum_count)
    have "?A \<subseteq> set ?is" using set by auto
    then show "finite ?A" by (rule finite_subset) simp
  qed
  also have "\<dots> = count has_replied rows"
    unfolding count_def
  proof (rule arg_cong [where f = length], rule filter_cong)
    fix l assume l: "l \<in> set rows"
    show "l_reply_intent l \<in> Some ` ?A \<longleftrightarrow> has_replied l"
    proof (cases "l_reply_intent l")
      case (Some y)
      with l have "Some y \<in> l_reply_intent ` set rows" by (metis image_eqI)
      with Some show ?thesis by (simp add: has_replied_def inj_image_mem_iff)
    qed (auto simp: has_replied_def)
  qed simp
  finally show ?thesis .
qed

lemma metrics_sel:
  "cm_leads (metrics_of i s) = st_leads s" "cm_contacted (metrics_of i s) = st_contacted s"
  "cm_bounced (metrics_of i s) = st_bounced s" "cm_completed (metrics_of i s) = st_completed s"
  "cm_in_progress (metrics_of i s) = st_in_progress s" "cm_emails_sent (metrics_of i s) = st_emails_sent s"
  "cm_reply_rate (metrics_of i s) = share (cm_replied (metrics_of i s)) (st_contacted s)"
  "cm_bounce_rate (metrics_of i s) = share (st_bounced s) (st_contacted s)"
  by (simp_all add: metrics_of_def Let_def)

lemma stats_sel:
  "st_leads (stats_of rows) = length rows"
  "st_contacted (stats_of rows) = count (\<lambda>l. 0 < l_steps_sent l) rows"
  "st_bounced (stats_of rows) = count (\<lambda>l. l_stop_reason l = Some BOUNCED) rows"
  "st_completed (stats_of rows) = count (\<lambda>l. l_state l = DONE) rows"
  "st_in_progress (stats_of rows) = count (\<lambda>l. l_state l \<in> in_progress_states) rows"
  by (simp_all add: stats_of_def)

lemma replied_bounced_le:
  assumes "\<And>l. l \<in> set rows \<Longrightarrow> wf_lead c l"
  shows "cm_replied (metrics_of i (stats_of rows)) + st_bounced (stats_of rows) \<le> st_contacted (stats_of rows)"
proof -
  have "count has_replied rows + count (\<lambda>l. l_stop_reason l = Some BOUNCED) rows
      = count (\<lambda>l. has_replied l \<or> l_stop_reason l = Some BOUNCED) rows"
    by (rule count_disjoint) (use assms in \<open>auto simp: wf_lead_def has_replied_def\<close>)
  also have "\<dots> \<le> count (\<lambda>l. 0 < l_steps_sent l) rows"
    by (rule count_mono) (use assms in \<open>auto simp: wf_lead_def has_replied_def\<close>)
  finally show ?thesis by (simp add: replied_count stats_sel)
qed

lemma completed_le:
  assumes "\<And>l. l \<in> set rows \<Longrightarrow> wf_lead c l" and "c_steps c \<noteq> []"
  shows "st_completed (stats_of rows) \<le> st_contacted (stats_of rows)"
  unfolding stats_sel
proof (rule count_mono)
  fix l assume "l \<in> set rows" and "l_state l = DONE"
  with assms(1) [of l] assms(2) show "0 < l_steps_sent l" by (simp add: wf_lead_def)
qed

section \<open>A stored campaign\<close>

definition with_campaign :: "campaign \<Rightarrow> world \<Rightarrow> world" where
  "with_campaign c w = w\<lparr>db := (db w)\<lparr>t_campaigns := t_campaigns (db w) @ [campaign_to_row c],
     t_steps := t_steps (db w) @ map (step_to_row c) (c_steps c)\<rparr>\<rparr>"

lemma insert_steps_Inr:
  assumes "forp (\<lambda>s. insert_step_row (step_to_row c s)) ss w = (Inr u, w')"
  shows "w' = w\<lparr>db := (db w)\<lparr>t_steps := t_steps (db w) @ map (step_to_row c) ss\<rparr>\<rparr>"
  using assms
proof (induction ss arbitrary: w)
  case (Cons s ss)
  from Cons.prems obtain w1 where a: "insert_step_row (step_to_row c s) w = (Inr (), w1)"
    and b: "forp (\<lambda>s. insert_step_row (step_to_row c s)) ss w1 = (Inr u, w')"
    by (auto elim: thenp_InrE)
  from a have w1: "w1 = w\<lparr>db := (db w)\<lparr>t_steps := t_steps (db w) @ [step_to_row c s]\<rparr>\<rparr>"
    by (simp add: insert_step_row_def insert_row_Inr)
  show ?case using Cons.IH [OF b] unfolding w1 by simp
qed simp

lemma campaigns_add_Inr:
  assumes "campaigns_add c w = (Inr u, w')"
  shows "w' = with_campaign c w" and "guc w = Some (c_workspace_id c)"
    and "c_id c \<notin> cr_id ` set (t_campaigns (db w))"
proof -
  from assms obtain w1 where a: "insert_campaign_row (campaign_to_row c) w = (Inr (), w1)"
    and b: "forp (\<lambda>s. insert_step_row (step_to_row c s)) (c_steps c) w1 = (Inr u, w')"
    by (auto simp: campaigns_add_def elim: thenp_InrE)
  from a have w1: "w1 = w\<lparr>db := (db w)\<lparr>t_campaigns := t_campaigns (db w) @ [campaign_to_row c]\<rparr>\<rparr>"
    and c: "guc w = Some (c_workspace_id c)" "c_id c \<notin> cr_id ` set (t_campaigns (db w))"
    by (simp_all add: insert_campaign_row_def insert_row_Inr campaign_to_row_def)
  from insert_steps_Inr [OF b] w1 show "w' = with_campaign c w" by (simp add: with_campaign_def)
  show "guc w = Some (c_workspace_id c)" "c_id c \<notin> cr_id ` set (t_campaigns (db w))" by fact+
qed

text \<open>
  The references that the database enforces: a step and a lead belong to a campaign of the table.
\<close>

definition references_hold :: "world \<Rightarrow> bool" where
  "references_hold w \<longleftrightarrow> sr_campaign_id ` set (t_steps (db w)) \<subseteq> cr_id ` set (t_campaigns (db w))
     \<and> l_campaign_id ` set (t_leads (db w)) \<subseteq> cr_id ` set (t_campaigns (db w))"

lemma steps_in_order:
  assumes "wf_campaign c"
  shows "map step_of_row (sort_key sr_position (map (step_to_row c) (c_steps c))) = c_steps c"
proof -
  have "sorted (map sr_position (map (step_to_row c) (c_steps c)))"
    using assms by (auto simp: sorted_iff_nth_mono wf_campaign_def step_to_row_def)
  then have "sort_key sr_position (map (step_to_row c) (c_steps c)) = map (step_to_row c) (c_steps c)"
    by (rule sort_key_id_if_sorted)
  then show ?thesis by (simp add: step_of_row_def step_to_row_def map_idI)
qed

lemma stored_campaign_in:
  assumes "campaigns_add c w = (Inr u, w')" and "references_hold w" and "wf_campaign c"
  shows "campaign_in w' (c_id c) = Some c"
proof -
  note s = campaigns_add_Inr [OF assms(1)]
  have absent: "cr_id r \<noteq> c_id c" if "r \<in> set (t_campaigns (db w))" for r
    using s(3) that by (metis image_eqI)
  have no_step: "sr_campaign_id r \<noteq> c_id c" if "r \<in> set (t_steps (db w))" for r
    using assms(2) s(3) that unfolding references_hold_def by (metis image_subset_iff)
  have "find (\<lambda>r. cr_id r = c_id c) (campaign_rows w') = Some (campaign_to_row c)"
    using s(2) absent unfolding s(1)
    by (auto simp: with_campaign_def campaign_rows_def sees_def find_append find_None campaign_to_row_def
          split: option.splits dest: find_Some_in)
  moreover have "filter (\<lambda>r. sr_campaign_id r \<in> set [c_id c] \<and> sr_campaign_id r = c_id c) (step_rows w')
      = map (step_to_row c) (c_steps c)"
    using s(2) no_step unfolding s(1)
    by (auto simp: with_campaign_def step_rows_def sees_def filter_map comp_def step_to_row_def filter_empty_conv)
  ultimately show ?thesis
    using steps_in_order [OF assms(3)] assms(3)
    by (simp add: campaign_in_def steps_by_campaign_def or_empty_def campaign_of_row_def campaign_to_row_def
          wf_campaign_def split: list.splits)
qed

lemma create_campaign_Inr:
  assumes "create_campaign command ws w = (Inr c, w')"
  obtains m w1 where "campaigns_add c w1 = (Inr (), w')" and "db w1 = db w" and "guc w1 = guc w"
    and "wf_campaign c" and "c_status c = DRAFT" and "c_workspace_id c = ws" and "mailbox_of w ws = Some m"
    and "c_mailbox_id c = mb_id m" and "cc_steps command \<noteq> []"
proof -
  from assms obtain m w1 where m: "mailbox_of w ws = Some m"
    and new: "Campaign_new ws (mb_id m) (cc_name command) (cc_steps command) w = (Inr c, w1)"
    and add: "campaigns_add c w1 = (Inr (), w')"
    by (auto simp: create_campaign_def mailbox_id_for_def mailboxes_get_by_workspace_def bindp_run thenp_run
          split: option.splits sum.splits prod.splits)
  have ok: "cc_steps command \<noteq> []" "\<forall>d\<in>set (cc_steps command). 0 \<le> d_delay_seconds d"
    using new Campaign_new_Inr_iff by blast+
  have "db w1 = db w" "guc w1 = guc w"
    using new unfolding Campaign_new_run [OF ok] by auto
  with that add m Campaign_new_wf [OF new] ok(1) show ?thesis by blast
qed

lemma created_is_found:
  assumes "create_campaign command ws w = (Inr c, w')" and "references_hold w"
  shows "get_campaign (c_id c) w' = (Inr \<lparr> cd_campaign = c, cd_leads = [] \<rparr>, w')"
proof (rule create_campaign_Inr [OF assms(1)])
  fix m w1
  assume add: "campaigns_add c w1 = (Inr (), w')" and db: "db w1 = db w" and wf: "wf_campaign c"
  have refs: "references_hold w1" using assms(2) db by (simp add: references_hold_def)
  have found: "campaign_in w' (c_id c) = Some c" by (rule stored_campaign_in [OF add refs wf])
  have "l_campaign_id l \<noteq> c_id c" if "l \<in> set (t_leads (db w'))" for l
  proof
    assume "l_campaign_id l = c_id c"
    moreover have "l \<in> set (t_leads (db w1))"
      using that campaigns_add_Inr(1) [OF add] by (simp add: with_campaign_def)
    ultimately have "c_id c \<in> cr_id ` set (t_campaigns (db w1))"
      using refs unfolding references_hold_def by (metis image_subset_iff)
    with campaigns_add_Inr(3) [OF add] show False by contradiction
  qed
  then have "filter (\<lambda>l. l_campaign_id l = c_id c) (lead_rows w') = []"
    by (simp add: lead_rows_def filter_empty_conv)
  with found show ?thesis
    by (simp add: get_campaign_def bindp_run jobs_next_send_at_def leads_list_by_campaign_def)
qed

end
