(* ===== verification/Reply_Laws.thy ===== *)
theory Reply_Laws
  imports Replies
begin

text \<open>
  What the handling of classified replies promises: a reply to an email that was sent stops
  its lead and cancels what is pending for it, and the feed delivers every event until it
  is acknowledged and never after.
\<close>

section \<open>A reply stops its lead\<close>

lemma stop_on_reply_overwrite:
  "stop_on_reply c l i t = Inr l' \<Longrightarrow> overwrite l' l = l'"
  by (auto simp: stop_on_reply_def moved_def overwrite_def split: sum.splits if_splits)

lemma cancel_pending_rows:
  "send_job_rows (cancel_pending i m w) =
     update_rows (\<lambda>r. jr_lead_id r = i \<and> jr_status r = JPENDING)
       (\<lambda>r. r\<lparr>jr_status := JCANCELLED, jr_updated_at := m\<rparr>) (send_job_rows w)"
proof -
  have "filter (\<lambda>r. sees w (jr_workspace_id r)) (update_rows (\<lambda>r. jr_lead_id r = i
         \<and> jr_status r = JPENDING \<and> sees w (jr_workspace_id r))
       (\<lambda>r. r\<lparr>jr_status := JCANCELLED, jr_updated_at := m\<rparr>) rows)
    = update_rows (\<lambda>r. jr_lead_id r = i \<and> jr_status r = JPENDING)
       (\<lambda>r. r\<lparr>jr_status := JCANCELLED, jr_updated_at := m\<rparr>)
       (filter (\<lambda>r. sees w (jr_workspace_id r)) rows)" for rows
    by (induction rows) (auto simp: update_rows_def)
  then show ?thesis by (simp add: send_job_rows_def) (simp add: cancel_pending_def)
qed

lemma cancel_pending_none:
  "r \<in> set (send_job_rows (cancel_pending i m w)) \<Longrightarrow> jr_lead_id r = i \<Longrightarrow> jr_status r \<noteq> JPENDING"
proof -
  assume "r \<in> set (send_job_rows (cancel_pending i m w))" and i: "jr_lead_id r = i"
  then obtain r0 where "r = (if jr_lead_id r0 = i \<and> jr_status r0 = JPENDING
      then r0\<lparr>jr_status := JCANCELLED, jr_updated_at := m\<rparr> else r0)"
    unfolding cancel_pending_rows set_update_rows by blast
  then show ?thesis using i by (cases "jr_lead_id r0 = i \<and> jr_status r0 = JPENDING") auto
qed

lemma reply_stops:
  assumes "cl_matched_outbound_id reply = Some out" and "lead_of_outbound w out = Some i"
    and "lead_in w i = Some l" and "campaign_in w (l_campaign_id l) = Some c"
    and "l_state l \<in> REPLYABLE_STATES"
  obtains l' w' where "stop_lead reply moment w = (Inr (Some l'), w')"
    and "stop_on_reply c l (cl_intent reply) moment = Inr l'" and "is_stopped l'"
    and "lead_in w' i = Some l'"
    and "\<And>r. r \<in> set (send_job_rows w') \<Longrightarrow> jr_lead_id r = i \<Longrightarrow> jr_status r \<noteq> JPENDING"
    and "wire w' = wire w"
proof (cases rule: stop_lead_cases [of reply moment w])
  case kept
  have m: "l_campaign_id l = c_id c" using campaign_in_id [OF assms(4)] by simp
  have id: "l_id l = i" by (rule lead_in_id [OF assms(3)])
  obtain l' where l': "stop_on_reply c l (cl_intent reply) moment = Inr l'"
    using stop_on_reply_bounce [OF m assms(5)] stop_on_reply_reply [OF m assms(5)]
    by (cases "cl_intent reply = BOUNCE_INTENT") auto
  have "\<not> is_stopped l" using assms(5) by (auto simp: is_stopped_def REPLYABLE_STATES_def)
  then have "l' \<noteq> l" "l_id l' = i" using stop_on_reply_Inr_D(2) [OF l'] id by auto
  with kept assms l' id have False
    by (simp add: stop_lead_def bindp_run thenp_run jobs_find_lead_id_run update_many_one
          update_lead_run jobs_cancel_pending_for_lead_def)
  then show ?thesis ..
next
  case (stops out' i' l0 c0 l')
  with assms have eq: "i' = i" "l0 = l" "c0 = c" by auto
  let ?w' = "cancel_pending i moment (put_lead l' w)"
  have "lead_in ?w' i = Some l'"
    using stops(8) assms(3) stop_on_reply_overwrite [OF stops(6)] unfolding eq
    by (simp add: lead_in_put)
  then show ?thesis
    using stops(6,7,10) cancel_pending_none unfolding eq by (intro that [of l' ?w']) auto
qed

section \<open>The feed\<close>

text \<open>
  The contract of \<open>ClassifiedReplyFeedPort\<close>. \<open>acked\<close> are the events acknowledged so far and
  \<open>genuine\<close> says that a reply is an event of the feed; both depend on nothing the handler
  of a reply writes.
\<close>

definition same_feed :: "world \<Rightarrow> world \<Rightarrow> bool" where
  "same_feed v w \<longleftrightarrow> guc v = guc w \<and> t_outbox (db v) = t_outbox (db w) \<and> t_processed (db v) = t_processed (db w)"

locale reply_feed =
  fixes claim :: "uuid \<Rightarrow> nat \<Rightarrow> classified_reply list act"
    and acknowledge :: "classified_reply \<Rightarrow> time \<Rightarrow> unit act"
    and acked :: "world \<Rightarrow> uuid set"
    and sound :: "world \<Rightarrow> bool"
    and genuine :: "world \<Rightarrow> classified_reply \<Rightarrow> bool"
  assumes claim_reads: "claim ws lim w = (r, w') \<Longrightarrow> w' = w"
    and claim_genuine: "claim ws lim w = (Inr rs, w') \<Longrightarrow> x \<in> set rs \<Longrightarrow> genuine w x"
    and claim_fresh: "claim ws lim w = (Inr rs, w') \<Longrightarrow> x \<in> set rs \<Longrightarrow> cl_event_id x \<notin> acked w"
    and claim_limit: "claim ws lim w = (Inr rs, w') \<Longrightarrow> length rs \<le> lim"
    and ack: "sound w \<Longrightarrow> genuine w x \<Longrightarrow> acknowledge x m w = (Inr u, w') \<Longrightarrow>
        acked w' = insert (cl_event_id x) (acked w) \<and> sound w' \<and> (\<forall>y. genuine w' y = genuine w y)"
    and frame: "same_feed v w \<Longrightarrow> acked v = acked w \<and> sound v = sound w \<and> genuine v y = genuine w y"
begin

lemma handle_acks:
  assumes "foldp (handle_reply acknowledge moment) rs acc w = (Inr stopped, w')"
    and "sound w" and "\<And>x. x \<in> set rs \<Longrightarrow> genuine w x"
  shows "acked w' = acked w \<union> cl_event_id ` set rs \<and> sound w'"
  using assms
proof (induction rs arbitrary: acc w)
  case (Cons x xs)
  from Cons.prems(1) obtain acc1 w1 where h: "handle_reply acknowledge moment x acc w = (Inr acc1, w1)"
    and rest: "foldp (handle_reply acknowledge moment) xs acc1 w1 = (Inr stopped, w')"
    by (auto elim: bindp_InrE)
  from h obtain r w0 where s: "stop_lead x moment w = (Inr r, w0)" and a: "acknowledge x moment w0 = (Inr (), w1)"
    by (auto simp: handle_reply_def elim!: bindp_InrE thenp_InrE)
  have "same_feed w0 w"
    using s by (cases rule: stop_lead_cases [of x moment w]) (auto simp: same_feed_def)
  from frame [OF this] have f: "acked w0 = acked w" "sound w0 = sound w" "genuine w0 y = genuine w y" for y
    by blast+
  from ack [OF _ _ a] Cons.prems(2,3) f
  have "acked w1 = insert (cl_event_id x) (acked w) \<and> sound w1 \<and> (\<forall>y. genuine w1 y = genuine w y)"
    by simp
  with Cons.IH [OF rest] Cons.prems(3) show ?case by auto
qed simp

text \<open>No event that a run of the handler delivered is delivered by a later claim.\<close>

lemma run_acks:
  assumes "handle_replies claim acknowledge ws lim moment w = (Inr stopped, w')" and "sound w"
  obtains rs where "claim ws lim w = (Inr rs, w)" and "acked w' = acked w \<union> cl_event_id ` set rs"
    and "sound w'"
proof -
  obtain rs w1 where c: "claim ws lim w = (Inr rs, w1)"
    and f: "foldp (handle_reply acknowledge moment) rs [] w1 = (Inr stopped, w')"
    using assms(1) unfolding handle_replies_def by (rule bindp_InrE)
  have w1: "w1 = w" by (rule claim_reads [OF c])
  have "acked w' = acked w \<union> cl_event_id ` set rs \<and> sound w'"
    using f [unfolded w1] assms(2) claim_genuine [OF c] by (rule handle_acks)
  then show ?thesis using that [of rs] c w1 by blast
qed

lemma delivered_once:
  assumes "handle_replies claim acknowledge ws lim moment w = (Inr stopped, w')" and "sound w"
    and "claim ws lim w = (Inr rs, w1)" and "claim ws' lim' w' = (Inr rs', w2)"
  shows "cl_event_id ` set rs \<inter> cl_event_id ` set rs' = {}"
proof -
  obtain rs0 where r: "claim ws lim w = (Inr rs0, w)"
    and a: "acked w' = acked w \<union> cl_event_id ` set rs0" and "sound w'"
    using assms(1,2) by (rule run_acks)
  have eq: "rs0 = rs" using r assms(3) by simp
  show ?thesis
  proof (rule equals0I)
    fix y assume "y \<in> cl_event_id ` set rs \<inter> cl_event_id ` set rs'"
    then obtain x where x: "x \<in> set rs'" "y = cl_event_id x" and y: "y \<in> cl_event_id ` set rs" by blast
    show False using claim_fresh [OF assms(4) x(1)] y unfolding a eq x(2) by blast
  qed
qed

end

text \<open>
  The feed over the outbox. A processed event belongs to the workspace of its event, which
  the handler keeps.
\<close>

definition feed_sound :: "world \<Rightarrow> bool" where
  "feed_sound w \<longleftrightarrow> (\<forall>p\<in>set (t_processed (db w)). \<forall>e\<in>set (t_outbox (db w)).
     pe_event_id p = oe_id e \<longrightarrow> pe_workspace_id p = oe_workspace_id e)
     \<and> distinct (map oe_id (t_outbox (db w)))"

definition feed_acked :: "world \<Rightarrow> uuid set" where
  "feed_acked w = pe_event_id ` set (processed_rows w)"

definition feed_genuine :: "world \<Rightarrow> classified_reply \<Rightarrow> bool" where
  "feed_genuine w x \<longleftrightarrow> guc w = Some (cl_workspace_id x) \<and> (\<exists>e\<in>set (t_outbox (db w)).
     oe_id e = cl_event_id x \<and> oe_workspace_id e = cl_workspace_id x)"

lemma to_reply_Inr: "to_reply e = Inr x \<Longrightarrow> cl_event_id x = oe_id e \<and> cl_workspace_id x = oe_workspace_id e"
  by (auto simp: to_reply_def sum_bind_Inr)

lemma mapp_lift:
  "mapp (\<lambda>e. lift (f e)) es w = (Inr rs, w') \<Longrightarrow> w' = w \<and> length rs = length es
     \<and> (\<forall>x\<in>set rs. \<exists>e\<in>set es. f e = Inr x)"
proof (induction es arbitrary: rs)
  case (Cons e es)
  then show ?case by (cases "f e") (auto simp: bindp_run split: prod.splits sum.splits)
qed simp

lemma mapp_lift_world: "snd (mapp (\<lambda>e. lift (f e)) es w) = w"
proof (induction es)
  case (Cons e es)
  then show ?case by (cases "f e") (auto simp: bindp_run split: prod.splits sum.splits)
qed simp

lemma open_events_sub:
  "e \<in> set (open_events w ws lim) \<Longrightarrow> e \<in> set (t_outbox (db w)) \<and> guc w = Some ws
     \<and> oe_workspace_id e = ws \<and> oe_event_type e = REPLY_CLASSIFIED \<and> oe_id e \<notin> feed_acked w"
  by (auto simp: open_events_def outbox_rows_def sees_def list_ex_iff feed_acked_def dest!: in_set_takeD)

lemma feed_claim_Inr:
  assumes "feed_claim ws lim w = (Inr rs, w')"
  shows "length rs \<le> lim" and "x \<in> set rs \<Longrightarrow> \<exists>e\<in>set (open_events w ws lim). to_reply e = Inr x"
proof -
  have "mapp (\<lambda>e. lift (to_reply e)) (open_events w ws lim) w = (Inr rs, w')"
    using assms by (simp add: feed_claim_def bindp_run)
  from mapp_lift [OF this] show "length rs \<le> lim"
    and "x \<in> set rs \<Longrightarrow> \<exists>e\<in>set (open_events w ws lim). to_reply e = Inr x"
    by (auto simp: open_events_def)
qed

interpretation outbox_feed: reply_feed feed_claim feed_acknowledge feed_acked feed_sound feed_genuine
proof unfold_locales
  fix ws lim w r w'
  assume "feed_claim ws lim w = (r, w')"
  then show "w' = w"
    using mapp_lift_world [of to_reply "open_events w ws lim" w]
    by (simp add: feed_claim_def bindp_run)
next
  fix ws lim w rs w' x
  assume c: "feed_claim ws lim w = (Inr rs, w')" and x: "x \<in> set rs"
  from feed_claim_Inr(2) [OF this] obtain e where "e \<in> set (open_events w ws lim)" "to_reply e = Inr x" by blast
  then show "feed_genuine w x" "cl_event_id x \<notin> feed_acked w"
    using open_events_sub to_reply_Inr unfolding feed_genuine_def by fastforce+
next
  fix ws lim w rs w'
  assume "feed_claim ws lim w = (Inr rs, w')"
  then show "length rs \<le> lim" by (rule feed_claim_Inr(1))
next
  fix w x m u w'
  assume s: "feed_sound w" and g: "feed_genuine w x" and a: "feed_acknowledge x m w = (Inr u, w')"
  show "feed_acked w' = insert (cl_event_id x) (feed_acked w) \<and> feed_sound w' \<and>
      (\<forall>y. feed_genuine w' y = feed_genuine w y)"
  proof (cases "list_ex (\<lambda>p. pe_event_id p = cl_event_id x) (t_processed (db w))")
    case True
    have guc: "guc w = Some (cl_workspace_id x)" using g by (simp add: feed_genuine_def)
    from True obtain p where p: "p \<in> set (t_processed (db w))" "pe_event_id p = cl_event_id x"
      by (auto simp: list_ex_iff)
    then have "pe_workspace_id p = cl_workspace_id x"
      using s g unfolding feed_sound_def feed_genuine_def by fastforce
    with p guc have "cl_event_id x \<in> feed_acked w"
      by (force simp: feed_acked_def processed_rows_def sees_def)
    moreover have "w' = w" using a True guc by (auto simp: feed_acknowledge_def split: option.splits)
    ultimately show ?thesis using s by auto
  next
    case False
    have w': "w' = w\<lparr>db := (db w)\<lparr>t_processed := t_processed (db w) @
                [\<lparr> pe_event_id = cl_event_id x, pe_workspace_id = cl_workspace_id x,
                   pe_processed_at = m \<rparr>]\<rparr>\<rparr>"
      using a False by (auto simp: feed_acknowledge_def split: option.splits)
    have guc: "guc w = Some (cl_workspace_id x)" using g by (simp add: feed_genuine_def)
    have "feed_acked w' = insert (cl_event_id x) (feed_acked w)"
      unfolding w' using guc by (auto simp: feed_acked_def processed_rows_def sees_def)
    moreover have "feed_sound w'"
    proof -
      obtain e0 where e0: "e0 \<in> set (t_outbox (db w))" "oe_id e0 = cl_event_id x"
        "oe_workspace_id e0 = cl_workspace_id x" using g by (auto simp: feed_genuine_def)
      have "oe_workspace_id e = cl_workspace_id x"
        if "e \<in> set (t_outbox (db w))" "oe_id e = cl_event_id x" for e
        using that e0 s unfolding feed_sound_def by (metis distinct_map inj_onD)
      then show ?thesis using s unfolding w' feed_sound_def by auto
    qed
    moreover have "\<forall>y. feed_genuine w' y = feed_genuine w y" unfolding w' by (simp add: feed_genuine_def)
    ultimately show ?thesis by simp
  qed
next
  fix v w y
  assume "same_feed v w"
  then show "feed_acked v = feed_acked w \<and> feed_sound v = feed_sound w \<and> feed_genuine v y = feed_genuine w y"
    by (simp add: same_feed_def feed_acked_def processed_rows_def sees_def feed_sound_def feed_genuine_def)
qed

end
