(* ===== verification/Poll_Laws.thy ===== *)
theory Poll_Laws
  imports Poll_Inbox Replies
begin

text \<open>
  What polling promises: a message is processed once however often it is fetched, an
  unsubscribe request or a bounce suppresses the address it answers for, and the event it
  writes is the one that the consumer of classified replies reads.
\<close>

section \<open>Messages that are known\<close>

lemma inbound_known_iff:
  "inbound_known w m p \<longleftrightarrow> (\<exists>r\<in>set (inbound_rows w). im_mailbox_id r = m \<and> im_provider_message_id r = p)"
  by (simp add: inbound_known_def list_ex_iff)

lemma poll_one_known:
  "inbound_known w (mv_id mb) (fm_provider_message_id f) \<Longrightarrow> poll_one classify mb f st w = (Inr st, w)"
  by (simp add: poll_one_def bindp_run inbound_exists_def split: prod.splits)

definition knows :: "uuid \<Rightarrow> uuid \<Rightarrow> string \<Rightarrow> world \<Rightarrow> bool" where
  "knows ws m p w \<longleftrightarrow> guc w = Some ws \<and>
     (\<exists>r\<in>set (t_inbound (db w)). im_workspace_id r = ws \<and> im_mailbox_id r = m \<and> im_provider_message_id r = p)"

lemma knows_known: "knows ws m p w \<Longrightarrow> inbound_known w m p"
  by (auto simp: knows_def inbound_known_iff inbound_rows_def sees_def)

lemma knows_simps [simp]:
  "knows ws m p (w\<lparr>reads := n\<rparr>) = knows ws m p w"
  "knows ws m p (w\<lparr>next_uuid := n\<rparr>) = knows ws m p w"
  "knows ws m p (w\<lparr>db := (db w)\<lparr>t_outbox := b\<rparr>\<rparr>) = knows ws m p w"
  "knows ws m p (w\<lparr>db := (db w)\<lparr>t_suppressions := c\<rparr>\<rparr>) = knows ws m p w"
  "knows ws m p (w\<lparr>db := (db w)\<lparr>t_mailboxes := d\<rparr>\<rparr>) = knows ws m p w"
  by (simp_all add: knows_def)

lemma knows_append: "knows ws m p w \<Longrightarrow> knows ws m p (w\<lparr>db := (db w)\<lparr>t_inbound := t_inbound (db w) @ [r]\<rparr>\<rparr>)"
  by (auto simp: knows_def)

lemma keeps_knows_record: "keeps (knows ws m p) (outbox_record t wsp i pl)"
  unfolding outbox_record_def by (intro keep_intros keeps_insert_row) auto

lemma knows_update_rows:
  assumes "knows ws m p w"
    and "\<And>r. im_workspace_id (f r) = im_workspace_id r \<and> im_mailbox_id (f r) = im_mailbox_id r
           \<and> im_provider_message_id (f r) = im_provider_message_id r"
  shows "knows ws m p (w\<lparr>db := (db w)\<lparr>t_inbound := update_rows P f (t_inbound (db w))\<rparr>\<rparr>)"
proof -
  obtain r where r: "r \<in> set (t_inbound (db w))" "im_workspace_id r = ws" "im_mailbox_id r = m"
    "im_provider_message_id r = p" and g: "guc w = Some ws" using assms(1) by (auto simp: knows_def)
  let ?r = "if P r then f r else r"
  have "?r \<in> set (update_rows P f (t_inbound (db w)))" using r(1) by (auto simp: set_update_rows)
  moreover have "im_workspace_id ?r = ws \<and> im_mailbox_id ?r = m \<and> im_provider_message_id ?r = p"
    using r assms(2) by simp
  ultimately show ?thesis using g unfolding knows_def by auto
qed

lemma keeps_knows_update: "keeps (knows ws m p) (inbound_update x)"
proof (rule keepsI)
  fix w assume "knows ws m p w"
  then show "knows ws m p (snd (inbound_update x w))"
    using knows_update_rows by (auto simp: inbound_update_def bindp_run modify_db_def)
qed

lemma keeps_knows_suppress: "keeps (knows ws m p) (suppressions_add s)"
  by (auto simp: keeps_def suppressions_add_def split: option.splits)

lemma keeps_knows_classify: "keeps (knows ws m p) (classify_reply classify mb f msg matched)"
  unfolding classify_reply_def Suppression_new_def
  by (intro keep_intros keeps_knows_record keeps_knows_update keeps_knows_suppress) auto

lemma keeps_knows_poll_one: "keeps (knows ws m p) (poll_one classify mb f st)"
  unfolding poll_one_def inbound_exists_def InboundMessage_new_def inbound_add_def
  by (intro keep_intros keeps_insert_row keeps_knows_record keeps_knows_classify knows_append) auto

lemma keeps_knows_fold: "keeps (knows ws m p) (foldp (poll_one classify mb) fs st)"
  by (intro keep_intros keeps_knows_poll_one)

lemma InboundMessage_new_run [proc_simps]:
  "InboundMessage_new ws m f w = (Inr \<lparr> im_id = next_uuid w, im_workspace_id = ws, im_mailbox_id = m,
     im_provider_message_id = fm_provider_message_id f, im_provider_thread_id = fm_provider_thread_id f,
     im_from_email = fm_from_email f, im_subject = fm_subject f, im_snippet = fm_snippet f,
     im_in_reply_to_header = fm_in_reply_to_header f, im_references_header = fm_references_header f,
     im_matched_outbound_id = None, im_intent = None, im_received_at = fm_received_at f,
     im_created_at = clock_at w (reads w) \<rparr>,
     w\<lparr>next_uuid := Suc (next_uuid w), reads := Suc (reads w)\<rparr>)"
  by (simp add: InboundMessage_new_def bindp_run)

text \<open>A message that was not known: its row is stored, then announced, matched and classified.\<close>

lemma poll_one_new:
  assumes "\<not> inbound_known w (mv_id mb) (fm_provider_message_id f)"
    and "poll_one classify mb f (cands, n, ints) w = (Inr st, w')"
  obtains inbound w1 w2 where
    "im_workspace_id inbound = mv_workspace_id mb" "im_mailbox_id inbound = mv_id mb"
    "im_provider_message_id inbound = fm_provider_message_id f" "im_matched_outbound_id inbound = None"
    "guc w = Some (mv_workspace_id mb)" "im_id inbound = next_uuid w"
    "inbound_add inbound (w\<lparr>next_uuid := Suc (next_uuid w), reads := Suc (reads w)\<rparr>) = (Inr (), w1)"
    "outbox_record ''InboundReceived'' (mv_workspace_id mb) (im_id inbound) (received_payload mb inbound) w1
       = (Inr (), w2)"
    "knows (mv_workspace_id mb) (mv_id mb) (fm_provider_message_id f) w2"
    "case match_reply f cands of
       None \<Rightarrow> st = (cands, Suc n, ints) \<and> w' = w2
     | Some matched \<Rightarrow> (\<exists>i. classify_reply classify mb f inbound matched w2 = (Inr i, w')
          \<and> st = (filter (\<lambda>c. om_id c \<noteq> om_id matched) cands, Suc n, ints @ [i]))"
proof -
  let ?new = "InboundMessage_new (mv_workspace_id mb) (mv_id mb) f :: inbound_message act"
  have un: "poll_one classify mb f (cands, n, ints) w =
      bindp ?new (\<lambda>inbound. thenp (inbound_add inbound) (
          thenp (outbox_record ''InboundReceived'' (mv_workspace_id mb) (im_id inbound)
                   (received_payload mb inbound)) (
            case match_reply f cands of
              None \<Rightarrow> ret (cands, Suc n, ints)
            | Some matched \<Rightarrow>
                bindp (classify_reply classify mb f inbound matched) (\<lambda>i.
                  ret (filter (\<lambda>c. om_id c \<noteq> om_id matched) cands, Suc n, ints @ [i]))))) w"
    using assms(1) by (simp add: poll_one_def bindp_run inbound_exists_def)
  obtain inbound w0 where new: "?new w = (Inr inbound, w0)"
    and w0: "w0 = w\<lparr>next_uuid := Suc (next_uuid w), reads := Suc (reads w)\<rparr>"
    and sel: "im_workspace_id inbound = mv_workspace_id mb" "im_mailbox_id inbound = mv_id mb"
      "im_provider_message_id inbound = fm_provider_message_id f" "im_matched_outbound_id inbound = None"
      "im_id inbound = next_uuid w"
    by (simp add: InboundMessage_new_run)
  have run: "thenp (inbound_add inbound) (
          thenp (outbox_record ''InboundReceived'' (mv_workspace_id mb) (im_id inbound)
                   (received_payload mb inbound)) (
            case match_reply f cands of
              None \<Rightarrow> ret (cands, Suc n, ints)
            | Some matched \<Rightarrow>
                bindp (classify_reply classify mb f inbound matched) (\<lambda>i.
                  ret (filter (\<lambda>c. om_id c \<noteq> om_id matched) cands, Suc n, ints @ [i])))) w0 = (Inr st, w')"
    using assms(2) unfolding un bindp_run [of ?new] new by simp
  from run obtain u w1 where add: "inbound_add inbound w0 = (Inr u, w1)"
    and run1: "thenp (outbox_record ''InboundReceived'' (mv_workspace_id mb) (im_id inbound)
                   (received_payload mb inbound)) (
            case match_reply f cands of
              None \<Rightarrow> ret (cands, Suc n, ints)
            | Some matched \<Rightarrow>
                bindp (classify_reply classify mb f inbound matched) (\<lambda>i.
                  ret (filter (\<lambda>c. om_id c \<noteq> om_id matched) cands, Suc n, ints @ [i]))) w1 = (Inr st, w')"
    by (rule thenp_InrE)
  from run1 obtain u' w2 where rec: "outbox_record ''InboundReceived'' (mv_workspace_id mb) (im_id inbound)
                   (received_payload mb inbound) w1 = (Inr u', w2)"
    and run2: "(case match_reply f cands of
              None \<Rightarrow> ret (cands, Suc n, ints)
            | Some matched \<Rightarrow>
                bindp (classify_reply classify mb f inbound matched) (\<lambda>i.
                  ret (filter (\<lambda>c. om_id c \<noteq> om_id matched) cands, Suc n, ints @ [i]))) w2 = (Inr st, w')"
    by (rule thenp_InrE)
  have k1: "knows (mv_workspace_id mb) (mv_id mb) (fm_provider_message_id f) w1"
    and g: "guc w = Some (mv_workspace_id mb)"
    using add sel w0 by (auto simp: inbound_add_def insert_row_Inr knows_def)
  have k2: "knows (mv_workspace_id mb) (mv_id mb) (fm_provider_message_id f) w2"
    by (rule keepsD_run [OF keeps_knows_record k1 rec])
  have "case match_reply f cands of
       None \<Rightarrow> st = (cands, Suc n, ints) \<and> w' = w2
     | Some matched \<Rightarrow> (\<exists>i. classify_reply classify mb f inbound matched w2 = (Inr i, w')
          \<and> st = (filter (\<lambda>c. om_id c \<noteq> om_id matched) cands, Suc n, ints @ [i]))"
  proof (cases "match_reply f cands")
    case None
    with run2 show ?thesis by simp
  next
    case (Some matched)
    with run2 show ?thesis by (auto elim!: bindp_InrE)
  qed
  then show ?thesis using that [of inbound w1 w2] sel add rec w0 k2 g by simp
qed

lemma poll_one_then_known:
  assumes "poll_one classify mb f st w = (Inr st', w')" and "guc w = Some (mv_workspace_id mb)"
  shows "knows (mv_workspace_id mb) (mv_id mb) (fm_provider_message_id f) w'"
proof (cases "inbound_known w (mv_id mb) (fm_provider_message_id f)")
  case True
  then have "w' = w" using assms(1) poll_one_known [OF True, of classify st] by simp
  with True assms(2) show ?thesis
    by (auto simp: knows_def inbound_known_iff inbound_rows_def sees_def)
next
  case False
  obtain cands n ints where st: "st = (cands, n, ints)" by (cases st)
  show ?thesis
  proof (rule poll_one_new [OF False assms(1) [unfolded st]])
    fix inbound w1 w2
    assume k: "knows (mv_workspace_id mb) (mv_id mb) (fm_provider_message_id f) w2"
      and c: "case match_reply f cands of
       None \<Rightarrow> st' = (cands, Suc n, ints) \<and> w' = w2
     | Some matched \<Rightarrow> (\<exists>i. classify_reply classify mb f inbound matched w2 = (Inr i, w')
          \<and> st' = (filter (\<lambda>c. om_id c \<noteq> om_id matched) cands, Suc n, ints @ [i]))"
    show "knows (mv_workspace_id mb) (mv_id mb) (fm_provider_message_id f) w'"
    proof (cases "match_reply f cands")
      case None
      with c k show ?thesis by simp
    next
      case (Some matched)
      with c obtain i where "classify_reply classify mb f inbound matched w2 = (Inr i, w')" by auto
      from keepsD_run [OF keeps_knows_classify k this] show ?thesis .
    qed
  qed
qed

lemma fold_then_known:
  assumes "foldp (poll_one classify mb) fs st w = (Inr st', w')" and "guc w = Some (mv_workspace_id mb)"
    and "f \<in> set fs"
  shows "knows (mv_workspace_id mb) (mv_id mb) (fm_provider_message_id f) w'"
  using assms
proof (induction fs arbitrary: st w)
  case (Cons x xs)
  from Cons.prems(1) have "bindp (poll_one classify mb x st) (foldp (poll_one classify mb) xs) w = (Inr st', w')"
    by simp
  then obtain st1 w1 where x: "poll_one classify mb x st w = (Inr st1, w1)"
    and rest: "foldp (poll_one classify mb) xs st1 w1 = (Inr st', w')" by (rule bindp_InrE)
  have k: "knows (mv_workspace_id mb) (mv_id mb) (fm_provider_message_id x) w1"
    by (rule poll_one_then_known [OF x Cons.prems(2)])
  show ?case
  proof (cases "f = x")
    case True
    with keepsD_run [OF keeps_knows_fold k rest] show ?thesis by simp
  next
    case False
    with Cons.IH [OF rest] k Cons.prems(3) show ?thesis by (simp add: knows_def)
  qed
qed simp

lemma fold_all_known:
  "(\<And>f. f \<in> set fs \<Longrightarrow> inbound_known w (mv_id mb) (fm_provider_message_id f))
    \<Longrightarrow> foldp (poll_one classify mb) fs st w = (Inr st, w)"
  by (induction fs) (simp_all add: poll_one_known)

section \<open>Suppression\<close>

lemma outbox_record_frame:
  "outbox_record t ws i pl w = (r, w') \<Longrightarrow> guc w' = guc w \<and> t_suppressions (db w') = t_suppressions (db w)"
proof -
  assume r: "outbox_record t ws i pl w = (r, w')"
  have "keeps (\<lambda>v. guc v = guc w \<and> t_suppressions (db v) = t_suppressions (db w)) (outbox_record t ws i pl)"
    unfolding outbox_record_def by (intro keep_intros keeps_insert_row) auto
  from keepsD_run [OF this _ r] show ?thesis by simp
qed

lemma classify_reply_suppresses:
  assumes run: "classify_reply classify mb f msg matched w = (Inr i, w')"
    and "i \<in> {UNSUBSCRIBE, BOUNCE}" and email: "normalize_email email = normalize_email (om_to_email matched)"
  shows "is_suppressed_in w' (mv_workspace_id mb) email"
proof -
  obtain reason where reason: "suppression_for i = Some reason"
    using assms(2) by (auto simp: suppression_for_def)
  let ?in = "matched_to msg (om_id matched)"
  let ?sup = "bindp (Suppression_new (mv_workspace_id mb) (om_to_email matched) reason (Some (im_id ?in)))
    suppressions_add"
  from run obtain w1 w2 w3 where
    a: "outbox_record ''ReplyMatched'' (mv_workspace_id mb) (im_id ?in) (matched_payload mb ?in matched) w = (Inr (), w1)"
    and b: "inbound_update (classified_as ?in i) w1 = (Inr (), w2)"
    and c: "?sup w2 = (Inr (), w3)"
    and d: "outbox_record ''ReplyClassified'' (mv_workspace_id mb) (im_id ?in)
        (classified_payload mb ?in matched i) w3 = (Inr (), w')"
    using reason unfolding classify_reply_def Let_def
    by (auto elim!: thenp_InrE bindp_InrE)
  from c obtain s where s: "suppressions_add s (snd (Suppression_new (mv_workspace_id mb)
        (om_to_email matched) reason (Some (im_id ?in)) w2)) = (Inr (), w3)"
    and sel: "su_workspace_id s = mv_workspace_id mb" "su_email s = normalize_email (om_to_email matched)"
    by (simp add: bindp_run Suppression_new_run normalize_email_def)
  have "suppressions_is_suppressed (su_workspace_id s) email w3 = (Inr True, w3)"
    using suppressions.add_check [OF s] email sel by simp
  then have "is_suppressed_in w3 (mv_workspace_id mb) email"
    by (simp add: suppressions_is_suppressed_def sel)
  then show ?thesis
    using outbox_record_frame [OF d]
    by (simp add: is_suppressed_in_def suppression_rows_def sees_def)
qed

section \<open>The event\<close>

text \<open>The producer's payload is what the consumer reads.\<close>

lemma to_reply_classified:
  assumes "om_id matched < 2 ^ 128"
  shows "to_reply \<lparr> oe_id = e, oe_workspace_id = ws, oe_event_type = ''ReplyClassified'',
       oe_aggregate_id = a,
       oe_payload = json_safe (VDict (AList.update ''event_type'' (VStr ''ReplyClassified'')
          (classified_payload mb inb matched i))), oe_created_at = t \<rparr>
     = Inr \<lparr> cl_event_id = e, cl_workspace_id = ws, cl_matched_outbound_id = Some (om_id matched),
             cl_intent = intent_value i \<rparr>"
  using UUID_parse_str [OF assms]
  by (simp add: to_reply_def classified_payload_def at_least_two_def uuid_or_none_def py_str_def
        REPLY_CLASSIFIED_VERSION_def)

section \<open>The cursor\<close>

lemma keeps_advance:
  assumes "\<And>w t. I w \<Longrightarrow> I (w\<lparr>db := (db w)\<lparr>t_mailboxes := t\<rparr>\<rparr>)"
  shows "keeps I (gateway_advance_cursor ws c)"
proof -
  have "keeps I (mailboxes_update_cursor m)" for m
    unfolding mailboxes_update_cursor_def by (intro keep_intros keeps_modify_db) (rule assms)
  then show ?thesis
    unfolding gateway_advance_cursor_def mailboxes_get_by_workspace_def by (intro keep_intros)
qed

lemma keeps_knows_advance:
  "keeps (knows ws m p) (thenp (gateway_advance_cursor wsp c) (ret x))"
  by (intro keep_intros keeps_advance) simp

lemma advance_cursor_frame:
  assumes "gateway_advance_cursor ws c w = (r, w')"
  shows "t_inbound (db w') = t_inbound (db w) \<and> t_outbox (db w') = t_outbox (db w)
     \<and> t_suppressions (db w') = t_suppressions (db w)"
proof -
  have "keeps (\<lambda>v. t_inbound (db v) = t_inbound (db w) \<and> t_outbox (db v) = t_outbox (db w)
     \<and> t_suppressions (db v) = t_suppressions (db w)) (gateway_advance_cursor ws c)"
    by (intro keeps_advance) simp
  from keepsD_run [OF this _ assms] show ?thesis by simp
qed

lemma poll_inbox_stages:
  assumes "receive (mv_email_address mb) (mv_last_sync_cursor mb) w = Inr fetched"
    and "poll_inbox receive classify mb w = (Inr r, w1)"
  obtains cands n ints wa where
    "foldp (poll_one classify mb) (fr_messages fetched) (unanswered w (mv_id mb), 0, []) w = (Inr (cands, n, ints), wa)"
    "thenp (gateway_advance_cursor (mv_workspace_id mb) (fr_new_cursor fetched))
       (ret \<lparr> pr_processed = n, pr_classified = ints \<rparr>) wa = (Inr r, w1)"
proof -
  have "bindp (foldp (poll_one classify mb) (fr_messages fetched) (unanswered w (mv_id mb), 0, [])) (\<lambda>state.
       case state of (_, processed, classified) \<Rightarrow>
       thenp (gateway_advance_cursor (mv_workspace_id mb) (fr_new_cursor fetched))
         (ret \<lparr> pr_processed = processed, pr_classified = classified \<rparr>)) w = (Inr r, w1)"
    using assms by (simp add: poll_inbox_def outbound_list_unanswered_def)
  then obtain st wa where
    "foldp (poll_one classify mb) (fr_messages fetched) (unanswered w (mv_id mb), 0, []) w = (Inr st, wa)"
    "(case st of (_, processed, classified) \<Rightarrow>
       thenp (gateway_advance_cursor (mv_workspace_id mb) (fr_new_cursor fetched))
         (ret \<lparr> pr_processed = processed, pr_classified = classified \<rparr>)) wa = (Inr r, w1)"
    by (rule bindp_InrE)
  then show ?thesis by (cases st) (auto intro: that)
qed

end
