(* ===== verification/Send_Laws.thy ===== *)
theory Send_Laws
  imports Process_Jobs
begin

text \<open>
  What the guards of sending promise: who is never mailed, the daily cap, the exclusion of
  two senders of one mailbox, and the atomicity of a dispatch.
\<close>

lemma dispatch_suppressed:
  assumes "mailbox_of w ws = Some mb" and "is_suppressed_in w ws email"
  shows "email_dispatch sender ws email subject body w = (Inr DispatchSuppressed, w)"
  using assms
  by (simp add: email_dispatch_def send_email_def tryp_run bindp_run thenp_run savepoint_def
        gateway_get_run suppressions_is_suppressed_def on_send_error_def)

lemma dispatch_no_mailbox:
  assumes "mailbox_of w ws = None"
  shows "email_dispatch sender ws email subject body w = (Inr (DispatchFailed ''mailbox not configured''), w)"
  using assms
  by (simp add: email_dispatch_def send_email_def tryp_run bindp_run savepoint_def
        gateway_get_run on_send_error_def)

lemma dispatch_busy:
  assumes "mailbox_of w ws = Some mb" and "\<not> is_suppressed_in w ws email"
    and "lock_key w mb \<in> set (held w)"
  shows "email_dispatch sender ws email subject body w =
    (Inr (DispatchDeferred (clock_at w (reads w) + BUSY_MAILBOX_RETRY_DELAY) ''mailbox busy''),
     w\<lparr>reads := Suc (reads w)\<rparr>)"
  using assms
  by (simp add: email_dispatch_def send_email_def tryp_run bindp_run thenp_run savepoint_def
        gateway_get_run suppressions_is_suppressed_def lock_try_acquire_run lock_key_def view_of_def
        on_send_error_def)

lemma dispatch_capped:
  assumes "mailbox_of w ws = Some mb" and "\<not> is_suppressed_in w ws email"
    and "lock_key w mb \<notin> set (held w)"
    and "mb_daily_send_cap mb \<le> sent_since w (mb_id mb) (today w)"
  shows "email_dispatch sender ws email subject body w =
    (Inr (DispatchDeferred (today w + one_day) ''daily send cap reached''), w\<lparr>reads := Suc (reads w)\<rparr>)"
  using assms
  by (simp add: email_dispatch_def send_email_def tryp_run bindp_run thenp_run savepoint_def
        gateway_get_run suppressions_is_suppressed_def lock_try_acquire_run lock_key_def view_of_def
        on_send_error_def outbound_count_sent_since_def today_def Let_def)

text \<open>A dispatch that does not say \<open>Sent\<close> leaves every table as it was.\<close>

lemma dispatch_atomic:
  assumes "email_dispatch sender ws email subject body w = (Inr r, w')"
    and "\<And>i t. r \<noteq> DispatchSent i t"
  shows "db w' = db w"
  using assms by (cases rule: email_dispatch_cases [of w ws email sender subject body]) auto

lemma dispatch_wire:
  assumes "email_dispatch sender ws email subject body w = (r, w')" and "wire w' \<noteq> wire w"
  obtains mb answer where "may_send w ws email mb"
    and "wire w' = wire w @ [(mail_of w mb email subject body, answer)]"
  using assms by (cases rule: email_dispatch_cases [of w ws email sender subject body])
    (auto simp: dispatched_def)

lemma mail_of_sel [simp]:
  "ml_to (mail_of w mb email subject body) = email"
  "ml_from (mail_of w mb email subject body) = mb_email_address mb"
  "ml_subject (mail_of w mb email subject body) = subject"
  "ml_body (mail_of w mb email subject body) = body"
  by (simp_all add: mail_of_def message_for_def)

text \<open>
  A dispatch whose guards hold and whose row can be stored reaches the provider, and when the
  provider accepts the mail, the dispatch says so and stores the provider's identifiers.
\<close>

lemma dispatch_delivers:
  assumes may: "may_send w ws email mb"
    and accepts: "sender (length (wire w)) (mail_of w mb email subject body) = Inr answer"
    and fits: "length email \<le> 320" "length (om_rfc822_message_id (row_of w ws mb email subject body)) \<le> 998"
      "length (se_provider_message_id answer) \<le> 64" "length (se_provider_thread_id answer) \<le> 64"
    and fresh: "next_uuid w \<notin> om_id ` set (t_outbound (db w))"
      "om_rfc822_message_id (row_of w ws mb email subject body) \<notin> om_rfc822_message_id ` set (t_outbound (db w))"
  shows "email_dispatch sender ws email subject body w
    = (Inr (DispatchSent (next_uuid w) (clock_at w (Suc (reads w)))),
       dispatched w ws mb email subject body answer)"
proof -
  let ?cmd = "command_of email subject body"
  have stage: "send_email sender ?cmd ws w = sending_stage sender ?cmd ws mb (guarded w mb)"
    using may by (intro send_email_stages) simp
  show ?thesis
  proof (cases rule: sending_stage_cases [of sender ?cmd ws mb "guarded w mb"])
    case (no_row e)
    have "guc w = Some ws" using may mailbox_of_Some(3) by (auto simp: may_send_def)
    then have "\<exists>v. outbound_add (outbound_for (guarded w mb) ws mb ?cmd) (drawn (guarded w mb)) = (Inr (), v)"
      using fits(1,2) fresh unfolding outbound_add_def row_of_def
      by (simp add: insert_row_Inr outbound_for_def)
    with no_row(2) show ?thesis by simp
  next
    case (no_answer e)
    with accepts show ?thesis by (simp add: mail_of_def)
  next
    case (no_mark e answer')
    with accepts fits(3,4) show ?thesis by (simp add: mail_of_def)
  next
    case (delivered answer')
    with accepts have "answer' = answer" by (simp add: mail_of_def)
    with email_dispatch_delivered [OF stage delivered(1)] show ?thesis by simp
  qed
qed

section \<open>The daily cap\<close>

text \<open>The emails of a mailbox that the provider accepted on the UTC day that starts at \<open>d\<close>.\<close>

definition sent_on :: "world \<Rightarrow> uuid \<Rightarrow> time \<Rightarrow> int" where
  "sent_on w mailbox_id d =
     int (length (filter (\<lambda>r. om_mailbox_id r = mailbox_id \<and> om_provider_message_id r \<noteq> None
        \<and> start_of_utc_day (om_created_at r) = d) (outbound_rows w)))"

lemma length_filter_mono:
  "(\<And>x. x \<in> set xs \<Longrightarrow> P x \<Longrightarrow> Q x) \<Longrightarrow> length (filter P xs) \<le> length (filter Q xs)"
  by (induction xs) auto

lemma sent_on_le_since: "sent_on w m d \<le> sent_since w m d"
proof -
  have "length (filter (\<lambda>r. om_mailbox_id r = m \<and> om_provider_message_id r \<noteq> None
        \<and> start_of_utc_day (om_created_at r) = d) (outbound_rows w))
      \<le> length (filter (\<lambda>r. om_mailbox_id r = m \<and> om_provider_message_id r \<noteq> None
        \<and> d \<le> om_created_at r) (outbound_rows w))"
    by (rule length_filter_mono) (auto intro: start_of_utc_day_le)
  then show ?thesis by (simp add: sent_on_def sent_since_def)
qed

lemma outbound_rows_cong:
  "guc v = guc w \<Longrightarrow> t_outbound (db v) = t_outbound (db w) \<Longrightarrow> outbound_rows v = outbound_rows w"
  by (simp add: outbound_rows_def sees_def)

text \<open>
  The count of a day never passes the cap: a dispatch whose two clock readings fall on the
  same day keeps it so.
\<close>

lemma dispatch_keeps_cap:
  assumes run: "email_dispatch sender ws email subject body w = (r, w')"
    and mb: "mailbox_of w ws = Some mb" and cap: "sent_on w (mb_id mb) d \<le> mb_daily_send_cap mb"
    and day: "start_of_utc_day (clock_at w (Suc (reads w))) = today w"
  shows "sent_on w' (mb_id mb) d \<le> mb_daily_send_cap mb"
proof (cases rule: email_dispatch_cases [of w ws email sender subject body])
  case (sent mb' answer)
  then have mb': "mb' = mb" and below: "sent_since w (mb_id mb) (today w) < mb_daily_send_cap mb"
    using mb by (auto simp: may_send_def)
  let ?row = "marked (row_of w ws mb email subject body) answer"
  have row: "om_mailbox_id ?row = mb_id mb" "om_provider_message_id ?row \<noteq> None"
    "om_created_at ?row = clock_at w (Suc (reads w))" "om_workspace_id ?row = ws"
    by (simp_all add: marked_def row_of_def outbound_for_def sent_def)
  have w': "w' = dispatched w ws mb email subject body answer" using run sent(3) mb' by simp
  have rows: "outbound_rows w' = outbound_rows w @ (if guc w = Some ws then [?row] else [])"
    unfolding w' dispatched_def outbound_rows_def sees_def by (simp add: row(4))
  have "sent_on w' (mb_id mb) d \<le> sent_on w (mb_id mb) d + (if d = today w then 1 else 0)"
    unfolding sent_on_def rows using row day by auto
  then show ?thesis
    using cap below sent_on_le_since [of w "mb_id mb" d] by (cases "d = today w") auto
next
  case (refused r' w2)
  then have "outbound_rows w' = outbound_rows w" using run by (intro outbound_rows_cong) auto
  then show ?thesis using cap by (simp add: sent_on_def)
next
  case (failed mb' r' w2 answer)
  then have "outbound_rows w' = outbound_rows w" using run by (intro outbound_rows_cong) auto
  then show ?thesis using cap by (simp add: sent_on_def)
qed

text \<open>A deferral because of the cap ends at the next midnight, after the moment it was made.\<close>

lemma cap_retry_is_next_day:
  "start_of_utc_day (today w + one_day) = today w + one_day"
  "clock_at w (reads w) < today w + one_day"
proof -
  show "clock_at w (reads w) < today w + one_day"
    unfolding today_def by (rule start_of_utc_day_next)
  have "(today w + one_day) mod one_day = 0"
    using start_of_utc_day_dvd [of "clock_at w (reads w)"] unfolding today_def
    by (simp add: mod_eq_0_iff_dvd)
  then show "start_of_utc_day (today w + one_day) = today w + one_day"
    by (simp add: start_of_utc_day_def)
qed

end
