(* ===== verification/Identity.thy ===== *)
theory Identity
  imports Database
begin

text \<open>
  The identity context (\<open>contexts/identity\<close>) and the middleware that turns credentials into
  the request's workspace (\<open>shared/presentation/middleware.py\<close>). The random text of the
  \<open>secrets\<close> module and the digest of \<open>hashlib.sha256\<close> are parameters.
\<close>

section \<open>API keys\<close>

definition KEY_SCHEME :: string where
  "KEY_SCHEME = ''olab''"

record api_key_token =
  tk_prefix :: string
  tk_secret :: string

definition plaintext :: "api_key_token \<Rightarrow> string" where
  "plaintext t = KEY_SCHEME @ ''_'' @ tk_prefix t @ ''_'' @ tk_secret t"

definition parse_token :: "string \<Rightarrow> api_key_token option" where
  "parse_token raw =
     (let (scheme, rest) = str_partition CHR ''_'' (strip raw);
          (prefix, secret) = str_partition CHR ''_'' rest
      in if scheme \<noteq> KEY_SCHEME \<or> prefix = [] \<or> secret = [] then None
         else Some \<lparr> tk_prefix = prefix, tk_secret = secret \<rparr>)"

text \<open>
  \<open>ApiKey.issue\<close> with the two texts that \<open>token_hex(6)\<close> and \<open>token_urlsafe(32)\<close> returned;
  \<open>accepts\<close> compares digests (in constant time, which the model does not see).
\<close>

definition ApiKey_issue ::
  "(string \<Rightarrow> string) \<Rightarrow> string \<Rightarrow> string \<Rightarrow> uuid \<Rightarrow> (api_key \<times> api_key_token) act" where
  "ApiKey_issue sha256 prefix secret workspace_id =
     (let token = \<lparr> tk_prefix = prefix, tk_secret = secret \<rparr> in
      bindp uuid7 (\<lambda>i. bindp now (\<lambda>created_at. ret
        (\<lparr> ak_id = i, ak_workspace_id = workspace_id, ak_prefix = tk_prefix token,
           ak_secret_hash = sha256 (tk_secret token), ak_created_at = created_at,
           ak_revoked_at = None \<rparr>, token))))"

definition accepts :: "(string \<Rightarrow> string) \<Rightarrow> api_key \<Rightarrow> api_key_token \<Rightarrow> bool" where
  "accepts sha256 key token \<longleftrightarrow> ak_revoked_at key = None \<and> ak_prefix key = tk_prefix token
     \<and> ak_secret_hash key = sha256 (tk_secret token)"

section \<open>Repositories\<close>

definition keys_add :: "api_key \<Rightarrow> unit act" where
  "keys_add key = insert_row
     (\<lambda>w. [too_long 16 (ak_prefix key), too_long 64 (ak_secret_hash key),
           duplicate (ak_id key \<in> ak_id ` set (t_api_keys (db w))),
           duplicate (ak_prefix key \<in> ak_prefix ` set (t_api_keys (db w)))])
     (\<lambda>d. d\<lparr>t_api_keys := t_api_keys d @ [key]\<rparr>)"

definition keys_get_by_prefix :: "string \<Rightarrow> api_key option act" where
  "keys_get_by_prefix prefix = gets (\<lambda>w. find (\<lambda>k. ak_prefix k = prefix) (t_api_keys (db w)))"

definition workspaces_get :: "uuid \<Rightarrow> workspace option act" where
  "workspaces_get i = gets (\<lambda>w. find (\<lambda>r. ws_id r = i) (t_workspaces (db w)))"

definition workspaces_list :: "workspace list act" where
  "workspaces_list = gets (\<lambda>w. sort_key ws_created_at (t_workspaces (db w)))"

definition workspaces_add :: "workspace \<Rightarrow> unit act" where
  "workspaces_add r = insert_row
     (\<lambda>w. [too_long 120 (ws_name r), duplicate (ws_id r \<in> ws_id ` set (t_workspaces (db w)))])
     (\<lambda>d. d\<lparr>t_workspaces := t_workspaces d @ [r]\<rparr>)"

definition Workspace_new :: "string \<Rightarrow> workspace act" where
  "Workspace_new name = bindp uuid7 (\<lambda>i. bindp now (\<lambda>created_at. ret
     \<lparr> ws_id = i, ws_name = name, ws_created_at = created_at \<rparr>))"

section \<open>Handlers\<close>

definition issue_api_key ::
  "(string \<Rightarrow> string) \<Rightarrow> string \<Rightarrow> string \<Rightarrow> uuid \<Rightarrow> api_key_token act" where
  "issue_api_key sha256 prefix secret workspace_id =
     bindp (workspaces_get workspace_id) (\<lambda>found.
       if found = None then raise WorkspaceNotFoundError
       else bindp (ApiKey_issue sha256 prefix secret workspace_id) (\<lambda>(key, token).
            thenp (keys_add key) (ret token)))"

definition resolve_api_key :: "(string \<Rightarrow> string) \<Rightarrow> string \<Rightarrow> uuid option act" where
  "resolve_api_key sha256 raw_key =
     (case parse_token raw_key of None \<Rightarrow> ret None
      | Some token \<Rightarrow>
          bindp (keys_get_by_prefix (tk_prefix token)) (\<lambda>key.
            ret (case key of None \<Rightarrow> None
                 | Some k \<Rightarrow> if accepts sha256 k token then Some (ak_workspace_id k) else None)))"

definition get_my_workspace :: "uuid \<Rightarrow> workspace act" where
  "get_my_workspace workspace_id =
     bindp (workspaces_get workspace_id) (\<lambda>found.
       case found of None \<Rightarrow> raise WorkspaceNotFoundError | Some r \<Rightarrow> ret r)"

section \<open>The request's workspace\<close>

definition WORKSPACE_HEADER :: string where
  "WORKSPACE_HEADER = ''X-Workspace-Id''"

text \<open>
  The headers of a request, each as the value the framework returns for its name, and the
  resolver of keys the middleware was built with.
\<close>

record credentials =
  authorization :: "string option"
  workspace_header :: "string option"

definition request_workspace ::
  "(string \<Rightarrow> uuid option act) \<Rightarrow> bool \<Rightarrow> credentials \<Rightarrow> uuid option act" where
  "request_workspace resolve accept_workspace_header request =
     (let auth = (case authorization request of None \<Rightarrow> [] | Some a \<Rightarrow> a) in
      if startswith (lower auth) ''bearer ''
      then bindp (resolve (drop (length ''bearer '') auth)) (\<lambda>ws.
             case ws of None \<Rightarrow> raise (RejectedCredentialsError 401 ''Invalid API key'')
             | Some i \<Rightarrow> ret (Some i))
      else case workspace_header request of
          None \<Rightarrow> ret None
        | Some raw \<Rightarrow>
            if raw = [] then ret None
            else if \<not> accept_workspace_header
            then raise (RejectedCredentialsError 401
                   (WORKSPACE_HEADER @ '' is not accepted here; use an API key''))
            else case UUID_parse raw of
                Inr i \<Rightarrow> ret (Some i)
              | Inl _ \<Rightarrow> raise (RejectedCredentialsError 400
                   (''Malformed '' @ WORKSPACE_HEADER @ '' header'')))"

text \<open>
  \<open>WorkspaceContextMiddleware.dispatch\<close>: rejected credentials are the answer, otherwise the
  rest of the application runs with the workspace as its context.
\<close>

definition with_workspace_context ::
  "(string \<Rightarrow> uuid option act) \<Rightarrow> bool \<Rightarrow> credentials \<Rightarrow> (uuid option \<Rightarrow> 'r act)
   \<Rightarrow> (int \<Rightarrow> string \<Rightarrow> 'r) \<Rightarrow> 'r act" where
  "with_workspace_context resolve accept_workspace_header request call_next json_response =
     bindp (tryp (bindp (request_workspace resolve accept_workspace_header request) (\<lambda>i. ret (Inr i)))
             (\<lambda>e. case e of RejectedCredentialsError status detail \<Rightarrow> ret (Inl (status, detail))
                  | _ \<Rightarrow> raise e)) (\<lambda>outcome.
       case outcome of
         Inl (status, detail) \<Rightarrow> ret (json_response status detail)
       | Inr workspace_id \<Rightarrow> call_next workspace_id)"

definition require_workspace :: "uuid option \<Rightarrow> uuid act" where
  "require_workspace context =
     (case context of
        None \<Rightarrow> raise (HTTPException 401
                  ''Missing credentials: send Authorization: Bearer <api-key>'')
      | Some i \<Rightarrow> ret i)"

section \<open>Round trips\<close>

lemma parse_plaintext:
  assumes "CHR ''_'' \<notin> set (tk_prefix t)" and "tk_prefix t \<noteq> []" and "tk_secret t \<noteq> []"
    and "trimmed (plaintext t)"
  shows "parse_token (plaintext t) = Some t"
proof -
  have strip: "strip (plaintext t) = plaintext t" using assms(4) by (rule strip_trimmed)
  have shape: "plaintext t = KEY_SCHEME @ CHR ''_'' # (tk_prefix t @ CHR ''_'' # tk_secret t)"
    by (simp add: plaintext_def)
  have "CHR ''_'' \<notin> set KEY_SCHEME" by (simp add: KEY_SCHEME_def)
  then have "str_partition CHR ''_'' (plaintext t) = (KEY_SCHEME, tk_prefix t @ CHR ''_'' # tk_secret t)"
    unfolding shape by (rule str_partition_append)
  moreover have "str_partition CHR ''_'' (tk_prefix t @ CHR ''_'' # tk_secret t) = (tk_prefix t, tk_secret t)"
    using assms(1) by (rule str_partition_append)
  ultimately show ?thesis using assms(2,3) by (simp add: parse_token_def strip)
qed

lemma hex_prefix_plain: "CHR ''_'' \<notin> set (hex_text k n)"
proof
  assume "CHR ''_'' \<in> set (hex_text k n)"
  from hex_text_chars [OF this] show False by (simp add: hex_value_def)
qed

lemma trimmed_plaintext:
  assumes "tk_secret t \<noteq> []" and "trimmed (tk_secret t)"
  shows "trimmed (plaintext t)"
  using assms by (simp add: trimmed_def plaintext_def KEY_SCHEME_def isspace_def)

lemma parse_token_around:
  assumes "blank a" and "blank c" and "trimmed (plaintext t)"
  shows "parse_token (a @ plaintext t @ c) = parse_token (plaintext t)"
  using assms by (simp add: parse_token_def strip_unique strip_trimmed)

lemma resolve_api_key_run:
  "resolve_api_key sha256 raw w = (Inr (Option.bind (parse_token raw) (\<lambda>token.
     Option.bind (find (\<lambda>k. ak_prefix k = tk_prefix token) (t_api_keys (db w))) (\<lambda>k.
       if accepts sha256 k token then Some (ak_workspace_id k) else None))), w)"
  by (simp add: resolve_api_key_def keys_get_by_prefix_def bindp_run split: option.splits)

lemma issue_api_key_Inr:
  assumes "issue_api_key sha256 prefix secret ws w = (Inr token, w')"
  obtains k where "token = \<lparr> tk_prefix = prefix, tk_secret = secret \<rparr>"
    and "t_api_keys (db w') = t_api_keys (db w) @ [k]" and "prefix \<notin> ak_prefix ` set (t_api_keys (db w))"
    and "ak_prefix k = prefix" "ak_secret_hash k = sha256 secret" "ak_workspace_id k = ws" "ak_revoked_at k = None"
proof -
  from assms obtain key w1 where
    k: "ApiKey_issue sha256 prefix secret ws w = (Inr (key, token), w1)" and add: "keys_add key w1 = (Inr (), w')"
    by (auto simp: issue_api_key_def workspaces_get_def bindp_run split: if_splits sum.splits prod.splits
          elim!: thenp_InrE)
  from k have key: "token = \<lparr> tk_prefix = prefix, tk_secret = secret \<rparr>" "db w1 = db w"
    "ak_prefix key = prefix" "ak_secret_hash key = sha256 secret" "ak_workspace_id key = ws" "ak_revoked_at key = None"
    by (auto simp: ApiKey_issue_def bindp_run Let_def)
  from add key have "t_api_keys (db w') = t_api_keys (db w) @ [key]" "prefix \<notin> ak_prefix ` set (t_api_keys (db w))"
    by (auto simp: keys_add_def insert_row_Inr)
  with key that show ?thesis by blast
qed

lemma issue_then_resolve:
  assumes "issue_api_key sha256 prefix secret ws w = (Inr token, w')"
    and "parse_token raw = Some token"
  shows "resolve_api_key sha256 raw w' = (Inr (Some ws), w')"
proof (rule issue_api_key_Inr [OF assms(1)])
  fix k
  assume t: "token = \<lparr> tk_prefix = prefix, tk_secret = secret \<rparr>"
    and rows: "t_api_keys (db w') = t_api_keys (db w) @ [k]" "prefix \<notin> ak_prefix ` set (t_api_keys (db w))"
    and k: "ak_prefix k = prefix" "ak_secret_hash k = sha256 secret" "ak_workspace_id k = ws" "ak_revoked_at k = None"
  have "find (\<lambda>x. ak_prefix x = prefix) (t_api_keys (db w)) = None"
    using rows(2) by (auto simp: find_None)
  then show ?thesis
    by (simp add: resolve_api_key_run assms(2) t rows(1) find_append k accepts_def)
qed

lemma request_workspace_run:
  "request_workspace (resolve_api_key sha256) accept request w =
     (let auth = (case authorization request of None \<Rightarrow> [] | Some a \<Rightarrow> a) in
      if startswith (lower auth) ''bearer ''
      then (case fst (resolve_api_key sha256 (drop 7 auth) w) of
              Inr (Some ws) \<Rightarrow> (Inr (Some ws), w)
            | _ \<Rightarrow> (Inl (RejectedCredentialsError 401 ''Invalid API key''), w))
      else case workspace_header request of
          None \<Rightarrow> (Inr None, w)
        | Some raw \<Rightarrow>
            if raw = [] then (Inr None, w)
            else if \<not> accept
            then (Inl (RejectedCredentialsError 401 ''X-Workspace-Id is not accepted here; use an API key''), w)
            else (case UUID_parse raw of
                    Inr ws \<Rightarrow> (Inr (Some ws), w)
                  | Inl _ \<Rightarrow> (Inl (RejectedCredentialsError 400 ''Malformed X-Workspace-Id header''), w)))"
proof -
  have seven: "length ''bearer '' = 7" by simp
  show ?thesis
    unfolding request_workspace_def seven
    by (simp add: resolve_api_key_run bindp_run Let_def WORKSPACE_HEADER_def
          split: option.splits sum.splits)
qed

end
