(* ===== verification/Samples.thy ===== *)
theory Samples
  imports Job_Laws Poll_Laws Campaign_Commands Identity Send_Laws
begin

text \<open>
  A small concrete world for the examples that show the hypotheses of the properties
  satisfiable: one workspace with a mailbox, an active campaign of two steps, a lead that
  is scheduled for the first step and the job that sends it.
\<close>

definition sample_mailbox :: mailbox where
  "sample_mailbox = \<lparr> mb_id = 2, mb_workspace_id = 11, mb_email_address = ''me@acme.io'',
     mb_last_sync_cursor = Some ''7'', mb_daily_send_cap = 20, mb_created_at = 0 \<rparr>"

definition sample_campaign_row :: campaign_row where
  "sample_campaign_row = \<lparr> cr_id = 3, cr_workspace_id = 11, cr_mailbox_id = 2, cr_name = ''c'',
     cr_status = ACTIVE, cr_created_at = 0 \<rparr>"

definition sample_step :: "uuid \<Rightarrow> int \<Rightarrow> step_row" where
  "sample_step i p = \<lparr> sr_id = i, sr_workspace_id = 11, sr_campaign_id = 3, sr_position = p,
     sr_subject = ''Hi'', sr_body = ''b'', sr_delay_seconds = 60, sr_created_at = 0 \<rparr>"

definition sample_lead :: "lead_state \<Rightarrow> int \<Rightarrow> lead" where
  "sample_lead st n = \<lparr> l_id = 6, l_workspace_id = 11, l_campaign_id = 3, l_email = ''a@b.c'',
     l_state = st, l_steps_sent = n, l_stop_reason = None, l_reply_intent = None,
     l_created_at = 0, l_updated_at = 0 \<rparr>"

definition stopped_sample :: lead where
  "stopped_sample = (sample_lead PAUSED 1)\<lparr>l_stop_reason := Some REPLIED,
     l_reply_intent := Some ''positive''\<rparr>"

definition sample_payload :: "int \<Rightarrow> send_job_payload" where
  "sample_payload p = \<lparr> p_job_version = 1, p_campaign_id = 3, p_lead_id = 6, p_step_id = 4,
     p_step_position = p, p_to_email = ''a@b.c'', p_subject = ''Hi'', p_body = ''b'' \<rparr>"

definition sample_job :: "uuid \<Rightarrow> int \<Rightarrow> send_job_status \<Rightarrow> send_job_row" where
  "sample_job i p st = \<lparr> jr_id = i, jr_workspace_id = 11, jr_mailbox_id = 2, jr_lead_id = 6,
     jr_step_id = 4, jr_payload = sample_payload p, jr_scheduled_at = 0, jr_status = st,
     jr_attempts = 0, jr_locked_at = None, jr_locked_by = None, jr_last_error = None,
     jr_outbound_message_id = None, jr_created_at = 0, jr_updated_at = 0 \<rparr>"

definition sample_claim :: "int \<Rightarrow> claimed_job" where
  "sample_claim p = \<lparr> cj_id = 7, cj_workspace_id = 11, cj_mailbox_id = 2, cj_lead_id = 6,
     cj_payload = sample_payload p, cj_attempts = 1, cj_scheduled_at = 0 \<rparr>"

definition sample_db :: "lead \<Rightarrow> send_job_row list \<Rightarrow> database" where
  "sample_db l jobs = \<lparr> t_campaigns = [sample_campaign_row],
     t_steps = [sample_step 4 1, sample_step 5 2], t_leads = [l], t_send_jobs = jobs,
     t_processed = [], t_outbound = [], t_inbound = [], t_outbox = [], t_suppressions = [],
     t_mailboxes = [sample_mailbox], t_workspaces = [], t_api_keys = [] \<rparr>"

definition sample_world :: "lead \<Rightarrow> send_job_row list \<Rightarrow> world" where
  "sample_world l jobs = \<lparr> clock_at = (\<lambda>n. 1000 + int n), reads = 0, next_uuid = 100,
     db = sample_db l jobs, guc = Some 11, row_locks = [], held = [], own = [],
     hashtext = (\<lambda>_. 0), random_hex = (\<lambda>_. ''abc''), draws = 0, wire = [], metrics = [],
     log_lines = [] \<rparr>"

definition sample_sender :: sender where
  "sample_sender n m = Inr \<lparr> se_provider_message_id = ''p1'', se_provider_thread_id = ''t1'' \<rparr>"

definition sample_settings :: settings where
  "sample_settings = (default_settings ''postgresql+asyncpg://db'' ''acme.io'' LOCAL_ENV)
     \<lparr>google_refresh_token := ''r'', gmail_user_email := ''me@acme.io'',
       mailbox_workspace_id := uuid_str 11, internal_api_token := ''t''\<rparr>"

lemmas sample_defs = sample_mailbox_def sample_campaign_row_def sample_step_def sample_lead_def
  stopped_sample_def sample_payload_def sample_job_def sample_claim_def sample_db_def
  sample_world_def sample_sender_def sample_settings_def

lemma sample_sel [simp]:
  "guc (sample_world l jobs) = Some 11" "wire (sample_world l jobs) = []"
  "log_lines (sample_world l jobs) = []" "reads (sample_world l jobs) = 0"
  "clock_at (sample_world l jobs) n = 1000 + int n" "next_uuid (sample_world l jobs) = 100"
  "row_locks (sample_world l jobs) = []" "held (sample_world l jobs) = []"
  "hashtext (sample_world l jobs) s = 0" "draws (sample_world l jobs) = 0"
  "random_hex (sample_world l jobs) n = ''abc''"
  "sees (sample_world l jobs) i \<longleftrightarrow> i = 11"
  by (auto simp: sample_world_def sees_def)

lemma sample_tables [simp]:
  "t_leads (db (sample_world l jobs)) = [l]" "t_send_jobs (db (sample_world l jobs)) = jobs"
  "t_outbound (db (sample_world l jobs)) = []" "t_inbound (db (sample_world l jobs)) = []"
  "t_outbox (db (sample_world l jobs)) = []" "t_suppressions (db (sample_world l jobs)) = []"
  "t_processed (db (sample_world l jobs)) = []" "t_mailboxes (db (sample_world l jobs)) = [sample_mailbox]"
  "t_campaigns (db (sample_world l jobs)) = [sample_campaign_row]"
  "t_steps (db (sample_world l jobs)) = [sample_step 4 1, sample_step 5 2]"
  "t_workspaces (db (sample_world l jobs)) = []" "t_api_keys (db (sample_world l jobs)) = []"
  by (simp_all add: sample_world_def sample_db_def)

lemma sample_lead_sel [simp]:
  "l_id (sample_lead st n) = 6" "l_workspace_id (sample_lead st n) = 11"
  "l_campaign_id (sample_lead st n) = 3" "l_state (sample_lead st n) = st"
  "l_steps_sent (sample_lead st n) = n" "l_email (sample_lead st n) = ''a@b.c''"
  "l_stop_reason (sample_lead st n) = None" "l_reply_intent (sample_lead st n) = None"
  "l_id stopped_sample = 6" "l_workspace_id stopped_sample = 11" "l_campaign_id stopped_sample = 3"
  "l_state stopped_sample = PAUSED" "l_steps_sent stopped_sample = 1"
  by (simp_all add: sample_lead_def stopped_sample_def)

lemma sample_claim_sel [simp]:
  "cj_id (sample_claim p) = 7" "cj_workspace_id (sample_claim p) = 11"
  "cj_lead_id (sample_claim p) = 6" "cj_payload (sample_claim p) = sample_payload p"
  "cj_attempts (sample_claim p) = 1" "cj_scheduled_at (sample_claim p) = 0"
  "p_campaign_id (sample_payload p) = 3" "p_lead_id (sample_payload p) = 6"
  "p_step_position (sample_payload p) = p" "p_to_email (sample_payload p) = ''a@b.c''"
  "p_subject (sample_payload p) = ''Hi''" "p_body (sample_payload p) = ''b''"
  by (simp_all add: sample_claim_def sample_payload_def)

lemma sample_job_sel [simp]:
  "jr_id (sample_job i p st) = i" "jr_workspace_id (sample_job i p st) = 11"
  "jr_lead_id (sample_job i p st) = 6" "jr_payload (sample_job i p st) = sample_payload p"
  "jr_status (sample_job i p st) = st" "jr_scheduled_at (sample_job i p st) = 0"
  "jr_attempts (sample_job i p st) = 0" "jr_locked_at (sample_job i p st) = None"
  "jr_outbound_message_id (sample_job i p st) = None" "jr_mailbox_id (sample_job i p st) = 2"
  by (simp_all add: sample_job_def)

lemma sample_mailbox_sel [simp]:
  "mb_id sample_mailbox = 2" "mb_workspace_id sample_mailbox = 11"
  "mb_email_address sample_mailbox = ''me@acme.io''" "mb_daily_send_cap sample_mailbox = 20"
  by (simp_all add: sample_mailbox_def)

lemma sample_job_rows: "send_job_rows (sample_world l jobs) = filter (\<lambda>r. jr_workspace_id r = 11) jobs"
  by (simp add: send_job_rows_def)

lemma sample_lead_in: "lead_in (sample_world l jobs) i = (if l_workspace_id l = 11 \<and> l_id l = i then Some l else None)"
  by (simp add: lead_in_def lead_rows_def)

lemma sample_campaign_in:
  "campaign_in (sample_world l jobs) 3 = Some \<lparr> c_id = 3, c_workspace_id = 11, c_mailbox_id = 2,
     c_name = ''c'', c_status = ACTIVE,
     c_steps = [step_of_row (sample_step 4 1), step_of_row (sample_step 5 2)], c_created_at = 0 \<rparr>"
  by (simp add: campaign_in_def campaign_rows_def steps_by_campaign_def step_rows_def sees_def
        sample_world_def sample_db_def sample_campaign_row_def sample_step_def campaign_of_row_def
        or_empty_def)

lemma sample_mailbox_of: "mailbox_of (sample_world l jobs) 11 = Some sample_mailbox"
  by (simp add: mailbox_of_def mailbox_rows_def sees_def sample_world_def sample_db_def sample_mailbox_def)

lemma sample_may_send: "may_send (sample_world l jobs) 11 email sample_mailbox"
  unfolding may_send_def sample_mailbox_of
  by (simp add: is_suppressed_in_def suppression_rows_def lock_key_def sent_since_def outbound_rows_def
        sample_world_def sample_db_def sample_mailbox_def)

definition sample_reply :: "string \<Rightarrow> classified_reply" where
  "sample_reply i = \<lparr> cl_event_id = 20, cl_workspace_id = 11, cl_matched_outbound_id = Some 30, cl_intent = i \<rparr>"

definition sample_done_job :: send_job_row where
  "sample_done_job = (sample_job 7 1 JDONE)\<lparr>jr_outbound_message_id := Some 30\<rparr>"

lemma sample_reply_sel [simp]:
  "cl_event_id (sample_reply i) = 20" "cl_workspace_id (sample_reply i) = 11"
  "cl_matched_outbound_id (sample_reply i) = Some 30" "cl_intent (sample_reply i) = i"
  by (simp_all add: sample_reply_def)

lemma sample_done_job_sel [simp]:
  "jr_id sample_done_job = 7" "jr_workspace_id sample_done_job = 11" "jr_lead_id sample_done_job = 6"
  "jr_status sample_done_job = JDONE" "jr_outbound_message_id sample_done_job = Some 30"
  by (simp_all add: sample_done_job_def)

lemma sample_settings_sel [simp]:
  "google_refresh_token sample_settings = ''r''" "gmail_user_email sample_settings = ''me@acme.io''"
  "mailbox_workspace_id sample_settings = uuid_str 11"
  "sender_impl_setting sample_settings = PYTHON_SENDER" "internal_api_token sample_settings = ''t''"
  by (simp_all add: sample_settings_def default_settings_def)

lemma sample_workspace: "UUID_parse (uuid_str 11) = Inr 11"
  by (simp add: UUID_parse_str)

lemma sample_row_id:
  "om_rfc822_message_id (row_of (sample_world l jobs) ws sample_mailbox email subject body)
     = ''<'' @ ''abc'' @ ''@'' @ last (split_on CHR ''@'' ''me@acme.io'') @ ''>''"
  by (simp add: row_of_def outbound_for_def message_for_def guarded_def)

lemma sample_dispatch:
  assumes "length email \<le> 320"
  shows "email_dispatch sample_sender 11 email subject body (sample_world l jobs)
    = (Inr (DispatchSent 100 1001), dispatched (sample_world l jobs) 11 sample_mailbox email subject body
        \<lparr> se_provider_message_id = ''p1'', se_provider_thread_id = ''t1'' \<rparr>)"
  using dispatch_delivers [OF sample_may_send, of sample_sender l jobs email subject body
      "\<lparr> se_provider_message_id = ''p1'', se_provider_thread_id = ''t1'' \<rparr>"] assms
  by (simp add: sample_sender_def sample_row_id)

definition sample_campaign :: campaign where
  "sample_campaign = \<lparr> c_id = 3, c_workspace_id = 11, c_mailbox_id = 2, c_name = ''c'', c_status = ACTIVE,
     c_steps = [step_of_row (sample_step 4 1), step_of_row (sample_step 5 2)], c_created_at = 0 \<rparr>"

lemma sample_campaign_sel [simp]:
  "c_id sample_campaign = 3" "c_workspace_id sample_campaign = 11" "c_status sample_campaign = ACTIVE"
  "c_steps sample_campaign = [step_of_row (sample_step 4 1), step_of_row (sample_step 5 2)]"
  "s_delay_seconds (step_of_row (sample_step i p)) = 60" "s_position (step_of_row (sample_step i p)) = p"
  by (simp_all add: sample_campaign_def sample_step_def step_of_row_def)

lemma sample_campaign_stored: "campaign_in (sample_world l jobs) 3 = Some sample_campaign"
  by (simp add: sample_campaign_in sample_campaign_def)

lemma sample_claimed:
  assumes "0 \<le> m"
  shows "claim_due_send_jobs 11 k 10 m (sample_world l [sample_job i p JPENDING])
    = (Inr [claimed_of_row (claimed_row m k (sample_job i p JPENDING))],
       claimed_world {i} m k (sample_world l [sample_job i p JPENDING]))"
  using assms by (simp add: claim_due_send_jobs_def jobs_claim_run claim_rows_def claimable_def sample_job_rows)

definition sample_event :: outbox_event where
  "sample_event = \<lparr> oe_id = 20, oe_workspace_id = 11, oe_event_type = ''ReplyClassified'', oe_aggregate_id = 40,
     oe_payload = JObj [(''event_version'', JInt 2), (''matched_outbound_id'', JStr (uuid_str 30)),
       (''intent'', JStr ''positive'')], oe_created_at = 0 \<rparr>"

definition sample_feed_world :: world where
  "sample_feed_world = (let w = sample_world (sample_lead SENT 1) [sample_done_job]
     in w\<lparr>db := (db w)\<lparr>t_outbox := [sample_event]\<rparr>\<rparr>)"

lemma sample_event_sel [simp]:
  "oe_id sample_event = 20" "oe_workspace_id sample_event = 11" "oe_event_type sample_event = ''ReplyClassified''"
  by (simp_all add: sample_event_def)

lemma sample_feed_sel [simp]:
  "guc sample_feed_world = Some 11" "row_locks sample_feed_world = []"
  "t_outbox (db sample_feed_world) = [sample_event]" "t_processed (db sample_feed_world) = []"
  by (simp_all add: sample_feed_world_def Let_def)

lemma sample_event_reply: "to_reply sample_event = Inr (sample_reply ''positive'')"
  by (simp add: to_reply_def sample_event_def at_least_two_def uuid_or_none_def UUID_parse_str
        py_str_def sample_reply_def)

lemma sample_open_events:
  assumes "guc w = Some 11" and "t_outbox (db w) = [sample_event]" and "row_locks w = []"
  shows "open_events w 11 5 \<in> {[], [sample_event]}"
    and "t_processed (db w) = [] \<Longrightarrow> open_events w 11 5 = [sample_event]"
  using assms by (simp_all add: open_events_def outbox_rows_def sees_def processed_rows_def REPLY_CLASSIFIED_def)

lemma sample_feed_claim:
  "feed_claim 11 5 sample_feed_world = (Inr [sample_reply ''positive''], sample_feed_world)"
  by (simp add: feed_claim_def bindp_run sample_open_events sample_event_reply)

lemma sample_feed_run:
  obtains stopped w' where "run_replies 11 5 50 sample_feed_world = (Inr stopped, w')"
    "guc w' = Some 11" "t_outbox (db w') = [sample_event]" "row_locks w' = []"
proof -
  obtain r w1 where stop: "stop_lead (sample_reply ''positive'') 50 sample_feed_world = (Inr r, w1)"
    and g: "guc w1 = Some 11" "t_outbox (db w1) = [sample_event]" "row_locks w1 = []"
    by (cases rule: stop_lead_cases [of "sample_reply ''positive''" 50 sample_feed_world])
       (auto simp: cancel_pending_def)
  let ?w2 = "if list_ex (\<lambda>p. pe_event_id p = 20) (t_processed (db w1)) then w1
     else w1\<lparr>db := (db w1)\<lparr>t_processed := t_processed (db w1) @
                [\<lparr> pe_event_id = 20, pe_workspace_id = 11, pe_processed_at = 50 \<rparr>]\<rparr>\<rparr>"
  have ack: "feed_acknowledge (sample_reply ''positive'') 50 w1 = (Inr (), ?w2)"
    using g by (simp add: feed_acknowledge_def row_security_def sees_def violated_def)
  obtain s w3 where "run_replies 11 5 50 sample_feed_world = (Inr s, w3)" "w3 = ?w2"
    using stop ack
    by (simp add: run_replies_def handle_replies_def bindp_run sample_feed_claim handle_reply_def thenp_run)
  with that [of s w3] g show ?thesis by simp
qed

lemma sample_feed_again:
  assumes "guc w = Some 11" "t_outbox (db w) = [sample_event]" "row_locks w = []"
  obtains rs w2 where "feed_claim 11 5 w = (Inr rs, w2)"
  using sample_open_events(1) [OF assms]
  by (auto simp: feed_claim_def bindp_run sample_event_reply)

definition sample_view :: mailbox_view where
  "sample_view = \<lparr> mv_id = 2, mv_workspace_id = 11, mv_email_address = ''me@acme.io'',
     mv_last_sync_cursor = Some ''7'', mv_daily_send_cap = 20 \<rparr>"

definition sample_fetched :: fetched_message where
  "sample_fetched = \<lparr> fm_provider_message_id = ''m1'', fm_provider_thread_id = ''t9'', fm_from_email = ''a@b.c'',
     fm_subject = ''Re: Hi'', fm_snippet = ''ok'', fm_in_reply_to_header = None, fm_references_header = None,
     fm_received_at = 500, fm_body_text = ''yes'', fm_is_bounce = False \<rparr>"

definition sample_receiver :: receiver where
  "sample_receiver address cursor w = Inr \<lparr> fr_new_cursor = ''8'', fr_messages = [sample_fetched] \<rparr>"

lemma sample_view_sel [simp]:
  "mv_id sample_view = 2" "mv_workspace_id sample_view = 11"
  by (simp_all add: sample_view_def)

lemma sample_no_candidates: "match_reply f [] = None"
  by (simp add: match_reply_None)

lemma sample_poll:
  obtains r1 w1 r2 w2 where
    "poll_inbox sample_receiver (\<lambda>_ _. Inr UNCLEAR) sample_view (sample_world l jobs) = (Inr r1, w1)"
    "poll_inbox sample_receiver (\<lambda>_ _. Inr UNCLEAR) sample_view w1 = (Inr r2, w2)"
  by (simp add: poll_inbox_def bindp_run thenp_run sample_receiver_def outbound_list_unanswered_def
        unanswered_def outbound_rows_def poll_one_def inbound_exists_def inbound_known_def inbound_rows_def
        InboundMessage_new_run inbound_add_def insert_row_def too_long_def violated_def duplicate_def
        row_security_def sample_fetched_def sees_def outbox_record_def sample_no_candidates
        gateway_advance_cursor_def mailboxes_get_by_workspace_def mailbox_of_def mailbox_rows_def
        mailboxes_update_cursor_def with_cursor_def opt_too_long_def update_rows_def)

definition sample_inbound :: inbound_message where
  "sample_inbound = \<lparr> im_id = 50, im_workspace_id = 11, im_mailbox_id = 2, im_provider_message_id = ''m1'',
     im_provider_thread_id = ''t9'', im_from_email = ''a@b.c'', im_subject = ''Re: Hi'', im_snippet = ''ok'',
     im_in_reply_to_header = None, im_references_header = None, im_matched_outbound_id = None,
     im_intent = None, im_received_at = 500, im_created_at = 600 \<rparr>"

definition sample_matched :: outbound_message where
  "sample_matched = \<lparr> om_id = 30, om_workspace_id = 11, om_mailbox_id = 2, om_to_email = ''A@b.c'',
     om_subject = ''Hi'', om_body = ''b'', om_rfc822_message_id = ''<x@acme.io>'',
     om_provider_message_id = Some ''p0'', om_provider_thread_id = Some ''t9'', om_created_at = 10 \<rparr>"

definition sample_inbound_world :: world where
  "sample_inbound_world = (let w = sample_world (sample_lead SENT 1) []
     in w\<lparr>db := (db w)\<lparr>t_inbound := [sample_inbound]\<rparr>\<rparr>)"

lemma sample_address: "lower (strip ''A@b.c'') = ''a@b.c''"
  by code_simp

lemma sample_spelling: "normalize_email '' a@B.c '' = normalize_email ''A@b.c''"
  by code_simp

lemma sample_classify:
  obtains w1 where "classify_reply (\<lambda>_ _. Inr UNSUBSCRIBE) sample_view sample_fetched sample_inbound
      sample_matched sample_inbound_world = (Inr UNSUBSCRIBE, w1)"
  by (simp add: classify_reply_def Let_def bindp_run thenp_run sample_inbound_world_def outbox_record_def
        insert_row_def too_long_def violated_def duplicate_def row_security_def sees_def sample_fetched_def
        inbound_update_def inbound_rows_def sample_inbound_def matched_to_def classified_as_def
        suppression_for_def Suppression_new_run suppressions_add_def sample_matched_def update_rows_def
        sample_address)

definition sample_identity_world :: world where
  "sample_identity_world = (let w = sample_world (sample_lead SENT 1) []
     in w\<lparr>db := (db w)\<lparr>t_workspaces := [\<lparr> ws_id = 11, ws_name = ''acme'', ws_created_at = 0 \<rparr>]\<rparr>\<rparr>)"

lemma sample_issue:
  obtains token w' where "issue_api_key id ''0af'' ''s3_cret'' 11 sample_identity_world = (Inr token, w')"
  by (simp add: issue_api_key_def workspaces_get_def bindp_run thenp_run ApiKey_issue_def keys_add_def
        insert_row_def too_long_def violated_def duplicate_def sample_identity_world_def Let_def)

lemma sample_create:
  obtains c w' where "create_campaign \<lparr> cc_name = ''n'', cc_steps = [\<lparr> d_subject = ''Hi'', d_body = ''b'', d_delay_seconds = 60 \<rparr>] \<rparr> 11
       (sample_world (sample_lead SENT 1) []) = (Inr c, w')"
  by (simp add: create_campaign_def mailbox_id_for_def mailboxes_get_by_workspace_def sample_mailbox_of bindp_run
        thenp_run Campaign_new_run campaigns_add_def insert_campaign_row_def insert_step_row_def insert_row_def
        too_long_def not_int4_def row_security_def violated_def duplicate_def campaign_to_row_def step_to_row_def
        sees_def sample_campaign_row_def sample_step_def)

end
