(* ===== verification/Plan.thy ===== *)
theory Plan
  imports Campaign_Repos Campaign_Laws
begin

text \<open>
  The plan that the tables of the campaign context hold together: leads and jobs fit the
  campaigns, every job is for a step of its lead with that step's text, no two jobs are for
  the same step of a lead, a pending job is for the next step of a lead that may be sent to,
  and every such lead has a job that is pending or running. One lemma says which changes of
  the tables keep the plan; the operations of the program are shown to be such changes.
\<close>

section \<open>The invariant\<close>

type_synonym campaigns = "uuid \<Rightarrow> uuid \<Rightarrow> campaign option"

definition pos :: "send_job_row \<Rightarrow> int" where
  "pos r = p_step_position (jr_payload r)"

definition job_key :: "send_job_row \<Rightarrow> uuid \<times> int" where
  "job_key r = (jr_lead_id r, pos r)"

definition sendable :: "lead \<Rightarrow> bool" where
  "sendable l \<longleftrightarrow> l_state l \<in> SENDABLE_STATES"

definition lead_ok :: "campaigns \<Rightarrow> lead \<Rightarrow> bool" where
  "lead_ok K l \<longleftrightarrow> (\<exists>c. K (l_workspace_id l) (l_campaign_id l) = Some c \<and> wf_lead c l
     \<and> (l_state l \<noteq> PENDING \<longrightarrow> is_active c))"

text \<open>A job against its lead: what never changes, and what the status says.\<close>

definition job_fits :: "campaigns \<Rightarrow> lead \<Rightarrow> send_job_row \<Rightarrow> bool" where
  "job_fits K l r \<longleftrightarrow> l_id l = jr_lead_id r \<and> l_workspace_id l = jr_workspace_id r
     \<and> (\<exists>c. K (l_workspace_id l) (l_campaign_id l) = Some c \<and> 1 \<le> pos r \<and> pos r \<le> int (length (c_steps c))
          \<and> jr_payload r = payload_of c l (c_steps c ! nat (pos r - 1)))"

definition status_fits :: "lead \<Rightarrow> send_job_row \<Rightarrow> bool" where
  "status_fits l r \<longleftrightarrow> l_state l \<noteq> PENDING \<and> pos r \<le> l_steps_sent l + 1
     \<and> (jr_status r = JPENDING \<longrightarrow> sendable l \<and> pos r = l_steps_sent l + 1)
     \<and> (jr_status r = JDONE \<longrightarrow> pos r \<le> l_steps_sent l)"

definition live :: "send_job_row list \<Rightarrow> lead \<Rightarrow> bool" where
  "live J l \<longleftrightarrow> (\<exists>r\<in>set J. jr_lead_id r = l_id l \<and> pos r = l_steps_sent l + 1
     \<and> jr_status r \<in> {JPENDING, JRUNNING})"

definition campaigns_ok :: "campaigns \<Rightarrow> uuid \<Rightarrow> bool" where
  "campaigns_ok K n \<longleftrightarrow> (\<forall>ws i c. K ws i = Some c \<longrightarrow>
     wf_campaign c \<and> c_id c = i \<and> c_workspace_id c = ws \<and> i < n)"

definition plan_ok :: "campaigns \<Rightarrow> uuid \<Rightarrow> lead list \<Rightarrow> send_job_row list \<Rightarrow> bool" where
  "plan_ok K n L J \<longleftrightarrow>
     distinct (map l_id L) \<and> distinct (map jr_id J) \<and> distinct (map job_key J)
     \<and> (\<forall>l\<in>set L. l_id l < n) \<and> (\<forall>r\<in>set J. jr_id r < n) \<and> campaigns_ok K n
     \<and> (\<forall>l\<in>set L. lead_ok K l \<and> (sendable l \<longrightarrow> live J l))
     \<and> (\<forall>r\<in>set J. \<exists>l\<in>set L. job_fits K l r \<and> status_fits l r)"

lemma plan_okD:
  assumes "plan_ok K n L J"
  shows "distinct (map l_id L)" "distinct (map jr_id J)" "distinct (map job_key J)" "campaigns_ok K n"
    and "l \<in> set L \<Longrightarrow> l_id l < n" "r \<in> set J \<Longrightarrow> jr_id r < n"
    and "l \<in> set L \<Longrightarrow> lead_ok K l" "l \<in> set L \<Longrightarrow> sendable l \<Longrightarrow> live J l"
    and "r \<in> set J \<Longrightarrow> \<exists>l\<in>set L. job_fits K l r \<and> status_fits l r"
  using assms unfolding plan_ok_def by blast+

lemma plan_lead_unique:
  "plan_ok K n L J \<Longrightarrow> l \<in> set L \<Longrightarrow> l' \<in> set L \<Longrightarrow> l_id l = l_id l' \<Longrightarrow> l = l'"
  by (drule plan_okD(1)) (auto simp: distinct_map inj_on_def)

lemma plan_job_unique:
  "plan_ok K n L J \<Longrightarrow> r \<in> set J \<Longrightarrow> r' \<in> set J \<Longrightarrow> jr_id r = jr_id r' \<Longrightarrow> r = r'"
  by (drule plan_okD(2)) (auto simp: distinct_map inj_on_def)

lemma plan_key_unique:
  "plan_ok K n L J \<Longrightarrow> r \<in> set J \<Longrightarrow> r' \<in> set J \<Longrightarrow> jr_lead_id r = jr_lead_id r' \<Longrightarrow> pos r = pos r' \<Longrightarrow> r = r'"
  by (drule plan_okD(3)) (auto simp: distinct_map inj_on_def job_key_def)

text \<open>The lead of a job.\<close>

lemma plan_job_lead:
  assumes "plan_ok K n L J" and "r \<in> set J" and "l \<in> set L" and "l_id l = jr_lead_id r"
  shows "job_fits K l r" and "status_fits l r"
proof -
  obtain l' where "l' \<in> set L" "job_fits K l' r" "status_fits l' r"
    using plan_okD(9) [OF assms(1,2)] by blast
  moreover from this have "l' = l"
    using plan_lead_unique [OF assms(1)] assms(3,4) by (metis job_fits_def)
  ultimately show "job_fits K l r" "status_fits l r" by simp_all
qed

section \<open>Changes that keep it\<close>

text \<open>The campaigns may grow and be started.\<close>

definition grows :: "campaigns \<Rightarrow> campaigns \<Rightarrow> bool" where
  "grows K K' \<longleftrightarrow> (\<forall>ws i c. K ws i = Some c \<longrightarrow>
     (\<exists>c'. K' ws i = Some c' \<and> c_id c' = c_id c \<and> c_steps c' = c_steps c \<and> (is_active c \<longrightarrow> is_active c')))"

lemma grows_refl [simp]: "grows K K"
  by (simp add: grows_def)

lemma wf_lead_cong: "c_id c' = c_id c \<Longrightarrow> c_steps c' = c_steps c \<Longrightarrow> wf_lead c' l = wf_lead c l"
  by (simp only: wf_lead_def)

lemma lead_ok_grows: "lead_ok K l \<Longrightarrow> grows K K' \<Longrightarrow> lead_ok K' l"
  unfolding lead_ok_def grows_def using wf_lead_cong by metis

lemma payload_of_cong:
  "c_id c' = c_id c \<Longrightarrow> l_id l' = l_id l \<Longrightarrow> l_email l' = l_email l \<Longrightarrow> payload_of c' l' s = payload_of c l s"
  by (simp add: payload_of_def)

definition same_lead :: "lead \<Rightarrow> lead \<Rightarrow> bool" where
  "same_lead l l' \<longleftrightarrow> l_id l' = l_id l \<and> l_workspace_id l' = l_workspace_id l
     \<and> l_campaign_id l' = l_campaign_id l \<and> l_email l' = l_email l"

definition same_job :: "send_job_row \<Rightarrow> send_job_row \<Rightarrow> bool" where
  "same_job r r' \<longleftrightarrow> jr_id r' = jr_id r \<and> jr_workspace_id r' = jr_workspace_id r
     \<and> jr_lead_id r' = jr_lead_id r \<and> jr_payload r' = jr_payload r"

lemma same_refl [simp]: "same_lead l l" "same_job r r"
  by (simp_all add: same_lead_def same_job_def)

lemma same_job_pos: "same_job r r' \<Longrightarrow> pos r' = pos r \<and> job_key r' = job_key r"
  by (simp add: same_job_def pos_def job_key_def)

lemma job_fits_mono:
  assumes "job_fits K l r" and "same_lead l l'" and "same_job r r'" and "grows K K'"
  shows "job_fits K' l' r'"
proof -
  obtain c where c: "K (l_workspace_id l) (l_campaign_id l) = Some c" "1 \<le> pos r" "pos r \<le> int (length (c_steps c))"
    "jr_payload r = payload_of c l (c_steps c ! nat (pos r - 1))" "l_id l = jr_lead_id r"
    "l_workspace_id l = jr_workspace_id r"
    using assms(1) unfolding job_fits_def by blast
  obtain c' where c': "K' (l_workspace_id l) (l_campaign_id l) = Some c'" "c_id c' = c_id c" "c_steps c' = c_steps c"
    using assms(4) c(1) unfolding grows_def by blast
  have p: "pos r' = pos r" using same_job_pos [OF assms(3)] by simp
  have pay: "jr_payload r' = payload_of c' l' (c_steps c' ! nat (pos r' - 1))"
    using assms(2,3) c(4) c'(2,3) p payload_of_cong [of c' c l' l] by (simp add: same_lead_def same_job_def)
  then show ?thesis
    using assms(2,3) c c' p unfolding job_fits_def same_lead_def same_job_def by auto
qed

lemma plan_step:
  assumes plan: "plan_ok K n L J" and K: "grows K K'" "campaigns_ok K' n'" and n: "n \<le> n'"
    and f: "\<And>l. l \<in> set L \<Longrightarrow> same_lead l (f l)" "\<And>l. l \<in> set L \<Longrightarrow> lead_ok K' (f l)"
    and g: "\<And>r. r \<in> set J \<Longrightarrow> same_job r (g r)"
    and st: "\<And>l r. l \<in> set L \<Longrightarrow> r \<in> set J \<Longrightarrow> jr_lead_id r = l_id l \<Longrightarrow> status_fits l r \<Longrightarrow> status_fits (f l) (g r)"
    and alive: "\<And>l. l \<in> set L \<Longrightarrow> sendable (f l) \<Longrightarrow> live (map g J @ J2) (f l)"
    and L2: "distinct (map l_id L2)" "\<And>l. l \<in> set L2 \<Longrightarrow> n \<le> l_id l \<and> l_id l < n'"
      "\<And>l. l \<in> set L2 \<Longrightarrow> lead_ok K' l \<and> (sendable l \<longrightarrow> live (map g J @ J2) l)"
    and J2: "distinct (map jr_id J2)" "distinct (map job_key J2)" "\<And>r. r \<in> set J2 \<Longrightarrow> n \<le> jr_id r \<and> jr_id r < n'"
      "\<And>r. r \<in> set J2 \<Longrightarrow> job_key r \<notin> job_key ` set J"
      "\<And>r. r \<in> set J2 \<Longrightarrow> \<exists>l\<in>set (map f L @ L2). job_fits K' l r \<and> status_fits l r"
  shows "plan_ok K' n' (map f L @ L2) (map g J @ J2)"
proof -
  note P = plan_okD [OF plan]
  have idf: "map l_id (map f L) = map l_id L" using f(1) by (simp add: same_lead_def)
  have idg: "map jr_id (map g J) = map jr_id J" using g by (simp add: same_job_def)
  have keyg: "map job_key (map g J) = map job_key J" using g same_job_pos by simp
  have l_old: "x < n" if "x \<in> l_id ` set L" for x using that P(5) by blast
  have j_old: "x < n" if "x \<in> jr_id ` set J" for x using that P(6) by blast
  have "distinct (map l_id (map f L @ L2))"
  proof -
    have "l_id ` set L \<inter> l_id ` set L2 = {}"
      using l_old L2(2) by (fastforce simp: image_iff)
    then have "set (map l_id (map f L)) \<inter> set (map l_id L2) = {}" unfolding idf by simp
    then show ?thesis using P(1) L2(1) unfolding map_append distinct_append idf by blast
  qed
  moreover have "distinct (map jr_id (map g J @ J2))"
  proof -
    have "jr_id ` set J \<inter> jr_id ` set J2 = {}"
      using j_old J2(3) by (fastforce simp: image_iff)
    then have "set (map jr_id (map g J)) \<inter> set (map jr_id J2) = {}" unfolding idg by simp
    then show ?thesis using P(2) J2(1) unfolding map_append distinct_append idg by blast
  qed
  moreover have "distinct (map job_key (map g J @ J2))"
  proof -
    have "set (map job_key (map g J)) \<inter> set (map job_key J2) = {}"
      unfolding keyg set_map disjoint_iff using J2(4) by (metis imageE)
    then show ?thesis using P(3) J2(2) unfolding map_append distinct_append keyg by blast
  qed
  moreover have "\<forall>l\<in>set (map f L @ L2). l_id l < n'"
    using f(1) P(5) L2(2) n by (fastforce simp: same_lead_def)
  moreover have "\<forall>r\<in>set (map g J @ J2). jr_id r < n'"
    using g P(6) J2(3) n by (fastforce simp: same_job_def)
  moreover have "\<forall>l\<in>set (map f L @ L2). lead_ok K' l \<and> (sendable l \<longrightarrow> live (map g J @ J2) l)"
    using f(2) alive L2(3) by auto
  moreover have "\<exists>l\<in>set (map f L @ L2). job_fits K' l r' \<and> status_fits l r'" if r': "r' \<in> set (map g J @ J2)" for r'
  proof (cases "r' \<in> set J2")
    case True
    then show ?thesis by (rule J2(5))
  next
    case False
    with r' obtain r where r: "r \<in> set J" "r' = g r" by auto
    obtain l where l: "l \<in> set L" "job_fits K l r" "status_fits l r" using P(9) [OF r(1)] by blast
    have "jr_lead_id r = l_id l" using l(2) by (simp add: job_fits_def)
    then have "status_fits (f l) r'" unfolding r(2) by (rule st [OF l(1) r(1) _ l(3)])
    moreover have "job_fits K' (f l) r'"
      unfolding r(2) using l(2) f(1) [OF l(1)] g [OF r(1)] K(1) by (rule job_fits_mono)
    ultimately show ?thesis using l(1) by auto
  qed
  ultimately show ?thesis using K(2) unfolding plan_ok_def by blast
qed

section \<open>The changes that the program makes\<close>

lemma status_fits_mono:
  assumes "status_fits l r" and "l_steps_sent l \<le> l_steps_sent l'" and "l_state l' \<noteq> PENDING"
    and "jr_status r \<noteq> JPENDING"
  shows "status_fits l' r"
  using assms by (auto simp: status_fits_def)

text \<open>Processing a job: its lead and its row change, and the job of the next step may be added.\<close>

lemma plan_process:
  assumes plan: "plan_ok K n L J" and n: "n \<le> n'" and l: "l \<in> set L" and r: "r \<in> set J"
    and lr: "jr_lead_id r = l_id l" "pos r = l_steps_sent l + 1"
    and f: "\<And>x. x \<in> set L \<Longrightarrow> f x = (if l_id x = l_id l then l' else x)"
    and g: "\<And>x. x \<in> set J \<Longrightarrow> g x = (if jr_id x = jr_id r then r' else x)"
    and l': "same_lead l l'" "lead_ok K l'" "l_steps_sent l \<le> l_steps_sent l'" "l_state l' \<noteq> PENDING"
    and r': "same_job r r'" "status_fits l' r'"
    and J2: "J2 = [] \<or> (\<exists>j. J2 = [j] \<and> n \<le> jr_id j \<and> jr_id j < n' \<and> job_fits K l' j \<and> status_fits l' j
        \<and> pos j = l_steps_sent l' + 1 \<and> l_steps_sent l < l_steps_sent l')"
    and alive: "sendable l' \<Longrightarrow> live (r' # J2) l'"
  shows "plan_ok K n' (map f L) (map g J @ J2)"
proof -
  have ln: "x = l" if "x \<in> set L" "l_id x = l_id l" for x using plan_lead_unique [OF plan that(1) l] that(2) by simp
  have rn: "x = r" if "x \<in> set J" "jr_id x = jr_id r" for x using plan_job_unique [OF plan that(1) r] that(2) by simp
  have fl: "f l = l'" using f [OF l] by simp
  have gr: "g r = r'" using g [OF r] by simp
  have K': "campaigns_ok K n'" using plan_okD(4) [OF plan] n by (fastforce simp: campaigns_ok_def)
  have "plan_ok K n' (map f L @ []) (map g J @ J2)"
  proof (rule plan_step [OF plan grows_refl K' n])
    fix x assume x: "x \<in> set L"
    show "same_lead x (f x)" using f [OF x] ln [OF x] l'(1) by auto
    show "lead_ok K (f x)" using f [OF x] l'(2) plan_okD(7) [OF plan x] by auto
    show "live (map g J @ J2) (f x)" if "sendable (f x)"
    proof (cases "l_id x = l_id l")
      case True
      then have "f x = l'" using f [OF x] by simp
      with that have "live (r' # J2) l'" using alive by simp
      moreover have "r' \<in> set (map g J)" using r gr by (auto intro: rev_image_eqI)
      ultimately show ?thesis using \<open>f x = l'\<close> unfolding live_def by auto
    next
      case False
      then have "f x = x" using f [OF x] by simp
      with that obtain y where y: "y \<in> set J" "jr_lead_id y = l_id x" "pos y = l_steps_sent x + 1"
        "jr_status y \<in> {JPENDING, JRUNNING}"
        using plan_okD(8) [OF plan x] unfolding live_def by auto
      have "y \<noteq> r" using y(2) lr(1) False by auto
      then have "g y = y" using g [OF y(1)] rn [OF y(1)] by auto
      then have "y \<in> set (map g J @ J2)" using y(1) by (auto intro: rev_image_eqI)
      with y \<open>f x = x\<close> show ?thesis unfolding live_def by auto
    qed
  next
    fix x assume x: "x \<in> set J"
    show "same_job x (g x)" using g [OF x] rn [OF x] r'(1) by auto
  next
    fix x y assume x: "x \<in> set L" and y: "y \<in> set J" and xy: "jr_lead_id y = l_id x" "status_fits x y"
    show "status_fits (f x) (g y)"
    proof (cases "l_id x = l_id l")
      case False
      then have "y \<noteq> r" using xy(1) lr(1) by auto
      then show ?thesis using False f [OF x] g [OF y] rn [OF y] xy(2) by auto
    next
      case True
      then have x: "x = l" using ln [OF x] by simp
      show ?thesis
      proof (cases "jr_id y = jr_id r")
        case True
        then show ?thesis using fl x rn [OF y] gr r'(2) by simp
      next
        case False
        then have "jr_status y \<noteq> JPENDING"
          using plan_key_unique [OF plan y r] xy lr x by (auto simp: status_fits_def)
        then have "status_fits l' y" using xy(2) l'(3,4) status_fits_mono unfolding x by blast
        then show ?thesis using False g [OF y] fl x by simp
      qed
    qed
  next
    show "distinct (map jr_id J2)" "distinct (map job_key J2)" using J2 by auto
  next
    fix x assume x: "x \<in> set J2"
    with J2 have j: "n \<le> jr_id x \<and> jr_id x < n'" "job_fits K l' x" "status_fits l' x"
      "pos x = l_steps_sent l' + 1" "l_steps_sent l < l_steps_sent l'" by auto
    show "n \<le> jr_id x \<and> jr_id x < n'" by (rule j)
    have "l' \<in> set (map f L)" using l fl by (auto intro: rev_image_eqI)
    then show "\<exists>l\<in>set (map f L @ []). job_fits K l x \<and> status_fits l x" using j by auto
    show "job_key x \<notin> job_key ` set J"
    proof
      assume "job_key x \<in> job_key ` set J"
      then obtain y where y: "y \<in> set J" "jr_lead_id y = jr_lead_id x" "pos y = pos x" by (auto simp: job_key_def)
      have "jr_lead_id x = l_id l" using j(2) l'(1) by (simp add: job_fits_def same_lead_def)
      then have "status_fits l y" using plan_job_lead(2) [OF plan y(1) l] y(2) by simp
      then have "pos y \<le> l_steps_sent l + 1" by (simp add: status_fits_def)
      with y(3) j(4,5) show False by simp
    qed
  qed simp_all
  then show ?thesis by simp
qed

text \<open>A change of the rows of jobs alone.\<close>

lemma plan_jobs:
  assumes plan: "plan_ok K n L J" and n: "n \<le> n'"
    and g: "\<And>r. r \<in> set J \<Longrightarrow> same_job r (g r)"
    and st: "\<And>l r. l \<in> set L \<Longrightarrow> r \<in> set J \<Longrightarrow> jr_lead_id r = l_id l \<Longrightarrow> status_fits l r \<Longrightarrow> status_fits l (g r)"
    and alive: "\<And>l r. l \<in> set L \<Longrightarrow> r \<in> set J \<Longrightarrow> jr_lead_id r = l_id l \<Longrightarrow> sendable l \<Longrightarrow> pos r = l_steps_sent l + 1
        \<Longrightarrow> jr_status r \<in> {JPENDING, JRUNNING} \<Longrightarrow> jr_status (g r) \<in> {JPENDING, JRUNNING}"
  shows "plan_ok K n' L (map g J)"
proof -
  have K': "campaigns_ok K n'" using plan_okD(4) [OF plan] n by (fastforce simp: campaigns_ok_def)
  have "plan_ok K n' (map (\<lambda>x. x) L @ []) (map g J @ [])"
  proof (rule plan_step [OF plan grows_refl K' n])
    fix l assume l: "l \<in> set L" and s: "sendable l"
    obtain r where r: "r \<in> set J" "jr_lead_id r = l_id l" "pos r = l_steps_sent l + 1"
      "jr_status r \<in> {JPENDING, JRUNNING}"
      using plan_okD(8) [OF plan l s] unfolding live_def by auto
    have "jr_status (g r) \<in> {JPENDING, JRUNNING}" by (rule alive [OF l r(1,2) s r(3,4)])
    moreover have "jr_lead_id (g r) = l_id l" "pos (g r) = l_steps_sent l + 1"
      using g [OF r(1)] r(2,3) same_job_pos [OF g [OF r(1)]] by (auto simp: same_job_def)
    ultimately show "live (map g J @ []) l" using r(1) unfolding live_def by auto
  qed (use g st plan_okD(7) [OF plan] in \<open>auto\<close>)
  then show ?thesis by simp
qed

text \<open>A claim: rows that were pending or running are running.\<close>

lemma plan_claim:
  assumes plan: "plan_ok K n L J" and n: "n \<le> n'"
    and g: "\<And>r. r \<in> set J \<Longrightarrow> g r = r \<or> same_job r (g r) \<and> jr_status r \<in> {JPENDING, JRUNNING} \<and> jr_status (g r) = JRUNNING"
  shows "plan_ok K n' L (map g J)"
proof (rule plan_jobs [OF plan n])
  fix r assume r: "r \<in> set J"
  show "same_job r (g r)" using g [OF r] by auto
next
  fix l r assume r: "r \<in> set J" and s: "status_fits l r"
  show "status_fits l (g r)"
    using g [OF r] s same_job_pos [of r "g r"] by (auto simp: status_fits_def)
next
  fix l r assume r: "r \<in> set J" and s: "jr_status r \<in> {JPENDING, JRUNNING}"
  show "jr_status (g r) \<in> {JPENDING, JRUNNING}" using g [OF r] s by auto
qed

text \<open>Cancelling a job that is not the next step of a lead that may be sent to.\<close>

lemma plan_cancel:
  assumes plan: "plan_ok K n L J" and n: "n \<le> n'"
    and g: "\<And>r. r \<in> set J \<Longrightarrow> g r = r \<or> same_job r (g r) \<and> jr_status (g r) = JCANCELLED
        \<and> (\<forall>l\<in>set L. l_id l = jr_lead_id r \<longrightarrow> \<not> (sendable l \<and> pos r = l_steps_sent l + 1))"
  shows "plan_ok K n' L (map g J)"
proof (rule plan_jobs [OF plan n])
  fix r assume r: "r \<in> set J"
  show "same_job r (g r)" using g [OF r] by auto
next
  fix l r assume r: "r \<in> set J" and s: "status_fits l r"
  show "status_fits l (g r)"
    using g [OF r] s same_job_pos [of r "g r"] by (auto simp: status_fits_def)
next
  fix l r assume l: "l \<in> set L" and r: "r \<in> set J" and lr: "jr_lead_id r = l_id l" "sendable l"
    "pos r = l_steps_sent l + 1" and s: "jr_status r \<in> {JPENDING, JRUNNING}"
  show "jr_status (g r) \<in> {JPENDING, JRUNNING}" using g [OF r] l lr s by auto
qed

text \<open>A reply: the lead is stopped and its pending jobs are cancelled.\<close>

lemma plan_stop:
  assumes plan: "plan_ok K n L J" and n: "n \<le> n'" and l: "l \<in> set L"
    and f: "\<And>x. x \<in> set L \<Longrightarrow> f x = (if l_id x = l_id l then l' else x)"
    and l': "same_lead l l'" "lead_ok K l'" "l_steps_sent l' = l_steps_sent l" "is_stopped l'"
    and g: "\<And>r. r \<in> set J \<Longrightarrow> jr_lead_id r \<noteq> l_id l \<Longrightarrow> g r = r"
      "\<And>r. r \<in> set J \<Longrightarrow> jr_lead_id r = l_id l \<Longrightarrow>
         (if jr_status r = JPENDING then same_job r (g r) \<and> jr_status (g r) = JCANCELLED else g r = r)"
  shows "plan_ok K n' (map f L) (map g J)"
proof -
  have ln: "x = l" if "x \<in> set L" "l_id x = l_id l" for x using plan_lead_unique [OF plan that(1) l] that(2) by simp
  have K': "campaigns_ok K n'" using plan_okD(4) [OF plan] n by (fastforce simp: campaigns_ok_def)
  have ns: "\<not> sendable l'" "l_state l' \<noteq> PENDING" using l'(4) by (auto simp: sendable_def SENDABLE_STATES_def is_stopped_def)
  have sj: "same_job r (g r)" if "r \<in> set J" for r
    using g(1) [OF that] g(2) [OF that] by (cases "jr_lead_id r = l_id l") (auto split: if_splits)
  have "plan_ok K n' (map f L @ []) (map g J @ [])"
  proof (rule plan_step [OF plan grows_refl K' n])
    fix x assume x: "x \<in> set L"
    show "same_lead x (f x)" using f [OF x] ln [OF x] l'(1) by auto
    show "lead_ok K (f x)" using f [OF x] l'(2) plan_okD(7) [OF plan x] by auto
    show "live (map g J @ []) (f x)" if "sendable (f x)"
    proof -
      from that ns(1) have ne: "l_id x \<noteq> l_id l" "f x = x" using f [OF x] by auto
      with that obtain y where y: "y \<in> set J" "jr_lead_id y = l_id x" "pos y = l_steps_sent x + 1"
        "jr_status y \<in> {JPENDING, JRUNNING}"
        using plan_okD(8) [OF plan x] unfolding live_def by auto
      have "g y = y" using g(1) [OF y(1)] y(2) ne(1) by simp
      then have "y \<in> set (map g J)" using y(1) by (auto intro: rev_image_eqI)
      with y ne(2) show ?thesis unfolding live_def by auto
    qed
  next
    fix x y assume x: "x \<in> set L" and y: "y \<in> set J" and xy: "jr_lead_id y = l_id x" "status_fits x y"
    show "status_fits (f x) (g y)"
    proof (cases "l_id x = l_id l")
      case False
      then show ?thesis using f [OF x] g(1) [OF y] xy by auto
    next
      case True
      then have "x = l" "f x = l'" using f [OF x] ln [OF x] by simp_all
      then show ?thesis
        using g(2) [OF y] xy l'(3) ns(2) same_job_pos [OF sj [OF y]] by (auto simp: status_fits_def split: if_splits)
    qed
  qed (use sj in auto)
  then show ?thesis by simp
qed

text \<open>New leads, and new campaigns.\<close>

lemma plan_grow:
  assumes plan: "plan_ok K n L J" and K: "grows K K'" "campaigns_ok K' n'" and n: "n \<le> n'"
    and L2: "distinct (map l_id L2)" "\<And>l. l \<in> set L2 \<Longrightarrow> n \<le> l_id l \<and> l_id l < n' \<and> lead_ok K' l \<and> l_state l = PENDING"
  shows "plan_ok K' n' (L @ L2) J"
proof -
  have ns: "\<not> sendable l" if "l_state l = PENDING" for l using that by (simp add: sendable_def SENDABLE_STATES_def)
  have "plan_ok K' n' (map (\<lambda>x. x) L @ L2) (map (\<lambda>x. x) J @ [])"
    by (rule plan_step [OF plan K n])
       (use L2 ns lead_ok_grows [OF plan_okD(7) [OF plan] K(1)] plan_okD(8) [OF plan] in auto)
  then show ?thesis by simp
qed

text \<open>Scheduling pending leads of a campaign: the first step's job for each of them.\<close>

lemma plan_schedule:
  assumes plan: "plan_ok K n L J" and K: "grows K K'" "campaigns_ok K' n'" and n: "n \<le> n'"
    and c: "is_active c" and ls: "set ls \<subseteq> set L" "distinct (map l_id ls)"
      "\<And>l. l \<in> set ls \<Longrightarrow> l_state l = PENDING \<and> K' (l_workspace_id l) (l_campaign_id l) = Some c"
    and f: "\<And>x. x \<in> set L \<Longrightarrow> f x = (if l_id x \<in> l_id ` set ls then x\<lparr>l_state := SCHEDULED, l_updated_at := m\<rparr> else x)"
    and J2: "length J2 = length ls" "distinct (map jr_id J2)"
      "\<And>i. i < length ls \<Longrightarrow> n \<le> jr_id (J2 ! i) \<and> jr_id (J2 ! i) < n' \<and> jr_lead_id (J2 ! i) = l_id (ls ! i)
         \<and> jr_workspace_id (J2 ! i) = l_workspace_id (ls ! i) \<and> jr_status (J2 ! i) = JPENDING
         \<and> jr_payload (J2 ! i) = payload_of c (ls ! i) (hd (c_steps c))"
  shows "plan_ok K' n' (map f L) (J @ J2)"
proof -
  have in_ls: "x \<in> set ls" if "x \<in> set L" "l_id x \<in> l_id ` set ls" for x
  proof -
    from that(2) obtain y where "y \<in> set ls" "l_id x = l_id y" by blast
    then show ?thesis using plan_lead_unique [OF plan that(1)] ls(1) by auto
  qed
  have wf: "wf_lead c x" if "x \<in> set ls" for x
  proof -
    have "lead_ok K' x" using lead_ok_grows [OF plan_okD(7) [OF plan] K(1)] that ls(1) by blast
    then show ?thesis using ls(3) [OF that] by (auto simp: lead_ok_def)
  qed
  have wc: "wf_campaign c" if "x \<in> set ls" for x using ls(3) [OF that] K(2) unfolding campaigns_ok_def by blast
  let ?up = "\<lambda>x. x\<lparr>l_state := SCHEDULED, l_updated_at := m\<rparr>"
  have up: "lead_ok K' (?up x)" if "x \<in> set ls" for x
    using ls(3) [OF that] wf [OF that] c by (auto simp: lead_ok_def wf_lead_def is_stopped_def)
  have j: "job_fits K' (?up (ls ! i)) (J2 ! i)" "status_fits (?up (ls ! i)) (J2 ! i)" "pos (J2 ! i) = 1"
    "?up (ls ! i) \<in> set (map f L)" if i: "i < length ls" for i
  proof -
    have x: "ls ! i \<in> set ls" using i by simp
    note J = J2(3) [OF i] and w = wc [OF x] and l0 = ls(3) [OF x]
    have steps: "c_steps c \<noteq> []" "s_position (c_steps c ! 0) = 1" using w by (auto simp: wf_campaign_def)
    show p: "pos (J2 ! i) = 1" using J steps by (simp add: pos_def payload_of_def hd_conv_nth)
    have z: "l_steps_sent (ls ! i) = 0" using wf [OF x] l0 by (simp add: wf_lead_def)
    have len: "1 \<le> int (length (c_steps c))" using steps(1) by (cases "c_steps c") auto
    have cong: "payload_of c (?up (ls ! i)) s = payload_of c (ls ! i) s" for s by (simp add: payload_of_def)
    show "job_fits K' (?up (ls ! i)) (J2 ! i)"
      using J l0 p steps(1) len unfolding job_fits_def by (simp add: hd_conv_nth cong)
    show "status_fits (?up (ls ! i)) (J2 ! i)"
      using J p z by (simp add: status_fits_def sendable_def SENDABLE_STATES_def)
    have "f (ls ! i) = ?up (ls ! i)" using f [of "ls ! i"] x ls(1) by auto
    then show "?up (ls ! i) \<in> set (map f L)" using x ls(1) by (auto intro: rev_image_eqI)
  qed
  have ex: "\<exists>i<length ls. r = J2 ! i" if "r \<in> set J2" for r using that J2(1) by (metis in_set_conv_nth)
  have "plan_ok K' n' (map f L @ []) (map (\<lambda>x. x) J @ J2)"
  proof (rule plan_step [OF plan K n])
    fix x assume x: "x \<in> set L"
    show "same_lead x (f x)" using f [OF x] by (auto simp: same_lead_def)
    show "lead_ok K' (f x)"
      using f [OF x] up [OF in_ls [OF x]] lead_ok_grows [OF plan_okD(7) [OF plan x] K(1)] by auto
    show "live (map (\<lambda>x. x) J @ J2) (f x)" if s: "sendable (f x)"
    proof (cases "l_id x \<in> l_id ` set ls")
      case True
      then obtain i where i: "i < length ls" "x = ls ! i" using in_ls [OF x] by (metis in_set_conv_nth)
      have "J2 ! i \<in> set J2" using i(1) J2(1) by simp
      moreover have "l_steps_sent x = 0" using wf ls(3) i by (auto simp: wf_lead_def)
      ultimately show ?thesis
        using True f [OF x] J2(3) [OF i(1)] j(3) [OF i(1)] i(2) unfolding live_def by auto
    next
      case False
      then show ?thesis using s f [OF x] plan_okD(8) [OF plan x] by (auto simp: live_def)
    qed
  next
    fix x y assume x: "x \<in> set L" and y: "y \<in> set J" and xy: "jr_lead_id y = l_id x" "status_fits x y"
    have "x \<notin> set ls" using xy(2) ls(3) [of x] by (auto simp: status_fits_def)
    then show "status_fits (f x) y" using f [OF x] in_ls [OF x] xy(2) by auto
  next
    show "distinct (map job_key J2)"
    proof -
      have "map jr_lead_id J2 = map l_id ls"
        using J2(1,3) by (intro nth_equalityI) auto
      then have "distinct (map jr_lead_id J2)" using ls(2) by simp
      then have "distinct (map fst (map job_key J2))" by (simp add: comp_def job_key_def)
      then show ?thesis by (rule distinct_map [THEN iffD1, THEN conjunct1])
    qed
    show "distinct (map jr_id J2)" by (rule J2(2))
  next
    fix r assume r: "r \<in> set J2"
    then obtain i where i: "i < length ls" "r = J2 ! i" using ex by blast
    show "n \<le> jr_id r \<and> jr_id r < n'" using J2(3) [OF i(1)] i(2) by simp
    show "\<exists>l\<in>set (map f L @ []). job_fits K' l r \<and> status_fits l r" using j [OF i(1)] i(2) by auto
    show "job_key r \<notin> job_key ` set J"
    proof
      assume "job_key r \<in> job_key ` set J"
      then obtain y where y: "y \<in> set J" "jr_lead_id y = l_id (ls ! i)"
        using J2(3) [OF i(1)] i(2) by (auto simp: job_key_def)
      have "ls ! i \<in> set L" "l_state (ls ! i) = PENDING" using i(1) ls by auto
      then show False using plan_job_lead(2) [OF plan y(1)] y(2) by (auto simp: status_fits_def)
    qed
  qed (use ex in auto)
  then show ?thesis by simp
qed

end
