(* ===== verification/Isolation.thy ===== *)
theory Isolation
  imports Campaign_Commands Worker Identity
begin

text \<open>
  Workspaces are isolated: whatever a session of one workspace runs, the rows of every other
  workspace stay as they are. The reason is the policy of the tables, which every statement
  of the repositories goes through.
\<close>

named_theorems isolation_intros "programs that touch only the rows of their workspace"

section \<open>The rows of the others\<close>

definition foreign :: "uuid \<Rightarrow> database \<Rightarrow> database" where
  "foreign ws d = d\<lparr>
     t_campaigns := filter (\<lambda>r. cr_workspace_id r \<noteq> ws) (t_campaigns d),
     t_steps := filter (\<lambda>r. sr_workspace_id r \<noteq> ws) (t_steps d),
     t_leads := filter (\<lambda>r. l_workspace_id r \<noteq> ws) (t_leads d),
     t_send_jobs := filter (\<lambda>r. jr_workspace_id r \<noteq> ws) (t_send_jobs d),
     t_processed := filter (\<lambda>r. pe_workspace_id r \<noteq> ws) (t_processed d),
     t_outbound := filter (\<lambda>r. om_workspace_id r \<noteq> ws) (t_outbound d),
     t_inbound := filter (\<lambda>r. im_workspace_id r \<noteq> ws) (t_inbound d),
     t_outbox := filter (\<lambda>r. oe_workspace_id r \<noteq> ws) (t_outbox d),
     t_suppressions := filter (\<lambda>r. su_workspace_id r \<noteq> ws) (t_suppressions d),
     t_mailboxes := filter (\<lambda>r. mb_workspace_id r \<noteq> ws) (t_mailboxes d)\<rparr>"

definition inside :: "uuid \<Rightarrow> database \<Rightarrow> world \<Rightarrow> bool" where
  "inside ws D w \<longleftrightarrow> guc w = Some ws \<and> foreign ws (db w) = D"

lemma inside_frame [simp]:
  "inside ws D (w\<lparr>reads := n\<rparr>) = inside ws D w" "inside ws D (w\<lparr>next_uuid := n\<rparr>) = inside ws D w"
  "inside ws D (w\<lparr>own := k\<rparr>) = inside ws D w" "inside ws D (w\<lparr>draws := n\<rparr>) = inside ws D w"
  "inside ws D (w\<lparr>wire := x\<rparr>) = inside ws D w" "inside ws D (w\<lparr>metrics := y\<rparr>) = inside ws D w"
  "inside ws D (w\<lparr>log_lines := z\<rparr>) = inside ws D w"
  by (simp_all add: inside_def)

lemma filter_update_rows_own:
  assumes "\<And>r. P r \<Longrightarrow> k r = ws" and "\<And>r. k (f r) = k r"
  shows "filter (\<lambda>r. k r \<noteq> ws) (update_rows P f rows) = filter (\<lambda>r. k r \<noteq> ws) rows"
  using assms by (induction rows) (auto simp: update_rows_def)

lemma inside_db:
  "inside ws D w \<Longrightarrow> foreign ws d = foreign ws (db w) \<Longrightarrow> inside ws D (w\<lparr>db := d\<rparr>)"
  by (simp add: inside_def)

lemma inside_guc: "inside ws D w \<Longrightarrow> guc w = Some ws"
  by (simp add: inside_def)

text \<open>Statements: the policy makes each of them own what it writes.\<close>

lemma inside_insert:
  assumes "\<And>w. set (checks w) \<subseteq> {None} \<Longrightarrow> guc w = Some i"
    and "\<And>d. foreign i (ins d) = foreign i d"
  shows "keeps (inside ws D) (insert_row checks ins)"
proof (rule keeps_insert_checked)
  fix w assume I: "inside ws D w" and c: "set (checks w) \<subseteq> {None}"
  have "i = ws" using assms(1) [OF c] inside_guc [OF I] by simp
  with assms(2) I show "inside ws D (w\<lparr>db := ins (db w)\<rparr>)" by (intro inside_db) auto
qed

lemma inside_modify:
  assumes "\<And>w. guc w = Some ws \<Longrightarrow> foreign ws (f w (db w)) = foreign ws (db w)"
  shows "keeps (inside ws D) (modify_db f)"
  by (rule keeps_modify_db) (rule inside_db, assumption, rule assms, rule inside_guc)

section \<open>The repositories\<close>

lemma inside_campaigns [isolation_intros]:
  "keeps (inside ws D) (insert_campaign_row r)" "keeps (inside ws D) (insert_step_row s)"
  unfolding insert_campaign_row_def insert_step_row_def
  by (rule inside_insert [where i = "cr_workspace_id r"], simp, simp add: foreign_def,
      rule inside_insert [where i = "sr_workspace_id s"], simp, simp add: foreign_def)

lemma inside_leads [isolation_intros]:
  "keeps (inside ws D) (insert_lead_row l)" "keeps (inside ws D) (insert_send_job_row j)"
  unfolding insert_lead_row_def insert_send_job_row_def
  by (rule inside_insert [where i = "l_workspace_id l"], simp, simp add: foreign_def,
      rule inside_insert [where i = "jr_workspace_id j"], simp, simp add: foreign_def)

lemma inside_messages [isolation_intros]:
  "keeps (inside ws D) (outbound_add m)" "keeps (inside ws D) (inbound_add n)"
  "keeps (inside ws D) (outbox_record t i a p)" "keeps (inside ws D) (mailboxes_add b)"
proof -
  show "keeps (inside ws D) (outbound_add m)"
    unfolding outbound_add_def by (rule inside_insert [where i = "om_workspace_id m"]) (simp_all add: foreign_def)
  show "keeps (inside ws D) (inbound_add n)"
    unfolding inbound_add_def by (rule inside_insert [where i = "im_workspace_id n"]) (simp_all add: foreign_def)
  show "keeps (inside ws D) (outbox_record t i a p)"
    unfolding outbox_record_def
    by (intro keep_intros inside_insert [where i = i]) (simp_all add: foreign_def)
  show "keeps (inside ws D) (mailboxes_add b)"
    unfolding mailboxes_add_def by (rule inside_insert [where i = "mb_workspace_id b"]) (simp_all add: foreign_def)
qed

lemma inside_suppressions [isolation_intros]: "keeps (inside ws D) (suppressions_add s)"
  by (auto simp: keeps_def suppressions_add_def inside_def foreign_def split: option.splits)

lemma inside_updates [isolation_intros]:
  "keeps (inside ws D) (campaigns_update_status c)" "keeps (inside ws D) (update_lead l)"
  "keeps (inside ws D) (outbound_mark_sent m)" "keeps (inside ws D) (inbound_update n)"
  "keeps (inside ws D) (mailboxes_update_cursor b)"
  unfolding campaigns_update_status_def update_lead_def leads_get_def outbound_mark_sent_def
    inbound_update_def mailboxes_update_cursor_def
  by (intro keep_intros inside_modify;
      simp add: foreign_def, intro database.fold_congs filter_update_rows_own refl; simp add: sees_def)+

lemma inside_jobs [isolation_intros]:
  assumes "\<And>r. jr_workspace_id (f r) = jr_workspace_id r"
  shows "keeps (inside ws D) (jobs_set i t f)"
  unfolding jobs_set_def
  by (intro inside_modify)
     (use assms in \<open>auto simp: foreign_def sees_def intro!: database.fold_congs filter_update_rows_own\<close>)

lemma inside_job_ops [isolation_intros]:
  "keeps (inside ws D) (jobs_complete i out t)" "keeps (inside ws D) (jobs_release i at reason t)"
  "keeps (inside ws D) (jobs_retry_later i at err t)" "keeps (inside ws D) (jobs_fail i err t)"
  "keeps (inside ws D) (jobs_cancel i t)"
  unfolding jobs_complete_def jobs_release_def jobs_retry_later_def jobs_reschedule_def jobs_fail_def jobs_cancel_def
  by (intro isolation_intros; simp)+

lemma inside_queue [isolation_intros]:
  "keeps (inside ws D) (jobs_claim i k lim t lease)" "keeps (inside ws D) (jobs_cancel_pending_for_lead l t)"
  unfolding jobs_claim_def jobs_cancel_pending_for_lead_def
  by (intro keep_intros inside_modify,
      auto simp: foreign_def sees_def claimed_row_def intro!: database.fold_congs filter_update_rows_own)
     (intro keep_intros inside_modify,
      auto simp: foreign_def sees_def intro!: database.fold_congs filter_update_rows_own)

lemma inside_acknowledge [isolation_intros]: "keeps (inside ws D) (feed_acknowledge reply t)"
  by (auto simp: keeps_def feed_acknowledge_def inside_def foreign_def split: option.splits)

lemma inside_effects [isolation_intros]:
  "keeps (inside ws D) (lock_try_acquire m)" "keeps (inside ws D) (make_message_id d)"
  "keeps (inside ws D) (send_mail sender ml)"
  by (auto simp: keeps_def lock_try_acquire_run make_message_id_run send_mail_run)

lemma inside_savepoint:
  assumes "keeps (inside ws D) m"
  shows "keeps (inside ws D) (savepoint m)"
  using assms by (rule keeps_savepoint) (simp add: inside_def)

section \<open>The handlers\<close>

lemma inside_now [isolation_intros]: "keeps (inside ws D) now" "keeps (inside ws D) uuid7"
  by (intro keep_intros; simp)+

lemma inside_many [isolation_intros]:
  "keeps (inside ws D) (campaigns_add c)" "keeps (inside ws D) (leads_add_many ls)"
  "keeps (inside ws D) (leads_update_many ls)" "keeps (inside ws D) (jobs_add_many js)"
  unfolding campaigns_add_def leads_add_many_def leads_update_many_def jobs_add_many_def
  by (intro keep_intros isolation_intros)+

lemma inside_news [isolation_intros]:
  "keeps (inside ws D) (OutboundMessage_new a b c d e f)" "keeps (inside ws D) (InboundMessage_new a b g)"
  "keeps (inside ws D) (Suppression_new a h i j)" "keeps (inside ws D) (Lead_new a b k)"
  "keeps (inside ws D) (job cm l s at)"
  unfolding OutboundMessage_new_def InboundMessage_new_def Suppression_new_def Lead_new_def job_def SendJob_new_def
  by (intro keep_intros isolation_intros)+

lemma inside_aggregate [isolation_intros]:
  "keeps (inside ws D) (Campaign_new a b n ds)" "keeps (inside ws D) (add_leads c es known)"
  "keeps (inside ws D) (schedule c ls t)" "keeps (inside ws D) (start c ls t)"
  "keeps (inside ws D) (record_sent c l k t)"
proof -
  have steps: "keeps (inside ws D) (new_steps ds p)" for p
    by (induction ds arbitrary: p) (auto intro!: keep_intros isolation_intros)
  show "keeps (inside ws D) (Campaign_new a b n ds)"
    unfolding Campaign_new_def by (intro keep_intros isolation_intros steps)
  have "keeps (inside ws D) (add_leads_loop c es seen acc)" for seen acc
    by (induction es arbitrary: seen acc) (auto simp: Let_def intro!: keep_intros isolation_intros)
  then show "keeps (inside ws D) (add_leads c es known)" by (simp add: add_leads_def)
  have loop: "keeps (inside ws D) (schedule_loop c s t ls xs js)" for c s xs js
    by (induction ls arbitrary: xs js) (auto intro!: keep_intros isolation_intros)
  show sched: "keeps (inside ws D) (schedule c ls t)" for c
    unfolding schedule_def by (intro keep_intros isolation_intros loop)
  show "keeps (inside ws D) (start c ls t)"
    unfolding start_def Let_def by (intro keep_intros isolation_intros sched)
  show "keeps (inside ws D) (record_sent c l k t)"
    unfolding record_sent_def by (intro keep_intros isolation_intros)
qed

lemma inside_dispatch [isolation_intros]: "keeps (inside ws D) (email_dispatch sender i e s b)"
proof -
  have "keeps (inside ws D) (on_send_error e)" for e
    by (cases e) (auto simp: keeps_def on_send_error_def bindp_run)
  then show ?thesis
    unfolding email_dispatch_def send_email_def gateway_get_by_workspace_def mailboxes_get_by_workspace_def
      suppressions_is_suppressed_def outbound_count_sent_since_def
    by (intro keep_intros isolation_intros inside_savepoint)
qed

lemma inside_process [isolation_intros]:
  "keeps (inside ws D) (process_claimed (email_dispatch sender) claim t)"
  "keeps (inside ws D) (process_by_id (email_dispatch sender) i k t)"
proof -
  have "keeps (inside ws D) (settle claim t c l r)" for claim c l r
    unfolding settle_def
    by (cases r; simp only: dispatch_result.case; intro keep_intros isolation_intros; simp)
  then show *: "keeps (inside ws D) (process_claimed (email_dispatch sender) claim t)" for claim
    unfolding process_claimed_def campaigns_get_def leads_get_def by (intro keep_intros isolation_intros)
  show "keeps (inside ws D) (process_by_id (email_dispatch sender) i k t)"
    unfolding process_by_id_def jobs_get_claimed_def by (intro keep_intros *)
qed

lemma inside_replies [isolation_intros]: "keeps (inside ws D) (run_replies i lim t)"
proof -
  have "keeps (inside ws D) (stop_lead reply t)" for reply
    unfolding stop_lead_def jobs_find_lead_id_def leads_get_def campaigns_get_def
    by (intro keep_intros isolation_intros keeps_case_sum, rename_tac e, case_tac e) (simp_all add: keep_intros)
  then show ?thesis
    unfolding run_replies_def handle_replies_def handle_reply_def feed_claim_def
    by (intro keep_intros isolation_intros)
qed

lemma inside_poll [isolation_intros]: "keeps (inside ws D) (poll_inbox receive classify mailbox)"
proof -
  have "keeps (inside ws D) (\<lambda>w. (g w, w))" for g :: "world \<Rightarrow> exn + fetch_result"
    by (simp add: keeps_def)
  moreover have "keeps (inside ws D) (classify_reply classify mailbox f x y)" for f x y
    unfolding classify_reply_def Let_def by (intro keep_intros isolation_intros)
  ultimately show ?thesis
    unfolding poll_inbox_def poll_one_def inbound_exists_def outbound_list_unanswered_def
      gateway_advance_cursor_def mailboxes_get_by_workspace_def
    by (intro keep_intros isolation_intros)
qed

lemma inside_commands [isolation_intros]:
  "keeps (inside ws D) (create_campaign command i)" "keeps (inside ws D) (add_leads_command cid es t)"
  "keeps (inside ws D) (start_campaign cid t)"
  unfolding create_campaign_def mailbox_id_for_def mailboxes_get_by_workspace_def add_leads_command_def
    start_campaign_def campaigns_get_def leads_emails_def leads_list_pending_def
  by (intro keep_intros isolation_intros)+

section \<open>Sessions\<close>

lemma session_isolated:
  assumes "keeps (inside ws (foreign ws (db w))) m"
  shows "foreign ws (db (snd (session_for_workspace ws m w))) = foreign ws (db w)"
proof -
  let ?u = "w\<lparr>guc := Some ws, own := []\<rparr>"
  obtain r v where run: "m ?u = (r, v)" by fastforce
  have "inside ws (foreign ws (db w)) v"
    by (rule keepsD_run [OF assms _ run]) (simp add: inside_def)
  then show ?thesis
    using run by (cases r) (simp_all add: session_for_workspace_def session_def inside_def)
qed

end
