(* ===== verification/Consistency.thy ===== *)
theory Consistency
  imports Plan Isolation Job_Laws Command_Laws Reply_Laws
begin

text \<open>
  Every transaction of the program keeps the plan of \<open>Plan\<close>: from tables that are consistent
  it leaves consistent tables, in which every lead and every job is still there, no lead has
  lost progress and no job has changed what it is for.
\<close>

section \<open>Consistent tables\<close>

definition camps :: "world \<Rightarrow> campaigns" where
  "camps w ws i = campaign_in (w\<lparr>guc := Some ws\<rparr>) i"

definition consistent :: "world \<Rightarrow> bool" where
  "consistent w \<longleftrightarrow> plan_ok (camps w) (next_uuid w) (t_leads (db w)) (t_send_jobs (db w))
     \<and> sr_campaign_id ` set (t_steps (db w)) \<subseteq> cr_id ` set (t_campaigns (db w))"

definition extends :: "world \<Rightarrow> world \<Rightarrow> bool" where
  "extends w w' \<longleftrightarrow> next_uuid w \<le> next_uuid w'
     \<and> (\<forall>l\<in>set (t_leads (db w)). \<exists>l'\<in>set (t_leads (db w')). same_lead l l' \<and> l_steps_sent l \<le> l_steps_sent l')
     \<and> (\<forall>r\<in>set (t_send_jobs (db w)). \<exists>r'\<in>set (t_send_jobs (db w')). same_job r r')"

text \<open>The invariant of a running transaction of a workspace that started in \<open>w0\<close>.\<close>

definition good :: "uuid \<Rightarrow> world \<Rightarrow> world \<Rightarrow> bool" where
  "good ws w0 w \<longleftrightarrow> guc w = Some ws \<and> consistent w \<and> extends w0 w"

lemma extends_refl [simp]: "extends w w"
  unfolding extends_def using same_refl by (metis order.refl)

lemma extendsI_map:
  assumes "t_leads (db w') = map f (t_leads (db w)) @ L" and "t_send_jobs (db w') = map g (t_send_jobs (db w)) @ J"
    and "\<And>l. l \<in> set (t_leads (db w)) \<Longrightarrow> same_lead l (f l) \<and> l_steps_sent l \<le> l_steps_sent (f l)"
    and "\<And>r. r \<in> set (t_send_jobs (db w)) \<Longrightarrow> same_job r (g r)" and "next_uuid w \<le> next_uuid w'"
  shows "extends w w'"
  using assms(3-5) unfolding extends_def assms(1,2) by auto

lemma same_lead_trans: "same_lead a b \<Longrightarrow> same_lead b c \<Longrightarrow> same_lead a c"
  and same_job_trans: "same_job r s \<Longrightarrow> same_job s t \<Longrightarrow> same_job r t"
  by (simp_all add: same_lead_def same_job_def)

lemma extends_trans:
  assumes "extends a b" and "extends b c"
  shows "extends a c"
  using assms unfolding extends_def by (meson order.trans same_lead_trans same_job_trans)

lemma camps_cong:
  "t_campaigns (db v) = t_campaigns (db w) \<Longrightarrow> t_steps (db v) = t_steps (db w) \<Longrightarrow> camps v = camps w"
  unfolding camps_def by (intro ext campaign_in_cong) simp_all

lemma camps_guc: "guc w = Some ws \<Longrightarrow> camps w ws i = campaign_in w i"
  unfolding camps_def by (rule campaign_in_cong) simp_all

lemma campaigns_ok_mono: "campaigns_ok K n \<Longrightarrow> n \<le> n' \<Longrightarrow> campaigns_ok K n'"
  by (fastforce simp: campaigns_ok_def)

lemma plan_ok_mono: "plan_ok K n L J \<Longrightarrow> n \<le> n' \<Longrightarrow> plan_ok K n' L J"
  unfolding plan_ok_def using campaigns_ok_mono by fastforce

text \<open>A step of a transaction that changes leads and jobs only, and one that changes neither.\<close>

lemma good_update:
  assumes "good ws w0 w" and "guc w' = guc w"
    and "t_campaigns (db w') = t_campaigns (db w)" and "t_steps (db w') = t_steps (db w)"
    and "plan_ok (camps w) (next_uuid w') (t_leads (db w')) (t_send_jobs (db w'))" and "extends w w'"
  shows "good ws w0 w'"
  using assms camps_cong [of w' w] extends_trans [of w0 w w'] unfolding good_def consistent_def by simp

lemma good_apart:
  assumes "good ws w0 w" and "guc w' = guc w"
    and "t_campaigns (db w') = t_campaigns (db w)" and "t_steps (db w') = t_steps (db w)"
    and "t_leads (db w') = t_leads (db w)" and "t_send_jobs (db w') = t_send_jobs (db w)"
    and "next_uuid w \<le> next_uuid w'"
  shows "good ws w0 w'"
proof (rule good_update [OF assms(1-4)])
  have "plan_ok (camps w) (next_uuid w) (t_leads (db w)) (t_send_jobs (db w))"
    using assms(1) by (simp add: good_def consistent_def)
  then show "plan_ok (camps w) (next_uuid w') (t_leads (db w')) (t_send_jobs (db w'))"
    using assms(5-7) plan_ok_mono by simp
  show "extends w w'" using assms(5-7) same_refl unfolding extends_def by (metis order.refl)
qed

lemma good_frame [simp]:
  assumes "good ws w0 w"
  shows "good ws w0 (w\<lparr>reads := n\<rparr>)" "good ws w0 (w\<lparr>own := k\<rparr>)"
    "good ws w0 (w\<lparr>draws := m\<rparr>)" "good ws w0 (w\<lparr>wire := x\<rparr>)"
    "next_uuid w \<le> i \<Longrightarrow> good ws w0 (w\<lparr>next_uuid := i\<rparr>)"
  by (rule good_apart [OF assms]; simp)+

lemma goodD:
  assumes "good ws w0 w"
  shows "guc w = Some ws" and "plan_ok (camps w) (next_uuid w) (t_leads (db w)) (t_send_jobs (db w))"
    and "extends w0 w" and "consistent w"
  using assms by (simp_all add: good_def consistent_def)

section \<open>Looking up a lead\<close>

lemma lead_in_table:
  "lead_in w i = Some l \<Longrightarrow> guc w = Some ws \<Longrightarrow> l \<in> set (t_leads (db w)) \<and> l_workspace_id l = ws \<and> l_id l = i"
  by (auto simp: lead_in_def lead_rows_def sees_def dest!: find_Some_in)

lemma table_lead_in:
  assumes "plan_ok K n (t_leads (db w)) J" and "l \<in> set (t_leads (db w))" and "guc w = Some (l_workspace_id l)"
  shows "lead_in w (l_id l) = Some l"
proof (cases "lead_in w (l_id l)")
  case None
  then have "l \<notin> set (lead_rows w)" by (auto simp: lead_in_def find_None_iff)
  with assms(2,3) show ?thesis by (simp add: lead_rows_def sees_def)
next
  case (Some l')
  then show ?thesis
    using plan_lead_unique [OF assms(1)] lead_in_table [OF Some assms(3)] assms(2) by auto
qed

section \<open>Programs of the messaging context\<close>

text \<open>A program that leaves the tables of the campaign context alone.\<close>

definition apart :: "database \<Rightarrow> uuid option \<Rightarrow> uuid \<Rightarrow> world \<Rightarrow> bool" where
  "apart d g n w \<longleftrightarrow> t_campaigns (db w) = t_campaigns d \<and> t_steps (db w) = t_steps d
     \<and> t_leads (db w) = t_leads d \<and> t_send_jobs (db w) = t_send_jobs d \<and> guc w = g \<and> n \<le> next_uuid w"

lemma apart_frame [simp]:
  "apart d g n (w\<lparr>reads := a\<rparr>) = apart d g n w" "apart d g n (w\<lparr>own := b\<rparr>) = apart d g n w"
  "apart d g n (w\<lparr>draws := c\<rparr>) = apart d g n w" "apart d g n (w\<lparr>wire := e\<rparr>) = apart d g n w"
  "apart d g n w \<Longrightarrow> apart d g n (w\<lparr>next_uuid := Suc (next_uuid w)\<rparr>)"
  by (simp_all add: apart_def)

lemma good_keeps_apart:
  assumes "\<And>d g n. keeps (apart d g n) m"
  shows "keeps (good ws w0) m"
proof (rule keepsI)
  fix w assume g: "good ws w0 w"
  have "apart (db w) (guc w) (next_uuid w) (snd (m w))"
    by (rule keepsD [OF assms]) (simp add: apart_def)
  then show "good ws w0 (snd (m w))" using good_apart [OF g] by (simp add: apart_def)
qed

lemma apart_now: "keeps (apart d g n) now" "keeps (apart d g n) uuid7"
  by (simp_all add: keeps_def)

lemma apart_dispatch: "keeps (apart d g n) (email_dispatch sender i e s b)"
proof -
  have err: "keeps (apart d g n) (on_send_error e)" for e
    by (cases e) (auto simp: keeps_def on_send_error_def bindp_run)
  have eff: "keeps (apart d g n) (lock_try_acquire m)" "keeps (apart d g n) (make_message_id x)"
    "keeps (apart d g n) (send_mail sender ml)" for m x ml
    by (auto simp: keeps_def lock_try_acquire_run make_message_id_run send_mail_run)
  show ?thesis
    unfolding email_dispatch_def send_email_def gateway_get_by_workspace_def
      mailboxes_get_by_workspace_def suppressions_is_suppressed_def outbound_count_sent_since_def
      OutboundMessage_new_def outbound_add_def outbound_mark_sent_def
    by (intro apart_now keep_intros keeps_modify_db keeps_insert_row keeps_savepoint err eff) (auto simp: apart_def)
qed

lemma apart_acknowledge: "keeps (apart d g n) (feed_acknowledge reply t)"
  by (auto simp: keeps_def feed_acknowledge_def apart_def split: option.splits)

lemma apart_record: "keeps (apart d g n) (outbox_record t i a p)"
  unfolding outbox_record_def by (intro apart_now keep_intros keeps_insert_row) (auto simp: apart_def)

lemma apart_poll: "keeps (apart d g n) (poll_inbox receive classify mailbox)"
proof -
  have rc: "keeps (apart d g n) (\<lambda>w. (f w, w))" for f :: "world \<Rightarrow> exn + fetch_result"
    by (simp add: keeps_def)
  have supp: "keeps (apart d g n) (suppressions_add s)" for s
    by (auto simp: keeps_def suppressions_add_def apart_def split: option.splits)
  have cl: "keeps (apart d g n) (classify_reply classify mailbox f x y)" for f x y
    unfolding classify_reply_def inbound_update_def Suppression_new_def Let_def
    by (intro apart_now keep_intros keeps_modify_db apart_record supp) (auto simp: apart_def)
  show ?thesis
    unfolding poll_inbox_def poll_one_def inbound_exists_def InboundMessage_new_def inbound_add_def
      outbound_list_unanswered_def gateway_advance_cursor_def mailboxes_get_by_workspace_def
      mailboxes_update_cursor_def
    by (intro apart_now keep_intros keeps_modify_db keeps_insert_row apart_record cl rc) (auto simp: apart_def)
qed

section \<open>Claims\<close>

lemma good_claim: "keeps (good ws w0) (claim_due_send_jobs i k lim t)"
proof (rule keepsI)
  fix w assume g: "good ws w0 w"
  let ?ids = "jr_id ` set (claim_rows w i lim t (t - CLAIM_LEASE))"
  let ?g = "\<lambda>r. if jr_id r \<in> ?ids \<and> sees w (jr_workspace_id r) then claimed_row t k r else r"
  have w': "snd (claim_due_send_jobs i k lim t w) = claimed_world ?ids t k w"
    by (simp add: claim_due_send_jobs_def jobs_claim_run)
  have jobs: "t_send_jobs (db (claimed_world ?ids t k w)) = map ?g (t_send_jobs (db w))"
    by (simp add: claimed_world_def update_rows_def)
  have next_id: "next_uuid (claimed_world ?ids t k w) = next_uuid w" by (simp add: claimed_world_def)
  have same: "same_job r (?g r)" for r by (simp add: same_job_def claimed_row_def)
  have st: "jr_status r \<in> {JPENDING, JRUNNING}" if "r \<in> set (t_send_jobs (db w))" "jr_id r \<in> ?ids" for r
  proof -
    from that(2) obtain r' where r': "r' \<in> set (claim_rows w i lim t (t - CLAIM_LEASE))" "jr_id r = jr_id r'" by blast
    with claim_rows_subset have "r' \<in> set (send_job_rows w)" "claimable i t (t - CLAIM_LEASE) r'" by blast+
    moreover from this have "r = r'"
      using plan_job_unique [OF goodD(2) [OF g] that(1)] r'(2) by (simp add: send_job_rows_def)
    ultimately show ?thesis by (auto simp: claimable_def)
  qed
  show "good ws w0 (snd (claim_due_send_jobs i k lim t w))"
    unfolding w'
  proof (rule good_update [OF g])
    show "plan_ok (camps w) (next_uuid (claimed_world ?ids t k w))
        (t_leads (db (claimed_world ?ids t k w))) (t_send_jobs (db (claimed_world ?ids t k w)))"
      unfolding jobs next_id
      using plan_claim [OF goodD(2) [OF g] order.refl, of ?g] same st by (auto simp: same_job_def)
    show "extends w (claimed_world ?ids t k w)"
      by (rule extendsI_map [where f = "\<lambda>l. l" and g = ?g and L = "[]" and J = "[]"])
         (use same jobs next_id in simp_all)
  qed simp_all
qed

section \<open>Processing\<close>

text \<open>A claim that a worker holds, for a job that is in the table.\<close>

definition hand_ok :: "uuid \<Rightarrow> world \<Rightarrow> claimed_job \<Rightarrow> bool" where
  "hand_ok ws w claim \<longleftrightarrow> cj_workspace_id claim = ws \<and> (\<exists>r\<in>set (t_send_jobs (db w)).
     jr_id r = cj_id claim \<and> jr_payload r = cj_payload claim \<and> jr_lead_id r = cj_lead_id claim
     \<and> jr_workspace_id r = ws)"

lemma hand_ok_extends: "hand_ok ws w claim \<Longrightarrow> extends w w' \<Longrightarrow> hand_ok ws w' claim"
  unfolding hand_ok_def extends_def same_job_def by metis

text \<open>What a held claim stands for.\<close>

lemma held_claim:
  assumes "good ws w0 w" and "hand_ok ws w claim"
  obtains r l c where "r \<in> set (t_send_jobs (db w))" "jr_id r = cj_id claim" "jr_workspace_id r = ws"
    "jr_lead_id r = l_id l" "pos r = p_step_position (cj_payload claim)"
    "l \<in> set (t_leads (db w))" "l_workspace_id l = ws" "l_id l = cj_lead_id claim"
    "lead_in w (cj_lead_id claim) = Some l"
    "campaign_in w (p_campaign_id (cj_payload claim)) = Some c" "camps w ws (l_campaign_id l) = Some c"
    "wf_lead c l" "wf_campaign c" "is_active c" "l_campaign_id l = c_id c" "c_workspace_id c = ws"
    "1 \<le> pos r" "pos r \<le> int (length (c_steps c))" "status_fits l r"
    "cj_payload claim = payload_of c l (c_steps c ! nat (pos r - 1))"
proof -
  obtain r where r: "r \<in> set (t_send_jobs (db w))" "jr_id r = cj_id claim" "jr_payload r = cj_payload claim"
    "jr_lead_id r = cj_lead_id claim" "jr_workspace_id r = ws"
    using assms(2) unfolding hand_ok_def by blast
  note P = goodD(2) [OF assms(1)]
  obtain l where l: "l \<in> set (t_leads (db w))" "job_fits (camps w) l r" "status_fits l r"
    using plan_okD(9) [OF P r(1)] by blast
  obtain c where c: "camps w (l_workspace_id l) (l_campaign_id l) = Some c" "1 \<le> pos r"
    "pos r \<le> int (length (c_steps c))" "jr_payload r = payload_of c l (c_steps c ! nat (pos r - 1))"
    "l_id l = jr_lead_id r" "l_workspace_id l = ws"
    using l(2) r(5) unfolding job_fits_def by auto
  have ok: "wf_lead c l" "l_state l \<noteq> PENDING \<longrightarrow> is_active c"
    using plan_okD(7) [OF P l(1)] c(1) unfolding lead_ok_def by auto
  have camp: "wf_campaign c" "c_id c = l_campaign_id l" "c_workspace_id c = ws"
    using plan_okD(4) [OF P] c(1,6) unfolding campaigns_ok_def by auto
  have act: "is_active c" using ok(2) l(3) by (simp add: status_fits_def)
  have pay: "cj_payload claim = payload_of c l (c_steps c ! nat (pos r - 1))" using r(3) c(4) by simp
  have "p_campaign_id (cj_payload claim) = l_campaign_id l"
    unfolding pay using camp(2) by (simp add: payload_of_def)
  then have camp_in: "campaign_in w (p_campaign_id (cj_payload claim)) = Some c"
    using c(1,6) camps_guc [OF goodD(1) [OF assms(1)], of "l_campaign_id l"] by simp
  have lead: "lead_in w (cj_lead_id claim) = Some l"
    using table_lead_in [OF P l(1)] goodD(1) [OF assms(1)] c(5,6) r(4) by simp
  have at: "pos r = p_step_position (cj_payload claim)" using r(3) by (simp add: pos_def)
  have id: "l_id l = cj_lead_id claim" using c(5) r(4) by simp
  have camp_at: "camps w ws (l_campaign_id l) = Some c" using c(1,6) by simp
  show ?thesis
    by (rule that [OF r(1,2,5) c(5) [symmetric] at l(1) c(6) id lead camp_in camp_at ok(1) camp(1) act
          camp(2) [symmetric] camp(3) c(2,3) l(3) pay])
qed

lemma put_lead_table:
  assumes "plan_ok K n (t_leads (db w)) J" and "l \<in> set (t_leads (db w))" and "guc w = Some (l_workspace_id l)"
    and "l_id l' = l_id l" and "overwrite l' l = l'"
  shows "t_leads (db (put_lead l' w)) = map (\<lambda>x. if l_id x = l_id l then l' else x) (t_leads (db w))"
proof -
  have "(if l_id x = l_id l' \<and> sees w (l_workspace_id x) then overwrite l' x else x) = (if l_id x = l_id l then l' else x)"
    if "x \<in> set (t_leads (db w))" for x
    using plan_lead_unique [OF assms(1) that assms(2)] assms(3-5) by (auto simp: sees_def)
  then show ?thesis by (simp add: put_lead_def update_rows_def)
qed

lemma put_job_table:
  assumes "plan_ok K n L (t_send_jobs (db w))" and "r \<in> set (t_send_jobs (db w))" and "guc w = Some (jr_workspace_id r)"
  shows "t_send_jobs (db (put_job (jr_id r) h w)) = map (\<lambda>x. if jr_id x = jr_id r then h r else x) (t_send_jobs (db w))"
proof -
  have "(if jr_id x = jr_id r \<and> sees w (jr_workspace_id x) then h x else x) = (if jr_id x = jr_id r then h r else x)"
    if "x \<in> set (t_send_jobs (db w))" for x
    using plan_job_unique [OF assms(1) that assms(2)] assms(3) by (auto simp: sees_def)
  then show ?thesis by (simp add: put_job_def update_rows_def)
qed

lemma good_processed:
  assumes g: "good ws w0 w" and l: "l \<in> set (t_leads (db w))"
    and r: "r \<in> set (t_send_jobs (db w))" "jr_lead_id r = l_id l" "pos r = l_steps_sent l + 1"
    and w': "t_leads (db w') = map (\<lambda>x. if l_id x = l_id l then l' else x) (t_leads (db w))"
      "t_send_jobs (db w') = map (\<lambda>x. if jr_id x = jr_id r then r' else x) (t_send_jobs (db w)) @ new"
      "guc w' = guc w" "t_campaigns (db w') = t_campaigns (db w)" "t_steps (db w') = t_steps (db w)"
      "next_uuid w \<le> next_uuid w'"
    and l': "same_lead l l'" "lead_ok (camps w) l'" "l_steps_sent l \<le> l_steps_sent l'" "l_state l' \<noteq> PENDING"
    and r': "same_job r r'" "status_fits l' r'"
    and new: "new = [] \<or> (\<exists>j. new = [j] \<and> next_uuid w \<le> jr_id j \<and> jr_id j < next_uuid w'
        \<and> job_fits (camps w) l' j \<and> status_fits l' j
        \<and> pos j = l_steps_sent l' + 1 \<and> l_steps_sent l < l_steps_sent l')"
    and alive: "sendable l' \<Longrightarrow> live (r' # new) l'"
  shows "good ws w0 w'"
proof (rule good_update [OF g w'(3-5)])
  note P = goodD(2) [OF g]
  let ?f = "\<lambda>x. if l_id x = l_id l then l' else x"
  let ?g = "\<lambda>x. if jr_id x = jr_id r then r' else x"
  show "plan_ok (camps w) (next_uuid w') (t_leads (db w')) (t_send_jobs (db w'))"
    unfolding w'(1,2) by (rule plan_process [OF P w'(6) l r refl refl l' r' new alive])
  have "same_lead x (?f x) \<and> l_steps_sent x \<le> l_steps_sent (?f x)" if "x \<in> set (t_leads (db w))" for x
    using plan_lead_unique [OF P that l] l' by auto
  moreover have "same_job x (?g x)" if "x \<in> set (t_send_jobs (db w))" for x
    using plan_job_unique [OF P that r(1)] r'(1) by auto
  ultimately show "extends w w'"
    by (rule extendsI_map [where f = ?f and g = ?g and L = "[]" and J = new, unfolded append_Nil2, OF w'(1,2)])
       (use w'(6) in simp_all)
qed

lemma refused_good:
  assumes g: "good ws w0 w" and h: "hand_ok ws w claim"
    and no: "\<And>c l. campaign_in w (p_campaign_id (cj_payload claim)) = Some c \<Longrightarrow>
      lead_in w (cj_lead_id claim) = Some l \<Longrightarrow> \<not> accepts_send c l (p_step_position (cj_payload claim))"
  shows "good ws w0 (put_job (cj_id claim) (\<lambda>r. r\<lparr>jr_status := JCANCELLED, jr_updated_at := t\<rparr>) w)"
    (is "good ws w0 (put_job _ ?h w)")
proof (rule held_claim [OF g h])
  fix r l c
  assume r: "r \<in> set (t_send_jobs (db w))" "jr_id r = cj_id claim" "jr_workspace_id r = ws"
    and lr: "jr_lead_id r = l_id l" "pos r = p_step_position (cj_payload claim)" "l \<in> set (t_leads (db w))"
    and look: "lead_in w (cj_lead_id claim) = Some l"
      "campaign_in w (p_campaign_id (cj_payload claim)) = Some c"
    and act: "is_active c" "l_campaign_id l = c_id c"
  note P = goodD(2) [OF g]
  have no': "\<not> (sendable l \<and> pos r = l_steps_sent l + 1)"
    using no [OF look(2,1)] act lr(2) by (auto simp: accepts_send_def sendable_def)
  let ?g = "\<lambda>x. if jr_id x = jr_id r then ?h r else x"
  have tab: "t_send_jobs (db (put_job (cj_id claim) ?h w)) = map ?g (t_send_jobs (db w))"
    unfolding r(2) [symmetric] by (rule put_job_table [OF P r(1)]) (use goodD(1) [OF g] r(3) in simp)
  have sj: "?g x = x \<or> same_job x (?g x) \<and> jr_status (?g x) = JCANCELLED
      \<and> (\<forall>l\<in>set (t_leads (db w)). l_id l = jr_lead_id x \<longrightarrow> \<not> (sendable l \<and> pos x = l_steps_sent l + 1))"
    if "x \<in> set (t_send_jobs (db w))" for x
  proof (cases "jr_id x = jr_id r")
    case True
    then have "x = r" using plan_job_unique [OF P that r(1)] by simp
    then show ?thesis
      using no' lr(1,3) plan_lead_unique [OF P _ lr(3)] by (auto simp: same_job_def)
  qed simp
  have same: "same_job x (?g x)" if "x \<in> set (t_send_jobs (db w))" for x
    using sj [OF that] same_refl(2) [of x] by metis
  show ?thesis
  proof (rule good_update [OF g])
    show "plan_ok (camps w) (next_uuid (put_job (cj_id claim) ?h w)) (t_leads (db (put_job (cj_id claim) ?h w)))
        (t_send_jobs (db (put_job (cj_id claim) ?h w)))"
      unfolding tab put_job_frame by (rule plan_cancel [OF P order.refl]) (rule sj)
    show "extends w (put_job (cj_id claim) ?h w)"
      by (rule extendsI_map [where f = "\<lambda>l. l" and g = ?g and L = "[]" and J = "[]"])
         (use same tab in simp_all)
  qed simp_all
qed

text \<open>A job that was accepted: every outcome of the dispatch keeps the tables consistent.\<close>

definition accepted_job ::
  "uuid \<Rightarrow> world \<Rightarrow> world \<Rightarrow> claimed_job \<Rightarrow> send_job_row \<Rightarrow> lead \<Rightarrow> campaign \<Rightarrow> bool" where
  "accepted_job ws w0 w claim r l c \<longleftrightarrow> good ws w0 w
     \<and> r \<in> set (t_send_jobs (db w)) \<and> jr_id r = cj_id claim \<and> jr_workspace_id r = ws \<and> jr_lead_id r = l_id l
     \<and> pos r = p_step_position (cj_payload claim) \<and> pos r \<le> int (length (c_steps c)) \<and> 1 \<le> pos r \<and> status_fits l r
     \<and> l \<in> set (t_leads (db w)) \<and> l_workspace_id l = ws \<and> wf_lead c l \<and> camps w ws (l_campaign_id l) = Some c
     \<and> wf_campaign c \<and> c_workspace_id c = ws \<and> accepts_send c l (p_step_position (cj_payload claim))"

lemma accepted_jobD:
  assumes "accepted_job ws w0 w claim r l c"
  shows "good ws w0 w" "plan_ok (camps w) (next_uuid w) (t_leads (db w)) (t_send_jobs (db w))"
    and "r \<in> set (t_send_jobs (db w))" "jr_id r = cj_id claim" "jr_workspace_id r = ws" "jr_lead_id r = l_id l"
    and "pos r = p_step_position (cj_payload claim)" "pos r \<le> int (length (c_steps c))" "1 \<le> pos r" "status_fits l r"
    and "l \<in> set (t_leads (db w))" "l_workspace_id l = ws" "wf_lead c l" "camps w ws (l_campaign_id l) = Some c"
    and "wf_campaign c" "c_workspace_id c = ws" "accepts_send c l (p_step_position (cj_payload claim))"
    and "pos r = l_steps_sent l + 1" "sendable l" "is_active c" "l_campaign_id l = c_id c" "guc w = Some ws"
  using assms goodD [of ws w0 w] unfolding accepted_job_def by (auto simp: accepts_send_def sendable_def)

lemma accepted_lead_in:
  assumes "accepted_job ws w0 w claim r l c"
  shows "lead_in w (l_id l) = Some l"
  using table_lead_in [OF accepted_jobD(2,11) [OF assms]] accepted_jobD(12,22) [OF assms] by simp

lemma accepted_lead_ok:
  assumes "accepted_job ws w0 w claim r l c" and "lead_move c l l'" and "same_lead l l'"
  shows "lead_ok (camps w) l'"
  using lead_move_wf [OF assms(2) accepted_jobD(13) [OF assms(1)]] assms(3) accepted_jobD(12,14,15,20) [OF assms(1)]
  by (auto simp: lead_ok_def same_lead_def wf_campaign_def)

lemma accepted_job_table:
  assumes "accepted_job ws w0 w claim r l c" and "t_send_jobs (db v) = t_send_jobs (db w)" and "guc v = guc w"
  shows "t_send_jobs (db (put_job (cj_id claim) h v))
     = map (\<lambda>x. if jr_id x = jr_id r then h r else x) (t_send_jobs (db w))"
  using put_job_table [of "camps w" "next_uuid w" "t_leads (db w)" v r h] assms(2,3)
    accepted_jobD(2,3,4,5,22) [OF assms(1)] by simp

text \<open>The lead stays as it is and the job is due again.\<close>

lemma due_again:
  assumes a: "accepted_job ws w0 w claim r l c" and h: "same_job r (h r)" "jr_status (h r) = JPENDING"
  shows "good ws w0 (put_job (cj_id claim) h w)"
proof (rule good_processed [OF accepted_jobD(1,11,3,6,18) [OF a], where l' = l and r' = "h r" and new = "[]"])
  note A = accepted_jobD [OF a]
  have "(\<lambda>x. if l_id x = l_id l then l else x) x = x" if "x \<in> set (t_leads (db w))" for x
    using plan_lead_unique [OF A(2) that A(11)] by auto
  then have id: "map (\<lambda>x. if l_id x = l_id l then l else x) (t_leads (db w)) = t_leads (db w)" by (rule map_idI)
  show "t_leads (db (put_job (cj_id claim) h w)) = map (\<lambda>x. if l_id x = l_id l then l else x) (t_leads (db w))"
    unfolding id by simp
  show "t_send_jobs (db (put_job (cj_id claim) h w))
      = map (\<lambda>x. if jr_id x = jr_id r then h r else x) (t_send_jobs (db w)) @ []"
    using accepted_job_table [OF a refl refl] by simp
  show "status_fits l (h r)"
    using h same_job_pos [OF h(1)] A(10,18,19) by (simp add: status_fits_def)
  show "live [h r] l"
    using h same_job_pos [OF h(1)] A(6,18) by (simp add: live_def same_job_def)
  show "lead_ok (camps w) l" by (rule plan_okD(7) [OF A(2,11)])
  show "l_state l \<noteq> PENDING" using A(10) by (simp add: status_fits_def)
qed (use h in simp_all)

text \<open>The lead moves on to \<open>l'\<close>, the job is closed, and the job of the next step may follow.\<close>

lemma moved_on:
  assumes a: "accepted_job ws w0 w claim r l c"
    and w': "t_leads (db w') = t_leads (db (put_lead l' w))"
      "t_send_jobs (db w') = t_send_jobs (db (put_job (cj_id claim) h w)) @ new"
      "guc w' = guc w" "t_campaigns (db w') = t_campaigns (db w)" "t_steps (db w') = t_steps (db w)"
      "next_uuid w \<le> next_uuid w'"
    and l': "lead_move c l l'" "same_lead l l'" "overwrite l' l = l'" "l_steps_sent l \<le> l_steps_sent l'"
      "l_state l' \<noteq> PENDING"
    and h: "same_job r (h r)"
      "jr_status (h r) \<in> {JCANCELLED, JFAILED} \<or> jr_status (h r) = JDONE \<and> l_steps_sent l' = pos r"
    and new: "new = [] \<and> \<not> sendable l' \<or> (\<exists>j. new = [j] \<and> next_uuid w \<le> jr_id j \<and> jr_id j < next_uuid w'
        \<and> job_fits (camps w) l' j \<and> status_fits l' j \<and> jr_status j = JPENDING
        \<and> pos j = l_steps_sent l' + 1 \<and> l_steps_sent l < l_steps_sent l')"
  shows "good ws w0 w'"
proof (rule good_processed [OF accepted_jobD(1,11,3,6,18) [OF a], where l' = l' and r' = "h r" and new = new])
  note A = accepted_jobD [OF a]
  show "t_leads (db w') = map (\<lambda>x. if l_id x = l_id l then l' else x) (t_leads (db w))"
    using put_lead_table [OF A(2,11), of l'] A(12,22) l'(2,3) w'(1) by (simp add: same_lead_def)
  show "t_send_jobs (db w') = map (\<lambda>x. if jr_id x = jr_id r then h r else x) (t_send_jobs (db w)) @ new"
    using accepted_job_table [OF a refl refl] w'(2) by simp
  show "status_fits l' (h r)"
    using l' h same_job_pos [OF h(1)] A(18) by (auto simp: status_fits_def)
  show "lead_ok (camps w) l'" by (rule accepted_lead_ok [OF a l'(1,2)])
  show "new = [] \<or> (\<exists>j. new = [j] \<and> next_uuid w \<le> jr_id j \<and> jr_id j < next_uuid w' \<and> job_fits (camps w) l' j
      \<and> status_fits l' j \<and> pos j = l_steps_sent l' + 1 \<and> l_steps_sent l < l_steps_sent l')" using new by blast
  show "live (h r # new) l'" if "sendable l'"
    using new that by (auto simp: live_def job_fits_def)
qed (use assms in simp_all)

lemma settle_good:
  assumes a: "accepted_job ws w0 w claim r l c" and run: "settle claim t c l res w = (out, w')"
  shows "good ws w0 w'" and "\<exists>x. out = Inr x"
    and "out = Inr O_SENT \<Longrightarrow> \<exists>l'\<in>set (t_leads (db w')). same_lead l l' \<and> l_steps_sent l' = p_step_position (cj_payload claim)"
    and "wire w' = wire w"
proof -
  note A = accepted_jobD [OF a]
  have some: "lead_in w (l_id l) \<noteq> None" using accepted_lead_in [OF a] by simp
  have in_map: "l' \<in> set (t_leads (db (put_lead l' w)))" if "l_id l' = l_id l" "overwrite l' l = l'" for l'
    using put_lead_table [OF A(2,11) _ that] A(11,12,22) by (auto intro: rev_image_eqI)
  have "good ws w0 w' \<and> (\<exists>x. out = Inr x) \<and> wire w' = wire w
      \<and> (out = Inr O_SENT \<longrightarrow> (\<exists>l'\<in>set (t_leads (db w')). same_lead l l' \<and> l_steps_sent l' = p_step_position (cj_payload claim)))"
  proof (cases res)
    case (DispatchDeferred at reason)
    with run show ?thesis
      using due_again [OF a] by (auto simp: settle_deferred same_job_def)
  next
    case DispatchSuppressed
    let ?l = "l\<lparr>l_state := FAILED, l_updated_at := t, l_stop_reason := Some SUPPRESSED\<rparr>"
    let ?h = "\<lambda>r. r\<lparr>jr_status := JCANCELLED, jr_updated_at := t\<rparr>"
    have w': "out = Inr O_SUPPRESSED" "w' = put_job (cj_id claim) ?h (put_lead ?l w)"
      using run settle_suppressed [OF some A(17)] DispatchSuppressed by simp_all
    have move: "lead_move c l ?l" using fails [OF fail_lead_accepted [OF A(17)]] by simp
    have "good ws w0 w'"
      by (rule moved_on [OF a, where h = ?h and new = "[]", OF _ _ _ _ _ _ move])
         (simp_all add: w' put_job_def put_lead_def same_lead_def overwrite_def same_job_def sendable_def
            SENDABLE_STATES_def sees_def)
    then show ?thesis using w' by simp
  next
    case (DispatchFailed err)
    show ?thesis
    proof (cases "next_retry_at (cj_attempts claim) t")
      case (Some at)
      with run DispatchFailed show ?thesis
        using due_again [OF a] by (auto simp: settle_retrying same_job_def)
    next
      case None
      let ?l = "l\<lparr>l_state := FAILED, l_updated_at := t, l_stop_reason := Some SEND_FAILED\<rparr>"
      let ?h = "\<lambda>r. r\<lparr>jr_status := JFAILED, jr_last_error := Some err, jr_updated_at := t\<rparr>"
      have w': "out = Inr O_FAILED" "w' = put_job (cj_id claim) ?h (put_lead ?l w)"
        using run settle_failed [OF None some A(17)] DispatchFailed by simp_all
      have move: "lead_move c l ?l" using fails [OF fail_lead_accepted [OF A(17)]] by simp
      have "good ws w0 w'"
        by (rule moved_on [OF a, where h = ?h and new = "[]", OF _ _ _ _ _ _ move])
           (simp_all add: w' put_job_def put_lead_def same_lead_def overwrite_def same_job_def sendable_def
              SENDABLE_STATES_def sees_def)
      then show ?thesis using w' by simp
    qed
  next
    case (DispatchSent m at)
    let ?k = "p_step_position (cj_payload claim)"
    let ?h = "job_done m t"
    have h: "same_job r (?h r)" "jr_status (?h r) = JDONE" by (simp_all add: job_done_def same_job_def)
    show ?thesis
    proof (cases "?k = int (length (c_steps c))")
      case True
      let ?l = "l\<lparr>l_state := DONE, l_updated_at := at, l_steps_sent := ?k\<rparr>"
      have w': "out = Inr O_SENT" "w' = put_job (cj_id claim) ?h (put_lead ?l w)"
        using run settle_sent_last [OF some A(17) True refl] DispatchSent by simp_all
      have move: "lead_move c l ?l" by (rule record_sent_move [OF record_sent_last [OF A(17) True]])
      have "good ws w0 w'"
        by (rule moved_on [OF a, where h = ?h and new = "[]", OF _ _ _ _ _ _ move])
           (use h A(7,18) in \<open>simp_all add: w' put_job_def put_lead_def same_lead_def overwrite_def sendable_def
              SENDABLE_STATES_def sees_def\<close>)
      then show ?thesis
        using w' by (auto intro!: bexI [where x = ?l] in_map simp: same_lead_def overwrite_def)
    next
      case False
      then have k: "0 < ?k" "?k < int (length (c_steps c))" using A(7,8,9) by simp_all
      let ?l = "l\<lparr>l_state := SENT, l_updated_at := at, l_steps_sent := ?k\<rparr>"
      let ?j = "job_for c (c_steps c ! nat ?k) at l (next_uuid w) (clock_at w (reads w))"
      let ?row = "send_job_to_row ?j"
      let ?v = "put_job (cj_id claim) ?h (put_lead ?l (w\<lparr>next_uuid := Suc (next_uuid w), reads := Suc (reads w)\<rparr>))"
      have settle: "settle claim t c l res w = thenp (jobs_add_many [?j]) (ret O_SENT) ?v"
        using settle_sent_next [OF some A(17) k refl] DispatchSent by simp
      have row: "jr_id ?row = next_uuid w" "jr_workspace_id ?row = ws" "jr_lead_id ?row = l_id l"
        "jr_status ?row = JPENDING" "jr_payload ?row = payload_of c l (c_steps c ! nat ?k)"
        using A(16) by (simp_all add: send_job_to_row_def job_for_def)
      have p: "pos ?row = ?k + 1"
        using A(15) k by (simp add: pos_def row payload_of_def wf_campaign_def)
      have guc: "guc ?v = Some ws" using A(22) by simp
      have ids: "jr_id ` set (t_send_jobs (db ?v)) = jr_id ` set (t_send_jobs (db w))"
      proof -
        have "t_send_jobs (db ?v) = map (\<lambda>x. if jr_id x = jr_id r then ?h r else x) (t_send_jobs (db w))"
          by (rule accepted_job_table [OF a]) simp_all
        moreover have "jr_id (if jr_id x = jr_id r then ?h r else x) = jr_id x" for x
          using h(1) by (simp add: same_job_def)
        ultimately show ?thesis by (simp only: set_map image_image)
      qed
      have fresh: "next_uuid w \<notin> jr_id ` set (t_send_jobs (db w))"
        using plan_okD(6) [OF A(2)] by fastforce
      have ins: "insert_send_job_row ?row ?v = (Inr (), with_job ?row ?v)"
        unfolding insert_send_job_row_def with_job_def
        by (rule insert_row_ok) (use guc ids fresh row in simp)
      have w': "out = Inr O_SENT" "w' = with_job ?row ?v"
        using run ins by (simp_all add: settle thenp_run jobs_add_one)
      have move: "lead_move c l ?l" by (rule record_sent_move [OF record_sent_next [OF A(17) k]])
      have cong: "payload_of c ?l s = payload_of c l s" for s by (simp add: payload_of_def)
      have fits: "job_fits (camps w) ?l ?row"
        using A(12,14) row p k cong by (simp add: job_fits_def)
      have st: "status_fits ?l ?row" using row p by (simp add: status_fits_def sendable_def SENDABLE_STATES_def)
      have tab: "t_leads (db w') = t_leads (db (put_lead ?l w))"
        unfolding w' with_job_frame put_job_frame by (simp add: put_lead_def sees_def)
      have "good ws w0 w'"
      proof (rule moved_on [OF a tab, where h = ?h and new = "[?row]", OF _ _ _ _ _ move])
        show "t_send_jobs (db w') = t_send_jobs (db (put_job (cj_id claim) ?h w)) @ [?row]"
          unfolding w' with_job_frame by (simp add: put_job_def put_lead_def sees_def)
        have "next_uuid w \<le> jr_id ?row \<and> jr_id ?row < next_uuid w'"
          using row(1) by (simp add: w' with_job_def)
        moreover have "pos ?row = l_steps_sent ?l + 1" using p by simp
        moreover have "l_steps_sent l < l_steps_sent ?l" using A(7,18) by simp
        ultimately show "[?row] = [] \<and> \<not> sendable ?l \<or> (\<exists>j. [?row] = [j] \<and> next_uuid w \<le> jr_id j \<and> jr_id j < next_uuid w'
            \<and> job_fits (camps w) ?l j \<and> status_fits ?l j \<and> jr_status j = JPENDING
            \<and> pos j = l_steps_sent ?l + 1 \<and> l_steps_sent l < l_steps_sent ?l)"
          using fits st row(4) by blast
      qed (use h A(7,18) in \<open>simp_all add: w' with_job_def same_lead_def overwrite_def\<close>)
      then show ?thesis
        using w'(1) tab w'(2) by (auto intro!: bexI [where x = ?l] in_map simp: same_lead_def overwrite_def)
    qed
  qed
  then show "good ws w0 w'" "\<exists>x. out = Inr x" "wire w' = wire w"
    "out = Inr O_SENT \<Longrightarrow> \<exists>l'\<in>set (t_leads (db w')). same_lead l l' \<and> l_steps_sent l' = p_step_position (cj_payload claim)"
    by blast+
qed

end
