(* ===== verification/Transactions.thy ===== *)
theory Transactions
  imports Consistency Send_Laws Poll_Laws
begin

text \<open>
  Every handler of the program keeps the tables consistent: processing a held job, handling the
  classified replies, polling, and the commands of the campaign context.
\<close>

section \<open>Processing a held job\<close>

text \<open>A mail that is the next step of a lead, addressed to the lead, with the text of the step.\<close>

definition next_mail :: "world \<Rightarrow> uuid \<Rightarrow> uuid \<Rightarrow> mail \<Rightarrow> bool" where
  "next_mail w ws lead_id m \<longleftrightarrow> (\<exists>l\<in>set (t_leads (db w)). \<exists>c. l_id l = lead_id \<and> l_workspace_id l = ws
     \<and> camps w ws (l_campaign_id l) = Some c \<and> is_active c \<and> sendable l
     \<and> 0 \<le> l_steps_sent l \<and> l_steps_sent l < int (length (c_steps c)) \<and> ml_to m = l_email l
     \<and> ml_subject m = s_subject (c_steps c ! nat (l_steps_sent l))
     \<and> ml_body m = s_body (c_steps c ! nat (l_steps_sent l)))"

text \<open>What processing a held job does to the state.\<close>

definition advanced :: "world \<Rightarrow> world \<Rightarrow> claimed_job \<Rightarrow> bool" where
  "advanced w w' claim \<longleftrightarrow> (\<exists>l\<in>set (t_leads (db w)). \<exists>l'\<in>set (t_leads (db w')).
     l_id l = cj_lead_id claim \<and> same_lead l l'
     \<and> l_steps_sent l = p_step_position (cj_payload claim) - 1
     \<and> l_steps_sent l' = p_step_position (cj_payload claim))"

definition processed :: "uuid \<Rightarrow> world \<Rightarrow> claimed_job \<Rightarrow> exn + send_job_outcome \<Rightarrow> world \<Rightarrow> bool" where
  "processed ws w claim out w' \<longleftrightarrow> (\<exists>x. out = Inr x)
     \<and> (out = Inr O_SENT \<longrightarrow> advanced w w' claim)
     \<and> (wire w' = wire w \<or> (\<exists>m answer. wire w' = wire w @ [(m, answer)] \<and> next_mail w ws (cj_lead_id claim) m))"

lemma accepted_after_dispatch:
  assumes g: "good ws w0 w" and h: "hand_ok ws w claim"
    and c: "campaign_in w (p_campaign_id (cj_payload claim)) = Some c" and l: "lead_in w (cj_lead_id claim) = Some l"
    and acc: "accepts_send c l (p_step_position (cj_payload claim))"
    and side: "same_campaign_side w1 w" and g1: "good ws w0 w1"
  obtains r where "accepted_job ws w0 w1 claim r l c" and "l_id l = cj_lead_id claim"
    and "l \<in> set (t_leads (db w))" and "l_workspace_id l = ws" and "camps w ws (l_campaign_id l) = Some c"
    and "cj_payload claim = payload_of c l (c_steps c ! nat (pos r - 1))"
    and "1 \<le> pos r" and "pos r \<le> int (length (c_steps c))" and "pos r = l_steps_sent l + 1"
    and "is_active c" and "sendable l" and "cj_workspace_id claim = ws"
proof (rule held_claim [OF g h])
  fix r l1 c1
  assume H: "r \<in> set (t_send_jobs (db w))" "jr_id r = cj_id claim" "jr_workspace_id r = ws"
    "jr_lead_id r = l_id l1" "pos r = p_step_position (cj_payload claim)"
    "l1 \<in> set (t_leads (db w))" "l_workspace_id l1 = ws" "l_id l1 = cj_lead_id claim"
    "lead_in w (cj_lead_id claim) = Some l1"
    "campaign_in w (p_campaign_id (cj_payload claim)) = Some c1" "camps w ws (l_campaign_id l1) = Some c1"
    "wf_lead c1 l1" "wf_campaign c1" "is_active c1" "l_campaign_id l1 = c_id c1" "c_workspace_id c1 = ws"
    "1 \<le> pos r" "pos r \<le> int (length (c_steps c1))" "status_fits l1 r"
    "cj_payload claim = payload_of c1 l1 (c_steps c1 ! nat (pos r - 1))"
  have eq: "l1 = l" "c1 = c" using H(9,10) c l by simp_all
  have k: "camps w1 = camps w" using side by (intro camps_cong) (simp_all add: same_campaign_side_def)
  have tabs: "t_leads (db w1) = t_leads (db w)" "t_send_jobs (db w1) = t_send_jobs (db w)"
    using side by (simp_all add: same_campaign_side_def)
  have a: "accepted_job ws w0 w1 claim r l c"
    using H(1-8,11-19) acc g1 unfolding accepted_job_def eq tabs k by blast
  have "cj_workspace_id claim = ws" using h by (simp add: hand_ok_def)
  then show ?thesis
    using that [OF a] H(6,7,8,11,14,17,18,20) accepted_jobD(18,19) [OF a] unfolding eq by blast
qed

lemma process_good:
  assumes g: "good ws w0 w" and h: "hand_ok ws w claim"
    and run: "process_claimed (email_dispatch sender) claim t w = (out, w')"
  shows "good ws w0 w' \<and> processed ws w claim out w'"
proof (cases "\<exists>c l. campaign_in w (p_campaign_id (cj_payload claim)) = Some c
    \<and> lead_in w (cj_lead_id claim) = Some l \<and> accepts_send c l (p_step_position (cj_payload claim))")
  case False
  then have "out = Inr O_CANCELLED"
    "w' = put_job (cj_id claim) (\<lambda>r. r\<lparr>jr_status := JCANCELLED, jr_updated_at := t\<rparr>) w"
    using process_refused [of w claim "email_dispatch sender" t] run by auto
  then show ?thesis using refused_good [OF g h] False by (auto simp: processed_def)
next
  case True
  then obtain c l where c: "campaign_in w (p_campaign_id (cj_payload claim)) = Some c"
    and l: "lead_in w (cj_lead_id claim) = Some l"
    and acc: "accepts_send c l (p_step_position (cj_payload claim))" by blast
  obtain res w1 where d: "email_dispatch sender (cj_workspace_id claim) (p_to_email (cj_payload claim))
      (p_subject (cj_payload claim)) (p_body (cj_payload claim)) w = (Inr res, w1)"
    and side: "same_campaign_side w1 w"
    and s: "process_claimed (email_dispatch sender) claim t w = settle claim t c l res w1"
    using messaging.accepted [OF c l acc] by blast
  have g1: "good ws w0 w1" by (rule keepsD_run [OF good_keeps_apart [OF apart_dispatch] g d])
  obtain r where a: "accepted_job ws w0 w1 claim r l c" and id: "l_id l = cj_lead_id claim"
    and lw: "l \<in> set (t_leads (db w))" "l_workspace_id l = ws" "camps w ws (l_campaign_id l) = Some c"
    and pay: "cj_payload claim = payload_of c l (c_steps c ! nat (pos r - 1))"
    and p: "1 \<le> pos r" "pos r \<le> int (length (c_steps c))" "pos r = l_steps_sent l + 1"
    and act: "is_active c" "sendable l"
    by (rule accepted_after_dispatch [OF g h c l acc side g1]) blast
  have settle: "settle claim t c l res w1 = (out, w')" using run s by simp
  note S = settle_good [OF a settle]
  have at: "l_steps_sent l = p_step_position (cj_payload claim) - 1"
    using p(3) accepted_jobD(7) [OF a] by (simp only:)
  have to: "p_to_email (cj_payload claim) = l_email l"
    "p_subject (cj_payload claim) = s_subject (c_steps c ! nat (l_steps_sent l))"
    "p_body (cj_payload claim) = s_body (c_steps c ! nat (l_steps_sent l))"
    unfolding pay using p(3) by (simp_all add: payload_of_def)
  have "wire w1 = wire w \<or> (\<exists>m answer. wire w1 = wire w @ [(m, answer)] \<and> next_mail w ws (cj_lead_id claim) m)"
  proof (cases "wire w1 = wire w")
    case False
    then obtain mb answer where "wire w1 = wire w @ [(mail_of w mb (p_to_email (cj_payload claim))
        (p_subject (cj_payload claim)) (p_body (cj_payload claim)), answer)]"
      using dispatch_wire [OF d] by blast
    moreover have "next_mail w ws (cj_lead_id claim) (mail_of w mb (p_to_email (cj_payload claim))
        (p_subject (cj_payload claim)) (p_body (cj_payload claim)))"
      unfolding next_mail_def using lw id act p to by (intro bexI [OF _ lw(1)] exI [where x = c]) simp
    ultimately show ?thesis by blast
  qed simp
  moreover have "advanced w w' claim" if "out = Inr O_SENT"
    using S(3) [OF that] lw(1) id at unfolding advanced_def by blast
  ultimately show ?thesis using S(1,2,4) by (simp add: processed_def)
qed

text \<open>A claimed row read again is a claim that may be processed.\<close>

lemma claimed_hand:
  assumes "r \<in> set (send_job_rows w)" and "guc w = Some ws"
  shows "hand_ok ws w (claimed_of_row r)"
  using assms by (auto simp: hand_ok_def claimed_of_row_def send_job_rows_def sees_def)

lemma by_id_good:
  assumes g: "good ws w0 w" and run: "process_by_id (email_dispatch sender) i ws' t w = (out, w')"
  obtains (none) "out = Inl SendJobNotClaimedError" "w' = w"
  | (ran) claim x where "out = Inr \<lparr> ps_job = claim, ps_outcome = x \<rparr>" "hand_ok ws w claim"
      "good ws w0 w'" "processed ws w claim (Inr x) w'" "cj_id claim = i"
proof (cases "find (\<lambda>r. jr_id r = i \<and> jr_workspace_id r = ws' \<and> jr_status r = JRUNNING) (send_job_rows w)")
  case None
  with run have "out = Inl SendJobNotClaimedError" "w' = w"
    by (simp_all add: process_by_id_def jobs_get_claimed_def bindp_run)
  then show ?thesis by (rule none)
next
  case (Some r)
  let ?c = "claimed_of_row r"
  from Some have r: "r \<in> set (send_job_rows w)" "jr_id r = i" by (auto dest: find_Some_in)
  have h: "hand_ok ws w ?c" by (rule claimed_hand [OF r(1) goodD(1) [OF g]])
  obtain o1 w1 where p: "process_claimed (email_dispatch sender) ?c t w = (o1, w1)" by fastforce
  from process_good [OF g h p] obtain x where x: "o1 = Inr x" "good ws w0 w1" "processed ws w ?c (Inr x) w1"
    by (auto simp: processed_def)
  have "out = Inr \<lparr> ps_job = ?c, ps_outcome = x \<rparr>" "w' = w1"
    using run Some p x(1) by (simp_all add: process_by_id_def jobs_get_claimed_def bindp_run)
  then show ?thesis using ran [of ?c x] h x(2,3) r(2) by (simp add: claimed_of_row_def)
qed

section \<open>Replies and polls\<close>

lemma stop_lead_good: "keeps (good ws w0) (stop_lead reply t)"
proof (rule keepsI)
  fix w assume g: "good ws w0 w"
  note P = goodD(2) [OF g] and guc = goodD(1) [OF g]
  show "good ws w0 (snd (stop_lead reply t w))"
  proof (cases rule: stop_lead_cases [of reply t w])
    case kept
    with g show ?thesis by simp
  next
    case (stops out i l c l')
    have l: "l \<in> set (t_leads (db w))" "l_workspace_id l = ws" "l_id l = i"
      using lead_in_table [OF stops(3) guc] by simp_all
    let ?w' = "cancel_pending i t (put_lead l' w)"
    let ?h = "\<lambda>r. r\<lparr>jr_status := JCANCELLED, jr_updated_at := t\<rparr>"
    let ?f = "\<lambda>x. if l_id x = l_id l then l' else x"
    let ?g = "\<lambda>r. if jr_lead_id r = i \<and> jr_status r = JPENDING \<and> sees w (jr_workspace_id r) then ?h r else r"
    have ow: "overwrite l' l = l'" by (rule stop_on_reply_overwrite [OF stops(6)])
    have "same_lead l (overwrite l' l)" by (simp add: same_lead_def)
    then have same: "same_lead l l'" unfolding ow .
    have leads: "t_leads (db ?w') = map ?f (t_leads (db w))"
      using put_lead_table [OF P l(1) _ _ ow] guc l(2,3) stops(8) by simp
    have jobs: "t_send_jobs (db ?w') = map ?g (t_send_jobs (db w))"
      by (simp add: cancel_pending_def update_rows_def)
    have c: "camps w (l_workspace_id l) (l_campaign_id l) = Some c"
      using stops(4) camps_guc [OF guc] l(2) by simp
    have wf: "wf_lead c l" "l_state l \<noteq> PENDING \<longrightarrow> is_active c"
      using plan_okD(7) [OF P l(1)] c by (auto simp: lead_ok_def)
    have wc: "wf_campaign c" using plan_okD(4) [OF P] c unfolding campaigns_ok_def by blast
    have "lead_move c l l'" by (rule lead_move.replies [OF stops(6)])
    then have "wf_lead c l'" by (rule lead_move_wf) (use wf wc in \<open>auto simp: wf_campaign_def\<close>)
    then have ok: "lead_ok (camps w) l'"
      using same c wf(2) stops(5) by (auto simp: lead_ok_def same_lead_def REPLYABLE_STATES_def)
    have "good ws w0 ?w'"
    proof (rule good_update [OF g])
      show "plan_ok (camps w) (next_uuid ?w') (t_leads (db ?w')) (t_send_jobs (db ?w'))"
        unfolding leads jobs
      proof (rule plan_stop [OF P _ l(1) _ same ok stops(9,7)])
        fix r assume r: "r \<in> set (t_send_jobs (db w))" "jr_lead_id r = l_id l"
        have "job_fits (camps w) l r" by (rule plan_job_lead(1) [OF P r(1) l(1)]) (use r(2) in simp)
        then have "jr_workspace_id r = ws" using l(2) by (simp add: job_fits_def)
        then show "if jr_status r = JPENDING then same_job r (?g r) \<and> jr_status (?g r) = JCANCELLED else ?g r = r"
          using r(2) l(3) guc by (simp add: same_job_def sees_def)
      qed (use l(3) in \<open>simp_all add: cancel_pending_def\<close>)
      show "extends w ?w'"
        by (rule extendsI_map [where f = ?f and g = ?g and L = "[]" and J = "[]"])
           (use leads jobs same stops(9) plan_lead_unique [OF P _ l(1)] in
             \<open>auto simp: same_job_def cancel_pending_def\<close>)
    qed simp_all
    then show ?thesis using stops(10) by simp
  qed
qed

lemma replies_good: "keeps (good ws w0) (run_replies i lim t)"
  unfolding run_replies_def handle_replies_def handle_reply_def feed_claim_def
  by (intro keep_intros stop_lead_good good_keeps_apart [OF apart_acknowledge])

lemma poll_good: "keeps (good ws w0) (poll_inbox receive classify mailbox)"
  by (rule good_keeps_apart [OF apart_poll])

lemma now_good: "keeps (good ws w0) now"
  by (rule good_keeps_apart [OF apart_now(1)])

section \<open>Writing many rows\<close>

lemma leads_add_many_Inr:
  assumes "leads_add_many ls w = (Inr u, w')"
  shows "w' = w\<lparr>db := (db w)\<lparr>t_leads := t_leads (db w) @ ls\<rparr>\<rparr>"
  using assms unfolding leads_add_many_def
proof (induction ls arbitrary: w)
  case (Cons l ls)
  from Cons.prems obtain w1 where a: "insert_lead_row l w = (Inr (), w1)" and b: "forp insert_lead_row ls w1 = (Inr u, w')"
    by (auto elim: thenp_InrE)
  from a have "w1 = w\<lparr>db := (db w)\<lparr>t_leads := t_leads (db w) @ [l]\<rparr>\<rparr>" by (simp add: insert_lead_row_def insert_row_Inr)
  with Cons.IH [OF b] show ?case by simp
qed simp

lemma jobs_add_many_Inr:
  assumes "jobs_add_many js w = (Inr u, w')"
  shows "w' = w\<lparr>db := (db w)\<lparr>t_send_jobs := t_send_jobs (db w) @ map send_job_to_row js\<rparr>\<rparr>"
  using assms unfolding jobs_add_many_def
proof (induction js arbitrary: w)
  case (Cons j js)
  from Cons.prems obtain w1 where a: "insert_send_job_row (send_job_to_row j) w = (Inr (), w1)"
    and b: "forp (\<lambda>j. insert_send_job_row (send_job_to_row j)) js w1 = (Inr u, w')"
    by (auto elim: thenp_InrE)
  from a have "w1 = w\<lparr>db := (db w)\<lparr>t_send_jobs := t_send_jobs (db w) @ [send_job_to_row j]\<rparr>\<rparr>"
    by (simp add: insert_send_job_row_def insert_row_Inr)
  with Cons.IH [OF b] show ?case by simp
qed simp

text \<open>Updating leads of one workspace, each found by its identifier.\<close>

lemma leads_update_many_Inr:
  assumes "leads_update_many ls w = (Inr u, w')"
  shows "\<exists>rows. w' = w\<lparr>db := (db w)\<lparr>t_leads := rows\<rparr>\<rparr>
     \<and> rows = fold (\<lambda>l. update_rows (\<lambda>r. l_id r = l_id l \<and> sees w (l_workspace_id r)) (overwrite l)) ls (t_leads (db w))"
  using assms unfolding leads_update_many_def
proof (induction ls arbitrary: w)
  case (Cons l ls)
  from Cons.prems obtain w1 where a: "update_lead l w = (Inr (), w1)" and b: "forp update_lead ls w1 = (Inr u, w')"
    by (auto elim: thenp_InrE)
  from a have w1: "w1 = put_lead l w" by (auto simp: update_lead_run split: if_splits)
  from Cons.IH [OF b] show ?case by (simp add: w1 put_lead_def sees_def)
qed simp

section \<open>Scheduling leads\<close>

lemma fold_update_rows:
  "fold (\<lambda>l. update_rows (P l) (f l)) ls rows = map (\<lambda>x. fold (\<lambda>l y. if P l y then f l y else y) ls x) rows"
  by (induction ls arbitrary: rows) (simp_all add: update_rows_def comp_def)

lemma scheduled_table:
  assumes plan: "plan_ok K n L J" and ls: "set ls \<subseteq> set L" "\<And>l. l \<in> set ls \<Longrightarrow> sees w (l_workspace_id l)"
  shows "fold (\<lambda>l. update_rows (\<lambda>r. l_id r = l_id l \<and> sees w (l_workspace_id r)) (overwrite l))
      (map (\<lambda>l. moved l SCHEDULED m (\<lambda>x. x)) ls) L
    = map (\<lambda>x. if l_id x \<in> l_id ` set ls then x\<lparr>l_state := SCHEDULED, l_updated_at := m\<rparr> else x) L"
proof -
  let ?up = "\<lambda>x. x\<lparr>l_state := SCHEDULED, l_updated_at := m\<rparr>"
  let ?h = "\<lambda>l y. if l_id y = l_id l \<and> sees w (l_workspace_id y) then overwrite l y else y"
  have "fold ?h (map (\<lambda>l. moved l SCHEDULED m (\<lambda>x. x)) ls) y = (if l_id x \<in> l_id ` set ls then ?up x else y)"
    if "x \<in> set L" "y = x \<or> y = ?up x" for x y
    using ls that(2)
  proof (induction ls arbitrary: y)
    case (Cons l ls)
    let ?y = "?h (moved l SCHEDULED m (\<lambda>x. x)) y"
    have y: "?y = (if l_id x = l_id l then ?up x else y)"
    proof (cases "l_id x = l_id l")
      case True
      then have "l = x" using plan_lead_unique [OF plan _ that(1)] Cons.prems(1) by auto
      then show ?thesis using Cons.prems by (auto simp: moved_def overwrite_def)
    qed (use Cons.prems(3) in \<open>auto simp: moved_def\<close>)
    have "?y = x \<or> ?y = ?up x" unfolding y using Cons.prems(3) by simp
    from Cons.IH [OF _ _ this] Cons.prems(1,2)
    have "fold ?h (map (\<lambda>l. moved l SCHEDULED m (\<lambda>x. x)) ls) ?y = (if l_id x \<in> l_id ` set ls then ?up x else ?y)"
      by simp
    then show ?case using y by simp
  qed simp
  then show ?thesis unfolding fold_update_rows by (intro map_cong refl) simp
qed

definition first_jobs :: "campaign \<Rightarrow> time \<Rightarrow> world \<Rightarrow> lead list \<Rightarrow> send_job list" where
  "first_jobs c m w ls = map (\<lambda>(i, l). job_for c (hd (c_steps c)) m l (next_uuid w + i) (clock_at w (reads w + i)))
     (List.enumerate 0 ls)"

lemma scheduled_good:
  assumes g: "good ws w0 v" and guc: "guc v' = guc v"
    and K: "grows (camps v) (camps v')" "campaigns_ok (camps v') (next_uuid v')"
    and n: "next_uuid v \<le> next_uuid u" "next_uuid u + length ls \<le> next_uuid v'"
    and refs: "sr_campaign_id ` set (t_steps (db v')) \<subseteq> cr_id ` set (t_campaigns (db v'))"
    and c: "is_active c" "c_workspace_id c = ws"
    and ls: "set ls \<subseteq> set (t_leads (db v))" "distinct (map l_id ls)"
      "\<And>l. l \<in> set ls \<Longrightarrow> l_state l = PENDING \<and> l_workspace_id l = ws \<and> camps v' ws (l_campaign_id l) = Some c"
    and leads: "t_leads (db v') = map (\<lambda>x. if l_id x \<in> l_id ` set ls
        then x\<lparr>l_state := SCHEDULED, l_updated_at := m\<rparr> else x) (t_leads (db v))"
    and jobs: "t_send_jobs (db v') = t_send_jobs (db v) @ map send_job_to_row (first_jobs c m u ls)"
  shows "good ws w0 v'"
proof -
  note P = goodD(2) [OF g]
  let ?up = "\<lambda>x. if l_id x \<in> l_id ` set ls then x\<lparr>l_state := SCHEDULED, l_updated_at := m\<rparr> else x"
  let ?J = "map send_job_to_row (first_jobs c m u ls)"
  have J: "length ?J = length ls" by (simp add: first_jobs_def)
  have Ji: "jr_id (?J ! i) = next_uuid u + i" "jr_lead_id (?J ! i) = l_id (ls ! i)"
    "jr_workspace_id (?J ! i) = c_workspace_id c" "jr_status (?J ! i) = JPENDING"
    "jr_payload (?J ! i) = payload_of c (ls ! i) (hd (c_steps c))" if "i < length ls" for i
    using that by (simp_all add: first_jobs_def nth_enumerate_eq send_job_to_row_def job_for_def)
  have "map jr_id ?J = map (\<lambda>i. next_uuid u + i) [0..<length ls]"
    by (rule nth_equalityI) (use J Ji(1) in simp_all)
  then have dist: "distinct (map jr_id ?J)" by (simp add: distinct_map inj_on_def del: map_map)
  have "plan_ok (camps v') (next_uuid v') (map ?up (t_leads (db v))) (t_send_jobs (db v) @ ?J)"
  proof (rule plan_schedule [OF P K _ c(1) ls(1,2) _ refl J dist])
    fix i assume i: "i < length ls"
    then have "ls ! i \<in> set ls" by simp
    then show "next_uuid v \<le> jr_id (?J ! i) \<and> jr_id (?J ! i) < next_uuid v' \<and> jr_lead_id (?J ! i) = l_id (ls ! i)
       \<and> jr_workspace_id (?J ! i) = l_workspace_id (ls ! i) \<and> jr_status (?J ! i) = JPENDING
       \<and> jr_payload (?J ! i) = payload_of c (ls ! i) (hd (c_steps c))"
      using Ji [OF i] n i ls(3) c(2) by simp
  qed (use n ls(3) in auto)
  then have "consistent v'" using refs unfolding consistent_def leads jobs by simp
  moreover have "extends v v'"
    by (rule extendsI_map [where f = ?up and g = "\<lambda>r. r" and L = "[]" and J = ?J])
       (use leads jobs n in \<open>auto simp: same_lead_def\<close>)
  ultimately show ?thesis
    using g guc extends_trans by (auto simp: good_def)
qed

section \<open>Commands\<close>

lemma campaign_in_only:
  assumes "find (\<lambda>r. cr_id r = i) (campaign_rows v) = find (\<lambda>r. cr_id r = i) (campaign_rows w)"
    and "filter (\<lambda>r. sr_campaign_id r = i) (step_rows v) = filter (\<lambda>r. sr_campaign_id r = i) (step_rows w)"
  shows "campaign_in v i = campaign_in w i"
proof -
  have "steps_by_campaign v [i] i = steps_by_campaign w [i] i"
    using assms(2) by (simp add: steps_by_campaign_def)
  then show ?thesis by (simp only: campaign_in_def assms(1))
qed

text \<open>A new campaign is one more campaign.\<close>

lemma camps_with_campaign:
  assumes "campaign_in w' (c_id c) = Some c" and w': "w' = with_campaign c w" and "guc w = Some (c_workspace_id c)"
  shows "camps w' = (camps w)(c_workspace_id c := (camps w (c_workspace_id c))(c_id c \<mapsto> c))"
proof (intro ext)
  fix ws i
  have new: "camps w' (c_workspace_id c) (c_id c) = Some c"
    using assms(1,3) camps_guc [of w' "c_workspace_id c"] by (simp add: w' with_campaign_def)
  have old: "camps w' ws i = camps w ws i" if "ws \<noteq> c_workspace_id c \<or> i \<noteq> c_id c"
    unfolding camps_def
    by (rule campaign_in_only)
       (use that in \<open>auto simp: campaign_rows_def step_rows_def w' with_campaign_def sees_def campaign_to_row_def
         step_to_row_def find_append filter_empty_conv split: option.split\<close>)
  show "camps w' ws i = ((camps w)(c_workspace_id c := (camps w (c_workspace_id c))(c_id c \<mapsto> c))) ws i"
    using new old by auto
qed

lemma camps_row:
  assumes "camps w ws i = Some c"
  shows "i \<in> cr_id ` set (t_campaigns (db w))"
proof -
  let ?v = "w\<lparr>guc := Some ws\<rparr>"
  obtain r where "find (\<lambda>r. cr_id r = i) (campaign_rows ?v) = Some r"
    using assms by (cases "find (\<lambda>r. cr_id r = i) (campaign_rows ?v)") (simp_all add: camps_def campaign_in_def)
  from find_Some_in [OF this] show ?thesis by (auto simp: campaign_rows_def)
qed

lemma consistent_references:
  assumes "consistent w"
  shows "references_hold w"
proof -
  have "l_campaign_id l \<in> cr_id ` set (t_campaigns (db w))" if "l \<in> set (t_leads (db w))" for l
  proof -
    have "lead_ok (camps w) l"
      using that by (rule plan_okD(7) [OF assms [unfolded consistent_def, THEN conjunct1]])
    then obtain c where "camps w (l_workspace_id l) (l_campaign_id l) = Some c" by (auto simp: lead_ok_def)
    then show ?thesis by (rule camps_row)
  qed
  then show ?thesis using assms by (auto simp: references_hold_def consistent_def)
qed

lemma create_campaign_next:
  assumes "create_campaign command ws w = (Inr c, w')"
  shows "next_uuid w \<le> next_uuid w'" and "c_id c < next_uuid w'" and "next_uuid w \<le> c_id c"
proof -
  from assms obtain m :: mailbox and w1 where new: "Campaign_new ws (mb_id m) (cc_name command) (cc_steps command) w = (Inr c, w1)"
    and add: "campaigns_add c w1 = (Inr (), w')"
    unfolding create_campaign_def
    by (auto simp: mailbox_id_for_def mailboxes_get_by_workspace_def elim!: bindp_InrE thenp_InrE split: option.splits)
  have ok: "cc_steps command \<noteq> []" "\<forall>d\<in>set (cc_steps command). 0 \<le> d_delay_seconds d"
    using new Campaign_new_Inr_iff by blast+
  have "next_uuid w' = next_uuid w1" using campaigns_add_Inr(1) [OF add] by (simp add: with_campaign_def)
  then show "next_uuid w \<le> next_uuid w'" "c_id c < next_uuid w'" "next_uuid w \<le> c_id c"
    using new unfolding Campaign_new_run [OF ok] by auto
qed

lemma create_campaign_good:
  assumes g: "good ws w0 w" and run: "create_campaign command ws w = (Inr c, w')"
  shows "good ws w0 w'"
proof (rule create_campaign_Inr [OF run])
  fix m w1
  assume add: "campaigns_add c w1 = (Inr (), w')" and same: "db w1 = db w" "guc w1 = guc w"
    and wf: "wf_campaign c" and c: "c_status c = DRAFT" "c_workspace_id c = ws"
  note A = campaigns_add_Inr [OF add] and n = create_campaign_next [OF run] and P = goodD(2) [OF g]
  have "references_hold w" by (rule consistent_references [OF goodD(4) [OF g]])
  then have refs: "references_hold w1" using same by (simp add: references_hold_def)
  have found: "campaign_in w' (c_id c) = Some c" by (rule stored_campaign_in [OF add refs wf])
  have "camps w1 = camps w" by (rule camps_cong) (simp_all add: same)
  then have K: "camps w' = (camps w)(ws := (camps w ws)(c_id c \<mapsto> c))"
    using camps_with_campaign [OF found A(1,2)] c(2) by simp
  have absent: "camps w ws (c_id c) = None"
    using plan_okD(4) [OF P] n(3) unfolding campaigns_ok_def by (metis not_le option.exhaust)
  have grow: "grows (camps w) (camps w')" unfolding K grows_def using absent by auto
  have ok: "campaigns_ok (camps w') (next_uuid w')"
    using campaigns_ok_mono [OF plan_okD(4) [OF P] n(1)] wf c n(2) unfolding K campaigns_ok_def by auto
  have "plan_ok (camps w') (next_uuid w') (t_leads (db w) @ []) (t_send_jobs (db w))"
    by (rule plan_grow [OF P grow ok n(1)]) simp_all
  moreover have "sr_campaign_id ` set (t_steps (db w')) \<subseteq> cr_id ` set (t_campaigns (db w'))"
    using refs unfolding A(1) references_hold_def
    by (auto simp: with_campaign_def step_to_row_def campaign_to_row_def)
  ultimately have "consistent w'"
    using same unfolding consistent_def A(1) by (simp add: with_campaign_def)
  moreover have "extends w w'"
    by (rule extendsI_map [where f = "\<lambda>l. l" and g = "\<lambda>r. r" and L = "[]" and J = "[]"])
       (use same n A(1) in \<open>auto simp: with_campaign_def\<close>)
  ultimately show "good ws w0 w'"
    using g extends_trans same by (auto simp: good_def A(1) with_campaign_def)
qed

text \<open>A campaign of a transaction, and its leads.\<close>

lemma campaign_at:
  assumes g: "good ws w0 w" and c: "campaign_in w i = Some c"
  shows "c_id c = i" and "c_workspace_id c = ws" and "camps w ws i = Some c" and "wf_campaign c"
proof -
  show k: "camps w ws i = Some c" using c camps_guc [OF goodD(1) [OF g]] by simp
  show "c_id c = i" "c_workspace_id c = ws" "wf_campaign c"
    using plan_okD(4) [OF goodD(2) [OF g]] k unfolding campaigns_ok_def by blast+
qed

lemma new_leads_good:
  assumes g: "good ws w0 w" and c: "campaign_in w i = Some c"
    and new: "add_leads c emails known w = (Inr ls, w1)" and add: "leads_add_many ls w1 = (Inr u, w2)"
  shows "good ws w0 w2" and "set ls \<subseteq> set (t_leads (db w2))" and "distinct (map l_id ls)"
    and "\<And>l. l \<in> set ls \<Longrightarrow> l_state l = PENDING \<and> l_workspace_id l = ws \<and> l_campaign_id l = i"
    and "camps w2 = camps w"
proof -
  note C = campaign_at [OF g c] and P = goodD(2) [OF g]
  let ?n = "length ls"
  have ls: "ls ! k = pending_lead ws i (l_email (ls ! k)) (next_uuid w + k) (clock_at w (reads w + k))"
    if "k < ?n" for k
    using new that C(1,2) by (auto simp: add_leads_run nth_enumerate_eq pending_lead_def)
  have w1: "db w1 = db w" "guc w1 = guc w" "next_uuid w1 = next_uuid w + ?n" using new by (auto simp: add_leads_run)
  have w2: "w2 = w1\<lparr>db := (db w1)\<lparr>t_leads := t_leads (db w1) @ ls\<rparr>\<rparr>" by (rule leads_add_many_Inr [OF add])
  have id: "l_id (ls ! k) = next_uuid w + k" "l_state (ls ! k) = PENDING" "l_workspace_id (ls ! k) = ws"
    "l_campaign_id (ls ! k) = i" "lead_ok (camps w) (ls ! k)" if "k < ?n" for k
  proof -
    show "l_id (ls ! k) = next_uuid w + k" "l_state (ls ! k) = PENDING" "l_workspace_id (ls ! k) = ws"
      "l_campaign_id (ls ! k) = i" by (subst ls [OF that]; simp add: pending_lead_def)+
    show "lead_ok (camps w) (ls ! k)"
      by (subst ls [OF that]) (use C(1,3) in \<open>simp add: pending_lead_def lead_ok_def wf_lead_def is_stopped_def\<close>)
  qed
  have "map l_id ls = map (\<lambda>k. next_uuid w + k) [0..<?n]" by (rule nth_equalityI) (use id(1) in simp_all)
  then show dist: "distinct (map l_id ls)" by (simp add: distinct_map inj_on_def)
  have ex: "\<exists>k<?n. l = ls ! k" if "l \<in> set ls" for l using that by (metis in_set_conv_nth)
  show "\<And>l. l \<in> set ls \<Longrightarrow> l_state l = PENDING \<and> l_workspace_id l = ws \<and> l_campaign_id l = i"
    using ex id by metis
  show K: "camps w2 = camps w" by (rule camps_cong) (simp_all add: w2 w1)
  show "set ls \<subseteq> set (t_leads (db w2))" by (simp add: w2)
  show "good ws w0 w2"
  proof (rule good_update [OF g])
    have "plan_ok (camps w) (next_uuid w + ?n) (t_leads (db w) @ ls) (t_send_jobs (db w))"
      by (rule plan_grow [OF P grows_refl campaigns_ok_mono [OF plan_okD(4) [OF P]] _ dist]) (use ex id in force)+
    then show "plan_ok (camps w) (next_uuid w2) (t_leads (db w2)) (t_send_jobs (db w2))" by (simp add: w2 w1)
    show "extends w w2"
      by (rule extendsI_map [where f = "\<lambda>l. l" and g = "\<lambda>r. r" and L = ls and J = "[]"]) (simp_all add: w2 w1)
  qed (simp_all add: w2 w1)
qed

lemma scheduled_leads_table:
  assumes g: "good ws w0 v" and u: "db u = db v" "guc u = guc v"
    and ls: "set ls \<subseteq> set (t_leads (db v))" "\<And>l. l \<in> set ls \<Longrightarrow> l_workspace_id l = ws"
    and up: "leads_update_many (map (\<lambda>l. moved l SCHEDULED m (\<lambda>x. x)) ls) u = (Inr x, u')"
  shows "u' = u\<lparr>db := (db u)\<lparr>t_leads := map (\<lambda>x. if l_id x \<in> l_id ` set ls
      then x\<lparr>l_state := SCHEDULED, l_updated_at := m\<rparr> else x) (t_leads (db v))\<rparr>\<rparr>"
proof -
  have "sees u (l_workspace_id l)" if "l \<in> set ls" for l
    using ls(2) [OF that] goodD(1) [OF g] u(2) by (simp add: sees_def)
  from scheduled_table [OF goodD(2) [OF g] ls(1) this] leads_update_many_Inr [OF up] u(1)
  show ?thesis by auto
qed

lemma add_leads_good:
  assumes g: "good ws w0 w" and run: "add_leads_command i emails t w = (Inr result, w')"
  shows "good ws w0 w'"
proof -
  obtain c where c: "campaign_in w i = Some c"
    using run by (cases "campaign_in w i") (simp_all add: add_leads_command_def bindp_run)
  let ?rest = "\<lambda>ls. if is_active c \<and> ls \<noteq> []
    then bindp (schedule c ls t) (\<lambda>(scheduled_leads, jobs). thenp (leads_update_many scheduled_leads)
      (thenp (jobs_add_many jobs) (ret (int (length scheduled_leads))))) else ret 0"
  obtain known ls w1 w2 n where new: "add_leads c emails known w = (Inr ls, w1)"
    and add: "leads_add_many ls w1 = (Inr (), w2)" and rest: "?rest ls w2 = (Inr n, w')"
    using run c unfolding add_leads_command_def
    by (auto simp: leads_emails_def elim!: bindp_InrE thenp_InrE)
  note N = new_leads_good [OF g c new add] and C = campaign_at [OF g c]
  show ?thesis
  proof (cases "is_active c \<and> ls \<noteq> []")
    case False
    then show ?thesis using rest N(1) by (cases "is_active c") simp_all
  next
    case True
    then obtain sl js w3 w4 where s: "schedule c ls t w2 = (Inr (sl, js), w3)"
      and up: "leads_update_many sl w3 = (Inr (), w4)" and ins: "jobs_add_many js w4 = (Inr (), w')"
      using rest by (auto elim!: bindp_InrE thenp_InrE)
    note S = schedule_Inr_D [OF s]
    have w3: "db w3 = db w2" "guc w3 = guc w2" using S(6) by simp_all
    have ws: "l_workspace_id l = ws" if "l \<in> set ls" for l using N(4) [OF that] by simp
    note w4 = scheduled_leads_table [OF N(1) w3 N(2) ws up [unfolded S(4)]]
    note w' = jobs_add_many_Inr [OF ins]
    have js: "js = first_jobs c t w2 ls" using S(5) by (simp add: first_jobs_def)
    have K: "camps w' = camps w2" by (rule camps_cong) (simp_all add: w' w4 w3)
    have nx: "next_uuid w' = next_uuid w2 + length ls" using S(6) by (simp add: w' w4)
    show ?thesis
    proof (rule scheduled_good [OF N(1), where ls = ls and u = w2 and c = c and m = t])
      show "grows (camps w2) (camps w')" unfolding K by simp
      show "campaigns_ok (camps w') (next_uuid w')"
        unfolding K nx by (rule campaigns_ok_mono [OF plan_okD(4) [OF goodD(2) [OF N(1)]]]) simp
      show "sr_campaign_id ` set (t_steps (db w')) \<subseteq> cr_id ` set (t_campaigns (db w'))"
        using goodD(4) [OF N(1)] by (simp add: w' w4 w3 consistent_def)
      show "l_state l = PENDING \<and> l_workspace_id l = ws \<and> camps w' ws (l_campaign_id l) = Some c" if "l \<in> set ls" for l
        using N(4) [OF that] C(3) unfolding K N(5) by simp
    qed (use True N(2,3) C(2) nx in \<open>simp_all add: w' w4 w3 js\<close>)
  qed
qed

text \<open>Starting a campaign changes its status.\<close>

lemma update_status_Inr:
  assumes "campaigns_update_status c' w = (Inr u, w')" and "guc w = Some ws"
    and "campaign_in w (c_id c') = Some c" and "c' = c\<lparr>c_status := st\<rparr>"
  shows "w' = w\<lparr>db := (db w)\<lparr>t_campaigns := t_campaigns (db w')\<rparr>\<rparr>"
    and "cr_id ` set (t_campaigns (db w')) = cr_id ` set (t_campaigns (db w))"
    and "camps w' = (camps w)(ws := (camps w ws)(c_id c' \<mapsto> c'))"
proof -
  let ?up = "update_rows (\<lambda>r. cr_id r = c_id c' \<and> sees w (cr_workspace_id r)) (\<lambda>r. r\<lparr>cr_status := c_status c'\<rparr>)"
  have w': "w' = w\<lparr>db := (db w)\<lparr>t_campaigns := ?up (t_campaigns (db w))\<rparr>\<rparr>"
    using assms(1) by (auto simp: campaigns_update_status_def bindp_run split: if_splits)
  then show "w' = w\<lparr>db := (db w)\<lparr>t_campaigns := t_campaigns (db w')\<rparr>\<rparr>" by simp
  show "cr_id ` set (t_campaigns (db w')) = cr_id ` set (t_campaigns (db w))"
  proof -
    have "map cr_id (t_campaigns (db w')) = map cr_id (t_campaigns (db w))" by (simp add: w' map_update_rows)
    then show ?thesis by (metis set_map)
  qed
  have rows: "campaign_rows (w'\<lparr>guc := Some k\<rparr>) = (if k = ws
      then update_rows (\<lambda>r. cr_id r = c_id c') (\<lambda>r. r\<lparr>cr_status := c_status c'\<rparr>) (campaign_rows (w\<lparr>guc := Some k\<rparr>))
      else campaign_rows (w\<lparr>guc := Some k\<rparr>))" for k
  proof -
    have "filter (\<lambda>r. k = cr_workspace_id r) (update_rows (\<lambda>r. cr_id r = c_id c' \<and> ws = cr_workspace_id r)
         (\<lambda>r. r\<lparr>cr_status := c_status c'\<rparr>) T)
      = (if k = ws then update_rows (\<lambda>r. cr_id r = c_id c') (\<lambda>r. r\<lparr>cr_status := c_status c'\<rparr>)
           (filter (\<lambda>r. k = cr_workspace_id r) T) else filter (\<lambda>r. k = cr_workspace_id r) T)" for T
      by (induction T) (auto simp: update_rows_def)
    from this [of "t_campaigns (db w)"] show ?thesis
      using assms(2) by (cases "k = ws") (simp_all add: campaign_rows_def w' sees_def)
  qed
  have steps: "step_rows (w'\<lparr>guc := Some k\<rparr>) = step_rows (w\<lparr>guc := Some k\<rparr>)" for k
    by (simp add: w' step_rows_def sees_def)
  have find: "find (\<lambda>r. cr_id r = i) (campaign_rows (w'\<lparr>guc := Some k\<rparr>)) = (if k = ws \<and> i = c_id c'
      then map_option (\<lambda>r. r\<lparr>cr_status := c_status c'\<rparr>) (find (\<lambda>r. cr_id r = i) (campaign_rows (w\<lparr>guc := Some k\<rparr>)))
      else find (\<lambda>r. cr_id r = i) (campaign_rows (w\<lparr>guc := Some k\<rparr>)))" for k i
    by (cases "find (\<lambda>r. cr_id r = i) (campaign_rows (w\<lparr>guc := Some k\<rparr>))")
       (auto simp: rows find_update_rows dest: find_Some_in)
  show "camps w' = (camps w)(ws := (camps w ws)(c_id c' \<mapsto> c'))"
  proof (intro ext)
    fix k i
    show "camps w' k i = ((camps w)(ws := (camps w ws)(c_id c' \<mapsto> c'))) k i"
    proof (cases "k = ws \<and> i = c_id c'")
      case False
      then have "camps w' k i = camps w k i"
        unfolding camps_def by (intro campaign_in_only) (auto simp: find steps)
      with False show ?thesis by auto
    next
      case True
      have old: "camps w ws (c_id c') = Some c" using assms(3) camps_guc [OF assms(2)] by simp
      have st: "steps_by_campaign (w'\<lparr>guc := Some ws\<rparr>) [i] i = steps_by_campaign (w\<lparr>guc := Some ws\<rparr>) [i] i"
        by (simp add: steps_by_campaign_def steps)
      obtain r where r: "find (\<lambda>r. cr_id r = i) (campaign_rows (w\<lparr>guc := Some ws\<rparr>)) = Some r"
        using old True
        by (cases "find (\<lambda>r. cr_id r = i) (campaign_rows (w\<lparr>guc := Some ws\<rparr>))") (simp_all add: camps_def campaign_in_def)
      have c: "c = campaign_of_row r (or_empty (steps_by_campaign (w\<lparr>guc := Some ws\<rparr>) [i] i))"
        using old True r by (simp add: camps_def campaign_in_def)
      have "camps w' ws i = Some (campaign_of_row (r\<lparr>cr_status := c_status c'\<rparr>)
          (or_empty (steps_by_campaign (w\<lparr>guc := Some ws\<rparr>) [i] i)))"
        using r True find [of i ws] unfolding camps_def campaign_in_def st by simp
      then have "camps w' ws i = Some c'"
        unfolding assms(4) c by (simp add: campaign_of_row_def)
      with True show ?thesis by simp
    qed
  qed
qed

lemma start_good:
  assumes g: "good ws w0 w" and run: "start_campaign i t w = (Inr result, w')"
  shows "good ws w0 w'"
proof -
  obtain c where c: "campaign_in w i = Some c"
    using run by (cases "campaign_in w i") (simp_all add: start_campaign_def bindp_run)
  note C = campaign_at [OF g c]
  show ?thesis
  proof (cases "is_active c")
    case True
    with run c g show ?thesis by (simp add: start_campaign_def bindp_run)
  next
    case False
    let ?ls = "sort_key (\<lambda>l. (l_created_at l, l_id l))
       (filter (\<lambda>l. l_campaign_id l = i \<and> l_state l = PENDING) (lead_rows w))"
    let ?c = "c\<lparr>c_status := ACTIVE\<rparr>"
    obtain sl js w1 w2 w3 where s: "schedule ?c ?ls t w = (Inr (sl, js), w1)"
      and st: "campaigns_update_status ?c w1 = (Inr (), w2)" and up: "leads_update_many sl w2 = (Inr (), w3)"
      and ins: "jobs_add_many js w3 = (Inr (), w')"
      using run c False unfolding start_campaign_def
      by (auto simp: leads_list_pending_def start_def Let_def elim!: bindp_InrE thenp_InrE split: if_splits)
    note S = schedule_Inr_D [OF s] and guc = goodD(1) [OF g]
    have w1: "db w1 = db w" "guc w1 = guc w" "next_uuid w1 = next_uuid w + length ?ls"
      "camps w1 = camps w" "campaign_in w1 i = campaign_in w i"
      unfolding S(6) by (simp_all, rule camps_cong, simp_all, rule campaign_in_cong, simp_all)
    have found: "campaign_in w1 (c_id ?c) = Some c" using c C(1) w1(5) by simp
    note U = update_status_Inr [OF st _ found refl, of ws]
    have guc1: "guc w1 = Some ws" using guc w1(2) by simp
    note U = U [OF guc1]
    have ls: "set ?ls \<subseteq> set (t_leads (db w))" by (auto simp: lead_rows_def)
    have lsD: "l_state l = PENDING \<and> l_workspace_id l = ws \<and> l_campaign_id l = i" if "l \<in> set ?ls" for l
      using that guc by (auto simp: lead_rows_def sees_def)
    have w2: "db w2 = (db w)\<lparr>t_campaigns := t_campaigns (db w2)\<rparr>" "guc w2 = guc w" "next_uuid w2 = next_uuid w1"
      using arg_cong [OF U(1), of db] arg_cong [OF U(1), of guc] arg_cong [OF U(1), of next_uuid] w1(1,2) by simp_all
    let ?up = "map (\<lambda>x. if l_id x \<in> l_id ` set ?ls then x\<lparr>l_state := SCHEDULED, l_updated_at := t\<rparr> else x) (t_leads (db w))"
    have sub: "sees w2 (l_workspace_id l)" if "l \<in> set ?ls" for l
      using lsD [OF that] guc w2(2) by (simp add: sees_def)
    have leads2: "t_leads (db w2) = t_leads (db w)" by (subst w2(1)) simp
    have w3: "w3 = w2\<lparr>db := (db w2)\<lparr>t_leads := ?up\<rparr>\<rparr>"
      using leads_update_many_Inr [OF up] scheduled_table [OF goodD(2) [OF g] ls sub, of t] leads2 unfolding S(4) by auto
    note w' = jobs_add_many_Inr [OF ins]
    have tabs: "t_steps (db w2) = t_steps (db w)" "t_send_jobs (db w2) = t_send_jobs (db w)" by (subst w2(1), simp)+
    have K: "camps w' = (camps w)(ws := (camps w ws)(i \<mapsto> ?c))"
    proof -
      have "camps w' = camps w2" by (rule camps_cong) (simp_all add: w' w3)
      then show ?thesis using U(3) C(1) w1(4) by simp
    qed
    have js: "js = first_jobs ?c t w ?ls" using S(5) by (simp add: first_jobs_def)
    have dist: "distinct (map l_id ?ls)"
    proof -
      have "distinct (map l_id (filter (\<lambda>l. l_campaign_id l = i \<and> l_state l = PENDING) (lead_rows w)))"
        unfolding lead_rows_def by (intro distinct_map_filter plan_okD(1) [OF goodD(2) [OF g]])
      then show ?thesis by (simp add: distinct_map)
    qed
    show ?thesis
    proof (rule scheduled_good [OF g, where ls = ?ls and u = w and c = ?c and m = t])
      show "grows (camps w) (camps w')" unfolding K grows_def using C(3) by (auto simp: is_active_def)
      show "campaigns_ok (camps w') (next_uuid w')"
        using campaigns_ok_mono [OF plan_okD(4) [OF goodD(2) [OF g]], of "next_uuid w'"] C w2(3) w1(3)
        unfolding K campaigns_ok_def by (auto simp: w' w3)
      show "sr_campaign_id ` set (t_steps (db w')) \<subseteq> cr_id ` set (t_campaigns (db w'))"
        using goodD(4) [OF g] U(2) w1(1) by (simp add: w' w3 tabs consistent_def)
      show "l_state l = PENDING \<and> l_workspace_id l = ws \<and> camps w' ws (l_campaign_id l) = Some ?c" if "l \<in> set ?ls" for l
        using lsD [OF that] unfolding K by simp
      show "t_leads (db w') = ?up" by (simp add: w' w3)
      show "t_send_jobs (db w') = t_send_jobs (db w) @ map send_job_to_row (first_jobs ?c t w ?ls)"
        by (simp add: w' w3 tabs js)
    qed (use S(1) C(2) ls dist w1(3) w2(2,3) in \<open>simp_all add: w' w3\<close>)
  qed
qed

section \<open>Identifiers are never drawn twice\<close>

lemma later_frame:
  "keeps (\<lambda>w. n \<le> next_uuid w) now" "keeps (\<lambda>w. n \<le> next_uuid w) uuid7"
  "keeps (\<lambda>w. n \<le> next_uuid w) (modify_db f)" "keeps (\<lambda>w. n \<le> next_uuid w) (insert_row checks ins)"
  by (auto simp: keeps_def insert_row_def split: option.splits)

lemma commands_later:
  "keeps (\<lambda>w. n \<le> next_uuid w) (create_campaign command i)"
  "keeps (\<lambda>w. n \<le> next_uuid w) (add_leads_command k es t)"
  "keeps (\<lambda>w. n \<le> next_uuid w) (start_campaign k t)"
proof -
  have steps: "keeps (\<lambda>w :: world. n \<le> next_uuid w) (new_steps ds p)" for ds p
    by (induction ds arbitrary: p) (auto intro!: keep_intros later_frame)
  have loop: "keeps (\<lambda>w :: world. n \<le> next_uuid w) (add_leads_loop c es seen acc)" for c es seen acc
    by (induction es arbitrary: seen acc) (auto simp: Let_def Lead_new_def intro!: keep_intros later_frame)
  have sched: "keeps (\<lambda>w :: world. n \<le> next_uuid w) (schedule_loop c s t ls xs js)" for c s t ls xs js
    by (induction ls arbitrary: xs js) (auto simp: job_def SendJob_new_def intro!: keep_intros later_frame)
  have schedule: "keeps (\<lambda>w :: world. n \<le> next_uuid w) (schedule c ls t)" for c ls t
    unfolding schedule_def by (intro keep_intros sched)
  show "keeps (\<lambda>w. n \<le> next_uuid w) (create_campaign command i)"
    unfolding create_campaign_def mailbox_id_for_def mailboxes_get_by_workspace_def Campaign_new_def
      campaigns_add_def insert_campaign_row_def insert_step_row_def
    by (intro keep_intros later_frame steps)
  show "keeps (\<lambda>w. n \<le> next_uuid w) (add_leads_command k es t)"
    unfolding add_leads_command_def campaigns_get_def leads_emails_def leads_add_many_def leads_update_many_def
      jobs_add_many_def insert_lead_row_def insert_send_job_row_def update_lead_def leads_get_def add_leads_def
    by (intro keep_intros later_frame loop schedule)
  show "keeps (\<lambda>w. n \<le> next_uuid w) (start_campaign k t)"
    unfolding start_campaign_def campaigns_get_def leads_list_pending_def leads_update_many_def
      jobs_add_many_def insert_send_job_row_def update_lead_def leads_get_def campaigns_update_status_def start_def Let_def
    by (intro keep_intros later_frame schedule)
qed

end
