(* ===== verification/System.thy ===== *)
theory System
  imports Transactions
begin

text \<open>
  The running program: one database, any number of workers, senders and requests, of any number
  of workspaces, each doing one transaction at a time. A worker may hold a claim for as long as it
  likes, also after the lease ended and another worker took the job over, and may crash before
  its transaction commits. The invariant is that the tables are consistent, that every claim in
  somebody's hands is for a job that exists, and that no step of a lead was sent twice.
\<close>

section \<open>The state and its steps\<close>

text \<open>
  \<open>sy_hands\<close> are the claims that were handed out, with the workspace they were claimed for, and
  \<open>sy_sent\<close> the sends that committed: workspace, lead and position of the step.
\<close>

record system =
  sy_world :: world
  sy_hands :: "(uuid \<times> claimed_job) set"
  sy_sent :: "(uuid \<times> uuid \<times> int) list"

definition sent_by :: "uuid \<Rightarrow> claimed_job \<Rightarrow> exn + send_job_outcome \<Rightarrow> (uuid \<times> uuid \<times> int) list" where
  "sent_by ws j r = (if r = Inr O_SENT then [(ws, cj_lead_id j, p_step_position (cj_payload j))] else [])"

definition drop_transaction :: "world \<Rightarrow> world \<Rightarrow> world" where
  "drop_transaction w v = v\<lparr>db := db w, guc := None, own := []\<rparr>"

inductive system_step :: "uuid \<Rightarrow> system \<Rightarrow> system \<Rightarrow> bool" where
  polls: "worker_poll_inbox ws receive classify w = (r, w')
     \<Longrightarrow> system_step ws (system.make w h s) (system.make w' h s)"
| replies: "worker_dispatch_replies ws w = (r, w')
     \<Longrightarrow> system_step ws (system.make w h s) (system.make w' h s)"
| claims: "session_for_workspace ws (bindp now (\<lambda>t. claim_due_send_jobs ws k n t)) w = (Inr js, w')
     \<Longrightarrow> system_step ws (system.make w h s) (system.make w' (h \<union> Pair ws ` set js) s)"
| processes: "(ws, j) \<in> h
     \<Longrightarrow> session_for_workspace ws (bindp now (\<lambda>t. process_claimed (email_dispatch sender) j t)) w = (r, w')
     \<Longrightarrow> system_step ws (system.make w h s) (system.make w' h (s @ sent_by ws j r))"
| by_id: "session_for_workspace ws (bindp now (\<lambda>t. process_by_id (email_dispatch sender) i ws t)) w = (r, w')
     \<Longrightarrow> system_step ws (system.make w h s) (system.make w' h
           (s @ (case r of Inl e \<Rightarrow> [] | Inr p \<Rightarrow> sent_by ws (ps_job p) (Inr (ps_outcome p)))))"
| crashes: "(ws, j) \<in> h
     \<Longrightarrow> process_claimed (email_dispatch sender) j t (w\<lparr>guc := Some ws, own := []\<rparr>) = (r, v)
     \<Longrightarrow> system_step ws (system.make w h s) (system.make (drop_transaction w v) h s)"
| creates: "session_for_workspace ws (create_campaign command ws) w = (r, w')
     \<Longrightarrow> system_step ws (system.make w h s) (system.make w' h s)"
| adds: "session_for_workspace ws (add_leads_command i emails t) w = (r, w')
     \<Longrightarrow> system_step ws (system.make w h s) (system.make w' h s)"
| starts: "session_for_workspace ws (start_campaign i t) w = (r, w')
     \<Longrightarrow> system_step ws (system.make w h s) (system.make w' h s)"
| others: "db w' = db w \<Longrightarrow> wire w' = wire w \<Longrightarrow> next_uuid w \<le> next_uuid w'
     \<Longrightarrow> system_step ws (system.make w h s) (system.make w' h s)"

inductive runs :: "system \<Rightarrow> system \<Rightarrow> bool" where
  start: "runs s s"
| more: "runs s t \<Longrightarrow> system_step ws t u \<Longrightarrow> runs s u"

inductive_cases system_stepE: "system_step ws s s'"

section \<open>The invariant\<close>

definition sent_ok :: "world \<Rightarrow> (uuid \<times> uuid \<times> int) list \<Rightarrow> bool" where
  "sent_ok w xs \<longleftrightarrow> distinct xs \<and> (\<forall>(ws, i, k)\<in>set xs.
     \<exists>l\<in>set (t_leads (db w)). l_id l = i \<and> l_workspace_id l = ws \<and> k \<le> l_steps_sent l)"

definition sound :: "system \<Rightarrow> bool" where
  "sound s \<longleftrightarrow> consistent (sy_world s) \<and> (\<forall>(ws, j)\<in>sy_hands s. hand_ok ws (sy_world s) j)
     \<and> sent_ok (sy_world s) (sy_sent s)"

lemma make_sel [simp]:
  "sy_world (system.make w h s) = w" "sy_hands (system.make w h s) = h" "sy_sent (system.make w h s) = s"
  by (simp_all add: system.make_def)

lemma sent_ok_extends:
  assumes "sent_ok w s" and "extends w w'"
  shows "sent_ok w' s"
proof -
  have "\<exists>l\<in>set (t_leads (db w')). l_id l = i \<and> l_workspace_id l = ws \<and> k \<le> l_steps_sent l"
    if x: "(ws, i, k) \<in> set s" for ws i k
  proof -
    obtain l where l: "l \<in> set (t_leads (db w))" "l_id l = i" "l_workspace_id l = ws" "k \<le> l_steps_sent l"
      using assms(1) x unfolding sent_ok_def by blast
    then obtain l' where "l' \<in> set (t_leads (db w'))" "same_lead l l'" "l_steps_sent l \<le> l_steps_sent l'"
      using assms(2) unfolding extends_def by blast
    with l show ?thesis by (intro bexI [where x = l']) (simp_all add: same_lead_def)
  qed
  then show ?thesis using assms(1) by (auto simp: sent_ok_def)
qed

text \<open>A transaction that commits a consistent state or changes nothing keeps the invariant.\<close>

definition sane :: "world \<Rightarrow> world \<Rightarrow> bool" where
  "sane w w' \<longleftrightarrow> consistent w' \<and> extends w w'"

lemma sane_same: "consistent w \<Longrightarrow> db w' = db w \<Longrightarrow> next_uuid w \<le> next_uuid w' \<Longrightarrow> sane w w'"
proof -
  assume c: "consistent w" and same: "db w' = db w" "next_uuid w \<le> next_uuid w'"
  have K: "camps w' = camps w" by (rule camps_cong) (simp_all add: same)
  have "plan_ok (camps w) (next_uuid w') (t_leads (db w)) (t_send_jobs (db w))"
    using c same(2) by (auto simp: consistent_def intro: plan_ok_mono)
  then have "consistent w'" using c same(1) K by (simp add: consistent_def)
  moreover have "extends w w'" using same same_refl unfolding extends_def by (metis order.refl)
  ultimately show ?thesis by (simp add: sane_def)
qed

lemma sane_db_cong: "sane w v \<Longrightarrow> db w' = db v \<Longrightarrow> next_uuid v \<le> next_uuid w' \<Longrightarrow> sane w w'"
  using sane_same [of v w'] extends_trans by (auto simp: sane_def)

lemma good_start: "consistent w \<Longrightarrow> good ws w (w\<lparr>guc := Some ws, own := []\<rparr>)"
  using sane_same [of w "w\<lparr>guc := Some ws, own := []\<rparr>"] by (simp add: good_def sane_def)

lemma sane_sound:
  assumes "sound (system.make w h s)" and "sane w w'"
    and "\<And>ws j. (ws, j) \<in> h' - h \<Longrightarrow> hand_ok ws w' j"
  shows "sound (system.make w' (h' \<union> h) s)"
  using assms hand_ok_extends sent_ok_extends unfolding sound_def sane_def by fastforce

lemma session_sane:
  assumes c: "consistent w" and run: "session_for_workspace ws m w = (r, w')"
    and ok: "\<And>x v. m (w\<lparr>guc := Some ws, own := []\<rparr>) = (Inr x, v) \<Longrightarrow> good ws w v"
    and later: "\<And>e v. m (w\<lparr>guc := Some ws, own := []\<rparr>) = (Inl e, v) \<Longrightarrow> next_uuid w \<le> next_uuid v"
  shows "sane w w'"
proof -
  let ?u = "w\<lparr>guc := Some ws, own := []\<rparr>"
  obtain x v where m: "m ?u = (x, v)" by fastforce
  show ?thesis
  proof (cases x)
    case (Inl e)
    then have "db w' = db w" "next_uuid w' = next_uuid v"
      using run m by (auto simp: session_for_workspace_def session_def)
    then show ?thesis using sane_same [OF c] later m Inl by simp
  next
    case (Inr y)
    then have "db w' = db v" "next_uuid w' = next_uuid v"
      using run m by (auto simp: session_for_workspace_def session_def)
    moreover have "sane w v" using ok m Inr by (auto simp: good_def sane_def)
    ultimately show ?thesis using sane_db_cong by simp
  qed
qed

lemma session_keeps_sane:
  assumes "consistent w" and "session_for_workspace ws m w = (r, w')" and "keeps (good ws w) m"
  shows "sane w w'"
proof (rule session_sane [OF assms(1,2)])
  have g: "good ws w v" if "m (w\<lparr>guc := Some ws, own := []\<rparr>) = (x, v)" for x v
    using keepsD_run [OF assms(3) good_start [OF assms(1)] that] .
  show "good ws w v" if "m (w\<lparr>guc := Some ws, own := []\<rparr>) = (Inr x, v)" for x v by (rule g [OF that])
  show "next_uuid w \<le> next_uuid v" if "m (w\<lparr>guc := Some ws, own := []\<rparr>) = (Inl x, v)" for x v
    using goodD(3) [OF g [OF that]] by (simp add: extends_def)
qed

section \<open>Every step keeps the invariant\<close>

lemma sane_trans: "sane a b \<Longrightarrow> sane b c \<Longrightarrow> sane a c"
  using extends_trans by (auto simp: sane_def)

lemma keeps_sane_session:
  assumes "\<And>v. keeps (good ws v) m"
  shows "keeps (sane w) (session_for_workspace ws m)"
proof (rule keepsI)
  fix v assume v: "sane w v"
  obtain r v' where run: "session_for_workspace ws m v = (r, v')" by fastforce
  have "sane v v'" by (rule session_keeps_sane [OF _ run assms]) (use v in \<open>simp add: sane_def\<close>)
  with v run show "sane w (snd (session_for_workspace ws m v))" using sane_trans by simp
qed

lemma keeps_sane_output: "keeps (sane w) (emit ms)" "keeps (sane w) (print_line x)" "keeps (sane w) now"
  by (auto simp: keeps_def emit_def print_line_def elim: sane_db_cong)

lemma poll_sane: "keeps (sane w) (worker_poll_inbox ws receive classify)"
  unfolding worker_poll_inbox_def gateway_get_by_workspace_def mailboxes_get_by_workspace_def
  by (intro keep_intros keeps_sane_session keeps_sane_output poll_good)

lemma dispatch_replies_sane: "keeps (sane w) (worker_dispatch_replies ws)"
  unfolding worker_dispatch_replies_def record_stopped_leads_def
  by (intro keep_intros keeps_sane_session replies_good now_good keeps_sane_output)

lemma claim_sane:
  assumes c: "consistent w"
    and run: "session_for_workspace ws (bindp now (\<lambda>t. claim_due_send_jobs ws k n t)) w = (Inr js, w')"
  shows "sane w w'" and "\<And>j. j \<in> set js \<Longrightarrow> hand_ok ws w' j"
proof -
  let ?m = "bindp now (\<lambda>t. claim_due_send_jobs ws k n t)" and ?u = "w\<lparr>guc := Some ws, own := []\<rparr>"
  have "keeps (good ws w) ?m" by (intro keep_intros now_good good_claim)
  then show "sane w w'" by (rule session_keeps_sane [OF c run])
  fix j assume j: "j \<in> set js"
  let ?t = "clock_at ?u (reads ?u)" and ?v = "?u\<lparr>reads := Suc (reads ?u)\<rparr>"
  obtain v where v: "jobs_claim ws k n ?t CLAIM_LEASE ?v = (Inr js, v)" "db w' = db v"
    using run by (auto simp: session_for_workspace_def session_def claim_due_send_jobs_def bindp_run
        split: prod.splits sum.splits)
  have "js = sort_key cj_scheduled_at (map (claimed_of_row \<circ> claimed_row ?t k)
       (filter (\<lambda>r. jr_id r \<in> jr_id ` set (claim_rows ?v ws n ?t (?t - CLAIM_LEASE))) (send_job_rows ?v)))"
    and tab: "v = claimed_world (jr_id ` set (claim_rows ?v ws n ?t (?t - CLAIM_LEASE))) ?t k ?v"
    using v(1) [unfolded jobs_claim_run] by simp_all
  with j obtain r where r: "r \<in> set (send_job_rows ?v)" "j = claimed_of_row (claimed_row ?t k r)"
    "jr_id r \<in> jr_id ` set (claim_rows ?v ws n ?t (?t - CLAIM_LEASE))"
    by (auto simp only: set_sort set_map set_filter comp_def)
  have "claimed_row ?t k r \<in> set (send_job_rows v)"
    unfolding tab claimed_rows set_update_rows using r(1,3) by (auto intro: rev_image_eqI)
  moreover have "guc v = Some ws" unfolding tab by simp
  ultimately have "hand_ok ws v j" unfolding r(2) by (rule claimed_hand)
  then show "hand_ok ws w' j" using v(2) by (simp add: hand_ok_def)
qed

lemma process_session:
  assumes c: "consistent w" and h: "hand_ok ws w j"
    and run: "session_for_workspace ws (bindp now (\<lambda>t. process_claimed (email_dispatch sender) j t)) w = (r, w')"
  shows "sane w w'" and "processed ws w j r w'"
proof -
  let ?u = "w\<lparr>guc := Some ws, own := []\<rparr>"
  let ?t = "clock_at ?u (reads ?u)" and ?v = "?u\<lparr>reads := Suc (reads ?u)\<rparr>"
  obtain x v where p: "process_claimed (email_dispatch sender) j ?t ?v = (x, v)" by fastforce
  have g: "good ws w ?v" using good_start [OF c] by simp
  have "hand_ok ws ?v j" using h by (simp add: hand_ok_def)
  from process_good [OF g this p] have P: "good ws w v" "processed ws ?v j x v" by simp_all
  then obtain y where x: "x = Inr y" by (auto simp: processed_def)
  have w': "r = x" "w' = v\<lparr>guc := None, own := []\<rparr>"
    using run p x by (auto simp: session_for_workspace_def session_def bindp_run)
  have "sane w v" using P(1) by (auto simp: good_def sane_def)
  then show "sane w w'" by (rule sane_db_cong) (simp_all add: w')
  have K: "camps ?v = camps w" by (rule camps_cong) simp_all
  show "processed ws w j r w'"
    using P(2) unfolding w' processed_def advanced_def next_mail_def K by simp
qed

lemma by_id_session:
  assumes c: "consistent w"
    and run: "session_for_workspace ws (bindp now (\<lambda>t. process_by_id (email_dispatch sender) i ws t)) w = (r, w')"
  obtains (none) "r = Inl SendJobNotClaimedError" "sane w w'" "wire w' = wire w"
  | (ran) j x where "r = Inr \<lparr> ps_job = j, ps_outcome = x \<rparr>" "hand_ok ws w j" "sane w w'" "processed ws w j (Inr x) w'"
proof -
  let ?u = "w\<lparr>guc := Some ws, own := []\<rparr>"
  let ?t = "clock_at ?u (reads ?u)" and ?v = "?u\<lparr>reads := Suc (reads ?u)\<rparr>"
  obtain x v where p: "process_by_id (email_dispatch sender) i ws ?t ?v = (x, v)" by fastforce
  have g: "good ws w ?v" using good_start [OF c] by simp
  have K: "camps ?v = camps w" by (rule camps_cong) simp_all
  show ?thesis
  proof (cases rule: by_id_good [OF g p])
    case 1
    then have "r = Inl SendJobNotClaimedError" "db w' = db w" "wire w' = wire w" "next_uuid w' = next_uuid w"
      using run p by (auto simp: session_for_workspace_def session_def bindp_run)
    then show ?thesis using none sane_same [OF c] by simp
  next
    case (2 j y)
    have w': "r = Inr \<lparr> ps_job = j, ps_outcome = y \<rparr>" "w' = v\<lparr>guc := None, own := []\<rparr>"
      using run p 2(1) by (auto simp: session_for_workspace_def session_def bindp_run)
    have "sane w v" using 2(3) by (auto simp: good_def sane_def)
    then have "sane w w'" by (rule sane_db_cong) (simp_all add: w')
    moreover have "processed ws w j (Inr y) w'"
      using 2(4) unfolding w' processed_def advanced_def next_mail_def K by simp
    moreover have "hand_ok ws w j" using 2(2) by (simp add: hand_ok_def)
    ultimately show ?thesis using ran w'(1) by blast
  qed
qed

lemma command_sane:
  assumes "consistent w" and "session_for_workspace ws m w = (r, w')"
    and "\<And>x v. m (w\<lparr>guc := Some ws, own := []\<rparr>) = (Inr x, v) \<Longrightarrow> good ws w v"
    and "keeps (\<lambda>v. next_uuid w \<le> next_uuid v) m"
  shows "sane w w'"
proof (rule session_sane [OF assms(1,2)])
  show "next_uuid w \<le> next_uuid v" if "m (w\<lparr>guc := Some ws, own := []\<rparr>) = (Inl e, v)" for e v
    using keepsD_run [OF assms(4) _ that] by simp
qed (rule assms(3))

lemma commands_sane:
  assumes "consistent w"
  shows "session_for_workspace ws (create_campaign command ws) w = (x, w') \<Longrightarrow> sane w w'"
    and "session_for_workspace ws (add_leads_command i emails t) w = (y, w') \<Longrightarrow> sane w w'"
    and "session_for_workspace ws (start_campaign i t) w = (z, w') \<Longrightarrow> sane w w'"
  by (erule command_sane [OF assms], erule create_campaign_good [OF good_start [OF assms]], rule commands_later)
     (erule command_sane [OF assms], erule add_leads_good [OF good_start [OF assms]], rule commands_later,
      erule command_sane [OF assms], erule start_good [OF good_start [OF assms]], rule commands_later)

text \<open>A send that committed is new, and from then on its step counts as sent.\<close>

lemma sent_once_more:
  assumes ok: "sent_ok w xs" and c: "consistent w" and h: "hand_ok ws w j" and S: "sane w w'"
    and P: "processed ws w j r w'"
  shows "sent_ok w' (xs @ sent_by ws j r)"
proof (cases "r = Inr O_SENT")
  case False
  then show ?thesis using sent_ok_extends [OF ok] S by (simp add: sent_by_def sane_def)
next
  case True
  let ?k = "p_step_position (cj_payload j)"
  obtain l l' where l: "l \<in> set (t_leads (db w))" "l_id l = cj_lead_id j" "l_steps_sent l = ?k - 1"
    and l': "l' \<in> set (t_leads (db w'))" "same_lead l l'" "l_steps_sent l' = ?k"
    using P True by (auto simp: processed_def advanced_def)
  have plan: "plan_ok (camps w) (next_uuid w) (t_leads (db w)) (t_send_jobs (db w))"
    using c by (simp add: consistent_def)
  obtain r0 where r0: "r0 \<in> set (t_send_jobs (db w))" "jr_lead_id r0 = cj_lead_id j" "jr_workspace_id r0 = ws"
    using h by (auto simp: hand_ok_def)
  have ws: "l_workspace_id l = ws"
    using plan_job_lead(1) [OF plan r0(1) l(1)] l(2) r0(2,3) by (simp add: job_fits_def)
  have "(ws, cj_lead_id j, ?k) \<notin> set xs"
  proof
    assume "(ws, cj_lead_id j, ?k) \<in> set xs"
    then obtain m where "m \<in> set (t_leads (db w))" "l_id m = cj_lead_id j" "?k \<le> l_steps_sent m"
      using ok by (auto simp: sent_ok_def)
    then show False using plan_lead_unique [OF plan _ l(1), of m] l(2,3) by simp
  qed
  moreover have "\<exists>m\<in>set (t_leads (db w')). l_id m = cj_lead_id j \<and> l_workspace_id m = ws \<and> ?k \<le> l_steps_sent m"
    using l' l(2) ws by (intro bexI [where x = l']) (simp_all add: same_lead_def)
  ultimately show ?thesis
    using sent_ok_extends [OF ok] S True unfolding sent_by_def sent_ok_def sane_def by auto
qed

lemma step_sound:
  assumes "system_step ws s s'" and "sound s"
  shows "sound s'"
  using assms
proof (induction rule: system_step.induct)
  case (polls ws receive classify w r w' h s)
  then have c: "consistent w" by (simp add: sound_def)
  have "sane w w'" using keepsD_run [OF poll_sane _ polls(1)] sane_same [OF c] by simp
  then show ?case using sane_sound [OF polls(2), of w' h] by simp
next
  case (replies ws w r w' h s)
  then have c: "consistent w" by (simp add: sound_def)
  have "sane w w'" using keepsD_run [OF dispatch_replies_sane _ replies(1)] sane_same [OF c] by simp
  then show ?case using sane_sound [OF replies(2), of w' h] by simp
next
  case (claims ws k n w js w' h s)
  then have c: "consistent w" by (simp add: sound_def)
  note C = claim_sane [OF c claims(1)]
  have "sound (system.make w' ((h \<union> Pair ws ` set js) \<union> h) s)"
    by (rule sane_sound [OF claims(2) C(1)]) (use C(2) in auto)
  then show ?case by (simp add: Un_commute Un_left_commute)
next
  case (processes ws j h sender w r w' s)
  then have c: "consistent w" and h: "hand_ok ws w j" and ok: "sent_ok w s" by (auto simp: sound_def)
  note P = process_session [OF c h processes(2)]
  have "sound (system.make w' h s)" using sane_sound [OF processes(3) P(1), of h] by simp
  then show ?case using sent_once_more [OF ok c h P] by (simp add: sound_def)
next
  case (by_id ws sender i w r w' h s)
  then have c: "consistent w" and ok: "sent_ok w s" by (auto simp: sound_def)
  show ?case
  proof (cases rule: by_id_session [OF c by_id(1)])
    case 1
    then show ?thesis using sane_sound [OF by_id(2), of w' h] by simp
  next
    case (2 j x)
    have "sound (system.make w' h s)" using sane_sound [OF by_id(2) 2(3), of h] by simp
    then show ?thesis using sent_once_more [OF ok c 2(2-4)] 2(1) by (simp add: sound_def)
  qed
next
  case (crashes ws j h sender t w r v s)
  then have c: "consistent w" and h: "hand_ok ws (w\<lparr>guc := Some ws, own := []\<rparr>) j" by (auto simp: sound_def hand_ok_def)
  have "good ws w v" using process_good [OF good_start [OF c] h crashes(2)] by simp
  then have "next_uuid w \<le> next_uuid v" by (auto simp: good_def extends_def)
  then have "sane w (drop_transaction w v)" by (intro sane_same [OF c]) (simp_all add: drop_transaction_def)
  then show ?case using sane_sound [OF crashes(3), of _ h] by simp
next
  case (creates ws command w r w' h s)
  then have "sane w w'" using commands_sane(1) by (simp add: sound_def)
  then show ?case using sane_sound [OF creates(2), of w' h] by simp
next
  case (adds ws i emails t w r w' h s)
  then have "sane w w'" using commands_sane(2) by (simp add: sound_def)
  then show ?case using sane_sound [OF adds(2), of w' h] by simp
next
  case (starts ws i t w r w' h s)
  then have "sane w w'" using commands_sane(3) by (simp add: sound_def)
  then show ?case using sane_sound [OF starts(2), of w' h] by simp
next
  case (others w' w ws h s)
  then have "sane w w'" using sane_same by (simp add: sound_def)
  then show ?case using sane_sound [OF others(4), of w' h] by simp
qed

lemma runs_sound: "runs s s' \<Longrightarrow> sound s \<Longrightarrow> sound s'"
  by (induction rule: runs.induct) (auto intro: step_sound)

lemma runs_trans: "runs b c \<Longrightarrow> runs a b \<Longrightarrow> runs a c"
  by (induction rule: runs.induct) (auto intro: runs.intros)

text \<open>The empty database is where it all starts.\<close>

definition empty_database :: database where
  "empty_database = \<lparr> t_campaigns = [], t_steps = [], t_leads = [], t_send_jobs = [], t_processed = [],
     t_outbound = [], t_inbound = [], t_outbox = [], t_suppressions = [], t_mailboxes = [],
     t_workspaces = [], t_api_keys = [] \<rparr>"

lemma no_campaigns: "t_campaigns (db w) = [] \<Longrightarrow> camps w ws i = None"
  by (simp add: camps_def campaign_in_def campaign_rows_def)

lemma sound_start:
  assumes "t_campaigns (db w) = []" "t_steps (db w) = []" "t_leads (db w) = []" "t_send_jobs (db w) = []"
  shows "sound (system.make w {} [])"
  using assms no_campaigns by (simp add: sound_def sent_ok_def consistent_def plan_ok_def campaigns_ok_def)

end
