(* ===== verification/System_Laws.thy ===== *)
theory System_Laws
  imports System
begin

text \<open>
  What holds for every run of the program: mail leaves only when a held job is processed, a step
  touches only the rows of its workspace, and the worker's loop is a sequence of the steps.
\<close>

named_theorems mute_intros "programs that send no mail"

section \<open>The wire\<close>

lemma mute_statements [mute_intros]:
  "keeps (\<lambda>w. wire w = x) now" "keeps (\<lambda>w. wire w = x) uuid7" "keeps (\<lambda>w. wire w = x) (modify_db f)"
  "keeps (\<lambda>w. wire w = x) (insert_row checks ins)" "keeps (\<lambda>w. wire w = x) (emit ms)"
  "keeps (\<lambda>w. wire w = x) (print_line y)" "keeps (\<lambda>w. wire w = x) (suppressions_add sp)"
  "keeps (\<lambda>w. wire w = x) (feed_acknowledge reply t)"
  by (auto simp: keeps_def insert_row_def emit_def print_line_def suppressions_add_def feed_acknowledge_def
      split: option.splits)

lemma mute_session [mute_intros]:
  assumes "keeps (\<lambda>w. wire w = x) m"
  shows "keeps (\<lambda>w. wire w = x) (session_for_workspace ws m)"
proof (rule keepsI)
  fix w :: world assume w: "wire w = x"
  obtain r v where run: "m (w\<lparr>guc := Some ws, own := []\<rparr>) = (r, v)" by fastforce
  have "wire v = x" by (rule keepsD_run [OF assms _ run]) (simp add: w)
  with run show "wire (snd (session_for_workspace ws m w)) = x"
    by (cases r) (simp_all add: session_for_workspace_def session_def)
qed

lemma mute_poll: "keeps (\<lambda>w. wire w = x) (worker_poll_inbox ws receive classify)"
proof -
  have rc: "keeps (\<lambda>w. wire w = x) (\<lambda>w. (f w, w))" for f :: "world \<Rightarrow> exn + fetch_result"
    by (simp add: keeps_def)
  have cl: "keeps (\<lambda>w. wire w = x) (classify_reply classify mailbox f y z)" for mailbox f y z
    unfolding classify_reply_def inbound_update_def Suppression_new_def outbox_record_def Let_def
    by (intro keep_intros mute_intros)
  show ?thesis
    unfolding worker_poll_inbox_def gateway_get_by_workspace_def mailboxes_get_by_workspace_def poll_inbox_def
      poll_one_def inbound_exists_def InboundMessage_new_def inbound_add_def outbound_list_unanswered_def
      gateway_advance_cursor_def mailboxes_update_cursor_def outbox_record_def
    by (intro keep_intros mute_intros rc cl)
qed

lemma mute_replies: "keeps (\<lambda>w. wire w = x) (worker_dispatch_replies ws)"
proof -
  have "keeps (\<lambda>w. wire w = x) (stop_lead reply t)" for reply t
  proof (rule keepsI)
    fix w :: world assume "wire w = x"
    then show "wire (snd (stop_lead reply t w)) = x" by (cases rule: stop_lead_cases [of reply t w]) simp_all
  qed
  then show ?thesis
    unfolding worker_dispatch_replies_def record_stopped_leads_def run_replies_def handle_replies_def
      handle_reply_def feed_claim_def
    by (intro keep_intros mute_intros)
qed

lemma mute_claim: "keeps (\<lambda>w. wire w = x) (session_for_workspace ws (bindp now (\<lambda>t. claim_due_send_jobs ws k n t)))"
  unfolding claim_due_send_jobs_def jobs_claim_def by (intro keep_intros mute_intros)

lemma mute_commands:
  "keeps (\<lambda>w. wire w = x) (create_campaign command i)"
  "keeps (\<lambda>w. wire w = x) (add_leads_command k es t)"
  "keeps (\<lambda>w. wire w = x) (start_campaign k t)"
proof -
  have steps: "keeps (\<lambda>w. wire w = x) (new_steps ds p)" for ds p
    by (induction ds arbitrary: p) (auto intro!: keep_intros mute_intros)
  have loop: "keeps (\<lambda>w. wire w = x) (add_leads_loop c es seen acc)" for c es seen acc
    by (induction es arbitrary: seen acc) (auto simp: Let_def Lead_new_def intro!: keep_intros mute_intros)
  have sched: "keeps (\<lambda>w. wire w = x) (schedule_loop c s t ls xs js)" for c s t ls xs js
    by (induction ls arbitrary: xs js) (auto simp: job_def SendJob_new_def intro!: keep_intros mute_intros)
  have schedule: "keeps (\<lambda>w. wire w = x) (schedule c ls t)" for c ls t
    unfolding schedule_def by (intro keep_intros sched)
  show "keeps (\<lambda>w. wire w = x) (create_campaign command i)"
    unfolding create_campaign_def mailbox_id_for_def mailboxes_get_by_workspace_def Campaign_new_def
      campaigns_add_def insert_campaign_row_def insert_step_row_def
    by (intro keep_intros mute_intros steps)
  show "keeps (\<lambda>w. wire w = x) (add_leads_command k es t)"
    unfolding add_leads_command_def campaigns_get_def leads_emails_def leads_add_many_def leads_update_many_def
      jobs_add_many_def insert_lead_row_def insert_send_job_row_def update_lead_def leads_get_def add_leads_def
    by (intro keep_intros mute_intros loop schedule)
  show "keeps (\<lambda>w. wire w = x) (start_campaign k t)"
    unfolding start_campaign_def campaigns_get_def leads_list_pending_def leads_update_many_def
      jobs_add_many_def insert_send_job_row_def update_lead_def leads_get_def campaigns_update_status_def start_def Let_def
    by (intro keep_intros mute_intros schedule)
qed

text \<open>A step sends no mail, or one, the next step of a lead to that lead.\<close>

definition one_mail :: "uuid \<Rightarrow> world \<Rightarrow> world \<Rightarrow> bool" where
  "one_mail ws w w' \<longleftrightarrow> wire w' = wire w
     \<or> (\<exists>m answer i. wire w' = wire w @ [(m, answer)] \<and> next_mail w ws i m)"

lemma processed_one_mail: "processed ws w j r w' \<Longrightarrow> one_mail ws w w'"
  unfolding processed_def one_mail_def by blast

lemma step_mail:
  assumes "system_step ws s s'" and "sound s"
  shows "one_mail ws (sy_world s) (sy_world s')"
  using assms
proof (induction rule: system_step.induct)
  case (polls ws receive classify w r w' h s)
  then show ?case using keepsD_run [OF mute_poll _ polls(1)] by (simp add: one_mail_def)
next
  case (replies ws w r w' h s)
  then show ?case using keepsD_run [OF mute_replies _ replies(1)] by (simp add: one_mail_def)
next
  case (claims ws k n w js w' h s)
  then show ?case using keepsD_run [OF mute_claim _ claims(1)] by (simp add: one_mail_def)
next
  case (processes ws j h sender w r w' s)
  then have c: "consistent w" and h: "hand_ok ws w j" by (auto simp: sound_def)
  from process_session(2) [OF c h processes(2)] show ?case by (simp add: processed_one_mail)
next
  case (by_id ws sender i w r w' h s)
  then have c: "consistent w" by (auto simp: sound_def)
  show ?case
  proof (cases rule: by_id_session [OF c by_id(1)])
    case 1
    then show ?thesis by (simp add: one_mail_def)
  next
    case (2 j x)
    from 2(4) show ?thesis by (simp add: processed_one_mail)
  qed
next
  case (crashes ws j h sender t w r v s)
  then have c: "consistent w" and h: "hand_ok ws (w\<lparr>guc := Some ws, own := []\<rparr>) j" by (auto simp: sound_def hand_ok_def)
  have K: "camps (w\<lparr>guc := Some ws, own := []\<rparr>) = camps w" by (rule camps_cong) simp_all
  from process_good [OF good_start [OF c] h crashes(2)] show ?case
    unfolding processed_def next_mail_def one_mail_def K by (simp add: drop_transaction_def) blast
next
  case (creates ws command w r w' h s)
  then show ?case using keepsD_run [OF mute_session [OF mute_commands(1)] _ creates(1)] by (simp add: one_mail_def)
next
  case (adds ws i emails t w r w' h s)
  then show ?case using keepsD_run [OF mute_session [OF mute_commands(2)] _ adds(1)] by (simp add: one_mail_def)
next
  case (starts ws i t w r w' h s)
  then show ?case using keepsD_run [OF mute_session [OF mute_commands(3)] _ starts(1)] by (simp add: one_mail_def)
qed (simp add: one_mail_def)

section \<open>Workspaces\<close>

lemma output_db: "keeps (\<lambda>w. db w = d) (emit ms)" "keeps (\<lambda>w. db w = d) (print_line x)" "keeps (\<lambda>w. db w = d) now"
  by (simp_all add: keeps_def emit_def print_line_def)

lemma session_then_output:
  assumes "bindp (session_for_workspace ws m) k w = (r, w')"
    and "keeps (inside ws (foreign ws (db w))) m" and "\<And>x d. keeps (\<lambda>v. db v = d) (k x)"
  shows "foreign ws (db w') = foreign ws (db w)"
proof -
  obtain x v where run: "session_for_workspace ws m w = (x, v)" by fastforce
  have v: "foreign ws (db v) = foreign ws (db w)" using session_isolated [OF assms(2)] run by simp
  show ?thesis
  proof (cases x)
    case (Inl e)
    then show ?thesis using assms(1) run v by simp
  next
    case (Inr y)
    then have "k y v = (r, w')" using assms(1) run by simp
    from keepsD_run [OF assms(3) _ this] show ?thesis using v by simp
  qed
qed

lemma step_isolated:
  assumes "system_step ws s s'"
  shows "foreign ws (db (sy_world s')) = foreign ws (db (sy_world s))"
  using assms
proof (induction rule: system_step.induct)
  case (polls ws receive classify w r w' h s)
  then show ?case
    unfolding worker_poll_inbox_def make_sel
    by (rule session_then_output)
       (unfold gateway_get_by_workspace_def mailboxes_get_by_workspace_def,
        (intro keep_intros isolation_intros output_db)+)
next
  case (replies ws w r w' h s)
  then show ?case
    unfolding worker_dispatch_replies_def record_stopped_leads_def make_sel
    by (rule session_then_output) (intro keep_intros isolation_intros output_db)+
next
  case (claims ws k n w js w' h s)
  then show ?case
    using session_isolated [of ws w "bindp now (\<lambda>t. claim_due_send_jobs ws k n t)"]
    unfolding claim_due_send_jobs_def by (simp add: keep_intros isolation_intros)
next
  case (processes ws j h sender w r w' s)
  then show ?case
    using session_isolated [of ws w "bindp now (\<lambda>t. process_claimed (email_dispatch sender) j t)"]
    by (simp add: keep_intros isolation_intros)
next
  case (by_id ws sender i w r w' h s)
  then show ?case
    using session_isolated [of ws w "bindp now (\<lambda>t. process_by_id (email_dispatch sender) i ws t)"]
    by (simp add: keep_intros isolation_intros)
next
  case (creates ws command w r w' h s)
  then show ?case
    using session_isolated [of ws w "create_campaign command ws"] by (simp add: isolation_intros)
next
  case (adds ws i emails t w r w' h s)
  then show ?case
    using session_isolated [of ws w "add_leads_command i emails t"] by (simp add: isolation_intros)
next
  case (starts ws i t w r w' h s)
  then show ?case
    using session_isolated [of ws w "start_campaign i t"] by (simp add: isolation_intros)
qed (simp_all add: drop_transaction_def)

section \<open>The worker\<close>

text \<open>A program of the worker whose every run is a sequence of steps, given the claims it holds.\<close>

definition performs :: "(uuid \<times> claimed_job) set \<Rightarrow> 'a act \<Rightarrow> bool" where
  "performs H m \<longleftrightarrow> (\<forall>w r w' h s. H \<subseteq> h \<longrightarrow> m w = (r, w') \<longrightarrow>
     (\<exists>h' s'. h \<subseteq> h' \<and> runs (system.make w h s) (system.make w' h' (s @ s'))))"

lemma performsE:
  assumes "performs H m" and "H \<subseteq> h" and "m w = (r, w')"
  obtains h' s' where "h \<subseteq> h'" "runs (system.make w h s) (system.make w' h' (s @ s'))"
  using assms(1) [unfolded performs_def, rule_format, OF assms(2,3), of s] by (elim exE conjE) (rule that)

lemma goes_on:
  assumes "h \<subseteq> h1" and "runs (system.make w h s) (system.make w1 h1 (s @ s1))"
    and "h1 \<subseteq> h2" and "runs (system.make w1 h1 (s @ s1)) (system.make w' h2 ((s @ s1) @ s2))"
  shows "\<exists>h' s'. h \<subseteq> h' \<and> runs (system.make w h s) (system.make w' h' (s @ s'))"
  using assms(1,3) runs_trans [OF assms(4,2)]
  by (intro exI [where x = h2] exI [where x = "s1 @ s2"]) auto

lemma performs_bindp:
  assumes "performs H m" and "\<And>x. performs H (f x)"
  shows "performs H (bindp m f)"
  unfolding performs_def
proof (intro allI impI)
  fix w r w' h and s :: "(uuid \<times> uuid \<times> int) list"
  assume H: "H \<subseteq> h" and run: "bindp m f w = (r, w')"
  obtain x w1 where m: "m w = (x, w1)" by fastforce
  obtain h1 s1 where 1: "h \<subseteq> h1" "runs (system.make w h s) (system.make w1 h1 (s @ s1))"
    by (rule performsE [OF assms(1) H m, where s = s])
  show "\<exists>h' s'. h \<subseteq> h' \<and> runs (system.make w h s) (system.make w' h' (s @ s'))"
  proof (cases x)
    case (Inl e)
    then have "w' = w1" using run m by simp
    then show ?thesis using 1 by blast
  next
    case (Inr y)
    then have f: "f y w1 = (r, w')" using run m by simp
    obtain h2 s2 where 2: "h1 \<subseteq> h2" "runs (system.make w1 h1 (s @ s1)) (system.make w' h2 ((s @ s1) @ s2))"
      by (rule performsE [OF assms(2) order.trans [OF H 1(1)] f, where s = "s @ s1"])
    from goes_on [OF 1 this] show ?thesis .
  qed
qed

lemma performs_tryp:
  assumes "performs H m" and "\<And>e. performs H (k e)"
  shows "performs H (tryp m k)"
  unfolding performs_def
proof (intro allI impI)
  fix w r w' h and s :: "(uuid \<times> uuid \<times> int) list"
  assume H: "H \<subseteq> h" and run: "tryp m k w = (r, w')"
  obtain x w1 where m: "m w = (x, w1)" by fastforce
  obtain h1 s1 where 1: "h \<subseteq> h1" "runs (system.make w h s) (system.make w1 h1 (s @ s1))"
    by (rule performsE [OF assms(1) H m, where s = s])
  show "\<exists>h' s'. h \<subseteq> h' \<and> runs (system.make w h s) (system.make w' h' (s @ s'))"
  proof (cases x)
    case (Inr y)
    then have "w' = w1" using run m by (simp add: tryp_run)
    then show ?thesis using 1 by blast
  next
    case (Inl e)
    then have f: "k e w1 = (r, w')" using run m by (simp add: tryp_run)
    obtain h2 s2 where 2: "h1 \<subseteq> h2" "runs (system.make w1 h1 (s @ s1)) (system.make w' h2 ((s @ s1) @ s2))"
      by (rule performsE [OF assms(2) order.trans [OF H 1(1)] f, where s = "s @ s1"])
    from goes_on [OF 1 this] show ?thesis .
  qed
qed

lemma performs_step:
  assumes "\<And>w r w' h s. H \<subseteq> h \<Longrightarrow> m w = (r, w') \<Longrightarrow>
    \<exists>h' s'. h \<subseteq> h' \<and> system_step ws (system.make w h s) (system.make w' h' (s @ s'))"
  shows "performs H m"
  unfolding performs_def
proof (intro allI impI)
  fix w r w' h and s :: "(uuid \<times> uuid \<times> int) list"
  assume "H \<subseteq> h" and "m w = (r, w')"
  from assms [OF this, of s] show "\<exists>h' s'. h \<subseteq> h' \<and> runs (system.make w h s) (system.make w' h' (s @ s'))"
    by (elim exE conjE) (intro exI conjI, assumption, rule runs.more [OF runs.start])
qed

lemma performs_output:
  assumes "\<And>w r w'. m w = (r, w') \<Longrightarrow> db w' = db w \<and> wire w' = wire w \<and> next_uuid w' = next_uuid w"
  shows "performs H m"
proof (rule performs_step [where ws = 0])
  fix w r w' h and s :: "(uuid \<times> uuid \<times> int) list"
  assume "m w = (r, w')"
  from assms [OF this] have "system_step 0 (system.make w h s) (system.make w' h s)"
    by (intro system_step.others) simp_all
  then show "\<exists>h' s'. h \<subseteq> h' \<and> system_step 0 (system.make w h s) (system.make w' h' (s @ s'))"
    by (intro exI [where x = h] exI [where x = "[]"]) simp
qed

lemma performs_thenp: "performs H m \<Longrightarrow> performs H k \<Longrightarrow> performs H (thenp m k)"
  by (simp add: thenp_def performs_bindp)

lemma performs_if: "performs H a \<Longrightarrow> performs H b \<Longrightarrow> performs H (if c then a else b)"
  by simp

lemma performs_simple:
  "performs H (ret x)" "performs H (lift y)" "performs H now" "performs H (emit ms)" "performs H (print_line l)"
proof -
  show "performs H (ret x)" by (rule performs_output) simp
  show "performs H (lift y)" by (rule performs_output) simp
  show "performs H now" by (rule performs_output) auto
  show "performs H (emit ms)" by (rule performs_output) (auto simp: emit_def)
  show "performs H (print_line l)" by (rule performs_output) (auto simp: print_line_def)
qed

lemma performs_forp: "(\<And>x. x \<in> set xs \<Longrightarrow> performs H (f x)) \<Longrightarrow> performs H (forp f xs)"
  by (induction xs) (auto intro: performs_simple performs_thenp)

lemma performs_poll: "performs H (worker_poll_inbox ws receive classify)"
  by (rule performs_step [where ws = ws]) (metis append_Nil2 order.refl system_step.polls)

lemma performs_replies: "performs H (worker_dispatch_replies ws)"
  by (rule performs_step [where ws = ws]) (metis append_Nil2 order.refl system_step.replies)

lemma performs_process:
  assumes "(ws, j) \<in> H"
  shows "performs H (worker_process_job ws sender j)"
proof -
  have "performs H (session_for_workspace ws (bindp now (\<lambda>t. process_claimed (email_dispatch sender) j t)))"
  proof (rule performs_step [where ws = ws])
    fix w r w' h and s :: "(uuid \<times> uuid \<times> int) list"
    assume H: "H \<subseteq> h" and run: "session_for_workspace ws (bindp now (\<lambda>t. process_claimed (email_dispatch sender) j t)) w = (r, w')"
    from H assms have "(ws, j) \<in> h" by blast
    from system_step.processes [OF this run]
    show "\<exists>h' s'. h \<subseteq> h' \<and> system_step ws (system.make w h s) (system.make w' h' (s @ s'))" by blast
  qed
  then show ?thesis
    unfolding worker_process_job_def record_send_job_outcome_def
    by (intro performs_bindp performs_thenp performs_if performs_simple)
qed

lemma claim_answers:
  "\<exists>js w'. session_for_workspace ws (bindp now (\<lambda>t. claim_due_send_jobs ws k n t)) w = (Inr js, w')"
  by (simp add: session_for_workspace_def session_def bindp_run claim_due_send_jobs_def jobs_claim_run)

lemma performs_drain: "performs H (worker_drain_send_jobs ws sender k)"
  unfolding performs_def
proof (intro allI impI)
  fix w r w' h and s :: "(uuid \<times> uuid \<times> int) list"
  assume run: "worker_drain_send_jobs ws sender k w = (r, w')"
  obtain js w1 where c: "session_for_workspace ws (bindp now (\<lambda>t. claim_due_send_jobs ws k SEND_BATCH_SIZE t)) w = (Inr js, w1)"
    using claim_answers by blast
  then have loop: "forp (worker_process_job ws sender) js w1 = (r, w')"
    using run by (simp add: worker_drain_send_jobs_def)
  let ?h = "h \<union> Pair ws ` set js"
  have 1: "runs (system.make w h s) (system.make w1 ?h s)"
    by (rule runs.more [OF runs.start system_step.claims [OF c]])
  have p: "performs (Pair ws ` set js) (forp (worker_process_job ws sender) js)"
    by (intro performs_forp performs_process) blast
  obtain h2 s2 where 2: "?h \<subseteq> h2" "runs (system.make w1 ?h s) (system.make w' h2 (s @ s2))"
    by (rule performsE [OF p Un_upper2 loop, where s = s])
  show "\<exists>h' s'. h \<subseteq> h' \<and> runs (system.make w h s) (system.make w' h' (s @ s'))"
    using runs_trans [OF 2(2) 1] 2(1) by (intro exI [where x = h2] exI [where x = s2]) auto
qed

lemma performs_loop: "performs H (worker_loop n st receive classify sender k idle)"
proof (induction n arbitrary: idle)
  case 0
  show ?case by (simp only: worker_loop.simps performs_simple)
next
  case (Suc n)
  have logged: "performs H (logged what x m)" if "performs H m" for what x and m :: "'b act"
    unfolding logged_def using that by (intro performs_tryp performs_thenp performs_simple)
  have "performs H (worker_tick st receive classify sender k)"
    unfolding worker_tick_def Let_def
    by (intro performs_if performs_bindp performs_thenp performs_simple logged performs_poll performs_replies performs_drain)
  then show ?case
    by (simp only: worker_loop.simps) (intro performs_bindp performs_thenp performs_if performs_simple Suc)
qed

lemma performs_main: "performs H (worker_main n st receive classify sender host pid)"
  unfolding worker_main_def worker_run_def
  by (intro performs_thenp performs_if performs_simple performs_loop)

section \<open>The plan, spelled out\<close>

lemma plan_job_text:
  assumes plan: "plan_ok K n L J" and r: "r \<in> set J"
  shows "\<exists>l\<in>set L. \<exists>c k. l_id l = jr_lead_id r \<and> l_workspace_id l = jr_workspace_id r
     \<and> K (l_workspace_id l) (l_campaign_id l) = Some c
     \<and> k < length (c_steps c) \<and> p_step_position (jr_payload r) = int k + 1
     \<and> p_to_email (jr_payload r) = l_email l \<and> p_campaign_id (jr_payload r) = c_id c
     \<and> p_subject (jr_payload r) = s_subject (c_steps c ! k) \<and> p_body (jr_payload r) = s_body (c_steps c ! k)
     \<and> (jr_status r = JPENDING \<longrightarrow> is_active c \<and> l_state l \<in> SENDABLE_STATES \<and> l_steps_sent l = int k)"
proof -
  obtain l where l: "l \<in> set L" "job_fits K l r" "status_fits l r" using plan_okD(9) [OF plan r] by blast
  obtain c where c: "K (l_workspace_id l) (l_campaign_id l) = Some c" "1 \<le> pos r" "pos r \<le> int (length (c_steps c))"
    "jr_payload r = payload_of c l (c_steps c ! nat (pos r - 1))" "l_id l = jr_lead_id r"
    "l_workspace_id l = jr_workspace_id r"
    using l(2) unfolding job_fits_def by blast
  let ?k = "nat (pos r - 1)"
  have k: "?k < length (c_steps c)" "p_step_position (jr_payload r) = int ?k + 1"
    using c(2,3) by (simp_all add: pos_def)
  have "l_state l \<noteq> PENDING \<longrightarrow> is_active c" using plan_okD(7) [OF plan l(1)] c(1) by (auto simp: lead_ok_def)
  then have "jr_status r = JPENDING \<longrightarrow> is_active c \<and> l_state l \<in> SENDABLE_STATES \<and> l_steps_sent l = int ?k"
    using l(3) c(2) by (auto simp: status_fits_def sendable_def)
  moreover have "p_to_email (jr_payload r) = l_email l \<and> p_campaign_id (jr_payload r) = c_id c
     \<and> p_subject (jr_payload r) = s_subject (c_steps c ! ?k) \<and> p_body (jr_payload r) = s_body (c_steps c ! ?k)"
    using c(4) by (metis payload_of_def send_job_payload.select_convs(2,6,7,8))
  ultimately show ?thesis using c(1,5,6) k l(1) by blast
qed

lemma next_mail_text:
  assumes "next_mail w ws i m"
  shows "\<exists>l\<in>set (t_leads (db w)). \<exists>c k. l_workspace_id l = ws \<and> ml_to m = l_email l
     \<and> campaign_in (w\<lparr>guc := Some ws\<rparr>) (l_campaign_id l) = Some c \<and> is_active c
     \<and> l_state l \<in> SENDABLE_STATES \<and> l_steps_sent l = int k \<and> k < length (c_steps c)
     \<and> ml_subject m = s_subject (c_steps c ! k) \<and> ml_body m = s_body (c_steps c ! k)"
proof -
  obtain l c where l: "l \<in> set (t_leads (db w))" and c: "l_workspace_id l = ws" "camps w ws (l_campaign_id l) = Some c"
    "is_active c" "sendable l" "0 \<le> l_steps_sent l" "l_steps_sent l < int (length (c_steps c))" "ml_to m = l_email l"
    "ml_subject m = s_subject (c_steps c ! nat (l_steps_sent l))" "ml_body m = s_body (c_steps c ! nat (l_steps_sent l))"
    using assms unfolding next_mail_def by blast
  show ?thesis
    using c by (intro bexI [OF _ l] exI [where x = c] exI [where x = "nat (l_steps_sent l)"])
      (simp add: camps_def sendable_def)
qed

text \<open>A claim that was overtaken: the job is done, and the late worker marks it as cancelled.\<close>

lemma late_claim_cancels:
  assumes s: "consistent w" "hand_ok ws w j" and r: "r \<in> set (t_send_jobs (db w))" "jr_id r = cj_id j" "jr_status r = JDONE"
    and run: "session_for_workspace ws (bindp now (\<lambda>t. process_claimed (email_dispatch sender) j t)) w = (x, w')"
  shows "x = Inr O_CANCELLED" and "\<exists>r'\<in>set (t_send_jobs (db w')). jr_id r' = jr_id r \<and> jr_status r' = JCANCELLED"
proof -
  let ?u = "w\<lparr>guc := Some ws, own := []\<rparr>"
  let ?t = "clock_at ?u (reads ?u)" and ?v = "?u\<lparr>reads := Suc (reads ?u)\<rparr>"
  let ?h = "\<lambda>r. r\<lparr>jr_status := JCANCELLED, jr_updated_at := ?t\<rparr>"
  have g: "good ws w ?v" using good_start [OF s(1)] by simp
  have h: "hand_ok ws ?v j" using s(2) by (simp add: hand_ok_def)
  have "process_claimed (email_dispatch sender) j ?t ?v = (Inr O_CANCELLED, put_job (cj_id j) ?h ?v)"
  proof (rule process_refused)
    fix c l assume "campaign_in ?v (p_campaign_id (cj_payload j)) = Some c" and l: "lead_in ?v (cj_lead_id j) = Some l"
    show "\<not> accepts_send c l (p_step_position (cj_payload j))"
    proof (rule held_claim [OF g h])
      fix r0 l0 c0
      assume H: "r0 \<in> set (t_send_jobs (db ?v))" "jr_id r0 = cj_id j" "pos r0 = p_step_position (cj_payload j)"
        "lead_in ?v (cj_lead_id j) = Some l0" "status_fits l0 r0"
      have "r0 = r" using plan_job_unique [OF goodD(2) [OF g] H(1)] r(1,2) H(2) by simp
      then show ?thesis using H(3-5) l r(3) by (auto simp: status_fits_def accepts_send_def)
    qed
  qed
  then have x: "x = Inr O_CANCELLED" "t_send_jobs (db w') = t_send_jobs (db (put_job (cj_id j) ?h ?v))"
    using run by (simp_all add: session_for_workspace_def session_def bindp_run) auto
  obtain r1 where "r1 \<in> set (t_send_jobs (db w))" "jr_id r1 = cj_id j" "jr_workspace_id r1 = ws"
    using s(2) by (auto simp: hand_ok_def)
  then have ws: "jr_workspace_id r = ws" using plan_job_unique [OF s(1) [unfolded consistent_def, THEN conjunct1], of _ r] r(1,2) by metis
  show "x = Inr O_CANCELLED" by (rule x(1))
  show "\<exists>r'\<in>set (t_send_jobs (db w')). jr_id r' = jr_id r \<and> jr_status r' = JCANCELLED"
    unfolding x(2) using r(1,2) ws
    by (intro bexI [where x = "?h r"]) (auto simp: put_job_def set_update_rows sees_def intro!: rev_image_eqI [of r])
qed

lemma mute_settle: "keeps (\<lambda>w. wire w = x) (settle claim t c l res)"
  unfolding settle_def leads_update_many_def update_lead_def leads_get_def jobs_add_many_def insert_send_job_row_def
    record_sent_def job_def SendJob_new_def jobs_complete_def jobs_release_def jobs_retry_later_def jobs_fail_def
    jobs_cancel_def jobs_reschedule_def jobs_set_def
  by (cases res; simp only: dispatch_result.case; intro keep_intros mute_intros)

end
