(* ===== verification/Sample_Runs.thy ===== *)
theory Sample_Runs
  imports Samples System_Laws
begin

text \<open>
  A running system for the examples: the small world with its job claimed, a step that sends it,
  and a second worker with the same claim.
\<close>

definition sample_system :: system where
  "sample_system = system.make (sample_world (sample_lead SCHEDULED 0) [sample_job 7 1 JRUNNING])
     {(11, sample_claim 1)} []"

lemma sample_camps: "camps (sample_world l jobs) ws i
    = (if ws = 11 \<and> i = 3 then Some sample_campaign else None)"
proof (cases "ws = 11")
  case True
  have "camps (sample_world l jobs) 11 i = campaign_in (sample_world l jobs) i" by (rule camps_guc) simp
  moreover have "campaign_in (sample_world l jobs) i = None" if "i \<noteq> 3"
    using that by (simp add: campaign_in_def campaign_rows_def sample_campaign_row_def)
  ultimately show ?thesis using True sample_campaign_stored by simp
next
  case False
  then have "campaign_rows ((sample_world l jobs)\<lparr>guc := Some ws\<rparr>) = []"
    by (simp add: campaign_rows_def sees_def sample_campaign_row_def)
  then show ?thesis using False by (simp add: camps_def campaign_in_def)
qed

lemma sample_plan:
  assumes "l = sample_lead SCHEDULED 0" and "jobs = [sample_job 7 1 st]" and "st \<in> {JPENDING, JRUNNING}"
  shows "consistent (sample_world l jobs)"
proof -
  have wf: "wf_lead sample_campaign (sample_lead SCHEDULED 0)" "wf_campaign sample_campaign" "is_active sample_campaign"
    by (auto simp: wf_lead_def wf_campaign_def is_active_def is_stopped_def less_Suc_eq)
  have fits: "job_fits (camps (sample_world l jobs)) (sample_lead SCHEDULED 0) (sample_job 7 1 st)"
    by (simp add: job_fits_def sample_camps pos_def payload_of_def sample_payload_def step_of_row_def sample_step_def)
  have st: "status_fits (sample_lead SCHEDULED 0) (sample_job 7 1 st)"
    using assms(3) by (auto simp: status_fits_def pos_def sendable_def SENDABLE_STATES_def)
  have "live jobs (sample_lead SCHEDULED 0)" using assms by (simp add: live_def pos_def)
  moreover have "lead_ok (camps (sample_world l jobs)) (sample_lead SCHEDULED 0)"
    using wf by (simp add: lead_ok_def sample_camps)
  moreover have "campaigns_ok (camps (sample_world l jobs)) 100"
    using wf by (simp add: campaigns_ok_def sample_camps)
  ultimately show ?thesis
    using assms(1,2) fits st
    by (simp add: consistent_def plan_ok_def sample_step_def sample_campaign_row_def)
qed

lemma sample_sound: "sound sample_system"
  using sample_plan [OF refl refl, of JRUNNING]
  by (simp add: sample_system_def sound_def hand_ok_def sent_ok_def)

text \<open>The world when the transaction of the worker looks up its campaign.\<close>

definition sample_started :: world where
  "sample_started = (sample_world (sample_lead SCHEDULED 0) [sample_job 7 1 JRUNNING])\<lparr>own := [], reads := 1\<rparr>"

lemma sample_started_sel [simp]:
  "guc sample_started = Some 11" "wire sample_started = []" "next_uuid sample_started = 100"
  "t_outbound (db sample_started) = []" "held sample_started = []" "random_hex sample_started n = ''abc''"
  by (simp_all add: sample_started_def)

lemma sample_started_look:
  "campaign_in sample_started 3 = Some sample_campaign" "lead_in sample_started 6 = Some (sample_lead SCHEDULED 0)"
proof -
  let ?w = "sample_world (sample_lead SCHEDULED 0) [sample_job 7 1 JRUNNING]"
  have "campaign_in sample_started 3 = campaign_in ?w 3" "lead_in sample_started 6 = lead_in ?w 6"
    by (rule campaign_in_cong lead_in_cong; simp add: sample_started_def)+
  then show "campaign_in sample_started 3 = Some sample_campaign"
    "lead_in sample_started 6 = Some (sample_lead SCHEDULED 0)"
    by (simp_all add: sample_campaign_stored sample_lead_in)
qed

lemma sample_started_sends:
  obtains i at v where "email_dispatch sample_sender 11 ''a@b.c'' ''Hi'' ''b'' sample_started = (Inr (DispatchSent i at), v)"
    and "wire v \<noteq> []"
proof -
  have may: "may_send sample_started 11 ''a@b.c'' sample_mailbox"
    unfolding may_send_def
    by (simp add: mailbox_of_def mailbox_rows_def sees_def sample_started_def sample_mailbox_def
        is_suppressed_in_def suppression_rows_def lock_key_def sent_since_def outbound_rows_def)
  have id: "om_rfc822_message_id (row_of sample_started 11 sample_mailbox ''a@b.c'' ''Hi'' ''b'')
     = ''<'' @ ''abc'' @ ''@'' @ last (split_on CHR ''@'' ''me@acme.io'') @ ''>''"
    by (simp add: row_of_def outbound_for_def message_for_def guarded_def)
  show ?thesis
    using dispatch_delivers [OF may, of sample_sender "''Hi''" "''b''"
        "\<lparr> se_provider_message_id = ''p1'', se_provider_thread_id = ''t1'' \<rparr>"] that
    by (simp add: sample_sender_def id dispatched_def)
qed

lemma settle_sent_is_sent: "settle claim t c l (DispatchSent m at) w = (Inr x, w') \<Longrightarrow> x = O_SENT"
  by (auto simp: settle_def elim!: bindp_InrE thenp_InrE)

lemma sample_processed:
  obtains w' where "session_for_workspace 11 (bindp now (\<lambda>t. process_claimed (email_dispatch sample_sender) (sample_claim 1) t))
      (sample_world (sample_lead SCHEDULED 0) [sample_job 7 1 JRUNNING]) = (Inr O_SENT, w')"
proof -
  let ?w = "sample_world (sample_lead SCHEDULED 0) [sample_job 7 1 JRUNNING]"
  let ?m = "bindp now (\<lambda>t. process_claimed (email_dispatch sample_sender) (sample_claim 1) t)"
  obtain r w' where run: "session_for_workspace 11 ?m ?w = (r, w')" by fastforce
  have "consistent ?w" "hand_ok 11 ?w (sample_claim 1)"
    using sample_sound by (simp_all add: sample_system_def sound_def)
  from process_session(2) [OF this run] obtain x where x: "r = Inr x" by (auto simp: processed_def)
  have world: "?w\<lparr>guc := Some 11, own := [], reads := Suc 0\<rparr> = sample_started"
    by (simp add: sample_started_def sample_world_def)
  obtain i at v where d: "email_dispatch sample_sender 11 ''a@b.c'' ''Hi'' ''b'' sample_started = (Inr (DispatchSent i at), v)"
    by (rule sample_started_sends)
  have acc: "accepts_send sample_campaign (sample_lead SCHEDULED 0) 1"
    by (simp add: accepts_send_def is_active_def SENDABLE_STATES_def)
  have "process_claimed (email_dispatch sample_sender) (sample_claim 1) 1000 sample_started
      = settle (sample_claim 1) 1000 sample_campaign (sample_lead SCHEDULED 0) (DispatchSent i at) v"
    using d acc by (simp add: process_claimed_def bindp_run sample_started_look)
  moreover obtain y u where p: "process_claimed (email_dispatch sample_sender) (sample_claim 1) 1000 sample_started = (y, u)"
    by fastforce
  moreover have "y = Inr x"
    using run x world p by (cases y) (simp_all add: session_for_workspace_def session_def bindp_run)
  ultimately have "x = O_SENT" using settle_sent_is_sent by metis
  with run x that show ?thesis by blast
qed

text \<open>The claim is processed, and then processed again by a worker that still holds it.\<close>

lemma sample_twice:
  obtains s1 s2 where "runs sample_system s1" "sy_sent s1 = [(11, 6, 1)]" "system_step 11 s1 s2"
    and "sy_hands s1 = {(11, sample_claim 1)}" "runs sample_system s2" "system_step 11 sample_system s1"
proof -
  let ?P = "session_for_workspace 11 (bindp now (\<lambda>t. process_claimed (email_dispatch sample_sender) (sample_claim 1) t))"
  obtain w1 where 1: "?P (sample_world (sample_lead SCHEDULED 0) [sample_job 7 1 JRUNNING]) = (Inr O_SENT, w1)"
    by (rule sample_processed)
  obtain r w2 where 2: "?P w1 = (r, w2)" by fastforce
  let ?h = "{(11, sample_claim 1)}"
  have h: "(11, sample_claim 1) \<in> ?h" by simp
  let ?s1 = "system.make w1 ?h [(11, 6, 1)]"
  have s1: "system_step 11 sample_system ?s1"
    using system_step.processes [OF h 1, of "[]"] by (simp add: sample_system_def sent_by_def)
  have s2: "system_step 11 ?s1 (system.make w2 ?h ([(11, 6, 1)] @ sent_by 11 (sample_claim 1) r))"
    by (rule system_step.processes [OF h 2])
  show ?thesis
    by (rule that [OF runs.more [OF runs.start s1] _ s2 _ runs.more [OF runs.more [OF runs.start s1] s2] s1]) simp_all
qed

lemma sample_mails:
  obtains s1 where "system_step 11 sample_system s1" "wire (sy_world s1) \<noteq> wire (sy_world sample_system)"
proof -
  let ?w = "sample_world (sample_lead SCHEDULED 0) [sample_job 7 1 JRUNNING]"
  let ?m = "bindp now (\<lambda>t. process_claimed (email_dispatch sample_sender) (sample_claim 1) t)"
  obtain r w' where run: "session_for_workspace 11 ?m ?w = (r, w')" by fastforce
  have world: "?w\<lparr>guc := Some 11, own := [], reads := Suc 0\<rparr> = sample_started"
    by (simp add: sample_started_def sample_world_def)
  obtain i at v where d: "email_dispatch sample_sender 11 ''a@b.c'' ''Hi'' ''b'' sample_started = (Inr (DispatchSent i at), v)"
    and v: "wire v \<noteq> []"
    by (rule sample_started_sends)
  have acc: "accepts_send sample_campaign (sample_lead SCHEDULED 0) 1"
    by (simp add: accepts_send_def is_active_def SENDABLE_STATES_def)
  have p: "process_claimed (email_dispatch sample_sender) (sample_claim 1) 1000 sample_started
      = settle (sample_claim 1) 1000 sample_campaign (sample_lead SCHEDULED 0) (DispatchSent i at) v"
    using d acc by (simp add: process_claimed_def bindp_run sample_started_look)
  obtain y u where st: "settle (sample_claim 1) 1000 sample_campaign (sample_lead SCHEDULED 0) (DispatchSent i at) v = (y, u)"
    by fastforce
  have "wire u = wire v" by (rule keepsD_run [OF mute_settle _ st]) simp
  then have "wire w' = wire v"
    using run world p st by (cases y) (auto simp: session_for_workspace_def session_def bindp_run)
  moreover have "system_step 11 sample_system (system.make w' {(11, sample_claim 1)} (sent_by 11 (sample_claim 1) r))"
    using system_step.processes [OF _ run, of "{(11, sample_claim 1)}" "[]"] by (simp add: sample_system_def)
  ultimately show ?thesis using v that by (simp add: sample_system_def)
qed

end
