(* ===== verification/Base64.thy ===== *)
theory Base64
  imports Errors "HOL-Library.Word"
begin

text \<open>
  The \<open>base64\<close> module as the mail adapters use it: \<open>urlsafe_b64encode\<close>, and
  \<open>urlsafe_b64decode\<close> with the lenient scanner of \<open>binascii.a2b_base64\<close>, which skips characters
  outside the alphabet and stops at a complete padding. A byte is an \<open>8 word\<close>.
\<close>

unbundle bit_operations_syntax

type_synonym byte = "8 word"

section \<open>The alphabet\<close>

definition b64_alphabet :: string where
  "b64_alphabet = ''ABCDEFGHIJKLMNOPQRSTUVWXYZabcdefghijklmnopqrstuvwxyz0123456789+/''"

definition b64_char :: "byte \<Rightarrow> char" where
  "b64_char v = b64_alphabet ! unat v"

definition b64_value :: "char \<Rightarrow> byte option" where
  "b64_value c = map_of (zip b64_alphabet (map of_nat [0..<64])) c"

text \<open>The two translations of the URL-safe variant.\<close>

definition to_urlsafe :: "char \<Rightarrow> char" where
  "to_urlsafe c = (if c = CHR ''+'' then CHR ''-'' else if c = CHR ''/'' then CHR ''_'' else c)"

definition from_urlsafe :: "char \<Rightarrow> char" where
  "from_urlsafe c = (if c = CHR ''-'' then CHR ''+'' else if c = CHR ''_'' then CHR ''/'' else c)"

lemma length_alphabet [simp]: "length b64_alphabet = 64"
  by (simp add: b64_alphabet_def)

lemma distinct_alphabet: "distinct b64_alphabet"
  by (simp add: b64_alphabet_def)

lemma alphabet_plain: "c \<in> set b64_alphabet \<Longrightarrow> c \<noteq> CHR ''='' \<and> from_urlsafe (to_urlsafe c) = c"
  by (auto simp: b64_alphabet_def from_urlsafe_def to_urlsafe_def)

lemma b64_char_in: "unat v < 64 \<Longrightarrow> b64_char v \<in> set b64_alphabet"
  by (simp add: b64_char_def)

lemma b64_value_char: "unat v < 64 \<Longrightarrow> b64_value (b64_char v) = Some v"
  using map_of_zip_nth [of b64_alphabet "map of_nat [0..<64] :: byte list" "unat v"] distinct_alphabet
  by (simp add: b64_value_def b64_char_def)

section \<open>Encoding\<close>

text \<open>The four sextets of a group of three bytes.\<close>

definition sextet1 :: "byte \<Rightarrow> byte" where
  "sextet1 a = drop_bit 2 a"

definition sextet2 :: "byte \<Rightarrow> byte \<Rightarrow> byte" where
  "sextet2 a b = push_bit 4 (take_bit 2 a) OR drop_bit 4 b"

definition sextet3 :: "byte \<Rightarrow> byte \<Rightarrow> byte" where
  "sextet3 b c = push_bit 2 (take_bit 4 b) OR drop_bit 6 c"

definition sextet4 :: "byte \<Rightarrow> byte" where
  "sextet4 c = take_bit 6 c"

fun b2a_base64 :: "byte list \<Rightarrow> string" where
  "b2a_base64 [] = []"
| "b2a_base64 [a] = [b64_char (sextet1 a), b64_char (sextet2 a 0), CHR ''='', CHR ''='']"
| "b2a_base64 [a, b] = [b64_char (sextet1 a), b64_char (sextet2 a b), b64_char (sextet3 b 0), CHR ''='']"
| "b2a_base64 (a # b # c # bs) =
     b64_char (sextet1 a) # b64_char (sextet2 a b) # b64_char (sextet3 b c) # b64_char (sextet4 c) # b2a_base64 bs"

definition urlsafe_b64encode :: "byte list \<Rightarrow> string" where
  "urlsafe_b64encode bs = map to_urlsafe (b2a_base64 bs)"

section \<open>Decoding\<close>

text \<open>
  The loop of \<open>a2b_base64\<close>: the position in the group of four, the bits left over from the last
  character, the padding characters seen since, and the bytes so far. A mask of \<open>n\<close> ones is \<open>take_bit n\<close>.
\<close>

definition byte1 :: "byte \<Rightarrow> byte \<Rightarrow> byte" where
  "byte1 left v = push_bit 2 left OR drop_bit 4 v"

definition byte2 :: "byte \<Rightarrow> byte \<Rightarrow> byte" where
  "byte2 left v = push_bit 4 left OR drop_bit 2 v"

definition byte3 :: "byte \<Rightarrow> byte \<Rightarrow> byte" where
  "byte3 left v = push_bit 6 left OR v"

fun a2b_loop :: "string \<Rightarrow> nat \<Rightarrow> byte \<Rightarrow> nat \<Rightarrow> byte list \<Rightarrow> exn + byte list" where
  "a2b_loop [] quad left pads out =
     (if quad = 0 then Inr out
      else if quad = 1 then Inl (ValueError (''Invalid base64-encoded string: number of data characters (''
             @ nat_str (length out div 3 * 4 + 1) @ '') cannot be 1 more than a multiple of 4''))
      else Inl (ValueError ''Incorrect padding''))"
| "a2b_loop (c # cs) quad left pads out =
     (if c = CHR ''='' then
        if 2 \<le> quad \<and> 4 \<le> quad + Suc pads then Inr out
        else a2b_loop cs quad left (if 2 \<le> quad then Suc pads else pads) out
      else case b64_value c of
          None \<Rightarrow> a2b_loop cs quad left pads out
        | Some v \<Rightarrow>
            if quad = 0 then a2b_loop cs 1 v 0 out
            else if quad = 1 then a2b_loop cs 2 (take_bit 4 v) 0 (out @ [byte1 left v])
            else if quad = 2 then a2b_loop cs 3 (take_bit 2 v) 0 (out @ [byte2 left v])
            else a2b_loop cs 0 0 0 (out @ [byte3 left v]))"

definition a2b_base64 :: "string \<Rightarrow> exn + byte list" where
  "a2b_base64 s = a2b_loop s 0 0 0 []"

definition urlsafe_b64decode :: "string \<Rightarrow> exn + byte list" where
  "urlsafe_b64decode s =
     (if list_ex (\<lambda>c. 128 \<le> code c) s then Inl (ValueError ''string argument should contain only ASCII characters'')
      else a2b_base64 (map from_urlsafe s))"

text \<open>\<open>data + "=" * (-len(data) % 4)\<close>, the padding that the mail service leaves out.\<close>

definition repad :: "string \<Rightarrow> string" where
  "repad s = s @ replicate (nat (- int (length s) mod 4)) (CHR ''='')"

section \<open>Round trip\<close>

lemma byte_eqI:
  fixes v w :: byte
  assumes "\<And>n. n < 8 \<Longrightarrow> bit v n = bit w n"
  shows "v = w"
  by (rule bit_word_eqI, rule assms) simp

lemma byte_position:
  assumes "n < (8::nat)"
  obtains "n = 0" | "n = 1" | "n = 2" | "n = 3" | "n = 4" | "n = 5" | "n = 6" | "n = 7"
  using assms by fastforce

lemma high_bit:
  fixes a :: byte
  shows "8 \<le> n \<Longrightarrow> \<not> bit a n"
  using bit_imp_le_length [of a n] by auto

lemma below_64:
  fixes v :: byte
  assumes "\<not> bit v 6" "\<not> bit v 7"
  shows "unat v < 64"
proof -
  have "v = take_bit 6 v"
  proof (rule byte_eqI)
    fix n :: nat assume "n < 8"
    then have "n < 6 \<or> n = 6 \<or> n = 7" by linarith
    then show "bit v n = bit (take_bit 6 v) n" using assms by (auto simp: bit_take_bit_iff)
  qed
  then have "unat v = take_bit 6 (unat v)" by (metis unsigned_take_bit_eq)
  then show ?thesis using take_bit_nat_less_exp [of 6 "unat v"] by simp
qed

lemma sextets: "unat (sextet1 a) < 64" "unat (sextet2 a b) < 64" "unat (sextet3 b c) < 64" "unat (sextet4 c) < 64"
  unfolding sextet1_def sextet2_def sextet3_def sextet4_def
  by (rule below_64; simp add: bit_simps high_bit)+

lemma rejoined:
  shows "byte1 (sextet1 a) (sextet2 a b) = a"
    and "byte2 (take_bit 4 (sextet2 a b)) (sextet3 b c) = b"
    and "byte3 (take_bit 2 (sextet3 b c)) (sextet4 c) = c"
  unfolding sextet1_def sextet2_def sextet3_def sextet4_def byte1_def byte2_def byte3_def
  by (rule byte_eqI, erule byte_position; simp add: bit_simps high_bit)+

lemma encoded_plain:
  assumes "unat v < 64"
  shows "from_urlsafe (to_urlsafe (b64_char v)) = b64_char v" "b64_char v \<noteq> CHR ''=''"
  using alphabet_plain [OF b64_char_in [OF assms]] by auto

lemma urlsafe_pad [simp]: "to_urlsafe (CHR ''='') = CHR ''=''" "from_urlsafe (CHR ''='') = CHR ''=''"
  by (simp_all add: to_urlsafe_def from_urlsafe_def)

lemma a2b_encoded: "a2b_loop (map (from_urlsafe \<circ> to_urlsafe) (b2a_base64 bs)) 0 0 0 out = Inr (out @ bs)"
  by (induction bs arbitrary: out rule: b2a_base64.induct)
    (simp_all add: encoded_plain sextets b64_value_char rejoined)

lemma to_urlsafe_ascii: "code c < 128 \<Longrightarrow> code (to_urlsafe c) < 128"
  by (simp add: to_urlsafe_def)

lemma alphabet_ascii: "c \<in> set b64_alphabet \<Longrightarrow> code c < 128"
  by (auto simp: b64_alphabet_def)

lemma b2a_ascii: "c \<in> set (b2a_base64 bs) \<Longrightarrow> code c < 128"
  by (induction bs rule: b2a_base64.induct) (auto simp: alphabet_ascii b64_char_in sextets)

lemma decode_encode: "urlsafe_b64decode (urlsafe_b64encode bs) = Inr bs"
  using a2b_encoded [of bs "[]"]
  by (auto simp: urlsafe_b64decode_def urlsafe_b64encode_def a2b_base64_def list_ex_iff not_le
      dest: b2a_ascii to_urlsafe_ascii)

lemma length_b2a: "length (b2a_base64 bs) mod 4 = 0"
  by (induction bs rule: b2a_base64.induct) auto

end
