(* ===== verification/Gmail_Parse.thy ===== *)
theory Gmail_Parse
  imports Messaging Json_Text Py_Float Base64
begin

text \<open>
  Reading a Gmail message: \<open>parse_message\<close> and its helpers in
  \<open>contexts/messaging/infrastructure/gmail/receiver.py\<close>. Two functions of the standard library
  are parameters: \<open>email.utils.parseaddr\<close>, and the decoding of UTF-8 with replacement, whose
  result ranges over code points that the strings of the model do not hold.
\<close>

section \<open>Loops that may raise\<close>

primrec sum_map :: "('a \<Rightarrow> 'e + 'b) \<Rightarrow> 'a list \<Rightarrow> 'e + 'b list" where
  "sum_map f [] = Inr []"
| "sum_map f (x # xs) = sum_bind (f x) (\<lambda>y. sum_bind (sum_map f xs) (\<lambda>ys. Inr (y # ys)))"

text \<open>\<open>any(f(x) for x in xs)\<close>, and the first \<open>f(x)\<close> that is not \<open>None\<close>.\<close>

primrec sum_any :: "('a \<Rightarrow> 'e + bool) \<Rightarrow> 'a list \<Rightarrow> 'e + bool" where
  "sum_any f [] = Inr False"
| "sum_any f (x # xs) = sum_bind (f x) (\<lambda>b. if b then Inr True else sum_any f xs)"

primrec sum_first :: "('a \<Rightarrow> 'e + 'b option) \<Rightarrow> 'a list \<Rightarrow> 'e + 'b option" where
  "sum_first f [] = Inr None"
| "sum_first f (x # xs) = sum_bind (f x) (\<lambda>r. case r of None \<Rightarrow> sum_first f xs | Some y \<Rightarrow> Inr (Some y))"

lemma sum_bind_cong [fundef_cong]:
  "r = r' \<Longrightarrow> (\<And>x. r' = Inr x \<Longrightarrow> f x = g x) \<Longrightarrow> sum_bind r f = sum_bind r' g"
  by (cases r') auto

lemma sum_any_cong [fundef_cong]:
  "xs = ys \<Longrightarrow> (\<And>x. x \<in> set ys \<Longrightarrow> f x = g x) \<Longrightarrow> sum_any f xs = sum_any g ys"
  by (induction ys arbitrary: xs) (auto intro: sum_bind_cong)

lemma sum_first_cong [fundef_cong]:
  "xs = ys \<Longrightarrow> (\<And>x. x \<in> set ys \<Longrightarrow> f x = g x) \<Longrightarrow> sum_first f xs = sum_first g ys"
  by (induction ys arbitrary: xs) (auto intro!: sum_bind_cong split: option.splits)

text \<open>The parts of a JSON value are smaller than it.\<close>

definition j_parts :: "json \<Rightarrow> exn + json list" where
  "j_parts part = sum_bind (j_get_default part ''parts'' (JArr [])) j_iter"

lemma size_map_of: "map_of kvs k = Some v \<Longrightarrow> size v < size (JObj kvs)"
  by (induction kvs) (auto split: if_splits)

lemma size_j_get: "j_get j k = Inr (Some v) \<Longrightarrow> size v < size j"
  by (cases "(j, k)" rule: j_get.cases) (auto dest: size_map_of)

lemma size_j_iter: "j_iter j = Inr xs \<Longrightarrow> x \<in> set xs \<Longrightarrow> size x < Suc (size j)"
  by (cases j rule: j_iter.cases) (auto simp: less_Suc_eq_le dest: size_list_estimation' [where f = size, OF _ order_refl])

lemma size_j_parts:
  assumes "j_parts part = Inr subs" and "x \<in> set subs"
  shows "size x < size part"
proof -
  obtain v where get: "j_get part ''parts'' = Inr v"
    using assms(1) by (auto simp: j_parts_def j_get_default_def sum_bind_Inr)
  show ?thesis
  proof (cases v)
    case None
    with assms get show ?thesis by (simp add: j_parts_def j_get_default_def)
  next
    case (Some w)
    with assms get have "size x < Suc (size w)"
      by (auto simp: j_parts_def j_get_default_def dest: size_j_iter)
    moreover have "size w < size part" using get Some by (auto dest: size_j_get)
    ultimately show ?thesis by simp
  qed
qed

section \<open>Headers\<close>

definition header_pair :: "json \<Rightarrow> exn + string \<times> json" where
  "header_pair header =
     sum_bind (j_item header ''name'') (\<lambda>name.
     sum_bind (str_method name ''lower'') (\<lambda>name.
     sum_bind (j_item header ''value'') (\<lambda>value. Inr (lower name, value))))"

text \<open>The dictionary of the headers of a part: a later header replaces an earlier one.\<close>

definition headers_of :: "json \<Rightarrow> exn + (string \<rightharpoonup> json)" where
  "headers_of part =
     sum_bind (j_get_default part ''headers'' (JArr [])) (\<lambda>headers.
     sum_bind (j_iter headers) (\<lambda>headers.
     sum_bind (sum_map header_pair headers) (\<lambda>pairs. Inr (map_of (rev pairs)))))"

definition header_or :: "(string \<rightharpoonup> json) \<Rightarrow> string \<Rightarrow> json" where
  "header_or headers name = (case headers name of None \<Rightarrow> JStr [] | Some v \<Rightarrow> v)"

section \<open>Bounces\<close>

definition BOUNCE_SENDER_LOCAL_PARTS :: "string list" where
  "BOUNCE_SENDER_LOCAL_PARTS = [''mailer-daemon'', ''postmaster'']"

text \<open>Whether a part is itself a delivery status; the recursion goes over its parts.\<close>

definition is_delivery_status :: "json \<Rightarrow> exn + bool" where
  "is_delivery_status part =
     sum_bind (j_get_default part ''mimeType'' (JStr [])) (\<lambda>mime_type.
     sum_bind (str_method mime_type ''lower'') (\<lambda>mime_type.
       if lower mime_type = ''message/delivery-status'' then Inr True
       else sum_bind (headers_of part) (\<lambda>part_headers.
            sum_bind (str_method (header_or part_headers ''content-type'') ''lower'') (\<lambda>content_type.
              Inr (lower mime_type = ''multipart/report''
                   \<and> contains (str_remove [CHR 0x22] (lower content_type)) ''report-type=delivery-status'')))))"

function has_delivery_status :: "json \<Rightarrow> exn + bool" where
  "has_delivery_status part =
     sum_bind (is_delivery_status part) (\<lambda>found.
       if found then Inr True
       else sum_bind (j_parts part) (\<lambda>subs. sum_any has_delivery_status subs))"
  by pat_completeness auto
termination
  by (relation "measure size") (auto dest: size_j_parts)

declare has_delivery_status.simps [simp del]

definition is_bounce :: "(string \<rightharpoonup> json) \<Rightarrow> json \<Rightarrow> string \<Rightarrow> exn + bool" where
  "is_bounce headers payload from_email =
     (if headers ''x-failed-recipients'' \<noteq> None then Inr True
      else if fst (str_partition (CHR ''@'') from_email) \<in> set BOUNCE_SENDER_LOCAL_PARTS then Inr True
      else sum_bind (str_method (header_or headers ''auto-submitted'') ''strip'') (\<lambda>auto_submitted.
           if startswith (lower (strip auto_submitted)) ''auto-'' then has_delivery_status payload
           else Inr False))"

section \<open>The body\<close>

definition BODY_MAX_CHARS :: nat where
  "BODY_MAX_CHARS = 2000"

definition decode_base64url :: "(byte list \<Rightarrow> string) \<Rightarrow> json \<Rightarrow> exn + string" where
  "decode_base64url utf8 data =
     (case data of
        JStr s \<Rightarrow> sum_bind (urlsafe_b64decode (repad s)) (\<lambda>bs. Inr (utf8 bs))
      | _ \<Rightarrow> Inl (TypeError ''str expected''))"

text \<open>The text of a part that is plain text and has data.\<close>

definition own_plain_text :: "(byte list \<Rightarrow> string) \<Rightarrow> json \<Rightarrow> exn + string option" where
  "own_plain_text utf8 part =
     sum_bind (j_get part ''mimeType'') (\<lambda>mime_type.
       if mime_type = Some (JStr ''text/plain'')
       then sum_bind (j_get_default part ''body'' (JObj [])) (\<lambda>body.
            sum_bind (j_get_default body ''data'' JNull) (\<lambda>data.
              if truthy data then sum_bind (decode_base64url utf8 data) (\<lambda>text. Inr (Some text))
              else Inr None))
       else Inr None)"

function first_plain_text :: "(byte list \<Rightarrow> string) \<Rightarrow> json \<Rightarrow> exn + string option" where
  "first_plain_text utf8 part =
     sum_bind (own_plain_text utf8 part) (\<lambda>own.
       case own of Some text \<Rightarrow> Inr (Some text)
       | None \<Rightarrow> sum_bind (j_parts part) (\<lambda>subs. sum_first (first_plain_text utf8) subs))"
  by pat_completeness auto
termination
  by (relation "measure (size \<circ> snd)") (auto dest: size_j_parts)

declare first_plain_text.simps [simp del]

text \<open>\<open>s.splitlines()\<close>\<close>

definition line_break :: "char \<Rightarrow> bool" where
  "line_break c \<longleftrightarrow> (let k = code c in (10 \<le> k \<and> k \<le> 13) \<or> (28 \<le> k \<and> k \<le> 30) \<or> k = 133)"

function split_lines :: "string \<Rightarrow> string \<Rightarrow> string list" where
  "split_lines cur [] = (if cur = [] then [] else [cur])"
| "split_lines cur (c # cs) =
     (if line_break c
      then cur # split_lines [] (if c = CHR 0x0D \<and> startswith cs [CHR 0x0A] then tl cs else cs)
      else split_lines (cur @ [c]) cs)"
  by pat_completeness auto
termination
  by (relation "measure (length \<circ> snd)") auto

definition splitlines :: "string \<Rightarrow> string list" where
  "splitlines s = split_lines [] s"

text \<open>
  A stripped line matches the quote header when it is \<open>On\<close>, a text between two word
  boundaries, and \<open>wrote:\<close>.
\<close>

definition quote_header :: "string \<Rightarrow> bool" where
  "quote_header s =
     (let rest = drop 2 s; middle = take (length rest - 6) rest
      in startswith s ''On'' \<and> 6 < length rest \<and> drop (length rest - 6) rest = ''wrote:''
         \<and> \<not> word_char (hd middle) \<and> \<not> word_char (last middle))"

definition quote_starts :: "string \<Rightarrow> bool" where
  "quote_starts stripped \<longleftrightarrow> startswith stripped ''>'' \<or> startswith stripped ''From:''
     \<or> stripped = ''-----Original Message-----'' \<or> quote_header stripped"

definition strip_quotes :: "string \<Rightarrow> string" where
  "strip_quotes body =
     strip (joined [CHR 0x0A] (takeWhile (\<lambda>line. \<not> quote_starts (strip line)) (splitlines body)))"

definition extract_body :: "(byte list \<Rightarrow> string) \<Rightarrow> json \<Rightarrow> exn + string" where
  "extract_body utf8 payload =
     sum_bind (first_plain_text utf8 payload) (\<lambda>raw.
       Inr (case raw of None \<Rightarrow> [] | Some text \<Rightarrow> take BODY_MAX_CHARS (strip_quotes text)))"

section \<open>The message\<close>

text \<open>\<open>parseaddr\<close> reads a string or the first item of a list; anything else has no address.\<close>

definition sender_address :: "(string \<Rightarrow> string \<times> string) \<Rightarrow> json \<Rightarrow> exn + string" where
  "sender_address parseaddr v =
     (case v of JStr s \<Rightarrow> Inr (snd (parseaddr s))
      | JArr [] \<Rightarrow> Inl (IndexError ''list index out of range'')
      | JArr (JStr s # _) \<Rightarrow> Inr (snd (parseaddr s))
      | _ \<Rightarrow> Inr [])"

definition opt_field :: "json option \<Rightarrow> exn + string option" where
  "opt_field v = (case v of None \<Rightarrow> Inr None | Some JNull \<Rightarrow> Inr None
     | Some j \<Rightarrow> sum_bind (str_field j) (\<lambda>s. Inr (Some s)))"

definition parse_message ::
  "(string \<Rightarrow> string \<times> string) \<Rightarrow> (byte list \<Rightarrow> string) \<Rightarrow> json \<Rightarrow> exn + fetched_message" where
  "parse_message parseaddr utf8 data =
     sum_bind (j_get_default data ''payload'' (JObj [])) (\<lambda>payload.
     sum_bind (headers_of payload) (\<lambda>headers.
     sum_bind (j_get_default data ''internalDate'' (JStr ''0'')) (\<lambda>internal_date.
     sum_bind (py_int internal_date) (\<lambda>ms.
     sum_bind (fromtimestamp_ms ms) (\<lambda>received_at.
     sum_bind (sender_address parseaddr (header_or headers ''from'')) (\<lambda>address.
     sum_bind (sum_bind (j_item data ''id'') str_field) (\<lambda>message_id.
     sum_bind (sum_bind (j_item data ''threadId'') str_field) (\<lambda>thread_id.
     sum_bind (str_field (header_or headers ''subject'')) (\<lambda>subject.
     sum_bind (sum_bind (j_get_default data ''snippet'' (JStr [])) str_field) (\<lambda>snippet.
     sum_bind (opt_field (headers ''in-reply-to'')) (\<lambda>in_reply_to.
     sum_bind (opt_field (headers ''references'')) (\<lambda>references.
     sum_bind (extract_body utf8 payload) (\<lambda>body.
     sum_bind (is_bounce headers payload (lower address)) (\<lambda>bounce.
       Inr \<lparr> fm_provider_message_id = message_id, fm_provider_thread_id = thread_id,
             fm_from_email = lower address, fm_subject = subject, fm_snippet = snippet,
             fm_in_reply_to_header = in_reply_to, fm_references_header = references,
             fm_received_at = received_at, fm_body_text = body, fm_is_bounce = bounce \<rparr>))))))))))))))"

end
