(* ===== verification/Gmail.thy ===== *)
theory Gmail
  imports Gmail_Parse Send_Email
begin

text \<open>
  The Gmail adapters (\<open>contexts/messaging/infrastructure/gmail\<close>): the cached access token,
  the receiver that pages through the mailbox history, and the sender. The mail service is
  a function of the calls made so far, and \<open>time.monotonic\<close> an arbitrary clock read in order;
  its readings and the lives of tokens are whole microseconds (the rounding of doubles below
  that is not modelled).
\<close>

section \<open>The adapter's state\<close>

datatype http_method = GET | POST

text \<open>A request: \<open>params\<close> of a GET or the form fields of a POST, and a JSON body if there is one.\<close>

record http_call =
  hc_method :: http_method
  hc_url :: string
  hc_headers :: "(string \<times> string) list"
  hc_params :: "(string \<times> json) list"
  hc_json :: "json option"

record google_credentials =
  gc_client_id :: string
  gc_client_secret :: string
  gc_refresh_token :: string

record gmail =
  gm_clock :: "nat \<Rightarrow> time"
  gm_ticks :: nat
  gm_server :: "http_call list \<Rightarrow> http_call \<Rightarrow> exn + http_response"
  gm_calls :: "http_call list"
  gm_token :: json
  gm_expires_at :: time

type_synonym 'a gmail_act = "(gmail, exn, 'a) proc"

definition monotonic :: "time gmail_act" where
  "monotonic g = (Inr (gm_clock g (gm_ticks g)), g\<lparr>gm_ticks := Suc (gm_ticks g)\<rparr>)"

definition http_send :: "http_call \<Rightarrow> http_response gmail_act" where
  "http_send call g = (gm_server g (gm_calls g) call, g\<lparr>gm_calls := gm_calls g @ [call]\<rparr>)"

section \<open>The access token\<close>

definition TOKEN_URL :: string where
  "TOKEN_URL = ''https://oauth2.googleapis.com/token''"

definition EXPIRY_SKEW_SECONDS :: time where
  "EXPIRY_SKEW_SECONDS = seconds 60"

text \<open>
  \<open>float(value)\<close> as a time span, of an integer or a decimal text (\<open>inf\<close> and \<open>nan\<close> are refused
  here). The text stands for \<open>n * 10 ^ e\<close> seconds.
\<close>

definition scaled_seconds :: "int \<Rightarrow> int \<Rightarrow> time" where
  "scaled_seconds n e = (if 0 \<le> e + 6 then n * 10 ^ nat (e + 6) else n div 10 ^ nat (- (e + 6)))"

definition float_of_text :: "string \<Rightarrow> time option" where
  "float_of_text s =
     (let t = lower (strip s);
          negative = (take 1 t = ''-'');
          u = (if take 1 t \<in> {''-'', ''+''} then drop 1 t else t);
          (mantissa, exponent) = str_partition (CHR ''e'') u;
          (whole, part) = str_partition (CHR ''.'') mantissa;
          k = length (filter (\<lambda>c. c \<noteq> CHR ''_'') part);
          digits = (\<lambda>d. if d = [] then Some 0 else digits_start d)
      in if whole = [] \<and> part = [] \<or> list_ex isspace t then None
         else (case (digits whole, digits part,
                     if CHR ''e'' \<in> set u then int_of_text exponent else Some 0) of
                 (Some w, Some p, Some e) \<Rightarrow>
                   Some (scaled_seconds ((if negative then -1 else 1) * int (w * 10 ^ k + p)) (e - int k))
               | _ \<Rightarrow> None))"

fun py_float :: "json \<Rightarrow> exn + time" where
  "py_float (JInt i) = Inr (seconds i)"
| "py_float (JBool b) = Inr (seconds (if b then 1 else 0))"
| "py_float (JStr s) = (case float_of_text s of Some r \<Rightarrow> Inr r
     | None \<Rightarrow> Inl (ValueError (''could not convert string to float: '' @ repr_str s)))"
| "py_float _ = Inl (TypeError ''float() argument must be a string or a real number'')"

definition token_request :: "google_credentials \<Rightarrow> http_call" where
  "token_request creds =
     \<lparr> hc_method = POST, hc_url = TOKEN_URL, hc_headers = [],
       hc_params = [(''client_id'', JStr (gc_client_id creds)),
                    (''client_secret'', JStr (gc_client_secret creds)),
                    (''refresh_token'', JStr (gc_refresh_token creds)),
                    (''grant_type'', JStr ''refresh_token'')],
       hc_json = None \<rparr>"

definition refresh_token :: "google_credentials \<Rightarrow> json gmail_act" where
  "refresh_token creds =
     bindp (http_send (token_request creds)) (\<lambda>response.
     bindp (lift (raise_for_status response)) (\<lambda>response.
     bindp (lift (rs_json response)) (\<lambda>payload.
     bindp (lift (j_item payload ''access_token'')) (\<lambda>token.
     bindp (lift (sum_bind (j_get_default payload ''expires_in'' (JInt 3600)) py_float)) (\<lambda>ttl.
     thenp (modify (\<lambda>g. g\<lparr>gm_token := token\<rparr>)) (
     bindp monotonic (\<lambda>moment.
     thenp (modify (\<lambda>g. g\<lparr>gm_expires_at := moment + ttl - EXPIRY_SKEW_SECONDS\<rparr>))
       (ret token))))))))"

definition access_token :: "google_credentials \<Rightarrow> json gmail_act" where
  "access_token creds =
     bindp (gets gm_token) (\<lambda>token.
     bindp (if token = JNull then ret False
            else bindp monotonic (\<lambda>moment. gets (\<lambda>g. moment < gm_expires_at g))) (\<lambda>fresh.
       if fresh then ret token else refresh_token creds))"

definition auth :: "google_credentials \<Rightarrow> (string \<times> string) list gmail_act" where
  "auth creds = bindp (access_token creds) (\<lambda>token.
     ret [(''Authorization'', ''Bearer '' @ py_str token)])"

section \<open>The receiver\<close>

definition PROFILE_URL :: string where
  "PROFILE_URL = ''https://gmail.googleapis.com/gmail/v1/users/me/profile''"

definition HISTORY_URL :: string where
  "HISTORY_URL = ''https://gmail.googleapis.com/gmail/v1/users/me/history''"

definition MESSAGES_URL :: string where
  "MESSAGES_URL = ''https://gmail.googleapis.com/gmail/v1/users/me/messages''"

text \<open>An authorised GET.\<close>

definition gmail_get :: "google_credentials \<Rightarrow> string \<Rightarrow> (string \<times> json) list \<Rightarrow> http_response gmail_act" where
  "gmail_get creds url params =
     bindp (auth creds) (\<lambda>headers.
       http_send \<lparr> hc_method = GET, hc_url = url, hc_headers = headers, hc_params = params,
                   hc_json = None \<rparr>)"

definition current_history_id :: "google_credentials \<Rightarrow> string gmail_act" where
  "current_history_id creds =
     bindp (gmail_get creds PROFILE_URL []) (\<lambda>response.
     bindp (lift (raise_for_status response)) (\<lambda>response.
     lift (sum_bind (rs_json response) (\<lambda>data.
           sum_bind (j_item data ''historyId'') (\<lambda>h. Inr (py_str h))))))"

text \<open>
  The locals of the paging loop: the ids in order, the set of those seen (by the value that
  Python hashes), and the latest history id.
\<close>

record paging =
  pg_ordered :: "json list"
  pg_seen :: "json set"
  pg_latest :: string

primrec sum_fold :: "('a \<Rightarrow> 's \<Rightarrow> 'e + 's) \<Rightarrow> 'a list \<Rightarrow> 's \<Rightarrow> 'e + 's" where
  "sum_fold f [] s = Inr s"
| "sum_fold f (x # xs) s = sum_bind (f x s) (sum_fold f xs)"

definition add_message :: "json \<Rightarrow> paging \<Rightarrow> exn + paging" where
  "add_message added pg =
     sum_bind (j_get_default added ''message'' (JObj [])) (\<lambda>message.
     sum_bind (j_get_default message ''id'' JNull) (\<lambda>message_id.
       if \<not> truthy message_id then Inr pg
       else sum_bind (j_key message_id) (\<lambda>key.
            Inr (if key \<in> pg_seen pg then pg
                 else pg\<lparr>pg_seen := insert key (pg_seen pg),
                         pg_ordered := pg_ordered pg @ [message_id]\<rparr>))))"

definition add_record :: "json \<Rightarrow> paging \<Rightarrow> exn + paging" where
  "add_record rec pg =
     sum_bind (j_get_default rec ''messagesAdded'' (JArr [])) (\<lambda>added.
     sum_bind (j_iter added) (\<lambda>added. sum_fold add_message added pg))"

definition read_page :: "json \<Rightarrow> paging \<Rightarrow> exn + paging" where
  "read_page data pg =
     sum_bind (j_get_default data ''historyId'' JNull) (\<lambda>h.
     sum_bind (j_get_default data ''history'' (JArr [])) (\<lambda>history.
     sum_bind (j_iter history) (\<lambda>records.
       sum_fold add_record records (if truthy h then pg\<lparr>pg_latest := py_str h\<rparr> else pg))))"

text \<open>One turn of the loop: the page and the token of the next one.\<close>

definition history_params :: "string \<Rightarrow> json \<Rightarrow> (string \<times> json) list" where
  "history_params start_history_id page_token =
     [(''startHistoryId'', JStr start_history_id), (''historyTypes'', JStr ''messageAdded'')]
     @ (if truthy page_token then [(''pageToken'', page_token)] else [])"

definition history_page :: "google_credentials \<Rightarrow> string \<Rightarrow> json \<Rightarrow> json gmail_act" where
  "history_page creds start_history_id page_token =
     bindp (gmail_get creds HISTORY_URL (history_params start_history_id page_token)) (\<lambda>response.
     thenp (guardp (rs_status response \<noteq> 404) HistoryGoneError) (
     bindp (lift (raise_for_status response)) (\<lambda>response. lift (rs_json response))))"

definition next_page_token :: "json \<Rightarrow> exn + json" where
  "next_page_token data = j_get_default data ''nextPageToken'' JNull"

definition history_turn ::
  "google_credentials \<Rightarrow> string \<Rightarrow> json \<Rightarrow> paging \<Rightarrow> (paging \<times> json) gmail_act" where
  "history_turn creds start_history_id page_token pg =
     bindp (history_page creds start_history_id page_token) (\<lambda>data.
     lift (sum_bind (read_page data pg) (\<lambda>pg.
           sum_bind (next_page_token data) (\<lambda>nxt. Inr (pg, nxt)))))"

text \<open>The loop ends when a page names no next one, which the mail service decides.\<close>

partial_function (option) history_loop ::
  "google_credentials \<Rightarrow> string \<Rightarrow> json \<Rightarrow> paging \<Rightarrow> gmail \<Rightarrow> ((exn + paging) \<times> gmail) option" where
  "history_loop creds start_history_id page_token pg g =
     (case history_turn creds start_history_id page_token pg g of
        (Inl e, g') \<Rightarrow> Some (Inl e, g')
      | (Inr (pg', nxt), g') \<Rightarrow>
          if truthy nxt then history_loop creds start_history_id nxt pg' g'
          else Some (Inr pg', g'))"

definition added_message_ids ::
  "google_credentials \<Rightarrow> string \<Rightarrow> gmail \<Rightarrow> ((exn + paging) \<times> gmail) option" where
  "added_message_ids creds start_history_id g =
     history_loop creds start_history_id JNull
       \<lparr> pg_ordered = [], pg_seen = {}, pg_latest = start_history_id \<rparr> g"

text \<open>A message that arrived: in the inbox, not one of the mailbox's own.\<close>

definition incoming ::
  "(string \<Rightarrow> string \<times> string) \<Rightarrow> (byte list \<Rightarrow> string) \<Rightarrow> string \<Rightarrow> json \<Rightarrow> exn + fetched_message option" where
  "incoming parseaddr utf8 mailbox_email data =
     sum_bind (j_get_default data ''labelIds'' (JArr [])) (\<lambda>labels.
     sum_bind (j_contains labels ''SENT'') (\<lambda>own.
     sum_bind (if own then Inr False else j_contains labels ''INBOX'') (\<lambda>received.
       if \<not> received then Inr None
       else sum_bind (parse_message parseaddr utf8 data) (\<lambda>fetched.
            Inr (if fm_from_email fetched = lower mailbox_email then None else Some fetched)))))"

definition get_message ::
  "(string \<Rightarrow> string \<times> string) \<Rightarrow> (byte list \<Rightarrow> string) \<Rightarrow> google_credentials \<Rightarrow> string \<Rightarrow> json
   \<Rightarrow> fetched_message option gmail_act" where
  "get_message parseaddr utf8 creds mailbox_email message_id =
     bindp (gmail_get creds (MESSAGES_URL @ ''/'' @ py_str message_id) [(''format'', JStr ''full'')]) (\<lambda>response.
       if rs_status response = 404 then ret None
       else bindp (lift (raise_for_status response)) (\<lambda>response.
            lift (sum_bind (rs_json response) (incoming parseaddr utf8 mailbox_email))))"

definition fetch_messages ::
  "(string \<Rightarrow> string \<times> string) \<Rightarrow> (byte list \<Rightarrow> string) \<Rightarrow> google_credentials \<Rightarrow> string \<Rightarrow> paging
   \<Rightarrow> fetch_result gmail_act" where
  "fetch_messages parseaddr utf8 creds mailbox_email pg =
     bindp (mapp (get_message parseaddr utf8 creds mailbox_email) (pg_ordered pg)) (\<lambda>fetched.
       ret \<lparr> fr_new_cursor = pg_latest pg, fr_messages = List.map_filter id fetched \<rparr>)"

definition baseline :: "google_credentials \<Rightarrow> fetch_result gmail_act" where
  "baseline creds = bindp (current_history_id creds) (\<lambda>h. ret \<lparr> fr_new_cursor = h, fr_messages = [] \<rparr>)"

definition fetch_new ::
  "(string \<Rightarrow> string \<times> string) \<Rightarrow> (byte list \<Rightarrow> string) \<Rightarrow> google_credentials \<Rightarrow> string \<Rightarrow> string option
   \<Rightarrow> gmail \<Rightarrow> ((exn + fetch_result) \<times> gmail) option" where
  "fetch_new parseaddr utf8 creds mailbox_email since_cursor g =
     (case since_cursor of None \<Rightarrow> Some (baseline creds g)
      | Some cursor \<Rightarrow>
          (case added_message_ids creds cursor g of None \<Rightarrow> None
           | Some (Inl e, g') \<Rightarrow> if e = HistoryGoneError then Some (baseline creds g') else Some (Inl e, g')
           | Some (Inr pg, g') \<Rightarrow> Some (fetch_messages parseaddr utf8 creds mailbox_email pg g')))"

section \<open>The sender\<close>

text \<open>
  The MIME text of an \<open>EmailMessage\<close> (\<open>set_content\<close> and \<open>as_bytes\<close> of the standard library, and
  the errors of its header policy) is a parameter.
\<close>

definition SEND_URL :: string where
  "SEND_URL = ''https://gmail.googleapis.com/gmail/v1/users/me/messages/send''"

definition build_raw_message :: "(mail \<Rightarrow> exn + byte list) \<Rightarrow> mail \<Rightarrow> exn + string" where
  "build_raw_message mime m = sum_bind (mime m) (\<lambda>bs. Inr (urlsafe_b64encode bs))"

definition gmail_send :: "(mail \<Rightarrow> exn + byte list) \<Rightarrow> google_credentials \<Rightarrow> mail \<Rightarrow> sent_email gmail_act" where
  "gmail_send mime creds m =
     bindp (lift (build_raw_message mime m)) (\<lambda>raw.
     bindp (auth creds) (\<lambda>headers.
     bindp (http_send \<lparr> hc_method = POST, hc_url = SEND_URL, hc_headers = headers, hc_params = [],
                        hc_json = Some (JObj [(''raw'', JStr raw)]) \<rparr>) (\<lambda>response.
     bindp (lift (raise_for_status response)) (\<lambda>response.
     lift (sum_bind (rs_json response) (\<lambda>data.
           sum_bind (sum_bind (j_item data ''id'') str_field) (\<lambda>message_id.
           sum_bind (sum_bind (j_item data ''threadId'') str_field) (\<lambda>thread_id.
             Inr \<lparr> se_provider_message_id = message_id, se_provider_thread_id = thread_id \<rparr>))))))))"

end
