(* ===== verification/Gmail_Laws.thy ===== *)
theory Gmail_Laws
  imports Gmail
begin

text \<open>
  What the Gmail adapters promise: the token's life, the paging loop against its
  specification by rules, the messages that a fetch lets through, the body, and the round
  trip of the encoded message.
\<close>

section \<open>The token\<close>

lemma monotonic_run [proc_simps]: "monotonic g = (Inr (gm_clock g (gm_ticks g)), g\<lparr>gm_ticks := Suc (gm_ticks g)\<rparr>)"
  by (simp add: monotonic_def)

definition token_is_fresh :: "gmail \<Rightarrow> bool" where
  "token_is_fresh g \<longleftrightarrow> gm_token g \<noteq> JNull \<and> gm_clock g (gm_ticks g) < gm_expires_at g"

lemma access_token_fresh:
  "token_is_fresh g \<Longrightarrow> access_token creds g = (Inr (gm_token g), g\<lparr>gm_ticks := Suc (gm_ticks g)\<rparr>)"
  by (simp add: access_token_def bindp_run monotonic_run token_is_fresh_def)

lemma access_token_stale:
  "\<not> token_is_fresh g \<Longrightarrow> access_token creds g
     = refresh_token creds (if gm_token g = JNull then g else g\<lparr>gm_ticks := Suc (gm_ticks g)\<rparr>)"
  by (auto simp: access_token_def bindp_run monotonic_run token_is_fresh_def)

text \<open>A refresh asks once, and stores what it was given with the life it was given.\<close>

definition token_grant :: "gmail \<Rightarrow> google_credentials \<Rightarrow> exn + json \<times> time" where
  "token_grant g creds =
     sum_bind (gm_server g (gm_calls g) (token_request creds)) (\<lambda>response.
     sum_bind (raise_for_status response) (\<lambda>response.
     sum_bind (rs_json response) (\<lambda>payload.
     sum_bind (j_item payload ''access_token'') (\<lambda>token.
     sum_bind (sum_bind (j_get_default payload ''expires_in'' (JInt 3600)) py_float) (\<lambda>ttl.
       Inr (token, ttl))))))"

lemma refresh_token_run:
  "refresh_token creds g =
     (let g1 = g\<lparr>gm_calls := gm_calls g @ [token_request creds]\<rparr> in
      case token_grant g creds of Inl e \<Rightarrow> (Inl e, g1)
      | Inr (token, ttl) \<Rightarrow> (Inr token, g1\<lparr>gm_token := token, gm_ticks := Suc (gm_ticks g),
            gm_expires_at := gm_clock g (gm_ticks g) + ttl - seconds 60\<rparr>))"
  by (auto simp: refresh_token_def token_grant_def http_send_def bindp_def thenp_def lift_def modify_def ret_def
      monotonic_def sum_bind_def EXPIRY_SKEW_SECONDS_def Let_def split: sum.splits)

section \<open>The paging loop\<close>

text \<open>The pages of a history, from a token to the page that names no next one.\<close>

inductive pages_to_end :: "google_credentials \<Rightarrow> string \<Rightarrow> json \<Rightarrow> gmail \<Rightarrow> json list \<Rightarrow> gmail \<Rightarrow> bool"
  for creds start_id where
  last_page: "history_page creds start_id token g = (Inr data, g') \<Longrightarrow> next_page_token data = Inr nxt \<Longrightarrow>
    \<not> truthy nxt \<Longrightarrow> pages_to_end creds start_id token g [data] g'"
| more_pages: "history_page creds start_id token g = (Inr data, g') \<Longrightarrow> next_page_token data = Inr nxt \<Longrightarrow>
    truthy nxt \<Longrightarrow> pages_to_end creds start_id nxt g' ps g'' \<Longrightarrow>
    pages_to_end creds start_id token g (data # ps) g''"

lemma history_turn_Inr:
  "history_turn creds start_id token pg g = (Inr (pg', nxt), g') \<longleftrightarrow>
     (\<exists>data. history_page creds start_id token g = (Inr data, g') \<and> read_page data pg = Inr pg'
        \<and> next_page_token data = Inr nxt)"
  by (cases "history_page creds start_id token g"; cases "fst (history_page creds start_id token g)")
    (auto simp: history_turn_def bindp_run sum_bind_Inr)

lemma history_loop_sound:
  assumes "pages_to_end creds start_id token g ps g'" and "sum_fold read_page ps pg = Inr pg'"
  shows "history_loop creds start_id token pg g = Some (Inr pg', g')"
  using assms
proof (induction arbitrary: pg)
  case (last_page token g data g' nxt)
  then have "history_turn creds start_id token pg g = (Inr (pg', nxt), g')"
    by (auto simp: history_turn_Inr sum_bind_Inr)
  with last_page(3) show ?case by (simp add: history_loop.simps)
next
  case (more_pages token g data g' nxt ps g'')
  from more_pages.prems obtain pg1 where one: "read_page data pg = Inr pg1" "sum_fold read_page ps pg1 = Inr pg'"
    by (auto simp: sum_bind_Inr)
  with more_pages(1,2) have "history_turn creds start_id token pg g = (Inr (pg1, nxt), g')"
    by (auto simp: history_turn_Inr)
  with more_pages(3) more_pages.IH [OF one(2)] show ?case by (simp add: history_loop.simps)
qed

lemma history_loop_complete:
  assumes "history_loop creds start_id token pg g = Some z" and "fst z = Inr pg'"
  shows "\<exists>ps. pages_to_end creds start_id token g ps (snd z) \<and> sum_fold read_page ps pg = Inr pg'"
proof -
  define spec where "spec = (\<lambda>creds start_id token pg g (z :: (exn + paging) \<times> gmail). \<forall>pg'. fst z = Inr pg' \<longrightarrow>
    (\<exists>ps. pages_to_end creds start_id token g ps (snd z) \<and> sum_fold read_page ps pg = Inr pg'))"
  have "spec creds start_id token pg g z"
  proof (rule history_loop.raw_induct [of spec, OF _ assms(1)])
    fix loop creds start_id token pg g z
    assume IH: "\<And>creds start_id token pg g z. loop creds start_id token pg g = Some z \<Longrightarrow> spec creds start_id token pg g z"
      and body: "(case history_turn creds start_id token pg g of (Inl e, g') \<Rightarrow> Some (Inl e, g')
        | (Inr (pg', nxt), g') \<Rightarrow> if truthy nxt then loop creds start_id nxt pg' g' else Some (Inr pg', g')) = Some z"
    show "spec creds start_id token pg g z"
      unfolding spec_def
    proof (intro allI impI)
      fix pg' assume z: "fst z = Inr pg'"
      obtain res g1 where turn: "history_turn creds start_id token pg g = (res, g1)" by fastforce
      with body z obtain pg1 nxt where res: "res = Inr (pg1, nxt)" by (cases res) auto
      obtain data where d: "history_page creds start_id token g = (Inr data, g1)" "read_page data pg = Inr pg1"
        "next_page_token data = Inr nxt" using turn res by (auto simp: history_turn_Inr)
      show "\<exists>ps. pages_to_end creds start_id token g ps (snd z) \<and> sum_fold read_page ps pg = Inr pg'"
      proof (cases "truthy nxt")
        case True
        then have "spec creds start_id nxt pg1 g1 z" using body turn res by (intro IH) simp
        with z obtain ps where "pages_to_end creds start_id nxt g1 ps (snd z)" "sum_fold read_page ps pg1 = Inr pg'"
          by (auto simp: spec_def)
        with d True show ?thesis by (intro exI [of _ "data # ps"]) (auto intro: pages_to_end.intros)
      next
        case False
        then have "z = (Inr pg1, g1)" using body turn res by simp
        with d False z show ?thesis by (intro exI [of _ "[data]"]) (auto intro: pages_to_end.intros)
      qed
    qed
  qed
  with assms(2) show ?thesis by (simp add: spec_def)
qed

lemma history_loop_iff:
  "history_loop creds start_id token pg g = Some (Inr pg', g') \<longleftrightarrow>
     (\<exists>ps. pages_to_end creds start_id token g ps g' \<and> sum_fold read_page ps pg = Inr pg')"
  using history_loop_complete [of creds start_id token pg g "(Inr pg', g')"] history_loop_sound by auto

section \<open>The listed messages\<close>

text \<open>A page lists a message id when some record of its history has it among the messages added.\<close>

definition json_items :: "json \<Rightarrow> string \<Rightarrow> exn + json list" where
  "json_items j key = sum_bind (j_get_default j key (JArr [])) j_iter"

definition added_id :: "json \<Rightarrow> exn + json" where
  "added_id added = sum_bind (j_get_default added ''message'' (JObj [])) (\<lambda>m. j_get_default m ''id'' JNull)"

definition lists_id :: "json \<Rightarrow> json \<Rightarrow> bool" where
  "lists_id data i \<longleftrightarrow> truthy i \<and> (\<exists>rs r as a. json_items data ''history'' = Inr rs \<and> r \<in> set rs
     \<and> json_items r ''messagesAdded'' = Inr as \<and> a \<in> set as \<and> added_id a = Inr i)"

text \<open>The invariant of the loop: the ids have distinct keys, which are the ones seen.\<close>

definition paging_ok :: "paging \<Rightarrow> bool" where
  "paging_ok pg \<longleftrightarrow> distinct (map j_key (pg_ordered pg)) \<and> Inr ` pg_seen pg = j_key ` set (pg_ordered pg)"

definition paging_extends :: "(json \<Rightarrow> bool) \<Rightarrow> paging \<Rightarrow> paging \<Rightarrow> bool" where
  "paging_extends new pg pg' \<longleftrightarrow> (paging_ok pg \<longrightarrow> paging_ok pg') \<and> set (pg_ordered pg) \<subseteq> set (pg_ordered pg')
     \<and> pg_seen pg \<subseteq> pg_seen pg' \<and> (\<forall>i\<in>set (pg_ordered pg'). i \<in> set (pg_ordered pg) \<or> new i)
     \<and> (\<forall>i. new i \<longrightarrow> j_key i \<in> Inr ` pg_seen pg')"

lemma paging_extends_refl: "(\<And>i. \<not> new i) \<Longrightarrow> paging_extends new pg pg"
  by (simp add: paging_extends_def)

lemma paging_extends_trans:
  assumes "paging_extends a pg pg1" and "paging_extends b pg1 pg2" and "\<And>i. new i \<longleftrightarrow> a i \<or> b i"
  shows "paging_extends new pg pg2"
proof -
  have A: "paging_ok pg \<Longrightarrow> paging_ok pg1" "set (pg_ordered pg) \<subseteq> set (pg_ordered pg1)" "pg_seen pg \<subseteq> pg_seen pg1"
    "\<And>i. i \<in> set (pg_ordered pg1) \<Longrightarrow> i \<in> set (pg_ordered pg) \<or> a i" "\<And>i. a i \<Longrightarrow> j_key i \<in> Inr ` pg_seen pg1"
    using assms(1) by (simp_all add: paging_extends_def)
  have B: "paging_ok pg1 \<Longrightarrow> paging_ok pg2" "set (pg_ordered pg1) \<subseteq> set (pg_ordered pg2)" "pg_seen pg1 \<subseteq> pg_seen pg2"
    "\<And>i. i \<in> set (pg_ordered pg2) \<Longrightarrow> i \<in> set (pg_ordered pg1) \<or> b i" "\<And>i. b i \<Longrightarrow> j_key i \<in> Inr ` pg_seen pg2"
    using assms(2) by (simp_all add: paging_extends_def)
  have "j_key i \<in> Inr ` pg_seen pg2" if "new i" for i
    using that A(5) [of i] B(5) [of i] image_mono [OF B(3), of Inr] by (auto simp: assms(3))
  moreover have "i \<in> set (pg_ordered pg) \<or> new i" if "i \<in> set (pg_ordered pg2)" for i
    using that A(4) [of i] B(4) [of i] by (auto simp: assms(3))
  ultimately show ?thesis
    using A(1) B(1) subset_trans [OF A(2) B(2)] subset_trans [OF A(3) B(3)] by (simp add: paging_extends_def)
qed

lemma paging_extends_fold:
  assumes "\<And>x pg pg'. x \<in> set xs \<Longrightarrow> f x pg = Inr pg' \<Longrightarrow> paging_extends (P x) pg pg'"
    and "sum_fold f xs pg = Inr pg'"
  shows "paging_extends (\<lambda>i. \<exists>x\<in>set xs. P x i) pg pg'"
  using assms
proof (induction xs arbitrary: pg)
  case Nil
  then show ?case by (simp add: paging_extends_refl)
next
  case (Cons x xs)
  from Cons.prems(2) obtain pg1 where one: "f x pg = Inr pg1" "sum_fold f xs pg1 = Inr pg'"
    by (auto simp: sum_bind_Inr)
  have "paging_extends (P x) pg pg1" using Cons.prems(1) one(1) by simp
  moreover have "paging_extends (\<lambda>i. \<exists>x\<in>set xs. P x i) pg1 pg'" using Cons one(2) by simp
  ultimately show ?case by (rule paging_extends_trans) simp
qed

lemma add_message_extends:
  assumes "add_message added pg = Inr pg'"
  shows "paging_extends (\<lambda>i. truthy i \<and> added_id added = Inr i) pg pg'"
proof -
  obtain i where i: "added_id added = Inr i"
    using assms by (auto simp: add_message_def added_id_def sum_bind_Inr)
  show ?thesis
  proof (cases "truthy i")
    case False
    with assms i have "pg' = pg" by (auto simp: add_message_def added_id_def sum_bind_Inr)
    with False i show ?thesis by (auto intro: paging_extends_refl)
  next
    case True
    with assms i obtain key where key: "j_key i = Inr key"
      and pg': "pg' = (if key \<in> pg_seen pg then pg else pg\<lparr>pg_seen := insert key (pg_seen pg),
        pg_ordered := pg_ordered pg @ [i]\<rparr>)"
      by (auto simp: add_message_def added_id_def sum_bind_Inr)
    have "Inr key \<notin> j_key ` set (pg_ordered pg)" if "paging_ok pg" "key \<notin> pg_seen pg"
      using that by (auto simp: paging_ok_def dest!: equalityD2)
    then show ?thesis using True i key pg' by (auto simp: paging_extends_def paging_ok_def)
  qed
qed

lemma add_record_extends:
  assumes "add_record rec pg = Inr pg'"
  shows "paging_extends (\<lambda>i. truthy i \<and> (\<exists>as a. json_items rec ''messagesAdded'' = Inr as \<and> a \<in> set as \<and> added_id a = Inr i)) pg pg'"
proof -
  obtain as where as: "json_items rec ''messagesAdded'' = Inr as" "sum_fold add_message as pg = Inr pg'"
    using assms by (auto simp: add_record_def json_items_def sum_bind_Inr)
  have "paging_extends (\<lambda>i. \<exists>a\<in>set as. truthy i \<and> added_id a = Inr i) pg pg'"
    using as(2) by (rule paging_extends_fold [rotated]) (rule add_message_extends)
  then show ?thesis by (rule back_subst [where P = "\<lambda>new. paging_extends new pg pg'"]) (use as(1) in auto)
qed

lemma read_page_extends:
  assumes "read_page data pg = Inr pg'"
  shows "paging_extends (lists_id data) pg pg'"
proof -
  obtain h rs where rs: "json_items data ''history'' = Inr rs"
    and fold: "sum_fold add_record rs (if truthy h then pg\<lparr>pg_latest := py_str h\<rparr> else pg) = Inr pg'"
    using assms by (auto simp: read_page_def json_items_def sum_bind_Inr)
  have "paging_extends (\<lambda>i. \<exists>r\<in>set rs. truthy i \<and> (\<exists>as a. json_items r ''messagesAdded'' = Inr as \<and> a \<in> set as \<and> added_id a = Inr i))
      (if truthy h then pg\<lparr>pg_latest := py_str h\<rparr> else pg) pg'"
    using fold by (rule paging_extends_fold [rotated]) (rule add_record_extends)
  then have "paging_extends (\<lambda>i. \<exists>r\<in>set rs. truthy i \<and> (\<exists>as a. json_items r ''messagesAdded'' = Inr as \<and> a \<in> set as \<and> added_id a = Inr i)) pg pg'"
    by (auto simp: paging_extends_def paging_ok_def split: if_splits)
  then show ?thesis by (rule back_subst [where P = "\<lambda>new. paging_extends new pg pg'"]) (use rs in \<open>auto simp: lists_id_def fun_eq_iff\<close>)
qed

lemma read_pages_extends:
  "sum_fold read_page ps pg = Inr pg' \<Longrightarrow> paging_extends (\<lambda>i. \<exists>p\<in>set ps. lists_id p i) pg pg'"
  by (rule paging_extends_fold [OF read_page_extends])

lemma added_message_ids_Inr:
  assumes "added_message_ids creds start_id g = Some (Inr pg, g')"
  obtains ps where "pages_to_end creds start_id JNull g ps g'" "distinct (map j_key (pg_ordered pg))"
    "\<And>i. i \<in> set (pg_ordered pg) \<Longrightarrow> \<exists>p\<in>set ps. lists_id p i"
    "\<And>p i. p \<in> set ps \<Longrightarrow> lists_id p i \<Longrightarrow> j_key i \<in> j_key ` set (pg_ordered pg)"
proof -
  let ?start = "\<lparr> pg_ordered = [], pg_seen = {}, pg_latest = start_id \<rparr>"
  obtain ps where ps: "pages_to_end creds start_id JNull g ps g'" "sum_fold read_page ps ?start = Inr pg"
    using assms by (auto simp: added_message_ids_def history_loop_iff)
  have ext: "paging_extends (\<lambda>i. \<exists>p\<in>set ps. lists_id p i) ?start pg" using ps(2) by (rule read_pages_extends)
  have "paging_ok ?start" by (simp add: paging_ok_def)
  then have "paging_ok pg" using ext by (simp only: paging_extends_def)
  have key: "\<And>p i. p \<in> set ps \<Longrightarrow> lists_id p i \<Longrightarrow> j_key i \<in> Inr ` pg_seen pg"
    using ext unfolding paging_extends_def by blast
  have listed: "\<And>i. i \<in> set (pg_ordered pg) \<Longrightarrow> \<exists>p\<in>set ps. lists_id p i"
    using ext by (auto simp: paging_extends_def)
  from \<open>paging_ok pg\<close> have ok: "distinct (map j_key (pg_ordered pg))" "Inr ` pg_seen pg = j_key ` set (pg_ordered pg)"
    by (simp_all only: paging_ok_def)
  have "j_key i \<in> j_key ` set (pg_ordered pg)" if "p \<in> set ps" "lists_id p i" for p i
    using key [OF that] by (simp only: ok(2))
  note member = this
  show ?thesis by (rule that [OF ps(1) ok(1)], erule listed, erule (1) member)
qed

section \<open>The loop ends where the service's pages do\<close>

lemma keeps_server [keep_intros]:
  "keeps (\<lambda>g. gm_server g = s) monotonic" "keeps (\<lambda>g. gm_server g = s) (http_send call)"
  "keeps (\<lambda>g. gm_server g = s) (modify (\<lambda>g. g\<lparr>gm_token := t\<rparr>))"
  "keeps (\<lambda>g. gm_server g = s) (modify (\<lambda>g. g\<lparr>gm_expires_at := f g\<rparr>))"
  by (simp_all add: keeps_def monotonic_def http_send_def)

lemma refresh_keeps_server [keep_intros]: "keeps (\<lambda>g. gm_server g = s) (refresh_token creds)"
  unfolding refresh_token_def by (intro keep_intros)

lemma auth_keeps_server [keep_intros]: "keeps (\<lambda>g. gm_server g = s) (auth creds)"
  unfolding auth_def access_token_def by (intro keep_intros)

lemma get_keeps_server [keep_intros]: "keeps (\<lambda>g. gm_server g = s) (gmail_get creds url params)"
  unfolding gmail_get_def by (intro keep_intros)

lemma page_keeps_server: "keeps (\<lambda>g. gm_server g = s) (history_page creds start_id token)"
  unfolding history_page_def by (intro keep_intros)

lemma auth_server: "auth creds g = (r, g') \<Longrightarrow> gm_server g' = gm_server g"
  by (rule keepsD_run [OF auth_keeps_server [of "gm_server g" creds] refl])

lemma page_server: "history_page creds start_id token g = (r, g') \<Longrightarrow> gm_server g' = gm_server g"
  by (rule keepsD_run [OF page_keeps_server [of "gm_server g" creds] refl])

definition get_call :: "(string \<times> string) list \<Rightarrow> string \<Rightarrow> (string \<times> json) list \<Rightarrow> http_call" where
  "get_call headers url params =
     \<lparr> hc_method = GET, hc_url = url, hc_headers = headers, hc_params = params, hc_json = None \<rparr>"

lemma gmail_get_Inr:
  assumes "gmail_get creds url params g = (Inr response, g')"
  obtains past headers where "gm_server g past (get_call headers url params) = Inr response"
  using assms by (auto simp: gmail_get_def get_call_def http_send_def dest!: auth_server elim!: bindp_InrE)

lemma history_page_Inr:
  assumes "history_page creds start_id token g = (Inr data, g')"
  obtains past headers response
  where "gm_server g past (get_call headers HISTORY_URL (history_params start_id token)) = Inr response"
    "rs_json response = Inr data"
proof -
  obtain response g1 where "gmail_get creds HISTORY_URL (history_params start_id token) g = (Inr response, g1)"
    "rs_json response = Inr data"
    using assms
    by (auto simp: history_page_def raise_for_status_def elim!: bindp_InrE thenp_InrE split: if_splits)
  then show ?thesis by (metis gmail_get_Inr that)
qed

text \<open>The service hands out page tokens of decreasing rank: its pages are finitely many.\<close>

definition ranked_pages :: "(json \<Rightarrow> nat) \<Rightarrow> string \<Rightarrow> (http_call list \<Rightarrow> http_call \<Rightarrow> exn + http_response) \<Rightarrow> bool" where
  "ranked_pages rank start_id server \<longleftrightarrow>
     (\<forall>past headers token response data nxt.
        server past (get_call headers HISTORY_URL (history_params start_id token)) = Inr response \<longrightarrow>
        rs_json response = Inr data \<longrightarrow> next_page_token data = Inr nxt \<longrightarrow> truthy nxt \<longrightarrow> rank nxt < rank token)"

lemma history_loop_returns:
  assumes "ranked_pages rank start_id (gm_server g)"
  shows "\<exists>r. history_loop creds start_id token pg g = Some r"
  using assms
proof (induction "rank token" arbitrary: token pg g rule: less_induct)
  case less
  obtain res g1 where turn: "history_turn creds start_id token pg g = (res, g1)" by fastforce
  show ?case
  proof (cases res)
    case (Inl e)
    with turn show ?thesis by (simp add: history_loop.simps)
  next
    case (Inr a)
    then obtain pg1 nxt where a: "res = Inr (pg1, nxt)" by (cases a) auto
    with turn obtain data where page: "history_page creds start_id token g = (Inr data, g1)"
      and nxt: "next_page_token data = Inr nxt" by (auto simp: history_turn_Inr)
    show ?thesis
    proof (cases "truthy nxt")
      case False
      with turn a show ?thesis by (simp add: history_loop.simps)
    next
      case True
      obtain past headers response
        where "gm_server g past (get_call headers HISTORY_URL (history_params start_id token)) = Inr response"
          "rs_json response = Inr data" using page by (rule history_page_Inr)
      with less.prems nxt True have "rank nxt < rank token" unfolding ranked_pages_def by blast
      moreover have "ranked_pages rank start_id (gm_server g1)" using less.prems page_server [OF page] by simp
      ultimately have "\<exists>r. history_loop creds start_id nxt pg1 g1 = Some r" by (rule less.hyps)
      with turn a True show ?thesis by (simp add: history_loop.simps)
    qed
  qed
qed

lemma fetch_new_returns:
  assumes "\<And>cursor. since = Some cursor \<Longrightarrow> ranked_pages rank cursor (gm_server g)"
  shows "\<exists>r. fetch_new parseaddr utf8 creds mailbox_email since g = Some r"
proof (cases since)
  case None
  then show ?thesis by (simp add: fetch_new_def)
next
  case (Some cursor)
  obtain z where "added_message_ids creds cursor g = Some z"
    unfolding added_message_ids_def using history_loop_returns [OF assms [OF Some]] by blast
  then obtain res g1 where "added_message_ids creds cursor g = Some (res, g1)" by (cases z) simp
  with Some show ?thesis by (cases res) (simp_all add: fetch_new_def)
qed

section \<open>The messages a fetch lets through\<close>

lemma length_extract_body: "extract_body utf8 payload = Inr body \<Longrightarrow> length body \<le> BODY_MAX_CHARS"
  by (auto simp: extract_body_def sum_bind_Inr split: option.splits)

lemma parse_message_body:
  "parse_message parseaddr utf8 data = Inr m \<Longrightarrow> length (fm_body_text m) \<le> BODY_MAX_CHARS"
  by (auto simp: parse_message_def sum_bind_Inr dest: length_extract_body)

lemma parse_message_from:
  "parse_message parseaddr utf8 data = Inr m \<Longrightarrow> lower (fm_from_email m) = fm_from_email m"
  by (auto simp: parse_message_def sum_bind_Inr)

lemma str_field_Inr: "str_field j = Inr s \<longleftrightarrow> j = JStr s"
  by (cases j) (auto simp: str_field_def)

lemma parse_message_id:
  "parse_message parseaddr utf8 data = Inr m \<Longrightarrow> j_item data ''id'' = Inr (JStr (fm_provider_message_id m))"
  by (auto simp: parse_message_def sum_bind_Inr str_field_Inr)

lemma parse_message_time:
  assumes "parse_message parseaddr utf8 data = Inr m"
  obtains ms where "fromtimestamp_ms ms = Inr (fm_received_at m)"
  using assms by (auto simp: parse_message_def sum_bind_Inr)

text \<open>What the receiver promises of a message.\<close>

definition arrived ::
  "(string \<Rightarrow> string \<times> string) \<Rightarrow> (byte list \<Rightarrow> string) \<Rightarrow> string \<Rightarrow> json \<Rightarrow> fetched_message \<Rightarrow> bool" where
  "arrived parseaddr utf8 mailbox_email data m \<longleftrightarrow> parse_message parseaddr utf8 data = Inr m
     \<and> (\<exists>labels. j_get_default data ''labelIds'' (JArr []) = Inr labels
          \<and> j_contains labels ''INBOX'' = Inr True \<and> j_contains labels ''SENT'' = Inr False)
     \<and> fm_from_email m \<noteq> lower mailbox_email"

lemma incoming_Some: "incoming parseaddr utf8 mailbox_email data = Inr (Some m) \<longleftrightarrow>
    arrived parseaddr utf8 mailbox_email data m"
  by (auto simp: incoming_def arrived_def sum_bind_Inr split: if_splits)

lemma get_message_keeps_server [keep_intros]:
  "keeps (\<lambda>g. gm_server g = s) (get_message parseaddr utf8 creds mailbox_email i)"
  unfolding get_message_def by (intro keep_intros)

text \<open>A fetched message is what the service answered for an id that was asked for.\<close>

definition answers_call :: "gmail \<Rightarrow> json \<Rightarrow> json \<Rightarrow> bool" where
  "answers_call g i data \<longleftrightarrow> (\<exists>past headers response.
     gm_server g past (get_call headers (MESSAGES_URL @ ''/'' @ py_str i) [(''format'', JStr ''full'')]) = Inr response
     \<and> rs_json response = Inr data)"

lemma get_message_Some:
  assumes "get_message parseaddr utf8 creds mailbox_email i g = (Inr (Some m), g')"
  obtains data where "answers_call g i data" "arrived parseaddr utf8 mailbox_email data m"
proof -
  obtain response g1 data where
    "gmail_get creds (MESSAGES_URL @ ''/'' @ py_str i) [(''format'', JStr ''full'')] g = (Inr response, g1)"
    "rs_json response = Inr data" "arrived parseaddr utf8 mailbox_email data m"
    using assms by (auto simp: get_message_def raise_for_status_def sum_bind_Inr incoming_Some
        elim!: bindp_InrE split: if_splits)
  then show ?thesis using that unfolding answers_call_def by (metis gmail_get_Inr)
qed

lemma mapp_get_message:
  assumes "mapp (get_message parseaddr utf8 creds mailbox_email) is g = (Inr ms, g')" and "Some m \<in> set ms"
  shows "\<exists>i\<in>set is. \<exists>data. answers_call g i data \<and> arrived parseaddr utf8 mailbox_email data m"
  using assms
proof (induction "is" arbitrary: g ms g')
  case Nil
  then show ?case by simp
next
  case (Cons i rest)
  from Cons.prems(1) obtain x g1 xs g2 where one: "get_message parseaddr utf8 creds mailbox_email i g = (Inr x, g1)"
    "mapp (get_message parseaddr utf8 creds mailbox_email) rest g1 = (Inr xs, g2)" "ms = x # xs"
    by (auto elim!: bindp_InrE)
  have server: "gm_server g1 = gm_server g"
    by (rule keepsD_run [OF get_message_keeps_server [of "gm_server g"] refl one(1)])
  show ?case
  proof (cases "x = Some m")
    case True
    with one(1) show ?thesis by (auto elim!: get_message_Some)
  next
    case False
    with Cons.prems(2) one(3) have "Some m \<in> set xs" by simp
    from Cons.IH [OF one(2) this] server show ?thesis by (auto simp: answers_call_def)
  qed
qed

lemma fetch_messages_Inr:
  assumes "fetch_messages parseaddr utf8 creds mailbox_email pg g = (Inr res, g')"
  shows "fr_new_cursor res = pg_latest pg"
    and "m \<in> set (fr_messages res) \<Longrightarrow> \<exists>i\<in>set (pg_ordered pg). \<exists>data. answers_call g i data
          \<and> arrived parseaddr utf8 mailbox_email data m"
  using assms mapp_get_message [of parseaddr utf8 creds mailbox_email "pg_ordered pg" g]
  by (auto simp: fetch_messages_def map_filter_def elim!: bindp_InrE)

text \<open>A fetch that returns has a baseline and no message, or the history's pages behind it.\<close>

lemma fetch_new_cases:
  assumes "fetch_new parseaddr utf8 creds mailbox_email since g = Some (Inr res, g')"
  obtains (based) "fr_messages res = []"
  | (paged) cursor pg g1 where "since = Some cursor" "added_message_ids creds cursor g = Some (Inr pg, g1)"
      "fetch_messages parseaddr utf8 creds mailbox_email pg g1 = (Inr res, g')"
proof (cases since)
  case None
  with assms have "fr_messages res = []" by (auto simp: fetch_new_def baseline_def elim!: bindp_InrE)
  then show ?thesis by (rule based)
next
  case (Some cursor)
  with assms obtain r g1 where *: "added_message_ids creds cursor g = Some (r, g1)"
    by (auto simp: fetch_new_def split: option.splits)
  show ?thesis
  proof (cases r)
    case (Inl e)
    with assms Some * have "fr_messages res = []"
      by (auto simp: fetch_new_def baseline_def elim!: bindp_InrE split: if_splits)
    then show ?thesis by (rule based)
  next
    case (Inr pg)
    with assms Some * show ?thesis by (intro paged [of cursor pg g1]) (simp_all add: fetch_new_def)
  qed
qed

section \<open>An expired history\<close>

lemma history_gone:
  assumes "gmail_get creds HISTORY_URL (history_params cursor JNull) g = (Inr response, g1)"
    and "rs_status response = 404"
  shows "fetch_new parseaddr utf8 creds mailbox_email (Some cursor) g = Some (baseline creds g1)"
proof -
  have "history_page creds cursor JNull g = (Inl HistoryGoneError, g1)"
    using assms by (simp add: history_page_def)
  then have "history_turn creds cursor JNull pg g = (Inl HistoryGoneError, g1)" for pg
    by (simp add: history_turn_def)
  then have "added_message_ids creds cursor g = Some (Inl HistoryGoneError, g1)"
    by (simp add: added_message_ids_def history_loop.simps)
  then show ?thesis by (simp add: fetch_new_def)
qed

section \<open>The encoded text\<close>

text \<open>The mail service leaves the padding out of the data it returns.\<close>

definition unpadded :: "string \<Rightarrow> string" where
  "unpadded s = takeWhile (\<lambda>c. c \<noteq> CHR ''='') s"

lemma b2a_shape:
  obtains core k where "b2a_base64 bs = core @ replicate k (CHR ''='')" "CHR ''='' \<notin> set core" "k < 4"
    "(length core + k) mod 4 = 0"
proof -
  have plain: "b64_char (sextet1 a) \<noteq> CHR ''=''" "b64_char (sextet2 a b) \<noteq> CHR ''=''"
    "b64_char (sextet3 b c) \<noteq> CHR ''=''" "b64_char (sextet4 c) \<noteq> CHR ''=''" for a b c
    by (simp_all add: encoded_plain sextets)
  have "\<exists>core k. b2a_base64 bs = core @ replicate k (CHR ''='') \<and> CHR ''='' \<notin> set core \<and> k < 4
    \<and> (length core + k) mod 4 = 0"
  proof (induction bs rule: b2a_base64.induct)
    case 1
    show ?case by (intro exI [of _ "[]"] exI [of _ 0]) simp
  next
    case (2 a)
    show ?case
      by (intro exI [of _ "[b64_char (sextet1 a), b64_char (sextet2 a 0)]"] exI [of _ 2])
        (simp add: plain [symmetric] numeral_2_eq_2)
  next
    case (3 a b)
    show ?case
      by (intro exI [of _ "[b64_char (sextet1 a), b64_char (sextet2 a b), b64_char (sextet3 b 0)]"] exI [of _ 1])
        (simp add: plain [symmetric])
  next
    case (4 a b c bs)
    then obtain core k where "b2a_base64 bs = core @ replicate k (CHR ''='')" "CHR ''='' \<notin> set core" "k < 4"
      "(length core + k) mod 4 = 0" by (elim exE conjE)
    then show ?case
      by (intro exI [of _ "b64_char (sextet1 a) # b64_char (sextet2 a b) # b64_char (sextet3 b c) # b64_char (sextet4 c) # core"]
          exI [of _ k]) (simp add: plain [symmetric])
  qed
  then show ?thesis by (elim exE conjE) (rule that)
qed

lemma to_urlsafe_pad: "to_urlsafe c = CHR ''='' \<longleftrightarrow> c = CHR ''=''"
  by (simp add: to_urlsafe_def)

lemma repad_unpadded: "repad (unpadded (urlsafe_b64encode bs)) = urlsafe_b64encode bs"
proof -
  obtain core k where s: "b2a_base64 bs = core @ replicate k (CHR ''='')" "CHR ''='' \<notin> set core" "k < 4"
    "(length core + k) mod 4 = 0" by (rule b2a_shape)
  have "takeWhile (\<lambda>c. c \<noteq> CHR ''='') (map to_urlsafe core @ replicate k (CHR ''='')) = map to_urlsafe core"
    using s(2) by (subst takeWhile_append2) (auto simp: to_urlsafe_pad)
  then have unp: "unpadded (urlsafe_b64encode bs) = map to_urlsafe core"
    using s(1) by (simp add: unpadded_def urlsafe_b64encode_def)
  from s(4) obtain m where "length core + k = 4 * m" by (auto simp: dvd_def simp flip: mod_0_imp_dvd)
  then have "int (length core) = 4 * int m - int k" by linarith
  then have "- int (length core) mod 4 = int k" using s(3) by presburger
  then show ?thesis using unp s(1) by (simp add: repad_def urlsafe_b64encode_def)
qed

lemma repad_encoded: "repad (urlsafe_b64encode bs) = urlsafe_b64encode bs"
proof -
  have "length (urlsafe_b64encode bs) mod 4 = 0" by (simp add: urlsafe_b64encode_def length_b2a)
  then have "- int (length (urlsafe_b64encode bs)) mod 4 = 0" by presburger
  then show ?thesis by (simp add: repad_def)
qed

lemma decode_data:
  assumes "data \<in> {urlsafe_b64encode bs, unpadded (urlsafe_b64encode bs)}"
  shows "decode_base64url utf8 (JStr data) = Inr (utf8 bs)"
  using assms by (auto simp: decode_base64url_def repad_encoded repad_unpadded decode_encode)

section \<open>Quoted text\<close>

definition one_line :: "string \<Rightarrow> bool" where
  "one_line l \<longleftrightarrow> (\<forall>c\<in>set l. \<not> line_break c)"

lemma split_lines_one: "one_line l \<Longrightarrow> split_lines cur l = (if cur @ l = [] then [] else [cur @ l])"
  by (induction l arbitrary: cur) (auto simp: one_line_def)

lemma split_lines_feed: "one_line l \<Longrightarrow> split_lines cur (l @ CHR 0x0A # s) = (cur @ l) # split_lines [] s"
  by (induction l arbitrary: cur) (auto simp: one_line_def line_break_def)

lemma splitlines_joined:
  assumes "\<forall>l\<in>set ls. one_line l" and "one_line q" and "q \<noteq> []"
  obtains more where "splitlines (joined [CHR 0x0A] (ls @ q # rest)) = ls @ q # more"
proof -
  have "\<exists>more. splitlines (joined [CHR 0x0A] (ls @ q # rest)) = ls @ q # more"
    using assms(1)
  proof (induction ls)
    case Nil
    then show ?case using assms(2,3)
      by (cases rest) (simp_all add: splitlines_def split_lines_one split_lines_feed)
  next
    case (Cons l ls)
    then obtain more where more: "splitlines (joined [CHR 0x0A] (ls @ q # rest)) = ls @ q # more" by auto
    have "joined [CHR 0x0A] (l # ls @ q # rest) = l @ CHR 0x0A # joined [CHR 0x0A] (ls @ q # rest)"
      by (cases ls) simp_all
    then show ?case using Cons.prems more by (simp add: splitlines_def split_lines_feed)
  qed
  then show ?thesis using that by blast
qed

lemma quote_starts_nonempty: "quote_starts s \<Longrightarrow> s \<noteq> []"
  by (auto simp: quote_starts_def quote_header_def startswith_def)

lemma strip_quotes_cut:
  assumes "\<forall>l\<in>set ls. one_line l \<and> \<not> quote_starts (strip l)" and "one_line q" and "quote_starts (strip q)"
  shows "strip_quotes (joined [CHR 0x0A] (ls @ q # rest)) = strip (joined [CHR 0x0A] ls)"
proof -
  have "q \<noteq> []" using assms(3) by (auto dest: quote_starts_nonempty)
  then obtain more where "splitlines (joined [CHR 0x0A] (ls @ q # rest)) = ls @ q # more"
    using assms(1,2) splitlines_joined [of ls q rest] by blast
  moreover have "takeWhile (\<lambda>line. \<not> quote_starts (strip line)) (ls @ q # more) = ls"
    using assms(1,3) by (subst takeWhile_append2) auto
  ultimately show ?thesis by (simp add: strip_quotes_def)
qed

text \<open>The header of a quoted message, as mail programs write it.\<close>

lemma quote_header_iff:
  "quote_header s \<longleftrightarrow> (\<exists>middle. s = ''On'' @ middle @ ''wrote:'' \<and> middle \<noteq> []
     \<and> \<not> word_char (hd middle) \<and> \<not> word_char (last middle))"
proof
  assume q: "quote_header s"
  then obtain rest where s: "s = ''On'' @ rest" by (auto simp: quote_header_def Let_def startswith_iff)
  let ?m = "take (length rest - 6) rest"
  have "rest = ?m @ ''wrote:''" and m: "\<not> word_char (hd ?m)" "\<not> word_char (last ?m)" "?m \<noteq> []"
    using q append_take_drop_id [of "length rest - 6" rest] by (auto simp: quote_header_def Let_def s)
  then have "s = ''On'' @ ?m @ ''wrote:''" using s by metis
  with m show "\<exists>middle. s = ''On'' @ middle @ ''wrote:'' \<and> middle \<noteq> []
     \<and> \<not> word_char (hd middle) \<and> \<not> word_char (last middle)" by blast
qed (auto simp: quote_header_def startswith_def)

end
