(* ===== verification/Gmail_Ports.thy ===== *)
theory Gmail_Ports
  imports Gmail_Laws Poll_Laws
begin

text \<open>
  The Gmail adapter as the ports of the application: the contract of the receiver port and
  what a poll makes of it, the adapter as its instance, and the sender that the dispatcher
  is given.
\<close>

section \<open>The receiver port\<close>

definition received_from :: "(string \<Rightarrow> bool) \<Rightarrow> uuid set \<Rightarrow> world \<Rightarrow> bool" where
  "received_from P old w \<longleftrightarrow> (\<forall>r\<in>set (t_inbound (db w)). im_id r \<in> old \<or> P (im_from_email r))"

lemma received_from_simps [simp]:
  "received_from P old (w\<lparr>reads := n\<rparr>) = received_from P old w"
  "received_from P old (w\<lparr>next_uuid := n\<rparr>) = received_from P old w"
  "received_from P old (w\<lparr>db := (db w)\<lparr>t_outbox := b\<rparr>\<rparr>) = received_from P old w"
  "received_from P old (w\<lparr>db := (db w)\<lparr>t_suppressions := c\<rparr>\<rparr>) = received_from P old w"
  "received_from P old (w\<lparr>db := (db w)\<lparr>t_mailboxes := d\<rparr>\<rparr>) = received_from P old w"
  by (simp_all add: received_from_def)

lemma keeps_foldp_set: "(\<And>x s. x \<in> set xs \<Longrightarrow> keeps I (f x s)) \<Longrightarrow> keeps I (foldp f xs s)"
  by (induction xs arbitrary: s) (auto intro!: keeps_ret keeps_bindp)

lemma keeps_from_record: "keeps (received_from P old) (outbox_record t wsp i pl)"
  unfolding outbox_record_def by (intro keep_intros keeps_insert_row) auto

lemma keeps_from_update: "keeps (received_from P old) (inbound_update x)"
proof (rule keepsI)
  fix w assume "received_from P old w"
  then show "received_from P old (snd (inbound_update x w))"
    by (auto simp: inbound_update_def bindp_run modify_db_def received_from_def set_update_rows)
qed

lemma keeps_from_suppress: "keeps (received_from P old) (suppressions_add s)"
  by (auto simp: keeps_def suppressions_add_def split: option.splits)

lemma keeps_from_classify: "keeps (received_from P old) (classify_reply classify mb f msg matched)"
  unfolding classify_reply_def Suppression_new_def
  by (intro keep_intros keeps_from_record keeps_from_update keeps_from_suppress) auto

lemma keeps_from_add: "P (im_from_email m) \<Longrightarrow> keeps (received_from P old) (inbound_add m)"
  unfolding inbound_add_def by (intro keeps_insert_row) (auto simp: received_from_def)

text \<open>What every step of a poll keeps, the handling of a message and the whole poll keep.\<close>

lemma keeps_poll_one:
  assumes stable: "\<And>w n k. I w \<Longrightarrow> I (w\<lparr>next_uuid := n, reads := k\<rparr>)"
    and add: "\<And>m. im_from_email m = fm_from_email f \<Longrightarrow> im_received_at m = fm_received_at f \<Longrightarrow> keeps I (inbound_add m)"
    and announce: "\<And>m. im_received_at m = fm_received_at f \<Longrightarrow>
      keeps I (outbox_record ''InboundReceived'' (mv_workspace_id mb) (im_id m) (received_payload mb m))"
    and reply: "\<And>m matched. keeps I (classify_reply classify mb f m matched)"
  shows "keeps I (poll_one classify mb f st)"
proof (rule keepsI)
  fix w assume w: "I w"
  obtain cands n ints where st: "st = (cands, n, ints)" by (cases st)
  let ?new = "InboundMessage_new (mv_workspace_id mb) (mv_id mb) f :: inbound_message act"
  define rest where "rest = (\<lambda>inbound. thenp (inbound_add inbound) (
          thenp (outbox_record ''InboundReceived'' (mv_workspace_id mb) (im_id inbound)
                   (received_payload mb inbound)) (
            case match_reply f cands of
              None \<Rightarrow> ret (cands, Suc n, ints)
            | Some matched \<Rightarrow>
                bindp (classify_reply classify mb f inbound matched) (\<lambda>i.
                  ret (filter (\<lambda>c. om_id c \<noteq> om_id matched) cands, Suc n, ints @ [i])))))"
  have rest: "keeps I (rest m)" if "im_from_email m = fm_from_email f" "im_received_at m = fm_received_at f" for m
    unfolding rest_def by (intro keep_intros add announce reply that)
  have "I (snd (bindp ?new rest w))"
    by (simp add: bindp_run InboundMessage_new_run keepsD [OF rest] stable w)
  then show "I (snd (poll_one classify mb f st w))"
    using w by (simp add: poll_one_def st bindp_run [of "inbound_exists _ _"] inbound_exists_def rest_def [symmetric])
qed

lemma poll_inbox_preserves:
  assumes start: "I w"
    and one: "\<And>res f st. receive (mv_email_address mb) (mv_last_sync_cursor mb) w = Inr res \<Longrightarrow> f \<in> set (fr_messages res)
      \<Longrightarrow> keeps I (poll_one classify mb f st)"
    and advance: "\<And>cursor. keeps I (gateway_advance_cursor (mv_workspace_id mb) cursor)"
  shows "I (snd (poll_inbox receive classify mb w))"
proof (cases "receive (mv_email_address mb) (mv_last_sync_cursor mb) w")
  case (Inl e)
  with start show ?thesis by (simp add: poll_inbox_def bindp_run)
next
  case (Inr fetched)
  have "keeps I (bindp (outbound_list_unanswered (mv_id mb)) (\<lambda>candidates.
     bindp (foldp (poll_one classify mb) (fr_messages fetched) (candidates, 0, [])) (\<lambda>state.
       case state of (_, processed, classified) \<Rightarrow>
       thenp (gateway_advance_cursor (mv_workspace_id mb) (fr_new_cursor fetched))
         (ret \<lparr> pr_processed = processed, pr_classified = classified \<rparr>))))"
    unfolding outbound_list_unanswered_def
    by (intro keep_intros keeps_foldp_set one [OF Inr] advance) simp_all
  from keepsD [OF this start] Inr show ?thesis
    by (simp add: poll_inbox_def bindp_run [of "\<lambda>w. (receive _ _ w, w)"])
qed

lemma keeps_from_poll_one:
  assumes "P (fm_from_email f)"
  shows "keeps (received_from P old) (poll_one classify mb f st)"
  using assms
  by (intro keeps_poll_one keeps_from_add keeps_from_record keeps_from_classify) simp_all

text \<open>
  The contract: the mailbox's own mail is not handed out. Its client, the poll, then stores
  no message from the mailbox itself.
\<close>

locale email_receiver =
  fixes receive :: receiver
  assumes not_own: "receive mailbox_email cursor w = Inr res \<Longrightarrow> m \<in> set (fr_messages res)
    \<Longrightarrow> fm_from_email m \<noteq> lower mailbox_email"
begin

lemma poll_stores_foreign_mail:
  assumes "poll_inbox receive classify mb w = (r, w')" and "row \<in> set (t_inbound (db w'))"
    and "im_id row \<notin> im_id ` set (t_inbound (db w))"
  shows "im_from_email row \<noteq> lower (mv_email_address mb)"
proof -
  let ?I = "received_from (\<lambda>e. e \<noteq> lower (mv_email_address mb)) (im_id ` set (t_inbound (db w)))"
  have start: "?I w" by (auto simp: received_from_def)
  have "?I (snd (poll_inbox receive classify mb w))"
    by (rule poll_inbox_preserves [where I = ?I, OF start]) (auto intro!: keeps_from_poll_one keeps_advance dest: not_own)
  with assms show ?thesis by (auto simp: received_from_def)
qed

end

section \<open>The adapter's ports\<close>

text \<open>
  \<open>states\<close> gives the adapter's state at the call. Where the paging loop does not end the
  worker stays in the call and nothing is stored; the port answers with an error then.
\<close>

definition gmail_receiver ::
  "(string \<Rightarrow> string \<times> string) \<Rightarrow> (byte list \<Rightarrow> string) \<Rightarrow> google_credentials \<Rightarrow> (world \<Rightarrow> gmail) \<Rightarrow> receiver" where
  "gmail_receiver parseaddr utf8 creds states mailbox_email cursor w =
     (case fetch_new parseaddr utf8 creds mailbox_email cursor (states w) of
        Some (r, _) \<Rightarrow> r
      | None \<Rightarrow> Inl (RuntimeError ''the call does not return''))"

definition gmail_sender :: "(mail \<Rightarrow> exn + byte list) \<Rightarrow> google_credentials \<Rightarrow> (nat \<Rightarrow> gmail) \<Rightarrow> sender" where
  "gmail_sender mime creds states n m = fst (gmail_send mime creds m (states n))"

lemma fetched_messages:
  assumes "fetch_new parseaddr utf8 creds mailbox_email since g = Some (Inr res, g')" and "m \<in> set (fr_messages res)"
  obtains g1 i data where "answers_call g1 i data" "arrived parseaddr utf8 mailbox_email data m"
  using assms(1)
proof (cases rule: fetch_new_cases)
  case based
  with assms(2) show ?thesis by simp
next
  case (paged cursor pg g1)
  from fetch_messages_Inr(2) [OF paged(3) assms(2)] show ?thesis using that by blast
qed

interpretation gmail: email_receiver "gmail_receiver parseaddr utf8 creds states"
proof
  fix mailbox_email cursor w res m
  assume "gmail_receiver parseaddr utf8 creds states mailbox_email cursor w = Inr res" "m \<in> set (fr_messages res)"
  then obtain g' where "fetch_new parseaddr utf8 creds mailbox_email cursor (states w) = Some (Inr res, g')"
    by (auto simp: gmail_receiver_def split: option.splits)
  from fetched_messages [OF this \<open>m \<in> set (fr_messages res)\<close>] show "fm_from_email m \<noteq> lower mailbox_email"
    by (auto simp: arrived_def)
qed

end
