(* ===== verification/Gmail_Samples.thy ===== *)
theory Gmail_Samples
  imports Gmail_Ports Samples
begin

text \<open>
  A mail service with a history of two pages: a reply in the inbox that is listed twice, a
  message that was sent, and one that is gone. It shows that the hypotheses of the adapter's
  theorems can hold.
\<close>

definition answer_ok :: "json \<Rightarrow> exn + http_response" where
  "answer_ok data = Inr \<lparr> rs_status = 200, rs_json = Inr data, rs_error_text = [] \<rparr>"

definition not_found :: "exn + http_response" where
  "not_found = Inr \<lparr> rs_status = 404, rs_json = Inr JNull, rs_error_text = ''Not Found'' \<rparr>"

definition sample_record :: "string \<Rightarrow> json" where
  "sample_record i = JObj [(''messagesAdded'', JArr [JObj [(''message'', JObj [(''id'', JStr i)])]])]"

definition page_one :: json where
  "page_one = JObj [(''historyId'', JStr ''200''), (''nextPageToken'', JStr ''p2''),
     (''history'', JArr [sample_record ''m1'', sample_record ''m2''])]"

definition page_two :: json where
  "page_two = JObj [(''historyId'', JStr ''300''), (''history'', JArr [sample_record ''m1'', sample_record ''m3''])]"

definition message_one :: json where
  "message_one = JObj [(''id'', JStr ''m1''), (''threadId'', JStr ''t1''), (''labelIds'', JArr [JStr ''INBOX'']),
     (''snippet'', JStr ''Yes''), (''internalDate'', JStr ''1500''),
     (''payload'', JObj [(''headers'', JArr [JObj [(''name'', JStr ''From''), (''value'', JStr ''Lead@x.io'')]]),
        (''mimeType'', JStr ''text/plain''), (''body'', JObj [(''data'', JStr ''WWVz'')])])]"

definition message_two :: json where
  "message_two = JObj [(''id'', JStr ''m2''), (''threadId'', JStr ''t1''), (''labelIds'', JArr [JStr ''SENT''])]"

definition sample_service :: "http_call list \<Rightarrow> http_call \<Rightarrow> exn + http_response" where
  "sample_service past call =
     (if hc_url call = TOKEN_URL then answer_ok (JObj [(''access_token'', JStr ''tok''), (''expires_in'', JInt 3600)])
      else if hc_url call = PROFILE_URL then answer_ok (JObj [(''historyId'', JStr ''900'')])
      else if hc_url call = HISTORY_URL then
        (if (''startHistoryId'', JStr ''1'') \<in> set (hc_params call) then not_found
         else if (''pageToken'', JStr ''p2'') \<in> set (hc_params call) then answer_ok page_two else answer_ok page_one)
      else if hc_url call = MESSAGES_URL @ ''/m1'' then answer_ok message_one
      else if hc_url call = MESSAGES_URL @ ''/m2'' then answer_ok message_two
      else not_found)"

definition sample_creds :: google_credentials where
  "sample_creds = \<lparr> gc_client_id = ''id'', gc_client_secret = ''secret'', gc_refresh_token = ''refresh'' \<rparr>"

definition sample_gmail :: gmail where
  "sample_gmail = \<lparr> gm_clock = int, gm_ticks = 0, gm_server = sample_service, gm_calls = [],
     gm_token = JStr ''tok'', gm_expires_at = 3600 \<rparr>"

definition sample_addr :: "string \<Rightarrow> string \<times> string" where
  "sample_addr s = ([], s)"

definition sample_utf8 :: "byte list \<Rightarrow> string" where
  "sample_utf8 bs = map (\<lambda>b. char_of (unat b)) bs"

definition message_one_fetched :: fetched_message where
  "message_one_fetched = \<lparr> fm_provider_message_id = ''m1'', fm_provider_thread_id = ''t1'',
     fm_from_email = ''lead@x.io'', fm_subject = [], fm_snippet = ''Yes'', fm_in_reply_to_header = None,
     fm_references_header = None, fm_received_at = 1500000, fm_body_text = ''Yes'', fm_is_bounce = False \<rparr>"

definition payload_one :: json where
  "payload_one = JObj [(''headers'', JArr [JObj [(''name'', JStr ''From''), (''value'', JStr ''Lead@x.io'')]]),
        (''mimeType'', JStr ''text/plain''), (''body'', JObj [(''data'', JStr ''WWVz'')])]"

section \<open>The message\<close>

lemma sample_texts: "lower ''From'' = ''from''" "lower ''Lead@x.io'' = ''lead@x.io''" "lower ''me@acme.io'' = ''me@acme.io''"
  "int_of_text ''1500'' = Some 1500"
  by code_simp+

lemma sample_headers: "headers_of payload_one = Inr [''from'' \<mapsto> JStr ''Lead@x.io'']"
  by (simp add: payload_one_def headers_of_def j_get_default_def header_pair_def str_method_def sample_texts)

lemma sample_body: "extract_body sample_utf8 payload_one = Inr ''Yes''"
  by code_simp

lemma sample_bounce: "is_bounce [''from'' \<mapsto> JStr ''Lead@x.io''] payload_one ''lead@x.io'' = Inr False"
  by code_simp

lemma sample_parse: "parse_message sample_addr sample_utf8 message_one = Inr message_one_fetched"
proof -
  have "j_get_default message_one ''payload'' (JObj []) = Inr payload_one"
    by (simp add: message_one_def payload_one_def j_get_default_def)
  moreover have "fromtimestamp_ms 1500 = Inr 1500000" by (simp add: fromtimestamp_ms_def micros_exact)
  ultimately show ?thesis
    by (simp add: parse_message_def sample_headers sample_body sample_bounce sample_texts
        message_one_def j_get_default_def str_field_def opt_field_def header_or_def sender_address_def
        sample_addr_def message_one_fetched_def)
qed

section \<open>The calls\<close>

definition sample_at :: "nat \<Rightarrow> http_call list \<Rightarrow> gmail" where
  "sample_at n calls = sample_gmail\<lparr>gm_ticks := n, gm_calls := calls\<rparr>"

lemma sample_gmail_at: "sample_gmail = sample_at 0 []"
  by (simp add: sample_at_def sample_gmail_def)

definition sample_auth :: "(string \<times> string) list" where
  "sample_auth = [(''Authorization'', ''Bearer tok'')]"

lemma sample_get:
  assumes "n < 3600"
  shows "gmail_get sample_creds url params (sample_at n calls)
      = (sample_service calls (get_call sample_auth url params), sample_at (Suc n) (calls @ [get_call sample_auth url params]))"
proof -
  have "token_is_fresh (sample_at n calls)"
    using assms by (simp add: token_is_fresh_def sample_at_def sample_gmail_def)
  then have "access_token sample_creds (sample_at n calls) = (Inr (JStr ''tok''), sample_at (Suc n) calls)"
    by (simp add: access_token_fresh) (simp add: sample_at_def sample_gmail_def)
  then show ?thesis
    by (simp add: gmail_get_def auth_def bindp_run http_send_def get_call_def py_str_def sample_auth_def)
       (simp add: sample_at_def sample_gmail_def)
qed

lemmas url_defs = HISTORY_URL_def TOKEN_URL_def PROFILE_URL_def MESSAGES_URL_def

lemma service_answers:
  "sample_service calls (get_call headers HISTORY_URL (history_params ''100'' JNull)) = answer_ok page_one"
  "sample_service calls (get_call headers HISTORY_URL (history_params ''100'' (JStr ''p2''))) = answer_ok page_two"
  "sample_service calls (get_call headers HISTORY_URL (history_params ''1'' JNull)) = not_found"
  "sample_service calls (get_call headers PROFILE_URL []) = answer_ok (JObj [(''historyId'', JStr ''900'')])"
  "sample_service calls (get_call headers (MESSAGES_URL @ ''/m1'') params) = answer_ok message_one"
  "sample_service calls (get_call headers (MESSAGES_URL @ ''/m2'') params) = answer_ok message_two"
  "sample_service calls (get_call headers (MESSAGES_URL @ ''/m3'') params) = not_found"
  by (simp_all add: sample_service_def get_call_def url_defs history_params_def truthy_def)

lemma sample_page_one: "n < 3600 \<Longrightarrow> \<exists>calls'. history_page sample_creds ''100'' JNull (sample_at n calls)
    = (Inr page_one, sample_at (Suc n) calls')"
  by (simp add: history_page_def bindp_run thenp_run sample_get service_answers answer_ok_def raise_for_status_def) blast

lemma sample_page_two: "n < 3600 \<Longrightarrow> \<exists>calls'. history_page sample_creds ''100'' (JStr ''p2'') (sample_at n calls)
    = (Inr page_two, sample_at (Suc n) calls')"
  by (simp add: history_page_def bindp_run thenp_run sample_get service_answers answer_ok_def raise_for_status_def) blast

lemma sample_tokens: "next_page_token page_one = Inr (JStr ''p2'')" "next_page_token page_two = Inr JNull"
  by (simp_all add: next_page_token_def j_get_default_def page_one_def page_two_def)

lemma sample_pages: "\<exists>calls'. pages_to_end sample_creds ''100'' JNull sample_gmail [page_one, page_two] (sample_at 2 calls')"
proof -
  obtain calls1 where one: "history_page sample_creds ''100'' JNull (sample_at 0 []) = (Inr page_one, sample_at (Suc 0) calls1)"
    using sample_page_one [of 0 "[]"] by auto
  obtain calls2 where two: "history_page sample_creds ''100'' (JStr ''p2'') (sample_at (Suc 0) calls1) = (Inr page_two, sample_at (Suc (Suc 0)) calls2)"
    using sample_page_two [of "Suc 0" calls1] by auto
  have "pages_to_end sample_creds ''100'' JNull (sample_at 0 []) [page_one, page_two] (sample_at (Suc (Suc 0)) calls2)"
    by (rule more_pages [OF one sample_tokens(1)], simp add: truthy_def,
        rule last_page [OF two sample_tokens(2)]) (simp add: truthy_def)
  then show ?thesis by (metis sample_gmail_at numeral_2_eq_2)
qed

definition sample_paging :: paging where
  "sample_paging = \<lparr> pg_ordered = [JStr ''m1'', JStr ''m2'', JStr ''m3''],
     pg_seen = {JStr ''m3'', JStr ''m2'', JStr ''m1''}, pg_latest = ''300'' \<rparr>"

lemma sample_read: "sum_fold read_page [page_one, page_two] \<lparr> pg_ordered = [], pg_seen = {}, pg_latest = ''100'' \<rparr>
    = Inr sample_paging"
  by (simp add: read_page_def add_record_def add_message_def j_get_default_def page_one_def page_two_def sample_record_def
      truthy_def py_str_def sample_paging_def)

lemma sample_added: "\<exists>calls. added_message_ids sample_creds ''100'' sample_gmail = Some (Inr sample_paging, sample_at 2 calls)"
  using sample_pages sample_read unfolding added_message_ids_def history_loop_iff by blast

lemma sample_incoming:
  "incoming sample_addr sample_utf8 ''me@acme.io'' message_one = Inr (Some message_one_fetched)"
  "incoming sample_addr sample_utf8 ''me@acme.io'' message_two = Inr None"
proof -
  have labels: "j_get_default message_one ''labelIds'' (JArr []) = Inr (JArr [JStr ''INBOX''])"
    by (simp add: message_one_def j_get_default_def)
  show "incoming sample_addr sample_utf8 ''me@acme.io'' message_one = Inr (Some message_one_fetched)"
    by (simp add: incoming_def labels sample_parse sample_texts) (simp add: message_one_fetched_def)
  show "incoming sample_addr sample_utf8 ''me@acme.io'' message_two = Inr None"
    by (simp add: incoming_def message_two_def j_get_default_def)
qed

lemma sample_fetch: "\<exists>g'. fetch_new sample_addr sample_utf8 sample_creds ''me@acme.io'' (Some ''100'') sample_gmail
    = Some (Inr \<lparr> fr_new_cursor = ''300'', fr_messages = [message_one_fetched] \<rparr>, g')"
proof -
  obtain calls where added: "added_message_ids sample_creds ''100'' sample_gmail = Some (Inr sample_paging, sample_at 2 calls)"
    using sample_added by blast
  show ?thesis
    by (simp add: fetch_new_def added fetch_messages_def sample_paging_def bindp_run thenp_run get_message_def py_str_def
        sample_get service_answers answer_ok_def not_found_def raise_for_status_def sample_incoming map_filter_def)
qed

lemma sample_ranked: "ranked_pages (\<lambda>t. if t = JStr ''p2'' then 0 else 1) ''100'' sample_service"
proof -
  have next_two: "nxt = JStr ''p2''" if "next_page_token page_one = Inr nxt" for nxt
    using that sample_tokens(1) by simp
  have none: "\<not> truthy nxt" if "next_page_token page_two = Inr nxt" for nxt
    using that sample_tokens(2) by (simp add: truthy_def)
  have query: "sample_service past (get_call headers HISTORY_URL (history_params ''100'' token))
      = (if token = JStr ''p2'' then answer_ok page_two else answer_ok page_one)" for past headers token
    by (auto simp: sample_service_def get_call_def url_defs history_params_def truthy_def)
  show ?thesis
    unfolding ranked_pages_def query
    by (auto simp: answer_ok_def dest: next_two none split: if_splits)
qed

lemma sample_gone: "\<exists>g'. gmail_get sample_creds HISTORY_URL (history_params ''1'' JNull) sample_gmail
    = (not_found, sample_at 1 g')"
  unfolding sample_gmail_at by (simp add: sample_get service_answers) blast

lemma sample_history_id: "\<exists>g'. current_history_id sample_creds (sample_at 1 calls) = (Inr ''900'', g')"
  by (simp add: current_history_id_def bindp_run sample_get service_answers answer_ok_def raise_for_status_def
      py_str_def)

lemma sample_baseline: "\<exists>g'. baseline sample_creds (sample_at 1 calls)
    = (Inr \<lparr> fr_new_cursor = ''900'', fr_messages = [] \<rparr>, g')"
  by (simp add: baseline_def current_history_id_def bindp_run sample_get service_answers answer_ok_def raise_for_status_def
      py_str_def)

section \<open>A poll\<close>

definition sample_gmail_receiver :: receiver where
  "sample_gmail_receiver = gmail_receiver sample_addr sample_utf8 sample_creds (\<lambda>_. sample_gmail)"

definition sample_gmail_view :: mailbox_view where
  "sample_gmail_view = sample_view\<lparr>mv_last_sync_cursor := Some ''100''\<rparr>"

lemma sample_receive: "sample_gmail_receiver (mv_email_address sample_gmail_view) (mv_last_sync_cursor sample_gmail_view) w
    = Inr \<lparr> fr_new_cursor = ''300'', fr_messages = [message_one_fetched] \<rparr>"
  using sample_fetch by (auto simp: sample_gmail_receiver_def gmail_receiver_def sample_gmail_view_def sample_view_def)

lemma sample_gmail_poll:
  obtains r w' row where
    "poll_inbox sample_gmail_receiver (\<lambda>_ _. Inr UNCLEAR) sample_gmail_view (sample_world l jobs) = (Inr r, w')"
    "row \<in> set (t_inbound (db w'))" "im_id row \<notin> im_id ` set (t_inbound (db (sample_world l jobs)))"
    "im_provider_message_id row = ''m1''"
proof -
  have view: "mv_id sample_gmail_view = 2" "mv_workspace_id sample_gmail_view = 11"
    by (simp_all add: sample_gmail_view_def)
  have "\<exists>r w'. poll_inbox sample_gmail_receiver (\<lambda>_ _. Inr UNCLEAR) sample_gmail_view (sample_world l jobs) = (Inr r, w')
      \<and> (\<exists>row\<in>set (t_inbound (db w')). im_provider_message_id row = ''m1'')"
    by (simp add: poll_inbox_def bindp_run thenp_run sample_receive view outbound_list_unanswered_def
        unanswered_def outbound_rows_def poll_one_def inbound_exists_def inbound_known_def inbound_rows_def
        InboundMessage_new_run inbound_add_def insert_row_def too_long_def violated_def duplicate_def
        row_security_def message_one_fetched_def sees_def outbox_record_def sample_no_candidates
        gateway_advance_cursor_def mailboxes_get_by_workspace_def mailbox_of_def mailbox_rows_def
        mailboxes_update_cursor_def with_cursor_def opt_too_long_def update_rows_def)
  moreover have "t_inbound (db (sample_world l jobs)) = []" by simp
  ultimately show ?thesis using that by auto
qed

lemma sample_gone_poll:
  obtains r w' where "poll_inbox sample_gmail_receiver (\<lambda>_ _. Inr UNCLEAR)
      (sample_view\<lparr>mv_last_sync_cursor := Some ''1''\<rparr>) (sample_world l jobs) = (Inr r, w')"
proof -
  obtain calls where "gmail_get sample_creds HISTORY_URL (history_params ''1'' JNull) sample_gmail = (not_found, sample_at 1 calls)"
    using sample_gone by blast
  then have "fetch_new sample_addr sample_utf8 sample_creds e (Some ''1'') sample_gmail = Some (baseline sample_creds (sample_at 1 calls))" for e
    unfolding not_found_def by (rule history_gone) simp
  moreover obtain g' where "baseline sample_creds (sample_at 1 calls) = (Inr \<lparr> fr_new_cursor = ''900'', fr_messages = [] \<rparr>, g')"
    using sample_baseline by blast
  ultimately have "sample_gmail_receiver e (Some ''1'') w = Inr \<lparr> fr_new_cursor = ''900'', fr_messages = [] \<rparr>" for e w
    by (simp add: sample_gmail_receiver_def gmail_receiver_def)
  then show ?thesis
    using that by (simp add: poll_inbox_def bindp_run thenp_run outbound_list_unanswered_def sees_def
        gateway_advance_cursor_def mailboxes_get_by_workspace_def mailbox_of_def mailbox_rows_def
        mailboxes_update_cursor_def with_cursor_def opt_too_long_def too_long_def update_rows_def violated_def modify_db_def)
qed

definition sample_mail :: mail where
  "sample_mail = \<lparr> ml_from = ''me@acme.io'', ml_to = ''a@b.c'', ml_subject = ''Hi'', ml_body = ''Hi'',
     ml_message_id = ''<x@acme.io>'' \<rparr>"

lemma sample_raw: "build_raw_message (\<lambda>_. Inr [72, 105]) sample_mail = Inr ''SGk=''"
  by code_simp

lemma sample_unpadded: "unpadded ''SGk='' = ''SGk''"
  by (simp add: unpadded_def)

lemma sample_hi: "sample_utf8 [72, 105] = ''Hi''"
  by code_simp

end
