(* ===== verification/Schema.thy ===== *)
theory Schema
  imports Json
begin

text \<open>
  The catalog of the database, as far as the migrations change it, and the schema statements
  of \<open>alembic.op\<close> with the errors that PostgreSQL raises for them. A table carries the number of
  its rows, since a column that may not be null cannot be added without a default to a table
  that has rows. Names that PostgreSQL derives for keys are not tracked.
\<close>

section \<open>The catalog\<close>

datatype col_type = UuidType | StringType nat | TextType | IntegerType | JsonbType | TimestampTz

datatype on_delete = DeleteCascade | DeleteSetNull

text \<open>
  A column, with the table, the column and the action of its foreign key. An index may have a
  condition \<open>column = 'value'\<close>; a policy has a name, the column it reads and the expression that
  the column is compared with.
\<close>

record column_def =
  co_name :: string
  co_type :: col_type
  co_nullable :: bool
  co_primary_key :: bool
  co_unique :: bool
  co_references :: "(string \<times> string \<times> on_delete) option"
  co_server_default :: "string option"

record index_def =
  ix_name :: string
  ix_columns :: "string list"
  ix_where :: "(string \<times> string) option"

record table_def =
  tb_columns :: "column_def list"
  tb_uniques :: "(string \<times> string list) list"
  tb_indexes :: "index_def list"
  tb_rls_enabled :: bool
  tb_rls_forced :: bool
  tb_policies :: "(string \<times> string \<times> string) list"
  tb_rows :: nat

text \<open>The columns that an index reads, those of its condition \<open>column = 'value'\<close> included.\<close>

definition condition_reads :: "(string \<times> string) option \<Rightarrow> string list" where
  "condition_reads w = (case w of None \<Rightarrow> [] | Some (col, _) \<Rightarrow> [col])"

definition index_reads :: "index_def \<Rightarrow> string list" where
  "index_reads i = ix_columns i @ condition_reads (ix_where i)"

text \<open>The tables by name, in the order of their creation.\<close>

type_synonym schema = "(string \<times> table_def) list"

definition Column :: "string \<Rightarrow> col_type \<Rightarrow> bool \<Rightarrow> column_def" where
  "Column name type nullable =
     \<lparr> co_name = name, co_type = type, co_nullable = nullable, co_primary_key = False, co_unique = False,
       co_references = None, co_server_default = None \<rparr>"

definition primary_key :: "column_def \<Rightarrow> column_def" where
  "primary_key c = c\<lparr>co_primary_key := True, co_nullable := False\<rparr>"

definition references_to :: "string \<Rightarrow> on_delete \<Rightarrow> column_def \<Rightarrow> column_def" where
  "references_to target action c = c\<lparr>co_references := Some (target, ''id'', action)\<rparr>"

section \<open>Statements\<close>

datatype ddl =
    CreateTable string "column_def list" "(string \<times> string list) list"
  | DropTable string
  | RenameTable string string
  | AddColumn string column_def
  | DropColumn string string
  | AlterServerDefault string string "string option"
  | CreateIndex string string "string list" "(string \<times> string) option"
  | DropIndex string
  | EnableRowSecurity string
  | ForceRowSecurity string
  | CreatePolicy string string string string

datatype ddl_error =
    DuplicateRelation string
  | UndefinedTable string
  | DuplicateColumn string string
  | UndefinedColumn string string
  | UndefinedIndex string
  | DuplicatePolicy string
  | DependentObjectsStillExist string
  | NotNullViolation string string

definition column_names :: "table_def \<Rightarrow> string list" where
  "column_names t = map co_name (tb_columns t)"

text \<open>Tables, indexes and unique constraints share one name space.\<close>

definition relation_names :: "schema \<Rightarrow> string list" where
  "relation_names s = concat (map (\<lambda>(n, t). n # map ix_name (tb_indexes t) @ map fst (tb_uniques t)) s)"

text \<open>The target of a foreign key must exist.\<close>

definition check_reference :: "schema \<Rightarrow> column_def \<Rightarrow> ddl_error + unit" where
  "check_reference s c =
     (case co_references c of None \<Rightarrow> Inr ()
      | Some (target, key, _) \<Rightarrow>
          (case map_of s target of None \<Rightarrow> Inl (UndefinedTable target)
           | Some t \<Rightarrow> if key \<in> set (column_names t) then Inr () else Inl (UndefinedColumn target key)))"

primrec check_references :: "schema \<Rightarrow> column_def list \<Rightarrow> ddl_error + unit" where
  "check_references s [] = Inr ()"
| "check_references s (c # cs) = sum_bind (check_reference s c) (\<lambda>_. check_references s cs)"

text \<open>The tables, other than the one named, with a foreign key to the table, or to its column.\<close>

definition table_referenced :: "schema \<Rightarrow> string \<Rightarrow> bool" where
  "table_referenced s name \<longleftrightarrow> list_ex (\<lambda>(n, t). n \<noteq> name \<and>
     list_ex (\<lambda>c. case co_references c of None \<Rightarrow> False | Some (target, _, _) \<Rightarrow> target = name) (tb_columns t)) s"

definition column_referenced :: "schema \<Rightarrow> string \<Rightarrow> string \<Rightarrow> bool" where
  "column_referenced s name col \<longleftrightarrow> list_ex (\<lambda>(n, t).
     list_ex (\<lambda>c. case co_references c of None \<Rightarrow> False
       | Some (target, key, _) \<Rightarrow> target = name \<and> key = col) (tb_columns t)) s"

definition update_table :: "string \<Rightarrow> (table_def \<Rightarrow> table_def) \<Rightarrow> schema \<Rightarrow> schema" where
  "update_table name f s = map (\<lambda>(n, t). if n = name then (n, f t) else (n, t)) s"

definition repoint :: "string \<Rightarrow> string \<Rightarrow> column_def \<Rightarrow> column_def" where
  "repoint old new c =
     (case co_references c of None \<Rightarrow> c
      | Some (target, key, action) \<Rightarrow>
          if target = old then c\<lparr>co_references := Some (new, key, action)\<rparr> else c)"

definition on_table :: "schema \<Rightarrow> string \<Rightarrow> (table_def \<Rightarrow> ddl_error + 'a) \<Rightarrow> ddl_error + 'a" where
  "on_table s name f = (case map_of s name of None \<Rightarrow> Inl (UndefinedTable name) | Some t \<Rightarrow> f t)"

fun apply_ddl :: "ddl \<Rightarrow> schema \<Rightarrow> ddl_error + schema" where
  "apply_ddl (CreateTable name cols uniques) s =
     (if name \<in> set (relation_names s) then Inl (DuplicateRelation name)
      else sum_bind (check_references s cols) (\<lambda>_.
        Inr (s @ [(name, \<lparr> tb_columns = cols, tb_uniques = uniques, tb_indexes = [], tb_rls_enabled = False,
                          tb_rls_forced = False, tb_policies = [], tb_rows = 0 \<rparr>)])))"
| "apply_ddl (DropTable name) s = on_table s name (\<lambda>_.
     if table_referenced s name then Inl (DependentObjectsStillExist name)
     else Inr (filter (\<lambda>(n, t). n \<noteq> name) s))"
| "apply_ddl (RenameTable old new) s = on_table s old (\<lambda>_.
     if new \<in> set (relation_names s) then Inl (DuplicateRelation new)
     else Inr (map (\<lambda>(n, t). (if n = old then new else n,
            t\<lparr>tb_columns := map (repoint old new) (tb_columns t)\<rparr>)) s))"
| "apply_ddl (AddColumn name c) s = on_table s name (\<lambda>t.
     if co_name c \<in> set (column_names t) then Inl (DuplicateColumn name (co_name c))
     else if \<not> co_nullable c \<and> co_server_default c = None \<and> tb_rows t \<noteq> 0
     then Inl (NotNullViolation name (co_name c))
     else sum_bind (check_reference s c) (\<lambda>_.
       Inr (update_table name (\<lambda>t. t\<lparr>tb_columns := tb_columns t @ [c]\<rparr>) s)))"
| "apply_ddl (DropColumn name col) s = on_table s name (\<lambda>t.
     if col \<notin> set (column_names t) then Inl (UndefinedColumn name col)
     else if column_referenced s name col then Inl (DependentObjectsStillExist col)
     else if list_ex (\<lambda>(p, read, _). read = col) (tb_policies t)
     then Inl (DependentObjectsStillExist col)
     else Inr (update_table name (\<lambda>t. t\<lparr>tb_columns := filter (\<lambda>c. co_name c \<noteq> col) (tb_columns t),
            tb_uniques := filter (\<lambda>(n, cs). col \<notin> set cs) (tb_uniques t),
            tb_indexes := filter (\<lambda>i. col \<notin> set (index_reads i)) (tb_indexes t)\<rparr>) s))"
| "apply_ddl (AlterServerDefault name col d) s = on_table s name (\<lambda>t.
     if col \<notin> set (column_names t) then Inl (UndefinedColumn name col)
     else Inr (update_table name (\<lambda>t. t\<lparr>tb_columns := map (\<lambda>c. if co_name c = col
            then c\<lparr>co_server_default := d\<rparr> else c) (tb_columns t)\<rparr>) s))"
| "apply_ddl (CreateIndex name on_name cols condition) s = on_table s on_name (\<lambda>t.
     if name \<in> set (relation_names s) then Inl (DuplicateRelation name)
     else (case filter (\<lambda>col. col \<notin> set (column_names t)) (cols @ condition_reads condition) of
             col # _ \<Rightarrow> Inl (UndefinedColumn on_name col)
           | [] \<Rightarrow> Inr (update_table on_name (\<lambda>t. t\<lparr>tb_indexes := tb_indexes t @
                 [\<lparr> ix_name = name, ix_columns = cols, ix_where = condition \<rparr>]\<rparr>) s)))"
| "apply_ddl (DropIndex name) s =
     (if list_ex (\<lambda>(n, t). name \<in> set (map ix_name (tb_indexes t))) s
      then Inr (map (\<lambda>(n, t). (n, t\<lparr>tb_indexes := filter (\<lambda>i. ix_name i \<noteq> name) (tb_indexes t)\<rparr>)) s)
      else Inl (UndefinedIndex name))"
| "apply_ddl (EnableRowSecurity name) s = on_table s name (\<lambda>t.
     Inr (update_table name (\<lambda>t. t\<lparr>tb_rls_enabled := True\<rparr>) s))"
| "apply_ddl (ForceRowSecurity name) s = on_table s name (\<lambda>t.
     Inr (update_table name (\<lambda>t. t\<lparr>tb_rls_forced := True\<rparr>) s))"
| "apply_ddl (CreatePolicy policy name col check) s = on_table s name (\<lambda>t.
     if policy \<in> set (map fst (tb_policies t)) then Inl (DuplicatePolicy policy)
     else if col \<notin> set (column_names t) then Inl (UndefinedColumn name col)
     else Inr (update_table name (\<lambda>t. t\<lparr>tb_policies := tb_policies t @ [(policy, col, check)]\<rparr>) s))"

primrec run_ddl :: "ddl list \<Rightarrow> schema \<Rightarrow> ddl_error + schema" where
  "run_ddl [] s = Inr s"
| "run_ddl (d # ds) s = sum_bind (apply_ddl d s) (run_ddl ds)"

lemma run_ddl_append: "run_ddl (xs @ ys) s = sum_bind (run_ddl xs s) (run_ddl ys)"
  by (induction xs arbitrary: s) (auto simp: sum_bind_def split: sum.splits)

end
