(* ===== verification/Migrations.thy ===== *)
theory Migrations
  imports Schema
begin

text \<open>
  The revisions under \<open>alembic/versions\<close> as schema statements, and the chain they form. Alembic
  runs all pending revisions in one transaction (\<open>alembic/env.py\<close>).
\<close>

section \<open>Shared pieces\<close>

abbreviation uuid_column :: "string \<Rightarrow> bool \<Rightarrow> column_def" where
  "uuid_column name nullable \<equiv> Column name UuidType nullable"

definition id_column :: column_def where
  "id_column = primary_key (Column ''id'' UuidType False)"

definition created_at_column :: column_def where
  "created_at_column = Column ''created_at'' TimestampTz False"

definition guc_value :: string where
  "guc_value = ''NULLIF(current_setting('' @ [CHR 0x27] @ ''app.workspace_id'' @ [CHR 0x27] @ '', true), ''
     @ [CHR 0x27, CHR 0x27] @ '')::uuid''"

definition enable_rls :: "string \<Rightarrow> ddl list" where
  "enable_rls name =
     [EnableRowSecurity name, ForceRowSecurity name,
      CreatePolicy ''workspace_isolation'' name ''workspace_id'' guc_value]"

section \<open>0001: the baseline\<close>

definition upgrade_0001 :: "ddl list" where
  "upgrade_0001 =
     [CreateTable ''workspaces''
        [id_column, Column ''name'' (StringType 120) False, created_at_column] [],
      CreateTable ''campaigns''
        [id_column,
         references_to ''workspaces'' DeleteCascade (Column ''workspace_id'' UuidType False),
         Column ''name'' (StringType 200) False,
         (Column ''status'' (StringType 32) False)\<lparr>co_server_default := Some ''draft''\<rparr>,
         created_at_column\<lparr>co_server_default := Some ''now()''\<rparr>] []]
     @ enable_rls ''campaigns''"

definition downgrade_0001 :: "ddl list" where
  "downgrade_0001 = [DropTable ''campaigns'', DropTable ''workspaces'']"

section \<open>0002: mailbox and messaging\<close>

definition TENANT_TABLES :: "string list" where
  "TENANT_TABLES =
     [''mailbox__mailboxes'', ''messaging__outbound_messages'', ''messaging__inbound_messages'',
      ''messaging__outbox_events'']"

text \<open>The table of the target \<open>workspaces.id\<close>; every foreign key points to a column \<open>id\<close>.\<close>

definition IDENTITY_FK :: string where
  "IDENTITY_FK = ''workspaces''"

definition identity_fk_column :: column_def where
  "identity_fk_column = references_to IDENTITY_FK DeleteCascade (Column ''workspace_id'' UuidType False)"

definition upgrade_0002 :: "ddl list" where
  "upgrade_0002 =
     [CreateTable ''mailbox__mailboxes''
        [id_column, identity_fk_column,
         Column ''email_address'' (StringType 320) False,
         Column ''last_sync_cursor'' (StringType 64) True,
         created_at_column] [],
      CreateTable ''messaging__outbound_messages''
        [id_column, identity_fk_column,
         references_to ''mailbox__mailboxes'' DeleteCascade (Column ''mailbox_id'' UuidType False),
         Column ''to_email'' (StringType 320) False,
         Column ''subject'' TextType False,
         Column ''body'' TextType False,
         (Column ''rfc822_message_id'' (StringType 998) False)\<lparr>co_unique := True\<rparr>,
         Column ''provider_message_id'' (StringType 64) True,
         Column ''provider_thread_id'' (StringType 64) True,
         created_at_column] [],
      CreateIndex ''ix_outbound_messages_provider_thread_id'' ''messaging__outbound_messages''
        [''provider_thread_id''] None,
      CreateTable ''messaging__inbound_messages''
        [id_column, identity_fk_column,
         references_to ''mailbox__mailboxes'' DeleteCascade (Column ''mailbox_id'' UuidType False),
         Column ''provider_message_id'' (StringType 64) False,
         Column ''provider_thread_id'' (StringType 64) False,
         Column ''from_email'' (StringType 320) False,
         Column ''subject'' TextType False,
         Column ''snippet'' TextType False,
         Column ''in_reply_to_header'' TextType True,
         Column ''references_header'' TextType True,
         references_to ''messaging__outbound_messages'' DeleteSetNull
           (Column ''matched_outbound_id'' UuidType True),
         Column ''intent'' (StringType 16) True,
         Column ''received_at'' TimestampTz False,
         created_at_column]
        [(''uq_inbound_mailbox_provider_msg'', [''mailbox_id'', ''provider_message_id''])],
      CreateIndex ''ix_inbound_messages_provider_thread_id'' ''messaging__inbound_messages''
        [''provider_thread_id''] None,
      CreateTable ''messaging__outbox_events''
        [id_column, identity_fk_column,
         Column ''event_type'' (StringType 64) False,
         Column ''aggregate_id'' UuidType False,
         Column ''payload'' JsonbType False,
         created_at_column] [],
      CreateIndex ''ix_outbox_events_created_at'' ''messaging__outbox_events'' [''created_at''] None]
     @ concat (map enable_rls TENANT_TABLES)"

definition downgrade_0002 :: "ddl list" where
  "downgrade_0002 =
     [DropTable ''messaging__outbox_events'', DropTable ''messaging__inbound_messages'',
      DropTable ''messaging__outbound_messages'', DropTable ''mailbox__mailboxes'']"

section \<open>0003: the prefixes of the contexts\<close>

definition RENAMES :: "(string \<times> string) list" where
  "RENAMES = [(''workspaces'', ''identity__workspaces''), (''campaigns'', ''campaign__campaigns'')]"

definition upgrade_0003 :: "ddl list" where
  "upgrade_0003 = map (\<lambda>(old, new). RenameTable old new) RENAMES"

definition downgrade_0003 :: "ddl list" where
  "downgrade_0003 = map (\<lambda>(old, new). RenameTable new old) (rev RENAMES)"

section \<open>0004: steps, leads, the queue and the guards\<close>

definition NEW_TENANT_TABLES :: "string list" where
  "NEW_TENANT_TABLES =
     [''campaign__steps'', ''campaign__leads'', ''campaign__send_jobs'', ''messaging__suppressions'']"

definition workspace_fk :: column_def where
  "workspace_fk = references_to ''identity__workspaces'' DeleteCascade (Column ''workspace_id'' UuidType False)"

definition upgrade_0004 :: "ddl list" where
  "upgrade_0004 =
     [AddColumn ''campaign__campaigns''
        (references_to ''mailbox__mailboxes'' DeleteCascade (Column ''mailbox_id'' UuidType False)),
      AlterServerDefault ''campaign__campaigns'' ''status'' None,
      AlterServerDefault ''campaign__campaigns'' ''created_at'' None,
      CreateTable ''campaign__steps''
        [id_column, workspace_fk,
         references_to ''campaign__campaigns'' DeleteCascade (Column ''campaign_id'' UuidType False),
         Column ''position'' IntegerType False,
         Column ''subject'' TextType False,
         Column ''body'' TextType False,
         Column ''delay_seconds'' IntegerType False,
         created_at_column]
        [(''uq_steps_campaign_position'', [''campaign_id'', ''position''])],
      CreateTable ''campaign__leads''
        [id_column, workspace_fk,
         references_to ''campaign__campaigns'' DeleteCascade (Column ''campaign_id'' UuidType False),
         Column ''email'' (StringType 320) False,
         Column ''state'' (StringType 16) False,
         Column ''steps_sent'' IntegerType False,
         Column ''stop_reason'' (StringType 32) True,
         Column ''reply_intent'' (StringType 16) True,
         created_at_column,
         Column ''updated_at'' TimestampTz False]
        [(''uq_leads_campaign_email'', [''campaign_id'', ''email''])],
      CreateTable ''campaign__send_jobs''
        [id_column, workspace_fk,
         references_to ''mailbox__mailboxes'' DeleteCascade (Column ''mailbox_id'' UuidType False),
         references_to ''campaign__leads'' DeleteCascade (Column ''lead_id'' UuidType False),
         references_to ''campaign__steps'' DeleteCascade (Column ''step_id'' UuidType False),
         Column ''payload'' JsonbType False,
         Column ''scheduled_at'' TimestampTz False,
         Column ''status'' (StringType 16) False,
         Column ''attempts'' IntegerType False,
         Column ''locked_at'' TimestampTz True,
         Column ''locked_by'' (StringType 128) True,
         Column ''last_error'' TextType True,
         Column ''outbound_message_id'' UuidType True,
         created_at_column,
         Column ''updated_at'' TimestampTz False] [],
      CreateIndex ''ix_send_jobs_pending'' ''campaign__send_jobs'' [''scheduled_at'']
        (Some (''status'', ''pending'')),
      CreateIndex ''ix_send_jobs_running'' ''campaign__send_jobs'' [''locked_at'']
        (Some (''status'', ''running'')),
      CreateIndex ''ix_send_jobs_outbound_message_id'' ''campaign__send_jobs'' [''outbound_message_id''] None,
      CreateIndex ''ix_send_jobs_lead_id'' ''campaign__send_jobs'' [''lead_id''] None,
      AddColumn ''mailbox__mailboxes''
        ((Column ''daily_send_cap'' IntegerType False)\<lparr>co_server_default := Some ''20''\<rparr>),
      CreateIndex ''ix_outbound_messages_mailbox_created_at'' ''messaging__outbound_messages''
        [''mailbox_id'', ''created_at''] None,
      CreateTable ''messaging__suppressions''
        [id_column, workspace_fk,
         Column ''email'' (StringType 320) False,
         Column ''reason'' (StringType 32) False,
         references_to ''messaging__inbound_messages'' DeleteSetNull
           (Column ''source_inbound_id'' UuidType True),
         created_at_column]
        [(''uq_suppressions_workspace_email_reason'', [''workspace_id'', ''email'', ''reason''])]]
     @ concat (map enable_rls NEW_TENANT_TABLES)"

definition downgrade_0004 :: "ddl list" where
  "downgrade_0004 =
     [DropTable ''messaging__suppressions'',
      DropIndex ''ix_outbound_messages_mailbox_created_at'',
      DropColumn ''mailbox__mailboxes'' ''daily_send_cap'',
      DropTable ''campaign__send_jobs'',
      DropTable ''campaign__leads'',
      DropTable ''campaign__steps'',
      AlterServerDefault ''campaign__campaigns'' ''created_at'' (Some ''now()''),
      AlterServerDefault ''campaign__campaigns'' ''status'' (Some ''draft''),
      DropColumn ''campaign__campaigns'' ''mailbox_id'']"

section \<open>0005: processed events\<close>

definition upgrade_0005 :: "ddl list" where
  "upgrade_0005 =
     [CreateTable ''campaign__processed_events''
        [primary_key (Column ''event_id'' UuidType False),
         references_to ''identity__workspaces'' DeleteCascade (Column ''workspace_id'' UuidType False),
         Column ''processed_at'' TimestampTz False] []]
     @ enable_rls ''campaign__processed_events''
     @ [CreateIndex ''ix_outbox_events_event_type_created_at'' ''messaging__outbox_events''
          [''event_type'', ''created_at''] None]"

definition downgrade_0005 :: "ddl list" where
  "downgrade_0005 =
     [DropIndex ''ix_outbox_events_event_type_created_at'', DropTable ''campaign__processed_events'']"

section \<open>0006: API keys\<close>

definition upgrade_0006 :: "ddl list" where
  "upgrade_0006 =
     [CreateTable ''identity__api_keys''
        [id_column,
         references_to ''identity__workspaces'' DeleteCascade (Column ''workspace_id'' UuidType False),
         Column ''prefix'' (StringType 16) False,
         Column ''secret_hash'' (StringType 64) False,
         created_at_column,
         Column ''revoked_at'' TimestampTz True]
        [(''uq_api_keys_prefix'', [''prefix''])]]"

definition downgrade_0006 :: "ddl list" where
  "downgrade_0006 = [DropTable ''identity__api_keys'']"

section \<open>The chain\<close>

record revision =
  rv_revision :: string
  rv_down_revision :: "string option"
  rv_upgrade :: "ddl list"
  rv_downgrade :: "ddl list"

definition revisions :: "revision list" where
  "revisions =
     [\<lparr> rv_revision = ''0001'', rv_down_revision = None,
        rv_upgrade = upgrade_0001, rv_downgrade = downgrade_0001 \<rparr>,
      \<lparr> rv_revision = ''0002'', rv_down_revision = Some ''0001'',
        rv_upgrade = upgrade_0002, rv_downgrade = downgrade_0002 \<rparr>,
      \<lparr> rv_revision = ''0003'', rv_down_revision = Some ''0002'',
        rv_upgrade = upgrade_0003, rv_downgrade = downgrade_0003 \<rparr>,
      \<lparr> rv_revision = ''0004'', rv_down_revision = Some ''0003'',
        rv_upgrade = upgrade_0004, rv_downgrade = downgrade_0004 \<rparr>,
      \<lparr> rv_revision = ''0005'', rv_down_revision = Some ''0004'',
        rv_upgrade = upgrade_0005, rv_downgrade = downgrade_0005 \<rparr>,
      \<lparr> rv_revision = ''0006'', rv_down_revision = Some ''0005'',
        rv_upgrade = upgrade_0006, rv_downgrade = downgrade_0006 \<rparr>]"

text \<open>The schema after the first \<open>n\<close> revisions, on a new database.\<close>

definition migrated :: "nat \<Rightarrow> ddl_error + schema" where
  "migrated n = run_ddl (concat (map rv_upgrade (take n revisions))) []"

definition schema_at :: "nat \<Rightarrow> schema" where
  "schema_at n = (case migrated n of Inl _ \<Rightarrow> [] | Inr s \<Rightarrow> s)"

end
