(* ===== verification/Migration_Laws.thy ===== *)
theory Migration_Laws
  imports Migrations
begin

text \<open>
  What the migrations promise: their outcome does not depend on the data but for one statement,
  every downgrade undoes its upgrade, and no table of a tenant is ever without its policy.
\<close>

section \<open>Data and schema\<close>

definition forget_rows :: "schema \<Rightarrow> schema" where
  "forget_rows s = map (\<lambda>(n, t). (n, t\<lparr>tb_rows := 0\<rparr>)) s"

lemma map_of_forget: "map_of (forget_rows s) n = map_option (\<lambda>t. t\<lparr>tb_rows := 0\<rparr>) (map_of s n)"
  by (induction s) (auto simp: forget_rows_def)

lemma on_table_forget:
  "(\<And>t. map_of s n = Some t \<Longrightarrow> f (t\<lparr>tb_rows := 0\<rparr>) = map_sum id h (g t)) \<Longrightarrow>
     on_table (forget_rows s) n f = map_sum id h (on_table s n g)"
  by (auto simp: on_table_def map_of_forget split: option.splits)

lemma forget_simps:
  "relation_names (forget_rows s) = relation_names s"
  "table_referenced (forget_rows s) n = table_referenced s n"
  "column_referenced (forget_rows s) n c = column_referenced s n c"
  "check_reference (forget_rows s) col = check_reference s col"
  "column_names (t\<lparr>tb_rows := 0\<rparr>) = column_names t"
proof -
  show "relation_names (forget_rows s) = relation_names s"
    by (simp add: relation_names_def forget_rows_def case_prod_unfold comp_def)
  show "table_referenced (forget_rows s) n = table_referenced s n"
    by (simp add: table_referenced_def forget_rows_def list_ex_iff case_prod_unfold)
  show "column_referenced (forget_rows s) n c = column_referenced s n c"
    by (simp add: column_referenced_def forget_rows_def list_ex_iff case_prod_unfold)
  show "column_names (t\<lparr>tb_rows := 0\<rparr>) = column_names t" for t by (simp add: column_names_def)
  then show "check_reference (forget_rows s) col = check_reference s col"
    by (auto simp: check_reference_def map_of_forget split: option.splits)
qed

lemma check_references_forget: "check_references (forget_rows s) cs = check_references s cs"
  by (induction cs) (simp_all add: forget_simps)

lemma update_forget:
  "(\<And>t. (f t)\<lparr>tb_rows := 0\<rparr> = f (t\<lparr>tb_rows := 0\<rparr>)) \<Longrightarrow>
     forget_rows (update_table n f s) = update_table n f (forget_rows s)"
  by (auto simp: forget_rows_def update_table_def)

text \<open>The only statement that looks at data: a new column that may not be null and has no default.\<close>

fun blocked_by_rows :: "ddl \<Rightarrow> schema \<Rightarrow> bool" where
  "blocked_by_rows (AddColumn name c) s \<longleftrightarrow> \<not> co_nullable c \<and> co_server_default c = None
     \<and> (\<exists>t. map_of s name = Some t \<and> tb_rows t \<noteq> 0)"
| "blocked_by_rows _ s \<longleftrightarrow> False"

lemma apply_forget:
  "\<not> blocked_by_rows d s \<Longrightarrow> apply_ddl d (forget_rows s) = map_sum id forget_rows (apply_ddl d s)"
proof (cases d)
  case (CreateTable n cols us)
  then show ?thesis
    by (cases "check_references s cols") (auto simp: forget_simps check_references_forget, simp_all add: forget_rows_def)
next
  case (AddColumn n c)
  assume "\<not> blocked_by_rows d s"
  with AddColumn show ?thesis
    by (cases "check_reference s c") (auto simp: forget_simps update_forget intro!: on_table_forget)
next
  case (RenameTable old new)
  then show ?thesis
    by (auto simp: forget_simps intro!: on_table_forget) (simp add: forget_rows_def comp_def case_prod_unfold)
next
  case (DropTable n)
  then show ?thesis
    by (auto simp: forget_simps intro!: on_table_forget) (simp add: forget_rows_def filter_map comp_def case_prod_unfold)
next
  case (DropIndex n)
  then show ?thesis by (auto simp: forget_rows_def list_ex_iff case_prod_unfold)
next
  case (CreateIndex n m cs w)
  then show ?thesis
    by (auto simp: forget_simps update_forget intro!: on_table_forget split: list.splits)
qed (auto simp: forget_simps update_forget intro!: on_table_forget)

lemma run_forget_Cons:
  assumes "\<not> blocked_by_rows d s"
    and "\<And>s'. apply_ddl d s = Inr s' \<Longrightarrow> run_ddl ds (forget_rows s') = map_sum id forget_rows (run_ddl ds s')"
  shows "run_ddl (d # ds) (forget_rows s) = map_sum id forget_rows (run_ddl (d # ds) s)"
  using assms by (cases "apply_ddl d s") (simp_all add: apply_forget)

definition data_free :: "ddl list \<Rightarrow> bool" where
  "data_free ds \<longleftrightarrow> list_all (\<lambda>d. case d of AddColumn n c \<Rightarrow> co_nullable c \<or> co_server_default c \<noteq> None
     | _ \<Rightarrow> True) ds"

lemma run_forget: "data_free ds \<Longrightarrow> run_ddl ds (forget_rows s) = map_sum id forget_rows (run_ddl ds s)"
proof (induction ds arbitrary: s)
  case (Cons d ds)
  have "\<not> blocked_by_rows d s" using Cons.prems by (cases d) (auto simp: data_free_def)
  then show ?case
    by (rule run_forget_Cons) (use Cons in \<open>auto simp: data_free_def id_def\<close>)
qed simp

section \<open>The chain\<close>

text \<open>One pass over the chain that checks each revision both ways and a predicate of each schema.\<close>

fun walk :: "(schema \<Rightarrow> bool) \<Rightarrow> schema \<Rightarrow> revision list \<Rightarrow> bool" where
  "walk P s [] = P s"
| "walk P s (r # rs) = (P s \<and> (case run_ddl (rv_upgrade r) s of Inl _ \<Rightarrow> False
     | Inr s1 \<Rightarrow> run_ddl (rv_downgrade r) s1 = Inr s \<and> walk P s1 rs))"

definition has_column :: "string \<Rightarrow> table_def \<Rightarrow> bool" where
  "has_column c t \<longleftrightarrow> c \<in> set (column_names t)"

definition policed :: "table_def \<Rightarrow> bool" where
  "policed t \<longleftrightarrow> tb_rls_enabled t \<and> tb_rls_forced t
     \<and> tb_policies t = [(''workspace_isolation'', ''workspace_id'', guc_value)]"

definition tenants_policed :: "schema \<Rightarrow> bool" where
  "tenants_policed s \<longleftrightarrow> list_all (\<lambda>(n, t). has_column ''workspace_id'' t \<longrightarrow> n = ''identity__api_keys'' \<or> policed t) s"

lemma chain_walk: "walk tenants_policed [] revisions"
  by code_simp

lemma walk_at:
  assumes "walk P s rs" and "k \<le> length rs"
  shows "\<exists>t. run_ddl (concat (map rv_upgrade (take k rs))) s = Inr t \<and> P t \<and> walk P t (drop k rs)"
  using assms
proof (induction rs arbitrary: s k)
  case Nil
  then show ?case by simp
next
  case (Cons r rs)
  show ?case
  proof (cases k)
    case 0
    with Cons.prems(1) show ?thesis by simp
  next
    case (Suc m)
    from Cons.prems(1) obtain s1 where s1: "run_ddl (rv_upgrade r) s = Inr s1" "walk P s1 rs"
      by (auto split: sum.splits)
    from Cons.IH [OF s1(2), of m] Cons.prems(2) Suc s1(1) show ?thesis by (simp add: run_ddl_append)
  qed
qed

lemma schema_walk:
  assumes "k \<le> 6"
  shows "migrated k = Inr (schema_at k)" and "tenants_policed (schema_at k)"
    and "walk tenants_policed (schema_at k) (drop k revisions)"
proof -
  have "length revisions = 6" by (simp add: revisions_def)
  with assms obtain t where "migrated k = Inr t" "tenants_policed t" "walk tenants_policed t (drop k revisions)"
    using walk_at [OF chain_walk, of k] by (auto simp: migrated_def)
  then show "migrated k = Inr (schema_at k)" "tenants_policed (schema_at k)"
    "walk tenants_policed (schema_at k) (drop k revisions)" by (simp_all add: schema_at_def)
qed

lemma chain_step:
  assumes "k < 6"
  shows "run_ddl (rv_upgrade (revisions ! k)) (schema_at k) = Inr (schema_at (Suc k))"
    and "run_ddl (rv_downgrade (revisions ! k)) (schema_at (Suc k)) = Inr (schema_at k)"
proof -
  have k: "k < length revisions" using assms by (simp add: revisions_def)
  then have "drop k revisions = revisions ! k # drop (Suc k) revisions" by (simp add: Cons_nth_drop_Suc)
  with schema_walk(3) [of k] assms obtain s1 where s1: "run_ddl (rv_upgrade (revisions ! k)) (schema_at k) = Inr s1"
    "run_ddl (rv_downgrade (revisions ! k)) s1 = Inr (schema_at k)" by (auto split: sum.splits)
  have "migrated (Suc k) = sum_bind (migrated k) (run_ddl (rv_upgrade (revisions ! k)))"
    using k by (simp add: migrated_def take_Suc_conv_app_nth run_ddl_append)
  also have "\<dots> = Inr s1" using s1(1) schema_walk(1) [of k] assms by simp
  finally have "s1 = schema_at (Suc k)" by (simp add: schema_at_def)
  with s1 show "run_ddl (rv_upgrade (revisions ! k)) (schema_at k) = Inr (schema_at (Suc k))"
    "run_ddl (rv_downgrade (revisions ! k)) (schema_at (Suc k)) = Inr (schema_at k)" by simp_all
qed

lemma chain_data_free:
  "list_all (\<lambda>k. data_free (rv_downgrade (revisions ! k)) \<and> (k = 3 \<or> data_free (rv_upgrade (revisions ! k)))) [0, 1, 2, 3, 4, 5]"
  "data_free (tl upgrade_0004)"
  by code_simp+

lemma downgrade_data_free: "k < 6 \<Longrightarrow> data_free (rv_downgrade (revisions ! k))"
  and upgrade_data_free: "k < 6 \<Longrightarrow> k \<noteq> 3 \<Longrightarrow> data_free (rv_upgrade (revisions ! k))"
proof -
  assume "k < 6"
  then have k: "k \<in> {0, 1, 2, 3, 4, 5}" by auto
  with chain_data_free(1) show "data_free (rv_downgrade (revisions ! k))" by auto
  assume "k \<noteq> 3"
  with k chain_data_free(1) show "data_free (rv_upgrade (revisions ! k))" by auto
qed

lemma upgrade_0004_first: "rv_upgrade (revisions ! 3) = AddColumn ''campaign__campaigns''
    (references_to ''mailbox__mailboxes'' DeleteCascade (Column ''mailbox_id'' UuidType False)) # tl upgrade_0004"
  by (simp add: revisions_def upgrade_0004_def)

lemma campaigns_at_3: "\<exists>t. map_of (schema_at 3) ''campaign__campaigns'' = Some t \<and> ''mailbox_id'' \<notin> set (column_names t)"
  using chain_step(1) [of 3] unfolding upgrade_0004_first
  by (auto simp: on_table_def references_to_def Column_def sum_bind_Inr split: option.splits if_splits)

text \<open>The campaigns of a database, by their number.\<close>

definition campaign_rows :: "schema \<Rightarrow> nat" where
  "campaign_rows s = (case map_of s ''campaign__campaigns'' of None \<Rightarrow> 0 | Some t \<Rightarrow> tb_rows t)"

lemma upgrade_blocked:
  assumes "forget_rows s = schema_at 3" and "campaign_rows s \<noteq> 0"
  shows "run_ddl (rv_upgrade (revisions ! 3)) s = Inl (NotNullViolation ''campaign__campaigns'' ''mailbox_id'')"
proof -
  obtain t where t: "map_of s ''campaign__campaigns'' = Some t" "''mailbox_id'' \<notin> set (column_names t)"
    using campaigns_at_3 assms(1) map_of_forget [of s "''campaign__campaigns''"]
    by (auto simp: column_names_def)
  moreover have "tb_rows t \<noteq> 0" using assms(2) t by (simp add: campaign_rows_def)
  ultimately show ?thesis
    unfolding upgrade_0004_first by (simp add: on_table_def references_to_def Column_def)
qed

lemma upgrade_runs:
  assumes "k < 6" and "forget_rows s = schema_at k" and "k \<noteq> 3 \<or> campaign_rows s = 0"
  obtains s' where "run_ddl (rv_upgrade (revisions ! k)) s = Inr s'" "forget_rows s' = schema_at (Suc k)"
proof -
  have "run_ddl (rv_upgrade (revisions ! k)) (forget_rows s) = map_sum id forget_rows (run_ddl (rv_upgrade (revisions ! k)) s)"
  proof (cases "k = 3")
    case False
    then show ?thesis using run_forget upgrade_data_free assms(1) by blast
  next
    case True
    then have "campaign_rows s = 0" using assms(3) by simp
    then have "\<not> blocked_by_rows (AddColumn ''campaign__campaigns'' c) s" for c
      by (auto simp: campaign_rows_def)
    then show ?thesis unfolding True upgrade_0004_first
      by (rule run_forget_Cons) (rule run_forget [OF chain_data_free(2)])
  qed
  then have "map_sum id forget_rows (run_ddl (rv_upgrade (revisions ! k)) s) = Inr (schema_at (Suc k))"
    using chain_step(1) [OF assms(1)] assms(2) by simp
  then show ?thesis using that by (cases "run_ddl (rv_upgrade (revisions ! k)) s") auto
qed

lemma downgrade_runs:
  assumes "k < 6" and "forget_rows s' = schema_at (Suc k)"
  obtains s where "run_ddl (rv_downgrade (revisions ! k)) s' = Inr s" "forget_rows s = schema_at k"
proof -
  have "map_sum id forget_rows (run_ddl (rv_downgrade (revisions ! k)) s') = Inr (schema_at k)"
    using run_forget [OF downgrade_data_free [OF assms(1)], of s'] chain_step(2) [OF assms(1)] assms(2) by simp
  then show ?thesis using that by (cases "run_ddl (rv_downgrade (revisions ! k)) s'") auto
qed

end
