(* ===== verification/Orm_Models.thy ===== *)
theory Orm_Models
  imports Migration_Laws
begin

text \<open>
  The tables that the ORM classes of the four contexts declare (\<open>infrastructure/db/models.py\<close>),
  which \<open>alembic revision --autogenerate\<close> compares with the database, and the comparison with
  what the migrations build.
\<close>

section \<open>The declarations\<close>

text \<open>
  A class of \<open>Base\<close>: its \<open>__tablename__\<close>, its columns with \<open>index=True\<close> or not, the unique
  constraints and the indexes of \<open>__table_args__\<close>. SQLAlchemy names the index of a column after
  its table and the column.
\<close>

definition declares ::
  "string \<Rightarrow> (column_def \<times> bool) list \<Rightarrow> (string \<times> string list) list \<Rightarrow> index_def list \<Rightarrow> string \<times> table_def" where
  "declares name cols uniques indexes =
     (name, \<lparr> tb_columns = map fst cols, tb_uniques = uniques,
        tb_indexes = indexes @ map (\<lambda>(c, _). \<lparr> ix_name = ''ix_'' @ name @ ''_'' @ co_name c,
            ix_columns = [co_name c], ix_where = None \<rparr>) (filter snd cols),
        tb_rls_enabled = False, tb_rls_forced = False, tb_policies = [], tb_rows = 0 \<rparr>)"

abbreviation plain :: "column_def \<Rightarrow> column_def \<times> bool" where
  "plain c \<equiv> (c, False)"

definition mapped_workspace_id :: column_def where
  "mapped_workspace_id = references_to ''identity__workspaces'' DeleteCascade (Column ''workspace_id'' UuidType False)"

definition Workspace_table :: "string \<times> table_def" where
  "Workspace_table = declares ''identity__workspaces''
     [plain id_column, plain (Column ''name'' (StringType 120) False), plain created_at_column] [] []"

definition ApiKey_table :: "string \<times> table_def" where
  "ApiKey_table = declares ''identity__api_keys''
     [plain id_column, plain mapped_workspace_id,
      plain (Column ''prefix'' (StringType 16) False),
      plain (Column ''secret_hash'' (StringType 64) False),
      plain created_at_column,
      plain (Column ''revoked_at'' TimestampTz True)]
     [(''uq_api_keys_prefix'', [''prefix''])] []"

definition Mailbox_table :: "string \<times> table_def" where
  "Mailbox_table = declares ''mailbox__mailboxes''
     [plain id_column, plain mapped_workspace_id,
      plain (Column ''email_address'' (StringType 320) False),
      plain (Column ''last_sync_cursor'' (StringType 64) True),
      plain ((Column ''daily_send_cap'' IntegerType False)\<lparr>co_server_default := Some ''20''\<rparr>),
      plain created_at_column] [] []"

definition Campaign_table :: "string \<times> table_def" where
  "Campaign_table = declares ''campaign__campaigns''
     [plain id_column, plain mapped_workspace_id,
      plain (references_to ''mailbox__mailboxes'' DeleteCascade (Column ''mailbox_id'' UuidType False)),
      plain (Column ''name'' (StringType 200) False),
      plain (Column ''status'' (StringType 32) False),
      plain created_at_column] [] []"

definition Step_table :: "string \<times> table_def" where
  "Step_table = declares ''campaign__steps''
     [plain id_column, plain mapped_workspace_id,
      plain (references_to ''campaign__campaigns'' DeleteCascade (Column ''campaign_id'' UuidType False)),
      plain (Column ''position'' IntegerType False),
      plain (Column ''subject'' TextType False),
      plain (Column ''body'' TextType False),
      plain (Column ''delay_seconds'' IntegerType False),
      plain created_at_column]
     [(''uq_steps_campaign_position'', [''campaign_id'', ''position''])] []"

definition Lead_table :: "string \<times> table_def" where
  "Lead_table = declares ''campaign__leads''
     [plain id_column, plain mapped_workspace_id,
      plain (references_to ''campaign__campaigns'' DeleteCascade (Column ''campaign_id'' UuidType False)),
      plain (Column ''email'' (StringType 320) False),
      plain (Column ''state'' (StringType 16) False),
      plain (Column ''steps_sent'' IntegerType False),
      plain (Column ''stop_reason'' (StringType 32) True),
      plain (Column ''reply_intent'' (StringType 16) True),
      plain created_at_column,
      plain (Column ''updated_at'' TimestampTz False)]
     [(''uq_leads_campaign_email'', [''campaign_id'', ''email''])] []"

definition SendJob_table :: "string \<times> table_def" where
  "SendJob_table = declares ''campaign__send_jobs''
     [plain id_column, plain mapped_workspace_id,
      plain (references_to ''mailbox__mailboxes'' DeleteCascade (Column ''mailbox_id'' UuidType False)),
      plain (references_to ''campaign__leads'' DeleteCascade (Column ''lead_id'' UuidType False)),
      plain (references_to ''campaign__steps'' DeleteCascade (Column ''step_id'' UuidType False)),
      plain (Column ''payload'' JsonbType False),
      plain (Column ''scheduled_at'' TimestampTz False),
      plain (Column ''status'' (StringType 16) False),
      plain (Column ''attempts'' IntegerType False),
      plain (Column ''locked_at'' TimestampTz True),
      plain (Column ''locked_by'' (StringType 128) True),
      plain (Column ''last_error'' TextType True),
      plain (Column ''outbound_message_id'' UuidType True),
      plain created_at_column,
      plain (Column ''updated_at'' TimestampTz False)] []
     [\<lparr> ix_name = ''ix_send_jobs_pending'', ix_columns = [''scheduled_at''],
        ix_where = Some (''status'', ''pending'') \<rparr>,
      \<lparr> ix_name = ''ix_send_jobs_running'', ix_columns = [''locked_at''],
        ix_where = Some (''status'', ''running'') \<rparr>,
      \<lparr> ix_name = ''ix_send_jobs_outbound_message_id'', ix_columns = [''outbound_message_id''], ix_where = None \<rparr>,
      \<lparr> ix_name = ''ix_send_jobs_lead_id'', ix_columns = [''lead_id''], ix_where = None \<rparr>]"

definition ProcessedEvent_table :: "string \<times> table_def" where
  "ProcessedEvent_table = declares ''campaign__processed_events''
     [plain (primary_key (Column ''event_id'' UuidType False)), plain mapped_workspace_id,
      plain (Column ''processed_at'' TimestampTz False)] [] []"

definition OutboundMessage_table :: "string \<times> table_def" where
  "OutboundMessage_table = declares ''messaging__outbound_messages''
     [plain id_column, plain mapped_workspace_id,
      plain (references_to ''mailbox__mailboxes'' DeleteCascade (Column ''mailbox_id'' UuidType False)),
      plain (Column ''to_email'' (StringType 320) False),
      plain (Column ''subject'' TextType False),
      plain (Column ''body'' TextType False),
      plain ((Column ''rfc822_message_id'' (StringType 998) False)\<lparr>co_unique := True\<rparr>),
      plain (Column ''provider_message_id'' (StringType 64) True),
      (Column ''provider_thread_id'' (StringType 64) True, True),
      plain created_at_column] []
     [\<lparr> ix_name = ''ix_outbound_messages_mailbox_created_at'', ix_columns = [''mailbox_id'', ''created_at''],
        ix_where = None \<rparr>]"

definition InboundMessage_table :: "string \<times> table_def" where
  "InboundMessage_table = declares ''messaging__inbound_messages''
     [plain id_column, plain mapped_workspace_id,
      plain (references_to ''mailbox__mailboxes'' DeleteCascade (Column ''mailbox_id'' UuidType False)),
      plain (Column ''provider_message_id'' (StringType 64) False),
      (Column ''provider_thread_id'' (StringType 64) False, True),
      plain (Column ''from_email'' (StringType 320) False),
      plain (Column ''subject'' TextType False),
      plain (Column ''snippet'' TextType False),
      plain (Column ''in_reply_to_header'' TextType True),
      plain (Column ''references_header'' TextType True),
      plain (references_to ''messaging__outbound_messages'' DeleteSetNull
        (Column ''matched_outbound_id'' UuidType True)),
      plain (Column ''intent'' (StringType 16) True),
      plain (Column ''received_at'' TimestampTz False),
      plain created_at_column]
     [(''uq_inbound_mailbox_provider_msg'', [''mailbox_id'', ''provider_message_id''])] []"

definition OutboxEvent_table :: "string \<times> table_def" where
  "OutboxEvent_table = declares ''messaging__outbox_events''
     [plain id_column, plain mapped_workspace_id,
      plain (Column ''event_type'' (StringType 64) False),
      plain (Column ''aggregate_id'' UuidType False),
      plain (Column ''payload'' JsonbType False),
      (created_at_column, True)] []
     [\<lparr> ix_name = ''ix_outbox_events_event_type_created_at'', ix_columns = [''event_type'', ''created_at''],
        ix_where = None \<rparr>]"

definition Suppression_table :: "string \<times> table_def" where
  "Suppression_table = declares ''messaging__suppressions''
     [plain id_column, plain mapped_workspace_id,
      plain (Column ''email'' (StringType 320) False),
      plain (Column ''reason'' (StringType 32) False),
      plain (references_to ''messaging__inbound_messages'' DeleteSetNull
        (Column ''source_inbound_id'' UuidType True)),
      plain created_at_column]
     [(''uq_suppressions_workspace_email_reason'', [''workspace_id'', ''email'', ''reason''])] []"

text \<open>\<open>Base.metadata\<close> once \<open>alembic/env.py\<close> has imported the four modules.\<close>

definition metadata :: schema where
  "metadata =
     [Campaign_table, Step_table, Lead_table, SendJob_table, ProcessedEvent_table,
      Workspace_table, ApiKey_table, Mailbox_table,
      OutboundMessage_table, InboundMessage_table, OutboxEvent_table, Suppression_table]"

section \<open>The comparison\<close>

text \<open>Two tables agree when they have the same columns, keys and indexes, in any order and by any index name.\<close>

definition agree :: "table_def \<Rightarrow> table_def \<Rightarrow> bool" where
  "agree t u \<longleftrightarrow> set (tb_columns t) = set (tb_columns u) \<and> set (tb_uniques t) = set (tb_uniques u)
     \<and> set (map (\<lambda>i. (ix_columns i, ix_where i)) (tb_indexes t))
       = set (map (\<lambda>i. (ix_columns i, ix_where i)) (tb_indexes u))"

definition same_tables :: "schema \<Rightarrow> schema \<Rightarrow> bool" where
  "same_tables s1 s2 \<longleftrightarrow> set (map fst s1) = set (map fst s2) \<and>
     list_all (\<lambda>(n, t). case map_of s2 n of None \<Rightarrow> False | Some u \<Rightarrow> agree t u) s1"

definition index_names :: "schema \<Rightarrow> string set" where
  "index_names s = set (concat (map (\<lambda>(n, t). map ix_name (tb_indexes t)) s))"

lemma head_agrees: "(case migrated 6 of Inl _ \<Rightarrow> False | Inr s \<Rightarrow> same_tables s metadata
    \<and> index_names s - index_names metadata = {''ix_outbound_messages_provider_thread_id'',
        ''ix_inbound_messages_provider_thread_id'', ''ix_outbox_events_created_at''}
    \<and> index_names metadata - index_names s = {''ix_messaging__outbound_messages_provider_thread_id'',
        ''ix_messaging__inbound_messages_provider_thread_id'', ''ix_messaging__outbox_events_created_at''})"
  by code_simp

lemma leads_at_head: "\<exists>t. (''campaign__leads'', t) \<in> set (schema_at 6) \<and> agree t (snd Lead_table)"
proof -
  have head: "migrated 6 = Inr (schema_at 6)" by (rule schema_walk(1)) simp
  with head_agrees have same: "same_tables (schema_at 6) metadata" by simp
  have "''campaign__leads'' \<in> set (map fst metadata)" by (simp add: metadata_def Lead_table_def declares_def)
  moreover have "set (map fst (schema_at 6)) = set (map fst metadata)"
    using same unfolding same_tables_def by (rule conjunct1)
  ultimately have "''campaign__leads'' \<in> set (map fst (schema_at 6))" by (simp only:)
  then obtain t where t: "(''campaign__leads'', t) \<in> set (schema_at 6)" by auto
  moreover have "map_of metadata ''campaign__leads'' = Some (snd Lead_table)"
    by (simp add: metadata_def Campaign_table_def Step_table_def Lead_table_def declares_def)
  ultimately have "agree t (snd Lead_table)" using same by (auto simp: same_tables_def list_all_iff)
  with t show ?thesis by blast
qed

end
