(* ===== verification/Api_Routes.thy ===== *)
theory Api_Routes
  imports Campaign_Commands Identity Worker
begin

text \<open>
  The routes of the HTTP API (\<open>presentation/routes\<close> of each context and of \<open>shared\<close>): what a
  request must satisfy, the handler it runs in the session of its workspace, and the status that
  each error becomes. A request body is given with the types of its model: the constraints of
  \<open>Field\<close> are checked here, the decoding of JSON is pydantic's. A response is the model that the
  route returns; its serialization is FastAPI's.
\<close>

section \<open>Requests in a workspace\<close>

text \<open>
  The dependencies in the order of the signatures: \<open>require_workspace\<close>, then \<open>get_session\<close>, whose
  transaction ends with the request.
\<close>

definition in_workspace :: "uuid option \<Rightarrow> (uuid \<Rightarrow> 'a act) \<Rightarrow> 'a act" where
  "in_workspace context m = bindp (require_workspace context) (\<lambda>workspace_id. session context (m workspace_id))"

text \<open>FastAPI validates the body once the dependencies are solved.\<close>

definition validated :: "bool \<Rightarrow> 'a act \<Rightarrow> 'a act" where
  "validated ok m = (if ok then m else raise RequestValidationError)"

text \<open>\<open>except ...: raise HTTPException(...)\<close>, for the errors of the table.\<close>

definition http_errors :: "(exn \<rightharpoonup> exn) \<Rightarrow> 'a act \<Rightarrow> 'a act" where
  "http_errors table m = tryp m (\<lambda>e. raise (case table e of None \<Rightarrow> e | Some h \<Rightarrow> h))"

section \<open>Campaigns\<close>

record step_request =
  rq_subject :: string
  rq_text :: string
  rq_delay_seconds :: int

record create_campaign_request =
  rq_name :: string
  rq_steps :: "step_request list"

definition valid_step_request :: "step_request \<Rightarrow> bool" where
  "valid_step_request q \<longleftrightarrow> 1 \<le> length (rq_subject q) \<and> 1 \<le> length (rq_text q) \<and> 0 \<le> rq_delay_seconds q"

definition valid_create_request :: "create_campaign_request \<Rightarrow> bool" where
  "valid_create_request q \<longleftrightarrow> 1 \<le> length (rq_name q) \<and> length (rq_name q) \<le> 200
     \<and> 1 \<le> length (rq_steps q) \<and> list_all valid_step_request (rq_steps q)"

text \<open>
  \<open>list[EmailStr]\<close>: the validator of addresses, a parameter, refuses an address or returns it
  in its normal form.
\<close>

type_synonym email_validator = "string \<Rightarrow> string option"

fun valid_emails :: "email_validator \<Rightarrow> string list \<Rightarrow> string list option" where
  "valid_emails email_str [] = Some []"
| "valid_emails email_str (e # es) =
     Option.bind (email_str e) (\<lambda>x. map_option (Cons x) (valid_emails email_str es))"

definition valid_add_request :: "email_validator \<Rightarrow> string list \<Rightarrow> string list option" where
  "valid_add_request email_str emails =
     (if 1 \<le> length emails \<and> length emails \<le> 1000 then valid_emails email_str emails else None)"

record campaign_response =
  cp_id :: uuid
  cp_name :: string
  cp_status :: string
  cp_mailbox_id :: uuid
  cp_steps :: "step list"
  cp_created_at :: time

record campaign_summary_response = campaign_response +
  cp_lead_counts :: "(string \<times> nat) list"

record lead_response =
  lp_id :: uuid
  lp_email :: string
  lp_state :: string
  lp_steps_sent :: int
  lp_stop_reason :: "string option"
  lp_reply_intent :: "string option"
  lp_next_send_at :: "time option"
  lp_updated_at :: time

record campaign_detail_response = campaign_response +
  cp_leads :: "lead_response list"

record start_campaign_response =
  sp_status :: string
  sp_scheduled :: int

definition campaign_fields :: "campaign \<Rightarrow> campaign_response" where
  "campaign_fields c =
     \<lparr> cp_id = c_id c, cp_name = c_name c, cp_status = campaign_status_value (c_status c),
       cp_mailbox_id = c_mailbox_id c, cp_steps = c_steps c, cp_created_at = c_created_at c \<rparr>"

text \<open>The dict of counts, with the states in the order of their declaration.\<close>

definition counts_by_name :: "(lead_state \<rightharpoonup> nat) \<Rightarrow> (string \<times> nat) list" where
  "counts_by_name counts = List.map_filter (\<lambda>st. map_option (Pair (lead_state_value st)) (counts st)) Enum.enum"

definition lead_response_of :: "lead_view \<Rightarrow> lead_response" where
  "lead_response_of v =
     (let l = lv_lead v in
      \<lparr> lp_id = l_id l, lp_email = l_email l, lp_state = lead_state_value (l_state l),
        lp_steps_sent = l_steps_sent l,
        lp_stop_reason = map_option stop_reason_value (l_stop_reason l),
        lp_reply_intent = l_reply_intent l, lp_next_send_at = lv_next_send_at v,
        lp_updated_at = l_updated_at l \<rparr>)"

definition CAMPAIGN_NOT_FOUND :: exn where
  "CAMPAIGN_NOT_FOUND = HTTPException 404 ''Campaign not found''"

definition create_command :: "create_campaign_request \<Rightarrow> create_campaign_command" where
  "create_command q =
     \<lparr> cc_name = rq_name q,
       cc_steps = map (\<lambda>s. \<lparr> d_subject = rq_subject s, d_body = rq_text s,
                             d_delay_seconds = rq_delay_seconds s \<rparr>) (rq_steps q) \<rparr>"

definition create_errors :: "exn \<rightharpoonup> exn" where
  "create_errors e =
     (if e = MailboxNotConnectedError
      then Some (HTTPException 409 ''No mailbox connected to this workspace'')
      else if e \<in> {CampaignHasNoStepsError, NegativeStepDelayError}
      then Some (HTTPException 422 ''Invalid campaign steps'')
      else None)"

definition campaign_errors :: "exn \<rightharpoonup> exn" where
  "campaign_errors e = (if e = CampaignNotFoundError then Some CAMPAIGN_NOT_FOUND else None)"

definition start_errors :: "exn \<rightharpoonup> exn" where
  "start_errors e =
     (if e = CampaignHasNoLeadsError
      then Some (HTTPException 422 ''The campaign has no leads to start'')
      else campaign_errors e)"

definition route_create_campaign ::
  "uuid option \<Rightarrow> create_campaign_request \<Rightarrow> campaign_response act" where
  "route_create_campaign context q = in_workspace context (\<lambda>workspace_id.
     validated (valid_create_request q) (
       bindp (http_errors create_errors (create_campaign (create_command q) workspace_id)) (\<lambda>c.
       ret (campaign_fields c))))"

definition route_list_campaigns :: "uuid option \<Rightarrow> campaign_summary_response list act" where
  "route_list_campaigns context = in_workspace context (\<lambda>_.
     bindp list_campaigns (\<lambda>summaries. ret (map (\<lambda>s.
       campaign_response.extend (campaign_fields (cs_campaign s))
         (campaign_summary_response.fields (counts_by_name (cs_lead_counts s)))) summaries)))"

definition route_get_campaign :: "uuid option \<Rightarrow> uuid \<Rightarrow> campaign_detail_response act" where
  "route_get_campaign context campaign_id = in_workspace context (\<lambda>_.
     bindp (http_errors campaign_errors (get_campaign campaign_id)) (\<lambda>detail.
       ret (campaign_response.extend (campaign_fields (cd_campaign detail))
              (campaign_detail_response.fields (map lead_response_of (cd_leads detail))))))"

definition route_add_leads ::
  "email_validator \<Rightarrow> uuid option \<Rightarrow> uuid \<Rightarrow> string list \<Rightarrow> add_leads_result act" where
  "route_add_leads email_str context campaign_id emails = in_workspace context (\<lambda>_.
     case valid_add_request email_str emails of
       None \<Rightarrow> raise RequestValidationError
     | Some addresses \<Rightarrow>
         bindp now (\<lambda>moment. http_errors campaign_errors (add_leads_command campaign_id addresses moment)))"

definition route_start_campaign :: "uuid option \<Rightarrow> uuid \<Rightarrow> start_campaign_response act" where
  "route_start_campaign context campaign_id = in_workspace context (\<lambda>_.
     bindp (bindp now (\<lambda>moment. http_errors start_errors (start_campaign campaign_id moment))) (\<lambda>result.
       ret \<lparr> sp_status = campaign_status_value (c_status (sr_campaign result)),
             sp_scheduled = sr_scheduled result \<rparr>))"

definition route_get_campaign_metrics :: "uuid option \<Rightarrow> uuid \<Rightarrow> campaign_metrics act" where
  "route_get_campaign_metrics context campaign_id = in_workspace context (\<lambda>_.
     http_errors campaign_errors (get_campaign_metrics campaign_id))"

section \<open>One email for trying out\<close>

definition send_errors :: "exn \<rightharpoonup> exn" where
  "send_errors e =
     (case e of
        MailboxNotConfiguredError \<Rightarrow> Some (HTTPException 409 ''No mailbox configured'')
      | RecipientSuppressedError \<Rightarrow> Some (HTTPException 409 ''Recipient is suppressed'')
      | MailboxBusyError \<Rightarrow> Some (HTTPException 429 ''Mailbox is busy, retry shortly'')
      | DailySendCapReachedError retry_at \<Rightarrow>
          Some (HTTPException 429 (''Daily send cap reached, retry at '' @ isoformat retry_at))
      | _ \<Rightarrow> None)"

definition route_send_test_email ::
  "sender \<Rightarrow> uuid option \<Rightarrow> send_email_command \<Rightarrow> outbound_message act" where
  "route_send_test_email sender context command = in_workspace context (\<lambda>workspace_id.
     http_errors send_errors (send_email sender command workspace_id))"

section \<open>Mailboxes\<close>

record mailbox_overview =
  ov_mailbox :: mailbox
  ov_sent_today :: int
  ov_suppressed_addresses :: nat

definition remaining_today :: "mailbox_overview \<Rightarrow> int" where
  "remaining_today ov = max (mb_daily_send_cap (ov_mailbox ov) - ov_sent_today ov) 0"

definition list_mailboxes :: "uuid \<Rightarrow> time \<Rightarrow> mailbox_overview list act" where
  "list_mailboxes workspace_id moment =
     (let day_start = start_of_utc_day moment in
      bindp (activity_suppressed_addresses workspace_id) (\<lambda>suppressed.
      bindp (mailboxes_list_by_workspace workspace_id) (mapp (\<lambda>mailbox.
        bindp (activity_sent_since (mb_id mailbox) day_start) (\<lambda>sent_today.
        ret \<lparr> ov_mailbox = mailbox, ov_sent_today = sent_today,
              ov_suppressed_addresses = suppressed \<rparr>)))))"

record mailbox_response =
  mp_id :: uuid
  mp_email_address :: string
  mp_daily_send_cap :: int
  mp_sent_today :: int
  mp_remaining_today :: int
  mp_suppressed_addresses :: nat

definition mailbox_response_of :: "mailbox_overview \<Rightarrow> mailbox_response" where
  "mailbox_response_of ov =
     \<lparr> mp_id = mb_id (ov_mailbox ov), mp_email_address = mb_email_address (ov_mailbox ov),
       mp_daily_send_cap = mb_daily_send_cap (ov_mailbox ov), mp_sent_today = ov_sent_today ov,
       mp_remaining_today = remaining_today ov,
       mp_suppressed_addresses = ov_suppressed_addresses ov \<rparr>"

definition route_list_mailboxes :: "uuid option \<Rightarrow> mailbox_response list act" where
  "route_list_mailboxes context = in_workspace context (\<lambda>workspace_id.
     bindp (bindp now (list_mailboxes workspace_id)) (\<lambda>overviews.
       ret (map mailbox_response_of overviews)))"

section \<open>The workspace\<close>

definition workspace_errors :: "exn \<rightharpoonup> exn" where
  "workspace_errors e =
     (if e = WorkspaceNotFoundError then Some (HTTPException 404 ''Workspace not found'') else None)"

definition route_get_my_workspace :: "uuid option \<Rightarrow> workspace act" where
  "route_get_my_workspace context = in_workspace context (\<lambda>workspace_id.
     http_errors workspace_errors (get_my_workspace workspace_id))"

section \<open>The state, for debugging\<close>

text \<open>\<open>_count\<close> and \<open>_grouped\<close>, over the rows that a statement selects.\<close>

definition grouped :: "string list \<Rightarrow> (string \<times> nat) list" where
  "grouped ks = map (\<lambda>k. (k, count (\<lambda>x. x = k) ks)) (remdups ks)"

record event_summary =
  ev_event_type :: string
  ev_aggregate_id :: string
  ev_created_at :: string

record debug_state =
  ds_db :: string
  ds_workspace_id :: string
  ds_mailbox_last_sync_cursor :: "string option"
  ds_outbound_count :: nat
  ds_inbound_count :: nat
  ds_intents :: "(string \<times> nat) list"
  ds_leads :: "(string \<times> nat) list"
  ds_send_jobs :: "(string \<times> nat) list"
  ds_recent_events :: "event_summary list"

definition recent_events :: "world \<Rightarrow> uuid \<Rightarrow> outbox_event list" where
  "recent_events w workspace_id =
     take 10 (rev (sort_key oe_created_at (sort_key oe_id
       (filter (\<lambda>r. oe_workspace_id r = workspace_id) (outbox_rows w)))))"

definition debug_state_of :: "uuid \<Rightarrow> world \<Rightarrow> debug_state" where
  "debug_state_of workspace_id w =
     \<lparr> ds_db = ''ok'', ds_workspace_id = uuid_str workspace_id,
       ds_mailbox_last_sync_cursor = Option.bind (mailbox_of w workspace_id) mb_last_sync_cursor,
       ds_outbound_count = count (\<lambda>r. om_workspace_id r = workspace_id) (outbound_rows w),
       ds_inbound_count = count (\<lambda>r. im_workspace_id r = workspace_id) (inbound_rows w),
       ds_intents = grouped (map intent_value (List.map_filter im_intent
         (filter (\<lambda>r. im_workspace_id r = workspace_id) (inbound_rows w)))),
       ds_leads = grouped (map (lead_state_value \<circ> l_state)
         (filter (\<lambda>l. l_workspace_id l = workspace_id) (lead_rows w))),
       ds_send_jobs = grouped (map (send_job_status_value \<circ> jr_status)
         (filter (\<lambda>r. jr_workspace_id r = workspace_id) (send_job_rows w))),
       ds_recent_events = map (\<lambda>e. \<lparr> ev_event_type = oe_event_type e,
         ev_aggregate_id = uuid_str (oe_aggregate_id e), ev_created_at = isoformat (oe_created_at e) \<rparr>)
         (recent_events w workspace_id) \<rparr>"

text \<open>The handler of the route answers 503 for an error of the database; reading raises none here.\<close>

definition route_debug_state :: "uuid option \<Rightarrow> debug_state act" where
  "route_debug_state context = in_workspace context (\<lambda>workspace_id. gets (debug_state_of workspace_id))"

section \<open>Routes without a workspace\<close>

definition route_health :: "(string \<times> string) list" where
  "route_health = [(''status'', ''ok'')]"

definition route_version :: "settings \<Rightarrow> (string \<times> string) list" where
  "route_version s =
     [(''version'', ''0.0.1''), (''git_sha'', git_sha s), (''app_env'', app_env_value (app_env_setting s))]"

end
