(* ===== verification/Api.thy ===== *)
theory Api
  imports Api_Routes
begin

text \<open>
  The application that \<open>entrypoints/api.py\<close> composes: which routers an environment has, the
  middleware around them, what a request is answered with, which routes are tools of the MCP
  server (\<open>shared/presentation/mcp.py\<close>), and how a request is counted
  (\<open>shared/presentation/http_metrics.py\<close>).
\<close>

section \<open>Requests and answers\<close>

text \<open>One constructor per route, with its path parameters, its own header and its body.\<close>

datatype api_request =
    GetHealth
  | GetMetrics
  | GetVersion
  | GetMyWorkspace
  | CreateCampaign create_campaign_request
  | ListCampaigns
  | GetCampaign uuid
  | AddLeads uuid "string list"
  | StartCampaign uuid
  | GetCampaignMetrics uuid
  | ListMailboxes
  | GetDebugState
  | SendTestEmail send_email_command
  | ProcessSendJob "string option" uuid

datatype api_body =
    ErrorBody string
  | TextBody "(string \<times> string) list"
  | PrometheusBody "metric list"
  | WorkspaceBody workspace
  | CampaignBody campaign_response
  | SummariesBody "campaign_summary_response list"
  | DetailBody campaign_detail_response
  | AddedBody add_leads_result
  | StartedBody start_campaign_response
  | NumbersBody campaign_metrics
  | MailboxesBody "mailbox_response list"
  | DebugBody debug_state
  | SentBody outbound_message
  | ProcessedBody "uuid \<times> string"

record answer =
  an_status :: int
  an_body :: api_body

section \<open>The routers\<close>

datatype router =
    health_router | metrics_router | version_router | workspaces_router | campaigns_router
  | mailboxes_router | debug_router | messaging_router | internal_send_jobs_router

definition production :: "settings \<Rightarrow> bool" where
  "production s \<longleftrightarrow> app_env_setting s = PRODUCTION"

definition included_routers :: "settings \<Rightarrow> router list" where
  "included_routers s =
     [health_router, metrics_router, version_router, workspaces_router, campaigns_router,
      mailboxes_router, debug_router]
     @ (if \<not> production s then [messaging_router] else [])
     @ (if \<not> production s \<and> internal_api_token s \<noteq> [] then [internal_send_jobs_router] else [])"

primrec router_of :: "api_request \<Rightarrow> router" where
  "router_of GetHealth = health_router"
| "router_of GetMetrics = metrics_router"
| "router_of GetVersion = version_router"
| "router_of GetMyWorkspace = workspaces_router"
| "router_of (CreateCampaign _) = campaigns_router"
| "router_of ListCampaigns = campaigns_router"
| "router_of (GetCampaign _) = campaigns_router"
| "router_of (AddLeads _ _) = campaigns_router"
| "router_of (StartCampaign _) = campaigns_router"
| "router_of (GetCampaignMetrics _) = campaigns_router"
| "router_of ListMailboxes = mailboxes_router"
| "router_of GetDebugState = debug_router"
| "router_of (SendTestEmail _) = messaging_router"
| "router_of (ProcessSendJob _ _) = internal_send_jobs_router"

text \<open>The method and the template of the path of each route.\<close>

primrec method_and_path :: "api_request \<Rightarrow> string \<times> string" where
  "method_and_path GetHealth = (''GET'', ''/health'')"
| "method_and_path GetMetrics = (''GET'', ''/metrics'')"
| "method_and_path GetVersion = (''GET'', ''/version'')"
| "method_and_path GetMyWorkspace = (''GET'', ''/workspaces/me'')"
| "method_and_path (CreateCampaign _) = (''POST'', ''/campaigns'')"
| "method_and_path ListCampaigns = (''GET'', ''/campaigns'')"
| "method_and_path (GetCampaign _) = (''GET'', ''/campaigns/{campaign_id}'')"
| "method_and_path (AddLeads _ _) = (''POST'', ''/campaigns/{campaign_id}/leads'')"
| "method_and_path (StartCampaign _) = (''POST'', ''/campaigns/{campaign_id}/start'')"
| "method_and_path (GetCampaignMetrics _) = (''GET'', ''/campaigns/{campaign_id}/metrics'')"
| "method_and_path ListMailboxes = (''GET'', ''/mailboxes'')"
| "method_and_path GetDebugState = (''GET'', ''/debug/state'')"
| "method_and_path (SendTestEmail _) = (''POST'', ''/send-test-email'')"
| "method_and_path (ProcessSendJob _ _) = (''POST'', ''/internal/send-jobs/{job_id}/process'')"

text \<open>The operation of each route, with \<open>tags=["mcp"]\<close> where it has the tag.\<close>

primrec operation_of :: "api_request \<Rightarrow> string option" where
  "operation_of GetHealth = None"
| "operation_of GetMetrics = None"
| "operation_of GetVersion = None"
| "operation_of GetMyWorkspace = None"
| "operation_of (CreateCampaign _) = Some ''create_campaign''"
| "operation_of ListCampaigns = Some ''list_campaigns''"
| "operation_of (GetCampaign _) = Some ''get_campaign''"
| "operation_of (AddLeads _ _) = Some ''add_leads_to_campaign''"
| "operation_of (StartCampaign _) = Some ''start_campaign''"
| "operation_of (GetCampaignMetrics _) = Some ''get_campaign_metrics''"
| "operation_of ListMailboxes = Some ''list_mailboxes''"
| "operation_of GetDebugState = None"
| "operation_of (SendTestEmail _) = None"
| "operation_of (ProcessSendJob _ _) = None"

section \<open>The MCP server\<close>

text \<open>
  The route maps in their order: a route with the tag is a tool, any other is left out. A tool
  calls its route with the authorization of its caller.
\<close>

datatype mcp_type = MCP_TOOL | MCP_EXCLUDE

definition mcp_type_of :: "api_request \<Rightarrow> mcp_type" where
  "mcp_type_of request = (if operation_of request \<noteq> None then MCP_TOOL else MCP_EXCLUDE)"

definition forward_caller_authorization :: "string option \<Rightarrow> credentials \<Rightarrow> credentials" where
  "forward_caller_authorization caller request =
     (case caller of
        None \<Rightarrow> request
      | Some a \<Rightarrow> if a = [] then request else request\<lparr>authorization := Some a\<rparr>)"

section \<open>Answering\<close>

record api_ports =
  ap_sender :: sender
  ap_email_str :: email_validator
  ap_sha256 :: "string \<Rightarrow> string"

text \<open>
  A route's result becomes an answer with its status code; an \<open>HTTPException\<close> and a failed
  validation become one of their own, and any other error reaches the server.
\<close>

definition respond :: "int \<Rightarrow> ('a \<Rightarrow> api_body) \<Rightarrow> 'a act \<Rightarrow> answer act" where
  "respond status body m =
     tryp (bindp m (\<lambda>x. ret \<lparr> an_status = status, an_body = body x \<rparr>)) (\<lambda>e.
       case e of
         HTTPException st detail \<Rightarrow> ret \<lparr> an_status = st, an_body = ErrorBody detail \<rparr>
       | RequestValidationError \<Rightarrow> ret \<lparr> an_status = 422, an_body = ErrorBody ''validation'' \<rparr>
       | _ \<Rightarrow> raise e)"

primrec run_route :: "settings \<Rightarrow> api_ports \<Rightarrow> uuid option \<Rightarrow> api_request \<Rightarrow> answer act" where
  "run_route s p context GetHealth = respond 200 TextBody (ret route_health)"
| "run_route s p context GetMetrics = respond 200 PrometheusBody (gets metrics)"
| "run_route s p context GetVersion = respond 200 TextBody (ret (route_version s))"
| "run_route s p context GetMyWorkspace = respond 200 WorkspaceBody (route_get_my_workspace context)"
| "run_route s p context (CreateCampaign q) = respond 201 CampaignBody (route_create_campaign context q)"
| "run_route s p context ListCampaigns = respond 200 SummariesBody (route_list_campaigns context)"
| "run_route s p context (GetCampaign i) = respond 200 DetailBody (route_get_campaign context i)"
| "run_route s p context (AddLeads i emails) =
     respond 200 AddedBody (route_add_leads (ap_email_str p) context i emails)"
| "run_route s p context (StartCampaign i) = respond 200 StartedBody (route_start_campaign context i)"
| "run_route s p context (GetCampaignMetrics i) = respond 200 NumbersBody (route_get_campaign_metrics context i)"
| "run_route s p context ListMailboxes = respond 200 MailboxesBody (route_list_mailboxes context)"
| "run_route s p context GetDebugState = respond 200 DebugBody (route_debug_state context)"
| "run_route s p context (SendTestEmail command) =
     respond 200 SentBody (route_send_test_email (ap_sender p) context command)"
| "run_route s p context (ProcessSendJob token i) =
     respond 200 ProcessedBody (route_process_send_job s (ap_sender p) token context i)"

definition route_or_404 :: "settings \<Rightarrow> api_ports \<Rightarrow> api_request \<Rightarrow> uuid option \<Rightarrow> answer act" where
  "route_or_404 s p request context =
     (if router_of request \<in> set (included_routers s) then run_route s p context request
      else ret \<lparr> an_status = 404, an_body = ErrorBody ''Not Found'' \<rparr>)"

text \<open>
  \<open>resolve_workspace_by_api_key\<close> looks the key up in a session of its own, without a workspace.
\<close>

definition resolve_workspace_by_api_key :: "(string \<Rightarrow> string) \<Rightarrow> string \<Rightarrow> uuid option act" where
  "resolve_workspace_by_api_key sha256 raw_key = session None (resolve_api_key sha256 raw_key)"

definition create_app :: "settings \<Rightarrow> api_ports \<Rightarrow> credentials \<Rightarrow> api_request \<Rightarrow> answer act" where
  "create_app s p creds request =
     with_workspace_context (resolve_workspace_by_api_key (ap_sha256 p)) (\<not> production s) creds
       (route_or_404 s p request)
       (\<lambda>status detail. \<lparr> an_status = status, an_body = ErrorBody detail \<rparr>)"

section \<open>Counting requests\<close>

definition METRICS_PATH :: string where
  "METRICS_PATH = ''/metrics''"

definition UNMATCHED_ROUTE :: string where
  "UNMATCHED_ROUTE = ''unmatched''"

text \<open>
  A scope of ASGI: its type, its method, the path a mounted application stands under, and the
  path of the route that the router found, if any; and the messages the application sends.
\<close>

record scope =
  sc_type :: string
  sc_method :: string
  sc_root_path :: "string option"
  sc_route_path :: "string option"

datatype asgi_message = ResponseStart int | OtherMessage

definition route_template :: "scope \<Rightarrow> string" where
  "route_template sc =
     (let root_path = (case sc_root_path sc of None \<Rightarrow> [] | Some r \<Rightarrow> r) in
      case sc_route_path sc of
        Some path \<Rightarrow> if root_path \<noteq> [] then root_path @ path else path
      | None \<Rightarrow> if root_path \<noteq> [] then root_path else UNMATCHED_ROUTE)"

text \<open>
  \<open>HttpMetricsMiddleware\<close>: the messages that the application sent before it ended or raised,
  and the labels that are counted; the duration is not modelled.
\<close>

definition observed_status :: "asgi_message list \<Rightarrow> int" where
  "observed_status messages =
     foldl (\<lambda>status m. case m of ResponseStart st \<Rightarrow> st | OtherMessage \<Rightarrow> status) 500 messages"

definition http_requests :: "scope \<Rightarrow> asgi_message list \<Rightarrow> (string \<times> string \<times> string) list" where
  "http_requests sc messages =
     (if sc_type sc \<noteq> ''http'' then []
      else let route = route_template sc in
        if route = METRICS_PATH then []
        else [(sc_method sc, route, int_str (observed_status messages))])"

text \<open>
  What the middleware sees of a request of the API: the route is known once the router was
  reached and has it, and an answer is sent unless an error reaches the server.
\<close>

definition scope_of :: "settings \<Rightarrow> bool \<Rightarrow> api_request \<Rightarrow> scope" where
  "scope_of s routed request =
     \<lparr> sc_type = ''http'', sc_method = fst (method_and_path request), sc_root_path = None,
       sc_route_path = (if routed \<and> router_of request \<in> set (included_routers s)
         then Some (snd (method_and_path request)) else None) \<rparr>"

definition messages_of :: "exn + answer \<Rightarrow> asgi_message list" where
  "messages_of r = (case r of Inl e \<Rightarrow> [] | Inr a \<Rightarrow> [ResponseStart (an_status a), OtherMessage])"

end
