(* ===== verification/Api_Laws.thy ===== *)
theory Api_Laws
  imports Api System_Laws
begin

text \<open>
  The HTTP API as one of the actors of the running program: what a request does is a sequence of
  the steps of \<open>System\<close>, it stays in the workspace of its credentials, and without credentials
  nothing happens.
\<close>

section \<open>Sessions and the errors of the routes\<close>

lemma session_http_errors: "session c (http_errors t m) = http_errors t (session c m)"
  by (rule ext) (simp add: session_def http_errors_def tryp_run split: prod.splits sum.splits)

lemma session_bindp_ret: "session c (bindp m (\<lambda>x. ret (f x))) = bindp (session c m) (\<lambda>x. ret (f x))"
  by (rule ext) (simp add: session_def bindp_run split: prod.splits sum.splits)

lemma session_raise: "session c (raise e) w = (Inl e, w\<lparr>guc := None, own := []\<rparr>)"
  by (simp add: session_def)

lemma session_now: "session c (bindp now f) w = session c (f (clock_at w (reads w))) (w\<lparr>reads := Suc (reads w)\<rparr>)"
proof -
  have eq: "(w\<lparr>guc := c, own := []\<rparr>)\<lparr>reads := n\<rparr> = (w\<lparr>reads := n\<rparr>)\<lparr>guc := c, own := []\<rparr>" for n by simp
  show ?thesis by (simp add: session_def bindp_run eq split: prod.split sum.split)
qed

lemma session_Some: "session (Some ws) = session_for_workspace ws"
  by (rule ext) (simp add: session_for_workspace_def)

text \<open>What only counts and reads the clock may as well run after the transaction.\<close>

definition counts_only :: "('a \<Rightarrow> 'b act) \<Rightarrow> bool" where
  "counts_only k \<longleftrightarrow> (\<forall>x w. \<exists>y n ms. \<forall>g l. k x (w\<lparr>guc := g, own := l\<rparr>)
     = (Inr y, w\<lparr>guc := g, own := l, reads := n, metrics := ms\<rparr>))"

lemma session_counts:
  assumes "counts_only k"
  shows "session c (bindp m k) w = bindp (session c m) k w"
proof -
  obtain r v where m: "m (w\<lparr>guc := c, own := []\<rparr>) = (r, v)" by fastforce
  show ?thesis
  proof (cases r)
    case (Inl e)
    then show ?thesis using m by (simp add: session_def bindp_run)
  next
    case (Inr x)
    obtain y n ms where k: "k x (v\<lparr>guc := g, own := l\<rparr>) = (Inr y, v\<lparr>guc := g, own := l, reads := n, metrics := ms\<rparr>)" for g l
      using assms unfolding counts_only_def by blast
    have "k x v = (Inr y, v\<lparr>reads := n, metrics := ms\<rparr>)" using k [where g = "guc v" and l = "own v"] by simp
    then show ?thesis using m Inr k [where g = None and l = "[]"] by (simp add: session_def bindp_run)
  qed
qed

section \<open>Programs that only read\<close>

definition still :: "world \<Rightarrow> world \<Rightarrow> bool" where
  "still w0 w \<longleftrightarrow> db w = db w0 \<and> wire w = wire w0 \<and> next_uuid w = next_uuid w0"

lemma still_refl [simp]: "still w w"
  by (simp add: still_def)

lemma still_now: "keeps (still w0) now"
  by (simp add: keeps_def still_def)

lemma still_session:
  assumes "\<And>u. keeps (still u) m"
  shows "keeps (still w0) (session c m)"
proof (rule keepsI)
  fix w assume w: "still w0 w"
  obtain r v where m: "m (w\<lparr>guc := c, own := []\<rparr>) = (r, v)" by fastforce
  have "still w v" by (rule keepsD_run [OF assms _ m]) (simp add: still_def)
  with w m show "still w0 (snd (session c m w))" by (cases r) (simp_all add: session_def still_def)
qed

lemma performs_still: "(\<And>u. keeps (still u) m) \<Longrightarrow> performs H m"
  by (rule performs_output) (use keepsD_run in \<open>fastforce simp: still_def\<close>)

lemma still_simple: "keeps (still w0) (lift r)" "keeps (still w0) (ret x)" "keeps (still w0) (raise e)" "keeps (still w0) (gets f)"
  by (intro keep_intros)+

lemma still_http_errors: "keeps (still w0) m \<Longrightarrow> keeps (still w0) (http_errors t m)"
  unfolding http_errors_def by (intro keep_intros)

lemma still_emit: "keeps (still w0) (emit ms)"
  by (simp add: keeps_def still_def emit_def)

lemma still_require: "keeps (still w0) (require_workspace c)"
  unfolding require_workspace_def by (intro keep_intros)

lemma still_queries:
  "keeps (still w0) (get_campaign i)" "keeps (still w0) list_campaigns" "keeps (still w0) (get_campaign_metrics i)"
  "keeps (still w0) (list_mailboxes ws t)" "keeps (still w0) (get_my_workspace ws)" "keeps (still w0) (resolve_api_key sha256 raw)"
  unfolding get_campaign_def list_campaigns_def get_campaign_metrics_def list_mailboxes_def get_my_workspace_def
    resolve_api_key_def campaigns_get_def jobs_next_send_at_def leads_list_by_campaign_def campaigns_list_def
    leads_count_by_state_def leads_stats_def activity_suppressed_addresses_def suppressions_count_addresses_def
    mailboxes_list_by_workspace_def activity_sent_since_def outbound_count_sent_since_def workspaces_get_def
    keys_get_by_prefix_def Let_def
  by (intro keep_intros)+

lemma still_resolve: "keeps (still w0) (resolve_workspace_by_api_key sha256 raw)"
  unfolding resolve_workspace_by_api_key_def by (intro still_session still_queries)

lemma still_request_workspace: "keeps (still w0) (request_workspace (resolve_workspace_by_api_key sha256) accept creds)"
  unfolding request_workspace_def Let_def by (intro keep_intros still_resolve)

section \<open>Every request is a run\<close>

lemma session_now_eq: "session c (bindp now f) = bindp now (\<lambda>t. session c (f t))"
  by (rule ext) (simp only: session_now, simp add: bindp_run)

lemma performs_raise: "performs H (raise e)"
  by (rule performs_still) (rule still_simple)

lemma performs_http_errors: "performs H m \<Longrightarrow> performs H (http_errors t m)"
  unfolding http_errors_def by (intro performs_tryp performs_raise)

lemma in_workspace_cases:
  "in_workspace None m = raise (HTTPException 401 ''Missing credentials: send Authorization: Bearer <api-key>'')"
  "in_workspace (Some ws) m = session (Some ws) (m ws)"
  by (rule ext, simp add: in_workspace_def require_workspace_def bindp_run)+

lemma performs_in_workspace:
  assumes "\<And>ws. performs H (session (Some ws) (m ws))"
  shows "performs H (in_workspace c m)"
  using assms by (cases c) (simp_all add: in_workspace_cases performs_raise)

lemma performs_transaction:
  assumes "\<And>w r w' h s. m w = (r, w') \<Longrightarrow> system_step ws (system.make w h s) (system.make w' h (s @ f r))"
  shows "performs H m"
proof (rule performs_step [where ws = ws])
  fix w r w' h and s :: "(uuid \<times> uuid \<times> int) list"
  assume "m w = (r, w')"
  from assms [OF this] show "\<exists>h' s'. h \<subseteq> h' \<and> system_step ws (system.make w h s) (system.make w' h' (s @ s'))"
    by blast
qed

lemma performs_commands:
  "performs H (session (Some ws) (create_campaign command ws))"
  "performs H (session (Some ws) (add_leads_command i emails t))"
  "performs H (session (Some ws) (start_campaign i t))"
  "performs H (session (Some ws) (bindp now (\<lambda>t. process_by_id (email_dispatch sender) i ws t)))"
proof -
  show "performs H (session (Some ws) (create_campaign command ws))"
    by (rule performs_transaction [where ws = ws and f = "\<lambda>_. []"]) (simp add: session_Some system_step.creates)
  show "performs H (session (Some ws) (add_leads_command i emails t))"
    by (rule performs_transaction [where ws = ws and f = "\<lambda>_. []"]) (simp add: session_Some system_step.adds)
  show "performs H (session (Some ws) (start_campaign i t))"
    by (rule performs_transaction [where ws = ws and f = "\<lambda>_. []"]) (simp add: session_Some system_step.starts)
  show "performs H (session (Some ws) (bindp now (\<lambda>t. process_by_id (email_dispatch sender) i ws t)))"
    by (rule performs_transaction [where ws = ws]) (simp only: session_Some, rule system_step.by_id)
qed

lemma performs_refused: "performs H (session c (raise e))"
  by (rule performs_still) (simp add: keeps_def session_raise still_def)

lemma performs_query: "(\<And>u. keeps (still u) m) \<Longrightarrow> performs H (session c m)"
  by (rule performs_still) (rule still_session)

lemma counts_only_outcome:
  "counts_only (\<lambda>p. bindp now (\<lambda>t. thenp (record_send_job_outcome (ps_job p) (ps_outcome p) t) (ret (f (p :: 'a processed_send_job_scheme)))))"
  unfolding counts_only_def
proof (intro allI)
  fix p :: "'a processed_send_job_scheme" and w :: world
  let ?ms = "metrics (snd (record_send_job_outcome (ps_job p) (ps_outcome p) (clock_at w (reads w)) w))"
  show "\<exists>y n ms. \<forall>g l. bindp now (\<lambda>t. thenp (record_send_job_outcome (ps_job p) (ps_outcome p) t) (ret (f p))) (w\<lparr>guc := g, own := l\<rparr>)
      = (Inr y, w\<lparr>guc := g, own := l, reads := n, metrics := ms\<rparr>)"
    by (intro exI [where x = "f p"] exI [where x = "Suc (reads w)"] exI [where x = ?ms] allI)
       (simp add: record_send_job_outcome_def emit_def bindp_run thenp_run)
qed

lemma session_counts_eq: "counts_only k \<Longrightarrow> session c (bindp m k) = bindp (session c m) k"
  by (rule ext) (rule session_counts)

lemma one_error: "tryp m (\<lambda>e. if e = a then raise b else raise e) = http_errors (\<lambda>e. if e = a then Some b else None) m"
  unfolding http_errors_def by (intro arg_cong2 [where f = tryp] refl ext) simp

lemma performs_internal_route: "performs H (route_process_send_job s sender token c i)"
proof -
  have run: "performs H (session (Some ws) (bindp (http_errors t (bindp now (process_by_id (email_dispatch sender) i ws)))
      (\<lambda>p. bindp now (\<lambda>m. thenp (record_send_job_outcome (ps_job p) (ps_outcome p) m) (ret (i, outcome_value (ps_outcome p)))))))"
    for ws t
    unfolding session_counts_eq [OF counts_only_outcome] session_http_errors
    unfolding record_send_job_outcome_def
    by (intro performs_bindp performs_thenp performs_if performs_http_errors performs_commands performs_simple)
  have token: "performs H (require_internal_token s token)"
    unfolding require_internal_token_def Let_def
    by (intro performs_still keeps_if keeps_case_option keeps_bindp still_simple)
  show ?thesis
  proof (cases c)
    case None
    have "bindp (raise e) f = raise e" for e and f :: "uuid \<Rightarrow> (uuid \<times> string) act" by (rule ext) simp
    then show ?thesis
      unfolding route_process_send_job_def None option.case by (intro performs_thenp token) (simp add: performs_raise)
  next
    case (Some ws)
    have "bindp (ret ws) f = f ws" for f :: "uuid \<Rightarrow> (uuid \<times> string) act" by (rule ext) simp
    then show ?thesis
      unfolding route_process_send_job_def Some option.case one_error
      using run by (intro performs_thenp token) simp
  qed
qed

definition is_test_email :: "api_request \<Rightarrow> bool" where
  "is_test_email request = (case request of SendTestEmail command \<Rightarrow> True | _ \<Rightarrow> False)"

lemma performs_campaign_routes:
  "performs H (route_create_campaign c q)" "performs H (route_add_leads email_str c i es)"
  "performs H (route_start_campaign c i)"
proof -
  show "performs H (route_create_campaign c q)"
    unfolding route_create_campaign_def
  proof (rule performs_in_workspace)
    fix ws
    show "performs H (session (Some ws) (validated (valid_create_request q)
        (bindp (http_errors create_errors (create_campaign (create_command q) ws)) (\<lambda>c. ret (campaign_fields c)))))"
      by (cases "valid_create_request q")
        (simp_all only: validated_def if_True if_False performs_refused session_bindp_ret session_http_errors
          performs_bindp performs_http_errors performs_commands performs_simple)
  qed
  show "performs H (route_add_leads email_str c i es)"
    unfolding route_add_leads_def
  proof (rule performs_in_workspace)
    fix ws
    show "performs H (session (Some ws) (case valid_add_request email_str es of None \<Rightarrow> raise RequestValidationError
        | Some addresses \<Rightarrow> bindp now (\<lambda>t. http_errors campaign_errors (add_leads_command i addresses t))))"
      by (cases "valid_add_request email_str es")
        (simp_all only: option.case performs_refused session_now_eq session_http_errors
          performs_bindp performs_http_errors performs_commands performs_simple)
  qed
  show "performs H (route_start_campaign c i)"
    unfolding route_start_campaign_def
    by (rule performs_in_workspace)
       (simp only: session_now_eq session_bindp_ret session_http_errors
          performs_bindp performs_http_errors performs_commands performs_simple)
qed

lemma performs_reading_routes:
  "performs H (route_list_campaigns c)" "performs H (route_get_campaign c i)" "performs H (route_get_campaign_metrics c i)"
  "performs H (route_list_mailboxes c)" "performs H (route_get_my_workspace c)" "performs H (route_debug_state c)"
  unfolding route_list_campaigns_def route_get_campaign_def route_get_campaign_metrics_def route_list_mailboxes_def
    route_get_my_workspace_def route_debug_state_def
  by (intro performs_in_workspace performs_query keeps_bindp still_http_errors still_queries still_simple still_now)+

lemma performs_respond: "performs H m \<Longrightarrow> performs H (respond st body m)"
  unfolding respond_def
proof (intro performs_tryp performs_bindp performs_simple)
  show "performs H (case e of HTTPException st detail \<Rightarrow> ret \<lparr> an_status = st, an_body = ErrorBody detail \<rparr>
      | RequestValidationError \<Rightarrow> ret \<lparr> an_status = 422, an_body = ErrorBody ''validation'' \<rparr> | _ \<Rightarrow> raise e)" for e
    by (cases e) (simp_all only: exn.case performs_raise performs_simple)
qed

lemma performs_route: "\<not> is_test_email request \<Longrightarrow> performs H (run_route s p c request)"
  by (cases request)
     (simp_all only: run_route.simps performs_respond performs_simple performs_campaign_routes performs_reading_routes
        performs_internal_route performs_still [OF still_simple(4)] is_test_email_def api_request.case simp_thms)

lemma performs_app:
  assumes "production s \<or> \<not> is_test_email request"
  shows "performs H (create_app s p creds request)"
proof -
  have "performs H (route_or_404 s p request c)" for c
  proof (cases "is_test_email request")
    case True
    with assms have "router_of request \<notin> set (included_routers s)"
      by (cases request) (auto simp: is_test_email_def included_routers_def)
    then show ?thesis by (simp only: route_or_404_def if_False performs_simple)
  next
    case False
    then show ?thesis unfolding route_or_404_def by (intro performs_if performs_route performs_simple)
  qed
  moreover have "performs H (tryp (bindp (request_workspace (resolve_workspace_by_api_key (ap_sha256 p)) (\<not> production s) creds)
      (\<lambda>i. ret (Inr i))) (\<lambda>e. case e of RejectedCredentialsError st detail \<Rightarrow> ret (Inl (st, detail)) | _ \<Rightarrow> raise e))"
  proof (intro performs_tryp performs_bindp performs_simple performs_still [OF still_request_workspace])
    show "performs H (case e of RejectedCredentialsError st detail \<Rightarrow> ret (Inl (st, detail)) | _ \<Rightarrow> raise e)" for e
      by (cases e) (simp_all only: exn.case performs_raise performs_simple)
  qed
  ultimately show ?thesis
    unfolding create_app_def with_workspace_context_def
    by (intro performs_bindp) (simp_all add: performs_simple split: sum.split)
qed

section \<open>A request stays in its workspace\<close>

lemma still_respond: "keeps (still w0) m \<Longrightarrow> keeps (still w0) (respond st body m)"
  unfolding respond_def
proof (intro keeps_tryp keeps_bindp still_simple)
  show "keeps (still w0) (case e of HTTPException st detail \<Rightarrow> ret \<lparr> an_status = st, an_body = ErrorBody detail \<rparr>
      | RequestValidationError \<Rightarrow> ret \<lparr> an_status = 422, an_body = ErrorBody ''validation'' \<rparr> | _ \<Rightarrow> raise e)" for e
    by (cases e) (simp_all only: exn.case still_simple)
qed

lemma still_token: "keeps (still w0) (require_internal_token s token)"
  unfolding require_internal_token_def Let_def by (intro keep_intros)

lemma anonymous_still: "keeps (still w0) (run_route s p None request)"
proof -
  have ws: "keeps (still w0) (in_workspace None m)" for m :: "uuid \<Rightarrow> 'a act"
    by (simp only: in_workspace_cases still_simple)
  have "keeps (still w0) (route_process_send_job s sender token None i)" for sender token i
    unfolding route_process_send_job_def option.case
    by (intro keeps_thenp still_token) (simp add: keeps_def)
  then show ?thesis
    by (cases request) (simp_all only: run_route.simps still_respond still_simple route_create_campaign_def
      route_list_campaigns_def route_get_campaign_def route_add_leads_def route_start_campaign_def
      route_get_campaign_metrics_def route_list_mailboxes_def route_get_my_workspace_def route_debug_state_def
      route_send_test_email_def ws)
qed

definition others_same :: "uuid \<Rightarrow> database \<Rightarrow> world \<Rightarrow> bool" where
  "others_same ws D w \<longleftrightarrow> foreign ws (db w) = D"

lemma session_others_same:
  assumes "\<And>D. keeps (inside ws D) m"
  shows "keeps (others_same ws D) (session (Some ws) m)"
proof (rule keepsI)
  fix w assume "others_same ws D w"
  with session_isolated [OF assms, of w] show "others_same ws D (snd (session (Some ws) m w))"
    by (simp add: session_Some others_same_def)
qed

lemma inside_http_errors: "keeps (inside ws D) m \<Longrightarrow> keeps (inside ws D) (http_errors t m)"
  unfolding http_errors_def by (intro keep_intros)

lemma inside_send_email: "keeps (inside ws D) (send_email sender command i)"
  unfolding send_email_def gateway_get_by_workspace_def mailboxes_get_by_workspace_def
      suppressions_is_suppressed_def outbound_count_sent_since_def
  by (intro keep_intros isolation_intros)

lemma inside_queries:
  "keeps (inside ws D) (get_campaign i)" "keeps (inside ws D) list_campaigns" "keeps (inside ws D) (get_campaign_metrics i)"
  "keeps (inside ws D) (list_mailboxes i t)" "keeps (inside ws D) (get_my_workspace i)"
  unfolding get_campaign_def list_campaigns_def get_campaign_metrics_def list_mailboxes_def get_my_workspace_def
    campaigns_get_def jobs_next_send_at_def leads_list_by_campaign_def campaigns_list_def
    leads_count_by_state_def leads_stats_def activity_suppressed_addresses_def suppressions_count_addresses_def
    mailboxes_list_by_workspace_def activity_sent_since_def outbound_count_sent_since_def workspaces_get_def Let_def
  by (intro keep_intros)+

lemma inside_outcome: "keeps (inside ws D) (record_send_job_outcome j x t)"
  unfolding record_send_job_outcome_def emit_def by (intro keep_intros keeps_modify) simp_all

lemma route_others_same: "keeps (others_same ws D) (run_route s p (Some ws) request)"
proof -
  have in_ws: "keeps (others_same ws D) (in_workspace (Some ws) m)" if "\<And>E. keeps (inside ws E) (m ws)" for m :: "uuid \<Rightarrow> 'a act"
    unfolding in_workspace_cases by (rule session_others_same [OF that])
  have resp: "keeps (others_same ws D) (respond st body m)" if "keeps (others_same ws D) m" for st body and m :: "'b act"
    unfolding respond_def
  proof (intro keeps_tryp keeps_bindp keeps_ret that)
    show "keeps (others_same ws D) (case e of HTTPException st detail \<Rightarrow> ret \<lparr> an_status = st, an_body = ErrorBody detail \<rparr>
      | RequestValidationError \<Rightarrow> ret \<lparr> an_status = 422, an_body = ErrorBody ''validation'' \<rparr> | _ \<Rightarrow> raise e)" for e
      by (cases e) (simp_all only: exn.case keeps_ret keeps_raise)
  qed
  have validated: "keeps (inside ws E) (validated ok m)" if "keeps (inside ws E) m" for E ok and m :: "'c act"
    using that by (simp add: validated_def keeps_raise)
  have internal: "keeps (others_same ws D) (route_process_send_job st (ap_sender p) token (Some ws) i)" for st token i
  proof -
    have "keeps (others_same ws D) (require_internal_token st token)"
      unfolding require_internal_token_def Let_def by (intro keep_intros)
    then show ?thesis
      unfolding route_process_send_job_def option.case one_error
      by (intro keeps_thenp keeps_bindp keeps_ret session_others_same inside_http_errors inside_outcome isolation_intros)
  qed
  have commands: "keeps (others_same ws D) (route_create_campaign (Some ws) q)"
    "keeps (others_same ws D) (route_add_leads (ap_email_str p) (Some ws) i es)"
    "keeps (others_same ws D) (route_start_campaign (Some ws) i)"
    "keeps (others_same ws D) (route_send_test_email (ap_sender p) (Some ws) command)" for q i es command
    unfolding route_create_campaign_def route_add_leads_def route_start_campaign_def route_send_test_email_def
    by (intro in_ws validated keeps_bindp keeps_ret keeps_raise keeps_case_option inside_http_errors inside_now
        inside_commands inside_send_email)+
  have queries: "keeps (others_same ws D) (route_list_campaigns (Some ws))"
    "keeps (others_same ws D) (route_get_campaign (Some ws) i)"
    "keeps (others_same ws D) (route_get_campaign_metrics (Some ws) i)"
    "keeps (others_same ws D) (route_list_mailboxes (Some ws))"
    "keeps (others_same ws D) (route_get_my_workspace (Some ws))"
    "keeps (others_same ws D) (route_debug_state (Some ws))" for i
    unfolding route_list_campaigns_def route_get_campaign_def route_get_campaign_metrics_def route_list_mailboxes_def
      route_get_my_workspace_def route_debug_state_def
    by (intro in_ws keeps_bindp keeps_ret keeps_gets inside_http_errors inside_now inside_queries)+
  show ?thesis
    by (cases request) (simp_all only: run_route.simps resp keeps_ret keeps_gets internal commands queries)
qed

text \<open>The workspace that the credentials of a request stand for, or the reason to reject them.\<close>

definition caller :: "settings \<Rightarrow> api_ports \<Rightarrow> credentials \<Rightarrow> world \<Rightarrow> exn + uuid option" where
  "caller s p creds w =
     fst (request_workspace (resolve_workspace_by_api_key (ap_sha256 p)) (\<not> production s) creds w)"

lemma app_run:
  obtains v where "still w v"
    and "create_app s p creds request w =
      (case caller s p creds w of
         Inr c \<Rightarrow> route_or_404 s p request c v
       | Inl (RejectedCredentialsError st detail) \<Rightarrow> (Inr \<lparr> an_status = st, an_body = ErrorBody detail \<rparr>, v)
       | Inl e \<Rightarrow> (Inl e, v))"
proof -
  let ?m = "request_workspace (resolve_workspace_by_api_key (ap_sha256 p)) (\<not> production s) creds"
  obtain r v where run: "?m w = (r, v)" by fastforce
  have v: "still w v" by (rule keepsD_run [OF still_request_workspace still_refl run])
  have "create_app s p creds request w = (case r of Inr c \<Rightarrow> route_or_404 s p request c v
       | Inl (RejectedCredentialsError st detail) \<Rightarrow> (Inr \<lparr> an_status = st, an_body = ErrorBody detail \<rparr>, v)
       | Inl e \<Rightarrow> (Inl e, v))"
    using run unfolding create_app_def with_workspace_context_def
    by (auto simp: bindp_run tryp_run split: sum.splits exn.splits)
  with v that run show ?thesis by (simp add: caller_def)
qed

lemma app_other_workspaces:
  assumes "create_app s p creds request w = (r, w')"
  shows "case caller s p creds w of Inr (Some ws) \<Rightarrow> foreign ws (db w') = foreign ws (db w)
     | _ \<Rightarrow> db w' = db w \<and> wire w' = wire w \<and> next_uuid w' = next_uuid w"
proof (rule app_run [of w s p creds request])
  fix v assume v: "still w v" and run: "create_app s p creds request w =
      (case caller s p creds w of
         Inr c \<Rightarrow> route_or_404 s p request c v
       | Inl (RejectedCredentialsError st detail) \<Rightarrow> (Inr \<lparr> an_status = st, an_body = ErrorBody detail \<rparr>, v)
       | Inl e \<Rightarrow> (Inl e, v))"
  show ?thesis
  proof (cases "caller s p creds w")
    case (Inl e)
    then have "w' = v" using run assms by (cases e) simp_all
    with v Inl show ?thesis by (simp add: still_def)
  next
    case (Inr c)
    then have route: "route_or_404 s p request c v = (r, w')" using run assms by simp
    show ?thesis
    proof (cases c)
      case None
      have "keeps (still w) (route_or_404 s p request None)"
        unfolding route_or_404_def by (intro keeps_if anonymous_still still_simple)
      from keepsD_run [OF this v] route None Inr show ?thesis by (simp add: still_def)
    next
      case (Some ws)
      have "keeps (others_same ws (foreign ws (db v))) (route_or_404 s p request (Some ws))"
        unfolding route_or_404_def by (intro keeps_if route_others_same keeps_ret)
      from keepsD_run [OF this, of v r w'] route Some Inr v show ?thesis by (simp add: others_same_def still_def)
    qed
  qed
qed

lemma resolve_in_session:
  "resolve_workspace_by_api_key sha256 raw w = (fst (resolve_api_key sha256 raw w), w\<lparr>guc := None, own := []\<rparr>)"
  by (simp add: resolve_workspace_by_api_key_def session_def resolve_api_key_run)

lemma caller_run:
  "caller s p creds w =
     (let auth = (case authorization creds of None \<Rightarrow> [] | Some a \<Rightarrow> a) in
      if startswith (lower auth) ''bearer ''
      then (case fst (resolve_api_key (ap_sha256 p) (drop 7 auth) w) of
              Inr (Some ws) \<Rightarrow> Inr (Some ws)
            | _ \<Rightarrow> Inl (RejectedCredentialsError 401 ''Invalid API key''))
      else case workspace_header creds of
          None \<Rightarrow> Inr None
        | Some raw \<Rightarrow>
            if raw = [] then Inr None
            else if production s
            then Inl (RejectedCredentialsError 401 ''X-Workspace-Id is not accepted here; use an API key'')
            else (case UUID_parse raw of
                    Inr ws \<Rightarrow> Inr (Some ws)
                  | Inl _ \<Rightarrow> Inl (RejectedCredentialsError 400 ''Malformed X-Workspace-Id header'')))"
proof -
  have seven: "length ''bearer '' = 7" by simp
  show ?thesis
    unfolding caller_def request_workspace_def seven
    by (simp add: resolve_in_session resolve_api_key_run bindp_run Let_def WORKSPACE_HEADER_def
          split: option.splits sum.splits)
qed

lemma caller_rejected:
  "caller s p creds w = Inl e \<Longrightarrow> \<exists>st detail. e = RejectedCredentialsError st detail \<and> st \<in> {400, 401} \<and> (production s \<longrightarrow> st = 401)"
  by (auto simp: caller_run Let_def split: if_splits option.splits sum.splits)

lemma production_caller:
  assumes "production s" and "caller s p creds w = Inr (Some ws)"
  shows "\<exists>auth token. \<exists>k\<in>set (t_api_keys (db w)). authorization creds = Some auth \<and> startswith (lower auth) ''bearer ''
     \<and> parse_token (drop 7 auth) = Some token \<and> accepts (ap_sha256 p) k token \<and> ak_workspace_id k = ws"
proof -
  have bearer: "authorization creds \<noteq> None"
    "startswith (lower (case authorization creds of None \<Rightarrow> [] | Some a \<Rightarrow> a)) ''bearer ''"
    using assms by (auto simp: caller_run Let_def startswith_def split: if_splits option.splits)
  then obtain auth where auth: "authorization creds = Some auth" "startswith (lower auth) ''bearer ''" by auto
  then have "fst (resolve_api_key (ap_sha256 p) (drop 7 auth) w) = Inr (Some ws)"
    using assms(2) by (auto simp: caller_run split: sum.splits option.splits)
  then obtain token k where "parse_token (drop 7 auth) = Some token"
    "find (\<lambda>k. ak_prefix k = tk_prefix token) (t_api_keys (db w)) = Some k" "accepts (ap_sha256 p) k token" "ak_workspace_id k = ws"
    by (auto simp: resolve_api_key_run bind_eq_Some_conv split: if_splits)
  with auth show ?thesis by (auto dest: find_Some_in)
qed

definition open_routes :: "api_request set" where
  "open_routes = {GetHealth, GetMetrics, GetVersion}"

text \<open>Without a workspace, every route but the open ones refuses.\<close>

lemma anonymous_refused:
  assumes "route_or_404 s p request None w = (r, w')" and "request \<notin> open_routes"
    and "\<And>token i. request \<noteq> ProcessSendJob token i"
  shows "\<exists>a. r = Inr a \<and> an_status a \<in> {401, 404}"
proof -
  have refuse: "respond st body (in_workspace None m) w =
      (Inr \<lparr> an_status = 401, an_body = ErrorBody ''Missing credentials: send Authorization: Bearer <api-key>'' \<rparr>, w)"
    for st body and m :: "uuid \<Rightarrow> 'a act"
    by (simp add: respond_def in_workspace_cases tryp_run bindp_run)
  show ?thesis
    using assms by (cases request)
      (auto simp: route_or_404_def open_routes_def refuse route_create_campaign_def
        route_list_campaigns_def route_get_campaign_def route_add_leads_def route_start_campaign_def
        route_get_campaign_metrics_def route_list_mailboxes_def route_get_my_workspace_def route_debug_state_def
        route_send_test_email_def split: if_splits)
qed

lemma no_internal_in_production: "production s \<Longrightarrow> router_of (ProcessSendJob token i) \<notin> set (included_routers s)"
  by (simp add: included_routers_def)

lemma production_refuses:
  assumes "production s" and "create_app s p creds request w = (r, w')" and "request \<notin> open_routes"
    and "\<And>ws. caller s p creds w \<noteq> Inr (Some ws)"
  shows "\<exists>a. r = Inr a \<and> an_status a \<in> {401, 404}"
proof (rule app_run [of w s p creds request])
  fix v assume run: "create_app s p creds request w =
      (case caller s p creds w of
         Inr c \<Rightarrow> route_or_404 s p request c v
       | Inl (RejectedCredentialsError st detail) \<Rightarrow> (Inr \<lparr> an_status = st, an_body = ErrorBody detail \<rparr>, v)
       | Inl e \<Rightarrow> (Inl e, v))"
  show ?thesis
  proof (cases "caller s p creds w")
    case (Inl e)
    obtain detail where "e = RejectedCredentialsError 401 detail" using caller_rejected [OF Inl] assms(1) by auto
    then show ?thesis using run assms(2) Inl by auto
  next
    case (Inr c)
    with assms(4) have c: "c = None" by (cases c) auto
    then have route: "route_or_404 s p request None v = (r, w')" using run assms(2) Inr by simp
    show ?thesis
    proof (cases "\<exists>token i. request = ProcessSendJob token i")
      case True
      then obtain token i where "request = ProcessSendJob token i" by blast
      then show ?thesis using route no_internal_in_production [OF assms(1), of token i]
        by (auto simp: route_or_404_def split: if_splits)
    next
      case False
      then show ?thesis using anonymous_refused [OF route assms(3)] by simp
    qed
  qed
qed

end
