(* ===== verification/Scripts.thy ===== *)
theory Scripts
  imports Identity Messaging_Repos Config
begin

text \<open>
  The scripts that prepare a database: the default workspace and its mailbox
  (\<open>contexts/identity/infrastructure/seed.py\<close>, \<open>contexts/mailbox/infrastructure/seed.py\<close>,
  \<open>entrypoints/seed.py\<close>), and issuing a key (\<open>entrypoints/issue_api_key.py\<close>). What a script prints is
  its result; disposing of the engine at the end has no effect on the model.
\<close>

section \<open>Seeding\<close>

definition DEFAULT_WORKSPACE_NAME :: string where
  "DEFAULT_WORKSPACE_NAME = ''default''"

text \<open>The workspace registry has no row security: the session has no workspace.\<close>

definition seed_default_workspace :: "settings \<Rightarrow> unit act" where
  "seed_default_workspace s =
     bindp (lift (resolve_workspace_id s)) (\<lambda>workspace_id.
     session None (
       bindp (workspaces_get workspace_id) (\<lambda>found.
         if found = None
         then bindp now (\<lambda>created_at. workspaces_add
                \<lparr> ws_id = workspace_id, ws_name = DEFAULT_WORKSPACE_NAME, ws_created_at = created_at \<rparr>)
         else ret ())))"

definition seed_default_mailbox :: "settings \<Rightarrow> string act" where
  "seed_default_mailbox s =
     (let email = gmail_user_email s in
      if email = [] then ret ''Skipping mailbox seed: GMAIL_USER_EMAIL not set''
      else
        bindp (lift (resolve_workspace_id s)) (\<lambda>workspace_id.
        session_for_workspace workspace_id (
          bindp (mailboxes_get_by_workspace workspace_id) (\<lambda>found.
            if found \<noteq> None then ret (''Mailbox already present for workspace '' @ uuid_str workspace_id)
            else bindp (Mailbox_new workspace_id email DEFAULT_DAILY_SEND_CAP) (\<lambda>m.
                 thenp (mailboxes_add m)
                   (ret (''Seeded mailbox: '' @ lower email @ '' (workspace '' @ uuid_str workspace_id @ '')'')))))))"

definition seed_main :: "settings \<Rightarrow> string list act" where
  "seed_main s =
     thenp (seed_default_workspace s) (
     bindp (lift (resolve_workspace_id s)) (\<lambda>workspace_id.
     bindp (seed_default_mailbox s) (\<lambda>line.
     ret [''Seeded workspace: '' @ DEFAULT_WORKSPACE_NAME @ '' ('' @ uuid_str workspace_id @ '')'', line])))"

section \<open>Issuing a key\<close>

definition issue_api_key_main ::
  "settings \<Rightarrow> (string \<Rightarrow> string) \<Rightarrow> string \<Rightarrow> string \<Rightarrow> string list act" where
  "issue_api_key_main s sha256 prefix secret =
     bindp (lift (resolve_workspace_id s)) (\<lambda>workspace_id.
     bindp (session None (issue_api_key sha256 prefix secret workspace_id)) (\<lambda>token.
     ret [''New API key for workspace '' @ uuid_str workspace_id @ ''. It is shown only once:'',
          plaintext token]))"

section \<open>Seeding twice\<close>

text \<open>
  What a seeded database has: the workspace, and, if an address is configured, a mailbox that the
  workspace's session finds.
\<close>

definition seeded :: "settings \<Rightarrow> uuid \<Rightarrow> world \<Rightarrow> bool" where
  "seeded s workspace_id w \<longleftrightarrow> workspace_id \<in> ws_id ` set (t_workspaces (db w))
     \<and> (gmail_user_email s \<noteq> [] \<longrightarrow> mailbox_of (w\<lparr>guc := Some workspace_id\<rparr>) workspace_id \<noteq> None)"

lemma mailbox_of_None:
  "mailbox_of (w\<lparr>guc := Some ws\<rparr>) ws = None \<longleftrightarrow> (\<forall>m\<in>set (t_mailboxes (db w)). mb_workspace_id m \<noteq> ws)"
proof -
  have "mailbox_of v ws = None \<longleftrightarrow> filter (\<lambda>r. mb_workspace_id r = ws) (mailbox_rows v) = []" for v
    unfolding mailbox_of_def
    by (metis list.case(1) list.case(2) list.exhaust option.distinct(1) set_empty set_sort)
  then show ?thesis by (auto simp: mailbox_rows_def sees_def filter_empty_conv)
qed

lemma workspace_found: "find (\<lambda>r. ws_id r = i) rs = None \<longleftrightarrow> i \<notin> ws_id ` set rs"
  by (auto simp: find_None_iff)

lemma seed_workspace_Inr:
  assumes "seed_default_workspace s w = (Inr u, w')" and "resolve_workspace_id s = Inr ws"
  shows "ws \<in> ws_id ` set (t_workspaces (db w'))"
    and "t_mailboxes (db w') = t_mailboxes (db w)"
    and "ws \<in> ws_id ` set (t_workspaces (db w)) \<Longrightarrow> db w' = db w"
  using assms
  by (auto simp: seed_default_workspace_def session_def workspaces_get_def workspaces_add_def bindp_run
        workspace_found insert_row_Inr split: if_splits prod.splits sum.splits)

lemma seed_mailbox_run:
  assumes "resolve_workspace_id s = Inr ws" and "gmail_user_email s \<noteq> []"
  shows "seed_default_mailbox s w =
    (if mailbox_of (w\<lparr>guc := Some ws\<rparr>) ws \<noteq> None
     then (Inr (''Mailbox already present for workspace '' @ uuid_str ws), w\<lparr>guc := None, own := []\<rparr>)
     else session_for_workspace ws (bindp (Mailbox_new ws (gmail_user_email s) DEFAULT_DAILY_SEND_CAP) (\<lambda>m.
            thenp (mailboxes_add m)
              (ret (''Seeded mailbox: '' @ lower (gmail_user_email s) @ '' (workspace '' @ uuid_str ws @ '')'')))) w)"
proof -
  have "mailbox_of (w\<lparr>guc := Some ws, own := []\<rparr>) ws = mailbox_of (w\<lparr>guc := Some ws\<rparr>) ws"
    by (simp add: mailbox_of_def mailbox_rows_def sees_def)
  then show ?thesis using assms
    by (simp add: seed_default_mailbox_def session_for_workspace_def session_def mailboxes_get_by_workspace_def
        bindp_run Let_def split: option.splits)
qed

lemma seed_mailbox_Inr:
  assumes "seed_default_mailbox s w = (Inr line, w')" and "resolve_workspace_id s = Inr ws"
  shows "gmail_user_email s \<noteq> [] \<Longrightarrow> mailbox_of (w'\<lparr>guc := Some ws\<rparr>) ws \<noteq> None"
    and "t_workspaces (db w') = t_workspaces (db w)"
proof -
  have both: "t_workspaces (db w') = t_workspaces (db w) \<and> (gmail_user_email s \<noteq> [] \<longrightarrow> mailbox_of (w'\<lparr>guc := Some ws\<rparr>) ws \<noteq> None)"
  proof (cases "gmail_user_email s = []")
    case True
    then show ?thesis using assms by (simp add: seed_default_mailbox_def)
  next
    case False
    note run = assms(1) [unfolded seed_mailbox_run [OF assms(2) False]]
    show ?thesis
    proof (cases "mailbox_of (w\<lparr>guc := Some ws\<rparr>) ws \<noteq> None")
      case True
      with run have "db w' = db w" by (auto split: if_splits)
      with True show ?thesis by (simp add: mailbox_of_None)
    next
      case none: False
      with run show ?thesis
        by (auto simp: session_for_workspace_def session_def Mailbox_new_def mailboxes_add_def bindp_run thenp_run
            insert_row_Inr mailbox_of_None split: prod.splits sum.splits if_splits)
    qed
  qed
  then show "gmail_user_email s \<noteq> [] \<Longrightarrow> mailbox_of (w'\<lparr>guc := Some ws\<rparr>) ws \<noteq> None"
    and "t_workspaces (db w') = t_workspaces (db w)" by simp_all
qed

lemma seed_main_seeds:
  assumes "seed_main s w = (Inr out, w')" and "resolve_workspace_id s = Inr ws"
  shows "seeded s ws w'"
proof -
  obtain w1 line where a: "seed_default_workspace s w = (Inr (), w1)" and b: "seed_default_mailbox s w1 = (Inr line, w')"
    using assms by (auto simp: seed_main_def elim!: thenp_InrE bindp_InrE)
  show ?thesis
    using seed_workspace_Inr(1) [OF a assms(2)] seed_mailbox_Inr [OF b assms(2)] by (simp add: seeded_def)
qed

lemma seeded_runs:
  assumes "seeded s ws w" and "resolve_workspace_id s = Inr ws"
  shows "\<exists>out w'. seed_main s w = (Inr out, w') \<and> db w' = db w \<and> next_uuid w' = next_uuid w"
proof -
  have a: "seed_default_workspace s w = (Inr (), w\<lparr>guc := None, own := []\<rparr>)"
    using assms by (auto simp: seeded_def seed_default_workspace_def session_def workspaces_get_def bindp_run workspace_found)
  let ?w = "w\<lparr>guc := None, own := []\<rparr>"
  have "\<exists>line. seed_default_mailbox s ?w = (Inr line, ?w)"
  proof (cases "gmail_user_email s = []")
    case True
    then show ?thesis by (simp add: seed_default_mailbox_def)
  next
    case False
    with assms(1) have "mailbox_of (?w\<lparr>guc := Some ws\<rparr>) ws \<noteq> None" by (simp add: seeded_def mailbox_of_None)
    then show ?thesis using seed_mailbox_run [OF assms(2) False, of ?w] by simp
  qed
  then show ?thesis using a assms(2) by (auto simp: seed_main_def bindp_run thenp_run)
qed

end
