(* ===== verification/Api_Answers.thy ===== *)
theory Api_Answers
  imports Api_Laws Scripts
begin

text \<open>
  What the routes answer: a campaign of another workspace is not found, starting a campaign twice
  is starting it once, every request for a new campaign has a definite answer, and the overview of
  a mailbox agrees with the guard of the sender.
\<close>

section \<open>Campaigns of others\<close>

definition named_campaign :: "api_request \<Rightarrow> uuid option" where
  "named_campaign request =
     (case request of GetCampaign i \<Rightarrow> Some i | AddLeads i es \<Rightarrow> Some i | StartCampaign i \<Rightarrow> Some i
      | GetCampaignMetrics i \<Rightarrow> Some i | _ \<Rightarrow> None)"

definition not_found_answer :: answer where
  "not_found_answer = \<lparr> an_status = 404, an_body = ErrorBody ''Campaign not found'' \<rparr>"

definition invalid_answer :: answer where
  "invalid_answer = \<lparr> an_status = 422, an_body = ErrorBody ''validation'' \<rparr>"

lemma camps_reads [simp]: "camps (v\<lparr>reads := n\<rparr>) = camps v"
  by (rule camps_cong) simp_all

lemma in_session_campaign: "campaign_in (v\<lparr>guc := Some ws, own := x\<rparr>) i = camps v ws i"
  "campaign_in (v\<lparr>reads := n, guc := Some ws, own := x\<rparr>) i = camps v ws i"
  "campaign_in (v\<lparr>guc := Some ws, own := x, reads := n\<rparr>) i = camps v ws i"
  unfolding camps_def by (rule campaign_in_cong; simp)+

lemma missing_campaign:
  assumes "camps v ws i = None" and "named_campaign request = Some i" and "run_route s p (Some ws) request v = (r, v')"
  shows "db v' = db v \<and> wire v' = wire v \<and>
     (r = Inr not_found_answer \<or> r = Inr invalid_answer \<and> (\<exists>es. request = AddLeads i es \<and> valid_add_request (ap_email_str p) es = None))"
proof -
  note defs = respond_def in_workspace_cases session_def tryp_run bindp_run http_errors_def campaigns_get_def
    campaign_errors_def start_errors_def CAMPAIGN_NOT_FOUND_def not_found_answer_def invalid_answer_def
    in_session_campaign assms(1)
  consider "request = GetCampaign i" | es where "request = AddLeads i es" | "request = StartCampaign i"
    | "request = GetCampaignMetrics i"
    using assms(2) by (cases request) (auto simp: named_campaign_def)
  then show ?thesis
  proof cases
    case 1
    then show ?thesis using assms(3) by (auto simp: route_get_campaign_def get_campaign_def defs)
  next
    case 2
    then show ?thesis using assms(3)
      by (cases "valid_add_request (ap_email_str p) es") (auto simp: route_add_leads_def add_leads_command_def defs)
  next
    case 3
    then show ?thesis using assms(3) by (auto simp: route_start_campaign_def start_campaign_def defs)
  next
    case 4
    then show ?thesis using assms(3) by (auto simp: route_get_campaign_metrics_def get_campaign_metrics_def defs)
  qed
qed

lemma still_camps: "still w v \<Longrightarrow> camps v = camps w"
  unfolding still_def by (rule camps_cong) simp_all

lemma included_campaigns: "named_campaign request = Some i \<Longrightarrow> router_of request \<in> set (included_routers s)"
  by (cases request) (auto simp: named_campaign_def included_routers_def)

section \<open>Starting twice\<close>

lemma started_is_active:
  assumes run: "start_campaign i t w = (Inr result, w')" and guc: "guc w = Some ws"
  shows "camps w' ws i = Some (sr_campaign result)" and "is_active (sr_campaign result)"
proof -
  obtain c where c: "campaign_in w i = Some c"
    using run by (cases "campaign_in w i") (simp_all add: start_campaign_def campaigns_get_def bindp_run)
  have id: "c_id c = i" by (rule campaign_in_id [OF c])
  have both: "camps w' ws i = Some (sr_campaign result) \<and> is_active (sr_campaign result)"
  proof (cases "is_active c")
    case True
    then have "w' = w" "sr_campaign result = c"
      using run c by (auto simp: start_campaign_def campaigns_get_def bindp_run)
    then show ?thesis using c True camps_guc [OF guc] by simp
  next
    case False
    let ?ls = "sort_key (\<lambda>l. (l_created_at l, l_id l))
       (filter (\<lambda>l. l_campaign_id l = i \<and> l_state l = PENDING) (lead_rows w))"
    let ?c = "c\<lparr>c_status := ACTIVE\<rparr>"
    obtain sl js w1 w2 w3 where s: "schedule ?c ?ls t w = (Inr (sl, js), w1)"
      and st: "campaigns_update_status ?c w1 = (Inr (), w2)" and up: "leads_update_many sl w2 = (Inr (), w3)"
      and ins: "jobs_add_many js w3 = (Inr (), w')" and res: "sr_campaign result = ?c"
      using run c False unfolding start_campaign_def
      by (auto simp: campaigns_get_def leads_list_pending_def start_def Let_def elim!: bindp_InrE thenp_InrE split: if_splits)
    have w1: "guc w1 = guc w" "campaign_in w1 i = campaign_in w i"
      unfolding schedule_Inr_D(6) [OF s] by (simp_all, rule campaign_in_cong, simp_all)
    have "campaign_in w1 (c_id ?c) = Some c" using c id w1(2) by simp
    from update_status_Inr(3) [OF st _ this refl] guc w1(1) have "camps w2 ws i = Some ?c" by (simp add: id)
    moreover have "camps w' = camps w2"
      using leads_update_many_Inr [OF up] jobs_add_many_Inr [OF ins] by (intro camps_cong) auto
    ultimately show ?thesis using res by (simp add: is_active_def)
  qed
  then show "camps w' ws i = Some (sr_campaign result)" "is_active (sr_campaign result)" by blast+
qed

lemma start_route_run:
  "route_start_campaign (Some ws) i w = (case start_campaign i (clock_at w (reads w)) (w\<lparr>reads := Suc (reads w), guc := Some ws, own := []\<rparr>) of
     (Inr result, v) \<Rightarrow> (Inr \<lparr> sp_status = campaign_status_value (c_status (sr_campaign result)), sp_scheduled = sr_scheduled result \<rparr>,
        v\<lparr>guc := None, own := []\<rparr>)
   | (Inl e, v) \<Rightarrow> (Inl (case start_errors e of None \<Rightarrow> e | Some h \<Rightarrow> h), v\<lparr>db := db w, guc := None, own := []\<rparr>))"
proof -
  have "session (Some ws) (bindp (bindp now (\<lambda>moment. http_errors start_errors (start_campaign i moment))) (\<lambda>result.
       ret \<lparr> sp_status = campaign_status_value (c_status (sr_campaign result)), sp_scheduled = sr_scheduled result \<rparr>)) w
    = bindp (http_errors start_errors (session (Some ws) (start_campaign i (clock_at w (reads w))))) (\<lambda>result.
       ret \<lparr> sp_status = campaign_status_value (c_status (sr_campaign result)), sp_scheduled = sr_scheduled result \<rparr>)
      (w\<lparr>reads := Suc (reads w)\<rparr>)"
    by (simp add: session_bindp_ret session_now session_http_errors bindp_run)
  then show ?thesis
    unfolding route_start_campaign_def in_workspace_cases
    by (simp add: session_def http_errors_def bindp_run tryp_run split: prod.split sum.split)
qed

lemma start_twice:
  assumes "route_start_campaign (Some ws) i w = (Inr answer, w')"
  shows "sp_status answer = ''active'' \<and> (\<exists>v. route_start_campaign (Some ws) i w' =
     (Inr \<lparr> sp_status = ''active'', sp_scheduled = 0 \<rparr>, v) \<and> db v = db w')"
proof -
  obtain result v where run: "start_campaign i (clock_at w (reads w)) (w\<lparr>reads := Suc (reads w), guc := Some ws, own := []\<rparr>) = (Inr result, v)"
    and w': "w' = v\<lparr>guc := None, own := []\<rparr>"
    and a: "answer = \<lparr> sp_status = campaign_status_value (c_status (sr_campaign result)), sp_scheduled = sr_scheduled result \<rparr>"
    using assms unfolding start_route_run by (auto split: prod.splits sum.splits)
  have act: "camps v ws i = Some (sr_campaign result)" "is_active (sr_campaign result)"
    using started_is_active [OF run, of ws] by simp_all
  have "camps w' = camps v" unfolding w' by (rule camps_cong) simp_all
  then have "campaign_in (w'\<lparr>reads := Suc (reads w'), guc := Some ws, own := []\<rparr>) i = Some (sr_campaign result)"
    using act(1) by (simp add: in_session_campaign)
  then have "start_campaign i (clock_at w' (reads w')) (w'\<lparr>reads := Suc (reads w'), guc := Some ws, own := []\<rparr>)
      = (Inr \<lparr> sr_campaign = sr_campaign result, sr_scheduled = 0 \<rparr>, w'\<lparr>reads := Suc (reads w'), guc := Some ws, own := []\<rparr>)"
    using act(2) by (simp add: start_campaign_def campaigns_get_def bindp_run)
  then show ?thesis
    using act(2) a by (simp add: start_route_run is_active_def)
qed

section \<open>The overview and the cap\<close>

lemma list_mailboxes_run:
  "list_mailboxes ws t w = (Inr (map (\<lambda>m. \<lparr> ov_mailbox = m, ov_sent_today = sent_since w (mb_id m) (start_of_utc_day t),
       ov_suppressed_addresses = length (remdups (map su_email (filter (\<lambda>r. su_workspace_id r = ws) (suppression_rows w)))) \<rparr>)
     (sort_key mb_created_at (sort_key mb_id (filter (\<lambda>r. mb_workspace_id r = ws) (mailbox_rows w))))), w)"
proof -
  have "mapp (\<lambda>m. bindp (activity_sent_since (mb_id m) d) (\<lambda>n. ret (f m n))) ms w
      = (Inr (map (\<lambda>m. f m (sent_since w (mb_id m) d)) ms), w)" for d ms and f :: "mailbox \<Rightarrow> int \<Rightarrow> mailbox_overview"
    by (induction ms) (simp_all add: bindp_run activity_sent_since_def outbound_count_sent_since_def)
  then show ?thesis
    by (simp add: list_mailboxes_def Let_def bindp_run activity_suppressed_addresses_def suppressions_count_addresses_def
        mailboxes_list_by_workspace_def)
qed

lemma mailbox_of_listed: "mailbox_of w ws = Some m \<Longrightarrow> m \<in> set (filter (\<lambda>r. mb_workspace_id r = ws) (mailbox_rows w))"
proof -
  assume m: "mailbox_of w ws = Some m"
  then obtain rs where "sort_key mb_created_at (filter (\<lambda>r. mb_workspace_id r = ws) (mailbox_rows w)) = m # rs"
    by (auto simp: mailbox_of_def split: list.splits)
  then have "m \<in> set (sort_key mb_created_at (filter (\<lambda>r. mb_workspace_id r = ws) (mailbox_rows w)))" by simp
  then show ?thesis by simp
qed

definition cap_answer :: "time \<Rightarrow> exn" where
  "cap_answer retry_at = HTTPException 429 (''Daily send cap reached, retry at '' @ isoformat retry_at)"

lemma outbound_add_error:
  "outbound_add m w = (Inl e, w') \<Longrightarrow> send_errors e = None \<and> e \<noteq> cap_answer t"
  by (auto simp: outbound_add_def insert_row_def too_long_def row_security_def duplicate_def violated_def
      send_errors_def cap_answer_def split: option.splits if_splits)

lemma sending_never_refuses:
  assumes "sending_stage sender command ws mb w = (r, w')" and "wire w' = wire w"
  shows "\<exists>e. r = Inl e \<and> send_errors e = None \<and> e \<noteq> cap_answer t"
  using assms outbound_add_error
  by (cases rule: sending_stage_cases [of sender command ws mb w]) (auto simp: with_wire_def with_outbound_def drawn_def)

lemma send_route_run:
  "route_send_test_email sender (Some ws) command w = (case send_email sender command ws (w\<lparr>guc := Some ws, own := []\<rparr>) of
     (Inr m, v) \<Rightarrow> (Inr m, v\<lparr>guc := None, own := []\<rparr>)
   | (Inl e, v) \<Rightarrow> (Inl (case send_errors e of None \<Rightarrow> e | Some h \<Rightarrow> h), v\<lparr>db := db w, guc := None, own := []\<rparr>))"
  unfolding route_send_test_email_def in_workspace_cases session_http_errors
  by (simp add: session_def http_errors_def tryp_run split: prod.split sum.split)

lemma send_refused_at_cap:
  assumes m: "mailbox_of u ws = Some m" and u: "u = w\<lparr>guc := Some ws, own := []\<rparr>"
    and free: "\<not> is_suppressed_in u ws (sc_to_email command)" "lock_key u m \<notin> set (held u)"
  shows "mb_daily_send_cap m \<le> sent_since u (mb_id m) (today u)
    \<longleftrightarrow> (\<exists>w'. route_send_test_email sender (Some ws) command w = (Inl (cap_answer (today u + one_day)), w') \<and> wire w' = wire w)"
proof (cases "mb_daily_send_cap m \<le> sent_since u (mb_id m) (today u)")
  case True
  then have no: "\<not> may_send u ws (sc_to_email command) mb" for mb using m by (auto simp: may_send_def)
  obtain e w' where run: "send_email sender command ws u = (Inl e, w')" "wire w' = wire u"
    and "e = DailySendCapReachedError (today u + one_day)"
    using send_email_refused [OF no] m free by (metis option.distinct(1) option.inject)
  then have "route_send_test_email sender (Some ws) command w
      = (Inl (cap_answer (today u + one_day)), w'\<lparr>db := db w, guc := None, own := []\<rparr>)"
    unfolding send_route_run u [symmetric] by (simp add: send_errors_def cap_answer_def)
  with True run(2) u show ?thesis by simp
next
  case False
  then have "may_send u ws (sc_to_email command) m" using m free by (simp add: may_send_def)
  then have stage: "send_email sender command ws u = sending_stage sender command ws m (guarded u m)" by (rule send_email_stages)
  have "\<not> (\<exists>w'. route_send_test_email sender (Some ws) command w = (Inl (cap_answer (today u + one_day)), w') \<and> wire w' = wire w)"
  proof
    assume "\<exists>w'. route_send_test_email sender (Some ws) command w = (Inl (cap_answer (today u + one_day)), w') \<and> wire w' = wire w"
    then obtain r v where r: "sending_stage sender command ws m (guarded u m) = (r, v)" "wire v = wire (guarded u m)"
      and eq: "\<And>e. r = Inl e \<Longrightarrow> (case send_errors e of None \<Rightarrow> e | Some h \<Rightarrow> h) = cap_answer (today u + one_day)" "\<And>x. r \<noteq> Inr x"
      unfolding send_route_run u [symmetric] stage by (auto simp: u split: prod.splits sum.splits)
    from sending_never_refuses [OF r, of "today u + one_day"] eq(1) show False by auto
  qed
  with False show ?thesis by blast
qed

lemma visible_cong:
  assumes "db v = db w" and "guc v = guc w"
  shows "mailbox_rows v = mailbox_rows w" and "suppression_rows v = suppression_rows w"
    and "sent_since v i t = sent_since w i t"
  using assms by (simp_all add: mailbox_rows_def suppression_rows_def sees_def sent_since_def outbound_rows_def)

lemma list_route_run:
  assumes "route_list_mailboxes (Some ws) w = (r, v)"
  shows "v = w\<lparr>reads := Suc (reads w), guc := None, own := []\<rparr>"
    and "\<exists>n. r = Inr (map (\<lambda>m. mailbox_response_of \<lparr> ov_mailbox = m,
         ov_sent_today = sent_since (w\<lparr>guc := Some ws\<rparr>) (mb_id m) (start_of_utc_day (clock_at w (reads w))),
         ov_suppressed_addresses = n \<rparr>)
       (sort_key mb_created_at (sort_key mb_id (filter (\<lambda>r. mb_workspace_id r = ws) (mailbox_rows (w\<lparr>guc := Some ws\<rparr>))))))"
proof -
  let ?u = "w\<lparr>guc := Some ws, own := [], reads := Suc (reads w)\<rparr>"
  note same = visible_cong [of ?u "w\<lparr>guc := Some ws\<rparr>"]
  have run: "bindp (bindp now (list_mailboxes ws)) (\<lambda>os. ret (map mailbox_response_of os)) (w\<lparr>guc := Some ws, own := []\<rparr>)
      = (map_sum id (map mailbox_response_of) (fst (list_mailboxes ws (clock_at w (reads w)) ?u)), ?u)"
    by (simp add: bindp_run list_mailboxes_run)
  note r = assms [unfolded route_list_mailboxes_def in_workspace_cases session_def run list_mailboxes_run]
  from r show "v = w\<lparr>reads := Suc (reads w), guc := None, own := []\<rparr>" by simp
  from r show "\<exists>n. r = Inr (map (\<lambda>m. mailbox_response_of \<lparr> ov_mailbox = m,
         ov_sent_today = sent_since (w\<lparr>guc := Some ws\<rparr>) (mb_id m) (start_of_utc_day (clock_at w (reads w))),
         ov_suppressed_addresses = n \<rparr>)
       (sort_key mb_created_at (sort_key mb_id (filter (\<lambda>r. mb_workspace_id r = ws) (mailbox_rows (w\<lparr>guc := Some ws\<rparr>))))))"
    using same by (intro exI [where x = "length (remdups (map su_email (filter (\<lambda>r. su_workspace_id r = ws)
        (suppression_rows (w\<lparr>guc := Some ws\<rparr>)))))"]) (auto simp: comp_def)
qed

lemma overview_and_cap:
  assumes listed: "route_list_mailboxes (Some ws) w = (Inr os, v)"
    and m: "mailbox_of u ws = Some m" and u: "u = v\<lparr>guc := Some ws, own := []\<rparr>"
    and day: "today u = start_of_utc_day (clock_at w (reads w))"
    and free: "\<not> is_suppressed_in u ws (sc_to_email command)" "lock_key u m \<notin> set (held u)"
  shows "\<exists>ov\<in>set os. mp_id ov = mb_id m \<and> mp_daily_send_cap ov = mb_daily_send_cap m
     \<and> (mp_remaining_today ov = 0 \<longleftrightarrow> (\<exists>w'. route_send_test_email sender (Some ws) command v
          = (Inl (cap_answer (today u + one_day)), w') \<and> wire w' = wire v))"
proof -
  let ?ms = "sort_key mb_created_at (sort_key mb_id (filter (\<lambda>r. mb_workspace_id r = ws) (mailbox_rows (w\<lparr>guc := Some ws\<rparr>))))"
  note L = list_route_run [OF listed]
  have "db u = db (w\<lparr>guc := Some ws\<rparr>)" "guc u = guc (w\<lparr>guc := Some ws\<rparr>)" by (simp_all add: u L(1))
  note same = visible_cong [OF this]
  have "m \<in> set ?ms" using mailbox_of_listed [OF m] by (simp add: same)
  moreover obtain n where os: "os = map (\<lambda>m. mailbox_response_of \<lparr> ov_mailbox = m,
         ov_sent_today = sent_since (w\<lparr>guc := Some ws\<rparr>) (mb_id m) (start_of_utc_day (clock_at w (reads w))),
         ov_suppressed_addresses = n \<rparr>) ?ms" using L(2) by auto
  define ov where "ov = mailbox_response_of \<lparr> ov_mailbox = m,
         ov_sent_today = sent_since (w\<lparr>guc := Some ws\<rparr>) (mb_id m) (start_of_utc_day (clock_at w (reads w))),
         ov_suppressed_addresses = n \<rparr>"
  ultimately have ov: "ov \<in> set os" "mp_id ov = mb_id m" "mp_daily_send_cap ov = mb_daily_send_cap m"
    "mp_remaining_today ov = max (mb_daily_send_cap m - sent_since (w\<lparr>guc := Some ws\<rparr>) (mb_id m) (start_of_utc_day (clock_at w (reads w)))) 0"
    by (auto simp: os ov_def mailbox_response_of_def remaining_today_def)
  have "mp_remaining_today ov = 0 \<longleftrightarrow> mb_daily_send_cap m \<le> sent_since u (mb_id m) (today u)"
    unfolding ov(4) day same by auto
  with ov(1-3) send_refused_at_cap [OF m u free, of sender] show ?thesis by auto
qed

section \<open>Creating a campaign\<close>

definition INT4_ERROR :: exn where
  "INT4_ERROR = DataError ''value out of int32 range''"

lemma not_int4_cases: "0 \<le> i \<Longrightarrow> not_int4 i = (if i < 2 ^ 31 then None else Some INT4_ERROR)"
  by (simp add: not_int4_def violated_def INT4_ERROR_def)

lemma insert_steps_run:
  assumes "guc w = Some (c_workspace_id c)" and "\<forall>s\<in>set ss. 0 \<le> s_delay_seconds s \<and> 0 \<le> s_position s \<and> s_position s < 2 ^ 31"
    and "distinct (map s_id ss)" and "distinct (map s_position ss)"
    and "\<forall>s\<in>set ss. s_id s \<notin> sr_id ` set (t_steps (db w))"
    and "\<forall>s\<in>set ss. (c_id c, s_position s) \<notin> (\<lambda>r. (sr_campaign_id r, sr_position r)) ` set (t_steps (db w))"
  shows "fst (forp (\<lambda>s. insert_step_row (step_to_row c s)) ss w)
     = (if \<forall>s\<in>set ss. s_delay_seconds s < 2 ^ 31 then Inr () else Inl INT4_ERROR)"
  using assms
proof (induction ss arbitrary: w)
  case (Cons s ss)
  let ?w = "w\<lparr>db := (db w)\<lparr>t_steps := t_steps (db w) @ [step_to_row c s]\<rparr>\<rparr>"
  show ?case
  proof (cases "s_delay_seconds s < 2 ^ 31")
    case True
    then have ins: "insert_step_row (step_to_row c s) w = (Inr (), ?w)"
      using Cons.prems by (simp add: insert_step_row_def insert_row_Inr step_to_row_def not_int4_cases)
    have "fst (forp (\<lambda>s. insert_step_row (step_to_row c s)) ss ?w)
        = (if \<forall>s\<in>set ss. s_delay_seconds s < 2 ^ 31 then Inr () else Inl INT4_ERROR)"
      by (rule Cons.IH) (use Cons.prems in \<open>auto simp: step_to_row_def\<close>, (metis image_eqI)+)
    with ins True show ?thesis by simp
  next
    case False
    then have "insert_step_row (step_to_row c s) w = (Inl INT4_ERROR, w)"
      using Cons.prems by (simp add: insert_step_row_def insert_row_def step_to_row_def not_int4_cases)
    with False show ?thesis by (simp add: thenp_run)
  qed
qed simp

text \<open>The identifiers in the tables were drawn before.\<close>

definition ids_drawn :: "world \<Rightarrow> bool" where
  "ids_drawn w \<longleftrightarrow> (\<forall>r\<in>set (t_campaigns (db w)). cr_id r < next_uuid w)
     \<and> (\<forall>r\<in>set (t_steps (db w)). sr_id r < next_uuid w \<and> sr_campaign_id r < next_uuid w)"

lemma creation_runs:
  assumes ids: "ids_drawn w" and guc: "guc w = Some ws" and m: "mailbox_of w ws = Some m"
    and q: "length (cc_name command) \<le> 200" "cc_steps command \<noteq> []" "length (cc_steps command) < 2 ^ 31"
      "\<forall>d\<in>set (cc_steps command). 0 \<le> d_delay_seconds d"
  shows "if \<forall>d\<in>set (cc_steps command). d_delay_seconds d < 2 ^ 31
     then \<exists>c w'. create_campaign command ws w = (Inr c, w') \<and> c_name c = cc_name command
       \<and> map (\<lambda>s. (s_subject s, s_body s, s_delay_seconds s)) (c_steps c)
         = map (\<lambda>d. (d_subject d, d_body d, d_delay_seconds d)) (cc_steps command)
     else \<exists>w'. create_campaign command ws w = (Inl INT4_ERROR, w')"
proof -
  let ?ds = "cc_steps command"
  define c where "c = \<lparr> c_id = next_uuid w, c_workspace_id = ws, c_mailbox_id = mb_id m, c_name = cc_name command,
        c_status = DRAFT,
        c_steps = map (\<lambda>(i, d). \<lparr> s_id = Suc (next_uuid w) + i, s_position = 1 + int i,
                s_subject = d_subject d, s_body = d_body d,
                s_delay_seconds = d_delay_seconds d \<rparr>) (List.enumerate 0 ?ds),
        c_created_at = clock_at w (reads w) \<rparr>"
  let ?w = "w\<lparr>next_uuid := Suc (next_uuid w) + length ?ds, reads := Suc (reads w)\<rparr>"
  let ?v = "?w\<lparr>db := (db w)\<lparr>t_campaigns := t_campaigns (db w) @ [campaign_to_row c]\<rparr>\<rparr>"
  have new: "Campaign_new ws (mb_id m) (cc_name command) ?ds w = (Inr c, ?w)"
    unfolding c_def by (rule Campaign_new_run [OF q(2,4)])
  have ins: "insert_campaign_row (campaign_to_row c) ?w = (Inr (), ?v)"
    using ids guc q(1) by (auto simp: insert_campaign_row_def insert_row_Inr campaign_to_row_def c_def ids_drawn_def)
  have steps: "fst (forp (\<lambda>s. insert_step_row (step_to_row c s)) (c_steps c) ?v)
     = (if \<forall>s\<in>set (c_steps c). s_delay_seconds s < 2 ^ 31 then Inr () else Inl INT4_ERROR)"
  proof (rule insert_steps_run)
    show "guc ?v = Some (c_workspace_id c)" using guc by (simp add: c_def)
    show "\<forall>s\<in>set (c_steps c). 0 \<le> s_delay_seconds s \<and> 0 \<le> s_position s \<and> s_position s < 2 ^ 31"
      using q(3,4) by (auto simp: c_def in_set_enumerate_eq)
    have "map s_id (c_steps c) = map (\<lambda>i. Suc (next_uuid w) + i) [0..<length ?ds]"
      "map s_position (c_steps c) = map (\<lambda>i. 1 + int i) [0..<length ?ds]"
      by (auto simp: c_def nth_enumerate_eq intro!: nth_equalityI)
    then show "distinct (map s_id (c_steps c))" "distinct (map s_position (c_steps c))"
      by (simp_all add: distinct_map inj_on_def)
    show "\<forall>s\<in>set (c_steps c). s_id s \<notin> sr_id ` set (t_steps (db ?v))"
      using ids by (fastforce simp: c_def ids_drawn_def in_set_enumerate_eq)
    show "\<forall>s\<in>set (c_steps c). (c_id c, s_position s) \<notin> (\<lambda>r. (sr_campaign_id r, sr_position r)) ` set (t_steps (db ?v))"
      using ids by (fastforce simp: c_def ids_drawn_def)
  qed
  have delays: "(\<forall>s\<in>set (c_steps c). s_delay_seconds s < 2 ^ 31) \<longleftrightarrow> (\<forall>d\<in>set ?ds. d_delay_seconds d < 2 ^ 31)"
  proof -
    have "map s_delay_seconds (c_steps c) = map d_delay_seconds ?ds"
      by (auto simp: c_def nth_enumerate_eq intro!: nth_equalityI)
    then have "s_delay_seconds ` set (c_steps c) = d_delay_seconds ` set ?ds" by (metis set_map)
    then show ?thesis by (metis (no_types, lifting) image_iff)
  qed
  have texts: "map (\<lambda>s. (s_subject s, s_body s, s_delay_seconds s)) (c_steps c) = map (\<lambda>d. (d_subject d, d_body d, d_delay_seconds d)) ?ds"
    by (auto simp: c_def nth_enumerate_eq intro!: nth_equalityI)
  obtain r w' where loop: "forp (\<lambda>s. insert_step_row (step_to_row c s)) (c_steps c) ?v = (r, w')" by fastforce
  have "create_campaign command ws w = (case r of Inl e \<Rightarrow> (Inl e, w') | Inr _ \<Rightarrow> (Inr c, w'))"
    using m new ins loop
    by (simp add: create_campaign_def mailbox_id_for_def mailboxes_get_by_workspace_def campaigns_add_def bindp_run thenp_run
        split: sum.split)
  with loop steps show ?thesis unfolding delays by (auto simp: c_def [THEN arg_cong, of c_name] texts)
qed

lemma create_route_run:
  "run_route s p (Some ws) (CreateCampaign q) w =
     (if valid_create_request q
      then (case create_campaign (create_command q) ws (w\<lparr>guc := Some ws, own := []\<rparr>) of
          (Inr c, v) \<Rightarrow> (Inr \<lparr> an_status = 201, an_body = CampaignBody (campaign_fields c) \<rparr>, v\<lparr>guc := None, own := []\<rparr>)
        | (Inl e, v) \<Rightarrow> respond 201 CampaignBody (raise (case create_errors e of None \<Rightarrow> e | Some h \<Rightarrow> h))
            (v\<lparr>db := db w, guc := None, own := []\<rparr>))
      else (Inr invalid_answer, w\<lparr>guc := None, own := []\<rparr>))"
  unfolding run_route.simps route_create_campaign_def in_workspace_cases validated_def
  by (simp add: session_def http_errors_def respond_def invalid_answer_def bindp_run tryp_run split: prod.split sum.split)

lemma mailbox_of_own [simp]: "mailbox_of (w\<lparr>guc := g, own := k\<rparr>) ws = mailbox_of (w\<lparr>guc := g\<rparr>) ws"
  by (simp add: mailbox_of_def mailbox_rows_def sees_def)

lemma create_command_sel:
  "cc_name (create_command q) = rq_name q" "length (cc_steps (create_command q)) = length (rq_steps q)"
  "cc_steps (create_command q) = [] \<longleftrightarrow> rq_steps q = []"
  "d_delay_seconds ` set (cc_steps (create_command q)) = rq_delay_seconds ` set (rq_steps q)"
  "map (\<lambda>d. (d_subject d, d_body d, d_delay_seconds d)) (cc_steps (create_command q))
     = map (\<lambda>s. (rq_subject s, rq_text s, rq_delay_seconds s)) (rq_steps q)"
  by (simp_all add: create_command_def image_image)

definition no_mailbox_answer :: answer where
  "no_mailbox_answer = \<lparr> an_status = 409, an_body = ErrorBody ''No mailbox connected to this workspace'' \<rparr>"

lemma create_no_mailbox:
  assumes "valid_create_request q" and "mailbox_of (w\<lparr>guc := Some ws\<rparr>) ws = None"
  shows "run_route s p (Some ws) (CreateCampaign q) w = (Inr no_mailbox_answer, w\<lparr>guc := None, own := []\<rparr>)"
  using assms unfolding create_route_run
  by (simp add: create_campaign_def mailbox_id_for_def mailboxes_get_by_workspace_def bindp_run respond_def tryp_run
      create_errors_def no_mailbox_answer_def)

lemma create_own: "keeps (\<lambda>w. own w = k \<and> guc w = g) (create_campaign command i)"
proof -
  have steps: "keeps (\<lambda>w. own w = k \<and> guc w = g) (new_steps ds n)" for ds n
    by (induction ds arbitrary: n) (auto intro!: keep_intros)
  show ?thesis
    unfolding create_campaign_def mailbox_id_for_def mailboxes_get_by_workspace_def Campaign_new_def campaigns_add_def
      insert_campaign_row_def insert_step_row_def
    by (intro keep_intros keeps_insert_row steps) simp_all
qed

lemma create_with_mailbox:
  assumes ids: "ids_drawn w" and refs: "references_hold w" and q: "valid_create_request q" "length (rq_steps q) < 2 ^ 31"
    and m: "mailbox_of (w\<lparr>guc := Some ws\<rparr>) ws = Some m"
  shows "if \<forall>x\<in>set (rq_steps q). rq_delay_seconds x < 2 ^ 31
     then \<exists>c w'. run_route s p (Some ws) (CreateCampaign q) w = (Inr \<lparr> an_status = 201, an_body = CampaignBody (campaign_fields c) \<rparr>, w')
       \<and> c_name c = rq_name q \<and> map (\<lambda>s. (s_subject s, s_body s, s_delay_seconds s)) (c_steps c)
         = map (\<lambda>s. (rq_subject s, rq_text s, rq_delay_seconds s)) (rq_steps q)
       \<and> fst (run_route s p (Some ws) (GetCampaign (c_id c)) w') = Inr \<lparr> an_status = 200, an_body =
           DetailBody (campaign_response.extend (campaign_fields c) (campaign_detail_response.fields [])) \<rparr>
     else \<exists>w'. run_route s p (Some ws) (CreateCampaign q) w = (Inl INT4_ERROR, w') \<and> db w' = db w"
proof -
  let ?u = "w\<lparr>guc := Some ws, own := []\<rparr>"
  have delay: "0 \<le> rq_delay_seconds x" if "x \<in> set (rq_steps q)" for x
    using q(1) that by (auto simp: valid_create_request_def list_all_iff valid_step_request_def)
  have runs: "if \<forall>d\<in>set (cc_steps (create_command q)). d_delay_seconds d < 2 ^ 31
     then \<exists>c v. create_campaign (create_command q) ws ?u = (Inr c, v) \<and> c_name c = cc_name (create_command q)
       \<and> map (\<lambda>s. (s_subject s, s_body s, s_delay_seconds s)) (c_steps c)
         = map (\<lambda>d. (d_subject d, d_body d, d_delay_seconds d)) (cc_steps (create_command q))
     else \<exists>v. create_campaign (create_command q) ws ?u = (Inl INT4_ERROR, v)"
  proof (rule creation_runs)
    show "ids_drawn ?u" using ids by (simp add: ids_drawn_def)
    show "mailbox_of ?u ws = Some m" using m by simp
    show "\<forall>d\<in>set (cc_steps (create_command q)). 0 \<le> d_delay_seconds d"
      using delay by (auto simp: create_command_def)
  qed (use q in \<open>auto simp: create_command_sel valid_create_request_def\<close>)
  have same: "(\<forall>d\<in>set (cc_steps (create_command q)). d_delay_seconds d < 2 ^ 31) \<longleftrightarrow> (\<forall>x\<in>set (rq_steps q). rq_delay_seconds x < 2 ^ 31)"
    by (simp add: create_command_def)
  show ?thesis
  proof (cases "\<forall>x\<in>set (rq_steps q). rq_delay_seconds x < 2 ^ 31")
    case False
    then obtain v where "create_campaign (create_command q) ws ?u = (Inl INT4_ERROR, v)"
      using runs unfolding same if_not_P [OF False] by blast
    then have "run_route s p (Some ws) (CreateCampaign q) w = (Inl INT4_ERROR, v\<lparr>db := db w, guc := None, own := []\<rparr>)"
      using q(1) unfolding create_route_run by (simp add: respond_def bindp_run tryp_run create_errors_def INT4_ERROR_def)
    with False show ?thesis by simp
  next
    case True
    then obtain c v where c: "create_campaign (create_command q) ws ?u = (Inr c, v)" "c_name c = rq_name q"
      "map (\<lambda>s. (s_subject s, s_body s, s_delay_seconds s)) (c_steps c) = map (\<lambda>s. (rq_subject s, rq_text s, rq_delay_seconds s)) (rq_steps q)"
      using runs unfolding same if_P [OF True] create_command_sel by blast
    let ?w = "v\<lparr>guc := None, own := []\<rparr>"
    have "references_hold ?u" using refs by (simp add: references_hold_def)
    from created_is_found [OF c(1) this] have found: "get_campaign (c_id c) v = (Inr \<lparr> cd_campaign = c, cd_leads = [] \<rparr>, v)" .
    have "own v = [] \<and> guc v = Some ws" by (rule keepsD_run [OF create_own _ c(1)]) simp
    then have "?w\<lparr>guc := Some ws, own := []\<rparr> = v" by simp
    then have "fst (run_route s p (Some ws) (GetCampaign (c_id c)) ?w) = Inr \<lparr> an_status = 200, an_body =
           DetailBody (campaign_response.extend (campaign_fields c) (campaign_detail_response.fields [])) \<rparr>"
      using found unfolding run_route.simps route_get_campaign_def in_workspace_cases
      by (simp add: respond_def bindp_run tryp_run session_def http_errors_def)
    moreover have "run_route s p (Some ws) (CreateCampaign q) w = (Inr \<lparr> an_status = 201, an_body = CampaignBody (campaign_fields c) \<rparr>, ?w)"
      using q(1) c(1) unfolding create_route_run by simp
    ultimately show ?thesis using True c(2,3) by auto
  qed
qed

section \<open>Tools and counters\<close>

text \<open>
  The tools of the MCP server are there in every environment, and none of them sends a single mail
  or processes a job; what a tool does is done for the caller whose authorization it forwards,
  whatever header its own request would have had.
\<close>

lemma tools_everywhere:
  assumes "mcp_type_of request = MCP_TOOL"
  shows "router_of request \<in> set (included_routers s)"
    and "router_of request \<in> {campaigns_router, mailboxes_router}"
  using assms by (cases request; simp add: mcp_type_of_def included_routers_def)+

lemma tools_act_for_their_caller:
  assumes "production s" and "auth \<noteq> []"
    and "caller s p (forward_caller_authorization (Some auth) creds) w = Inr (Some ws)"
  shows "\<exists>token. \<exists>k\<in>set (t_api_keys (db w)). parse_token (drop 7 auth) = Some token
     \<and> accepts (ap_sha256 p) k token \<and> ak_workspace_id k = ws"
  using production_caller [OF assms(1,3)] assms(2) by (auto simp: forward_caller_authorization_def)

text \<open>A request that was routed is counted under its template; a scrape of the metrics is not counted.\<close>

lemma counted_once:
  assumes "router_of request \<in> set (included_routers s)"
  shows "http_requests (scope_of s True request) (messages_of r)
    = (if request = GetMetrics then []
       else [(fst (method_and_path request), snd (method_and_path request),
              int_str (case r of Inl e \<Rightarrow> 500 | Inr a \<Rightarrow> an_status a))])"
  using assms
  by (cases request; cases r)
     (simp_all add: http_requests_def scope_of_def route_template_def METRICS_PATH_def messages_of_def observed_status_def)

end
