(* ===== verification/Api_Samples.thy ===== *)
theory Api_Samples
  imports Api_Answers Sample_Runs
begin

text \<open>
  The parameters of the HTTP API, a request's credentials, a campaign that has not started and a
  request for a new one, for the examples about the routes.
\<close>

definition sample_ports :: api_ports where
  "sample_ports = \<lparr> ap_sender = sample_sender, ap_email_str = Some, ap_sha256 = (\<lambda>s. s) \<rparr>"

definition sample_credentials :: credentials where
  "sample_credentials = \<lparr> authorization = None, workspace_header = Some (uuid_str 11) \<rparr>"

definition sample_draft :: world where
  "sample_draft = (sample_world (sample_lead PENDING 0) [])\<lparr>db := (sample_db (sample_lead PENDING 0) [])
     \<lparr>t_campaigns := [sample_campaign_row\<lparr>cr_status := DRAFT\<rparr>]\<rparr>\<rparr>"

definition sample_request :: create_campaign_request where
  "sample_request = \<lparr> rq_name = ''n'', rq_steps = [\<lparr> rq_subject = ''Hi'', rq_text = ''b'', rq_delay_seconds = 60 \<rparr>] \<rparr>"

lemma sample_valid: "valid_create_request sample_request"
  by (simp add: sample_request_def valid_create_request_def valid_step_request_def)

lemma sample_caller: "caller sample_settings p sample_credentials w = Inr (Some 11)"
proof -
  have "uuid_str 11 \<noteq> []" using sample_workspace by (auto simp: UUID_parse_def)
  then show ?thesis
    by (simp add: caller_run sample_credentials_def startswith_def production_def sample_settings_def default_settings_def sample_workspace)
qed

lemma sample_ids: "ids_drawn (sample_world l jobs)"
  by (simp add: ids_drawn_def sample_campaign_row_def sample_step_def)

lemma sample_references: "references_hold (sample_world l [])" if "l_campaign_id l = 3"
  using that by (simp add: references_hold_def sample_world_def sample_db_def sample_campaign_row_def sample_step_def)

lemma sample_guc [simp]: "(sample_world l jobs)\<lparr>guc := Some 11\<rparr> = sample_world l jobs"
  by (simp add: sample_world_def)

lemma sample_draft_campaign:
  "campaign_in (sample_draft\<lparr>reads := Suc 0, guc := Some 11, own := []\<rparr>) 3 = Some (sample_campaign\<lparr>c_status := DRAFT\<rparr>)"
  by (simp add: campaign_in_def campaign_rows_def step_rows_def sees_def steps_by_campaign_def campaign_of_row_def or_empty_def
      sample_draft_def sample_db_def sample_campaign_def sample_campaign_row_def sample_step_def)

lemma sample_draft_starts:
  "\<exists>w'. route_start_campaign (Some 11) 3 sample_draft = (Inr \<lparr> sp_status = ''active'', sp_scheduled = 1 \<rparr>, w')"
proof -
  have [simp]: "reads sample_draft = 0" "clock_at sample_draft n = 1000 + int n" "next_uuid sample_draft = 100"
    "t_campaigns (db sample_draft) = [sample_campaign_row\<lparr>cr_status := DRAFT\<rparr>]"
    "t_leads (db sample_draft) = [sample_lead PENDING 0]" "t_send_jobs (db sample_draft) = []" for n
    by (simp_all add: sample_draft_def sample_db_def)
  have pending: "filter (\<lambda>l. l_campaign_id l = 3 \<and> l_state l = PENDING) (lead_rows (sample_draft\<lparr>reads := Suc 0, guc := Some 11, own := []\<rparr>))
      = [sample_lead PENDING 0]"
    by (simp add: lead_rows_def sees_def)
  show ?thesis
    unfolding start_route_run
    by (simp add: campaigns_update_status_def campaign_rows_def leads_update_many_def jobs_add_many_def update_lead_run
      insert_send_job_row_def insert_row_def send_job_to_row_def violated_def duplicate_def row_security_def too_long_def not_int4_def
      lead_in_def lead_rows_def sees_def update_rows_def sample_campaign_row_def moved_def start_campaign_def sample_draft_campaign bindp_run thenp_run leads_list_pending_def pending start_def schedule_def Let_def
      py_index_def ensure_member_def job_def SendJob_new_def is_active_def)
qed

end
