(* ===== verification/Delivery.thy ===== *)
theory Delivery
  imports Transactions
begin

text \<open>
  Progress: a claim whose step is due for its lead, in a workspace that may send to it, becomes
  a mail, and the queue goes on to the next step.
\<close>

section \<open>Storing the next job\<close>

lemma settle_sent_stores:
  assumes "accepts_send c l k" and "lead_in w (l_id l) \<noteq> None" and "0 < k" and "k < int (length (c_steps c))"
    and "p_step_position (cj_payload claim) = k"
    and "guc w = Some (c_workspace_id c)" and "next_uuid w \<notin> jr_id ` set (t_send_jobs (db w))"
  shows "settle claim moment c l (DispatchSent out sent_at) w = (Inr O_SENT,
     with_job (send_job_to_row (job_for c (c_steps c ! nat k) sent_at l (next_uuid w) (clock_at w (reads w))))
       (put_job (cj_id claim) (job_done out moment)
         (put_lead (l\<lparr>l_state := SENT, l_updated_at := sent_at, l_steps_sent := k\<rparr>)
           (w\<lparr>next_uuid := Suc (next_uuid w), reads := Suc (reads w)\<rparr>))))"
proof -
  let ?j = "job_for c (c_steps c ! nat k) sent_at l (next_uuid w) (clock_at w (reads w))"
  let ?v = "put_job (cj_id claim) (job_done out moment)
       (put_lead (l\<lparr>l_state := SENT, l_updated_at := sent_at, l_steps_sent := k\<rparr>)
         (w\<lparr>next_uuid := Suc (next_uuid w), reads := Suc (reads w)\<rparr>))"
  have "map jr_id (t_send_jobs (db ?v)) = map jr_id (t_send_jobs (db w))"
    by (simp add: put_job_def map_update_rows job_done_def)
  then have "jr_id ` set (t_send_jobs (db ?v)) = jr_id ` set (t_send_jobs (db w))" by (metis set_map)
  then have "insert_send_job_row (send_job_to_row ?j) ?v = (Inr (), with_job (send_job_to_row ?j) ?v)"
    using assms(6,7)
    by (simp add: insert_send_job_row_def insert_row_Inr with_job_def send_job_to_row_def job_for_def)
  then show ?thesis
    using settle_sent_next [OF assms(2,1,3,4,5), of moment out sent_at] by (simp add: jobs_add_one)
qed

section \<open>A due mail leaves\<close>

text \<open>The row of the mail fits its columns and is new, and so do the identifiers of the provider.\<close>

definition row_fits :: "world \<Rightarrow> uuid \<Rightarrow> mailbox \<Rightarrow> string \<Rightarrow> string \<Rightarrow> string \<Rightarrow> sent_email \<Rightarrow> bool" where
  "row_fits w ws mb email subject body answer \<longleftrightarrow>
     length email \<le> 320 \<and> length (om_rfc822_message_id (row_of w ws mb email subject body)) \<le> 998
     \<and> length (se_provider_message_id answer) \<le> 64 \<and> length (se_provider_thread_id answer) \<le> 64
     \<and> next_uuid w \<notin> om_id ` set (t_outbound (db w))
     \<and> om_rfc822_message_id (row_of w ws mb email subject body) \<notin> om_rfc822_message_id ` set (t_outbound (db w))"

definition due_claim :: "uuid \<Rightarrow> world \<Rightarrow> claimed_job \<Rightarrow> lead \<Rightarrow> bool" where
  "due_claim ws w claim l \<longleftrightarrow> hand_ok ws w claim \<and> lead_in w (cj_lead_id claim) = Some l \<and> sendable l
     \<and> p_step_position (cj_payload claim) = l_steps_sent l + 1"

lemma dispatched_sel [simp]:
  "guc (dispatched w ws mb email subject body answer) = guc w"
  "next_uuid (dispatched w ws mb email subject body answer) = Suc (next_uuid w)"
  "t_send_jobs (db (dispatched w ws mb email subject body answer)) = t_send_jobs (db w)"
  "t_leads (db (dispatched w ws mb email subject body answer)) = t_leads (db w)"
  "wire (dispatched w ws mb email subject body answer) = wire w @ [(mail_of w mb email subject body, Inr answer)]"
  by (simp_all add: dispatched_def guarded_def)

lemma put_job_done:
  assumes "r \<in> set (t_send_jobs (db w))" and "jr_id r = i" and "guc w = Some (jr_workspace_id r)"
  shows "job_done out moment r \<in> set (t_send_jobs (db (put_job i (job_done out moment) w)))"
  using assms by (force simp: put_job_def update_rows_def sees_def)

lemma due_mail_run:
  assumes w: "consistent w" "guc w = Some ws" and due: "due_claim ws w claim l"
    and may: "may_send w ws (p_to_email (cj_payload claim)) mb"
    and accepts: "sender (length (wire w)) (mail_of w mb (p_to_email (cj_payload claim)) (p_subject (cj_payload claim))
        (p_body (cj_payload claim))) = Inr answer"
    and fits: "row_fits w ws mb (p_to_email (cj_payload claim)) (p_subject (cj_payload claim)) (p_body (cj_payload claim)) answer"
  obtains c w' j where "process_claimed (email_dispatch sender) claim moment w = (Inr O_SENT, w')"
    and "campaign_in w (l_campaign_id l) = Some c"
    and "wire w' = wire w @ [(mail_of w mb (p_to_email (cj_payload claim)) (p_subject (cj_payload claim))
        (p_body (cj_payload claim)), Inr answer)]"
    and "lead_in w' (l_id l) = Some (l\<lparr>l_state := (if p_step_position (cj_payload claim) = int (length (c_steps c)) then DONE else SENT),
        l_updated_at := clock_at w (Suc (reads w)), l_steps_sent := p_step_position (cj_payload claim)\<rparr>)"
    and "\<exists>q\<in>set (t_send_jobs (db w')). jr_id q = cj_id claim \<and> jr_status q = JDONE \<and> jr_outbound_message_id q = Some (next_uuid w)"
    and "p_step_position (cj_payload claim) \<noteq> int (length (c_steps c)) \<Longrightarrow> j \<in> set (t_send_jobs (db w')) \<and> jr_status j = JPENDING
        \<and> jr_lead_id j = l_id l \<and> jr_payload j = payload_of c l (c_steps c ! nat (p_step_position (cj_payload claim)))
        \<and> jr_scheduled_at j = clock_at w (Suc (reads w)) + seconds (s_delay_seconds (c_steps c ! nat (p_step_position (cj_payload claim))))"
proof -
  let ?P = "cj_payload claim"
  let ?v = "dispatched w ws mb (p_to_email ?P) (p_subject ?P) (p_body ?P) answer"
  let ?k = "p_step_position ?P" and ?at = "clock_at w (Suc (reads w))"
  have good: "good ws w w" using w by (simp add: good_def)
  have hand: "hand_ok ws w claim" and k: "?k = l_steps_sent l + 1" and send: "sendable l"
    and look: "lead_in w (cj_lead_id claim) = Some l" using due by (simp_all add: due_claim_def)
  have workspace: "cj_workspace_id claim = ws" using hand by (simp add: hand_ok_def)
  obtain r l' c where h: "lead_in w (cj_lead_id claim) = Some l'" "l_id l' = cj_lead_id claim"
    "campaign_in w (p_campaign_id ?P) = Some c" "is_active c" "l_campaign_id l' = c_id c" "c_workspace_id c = ws"
    "1 \<le> pos r" "pos r \<le> int (length (c_steps c))" "pos r = ?k" "camps w ws (l_campaign_id l') = Some c"
    "r \<in> set (t_send_jobs (db w))" "jr_id r = cj_id claim" "jr_workspace_id r = ws"
    by (rule held_claim [OF good hand]) blast
  have l: "l' = l" using h(1) look by simp
  have acc: "accepts_send c l ?k" using h(4,5) send k by (simp add: accepts_send_def sendable_def l)
  have camp: "campaign_in w (l_campaign_id l) = Some c" using h(10) camps_guc [OF w(2)] by (simp add: l)
  have "email_dispatch sender ws (p_to_email ?P) (p_subject ?P) (p_body ?P) w = (Inr (DispatchSent (next_uuid w) ?at), ?v)"
    using fits by (intro dispatch_delivers [where sender = sender, OF may accepts]) (simp_all add: row_fits_def)
  then have run: "process_claimed (email_dispatch sender) claim moment w = settle claim moment c l (DispatchSent (next_uuid w) ?at) ?v"
    using h(3) look acc workspace by (simp add: process_claimed_def bindp_run)
  have "lead_in ?v i = lead_in w i" for i by (rule lead_in_cong) simp_all
  then have look_v: "lead_in ?v (l_id l) = Some l" using look h(2) by (simp add: l)
  have moved: "overwrite (l\<lparr>l_state := s, l_updated_at := t, l_steps_sent := n\<rparr>) l = l\<lparr>l_state := s, l_updated_at := t, l_steps_sent := n\<rparr>" for s t n
    by (simp add: overwrite_def)
  have done_row: "\<exists>q\<in>set (t_send_jobs (db (put_job (cj_id claim) (job_done (next_uuid w) moment) u))).
      jr_id q = cj_id claim \<and> jr_status q = JDONE \<and> jr_outbound_message_id q = Some (next_uuid w)"
    if "t_send_jobs (db u) = t_send_jobs (db w)" "guc u = Some ws" for u
    using put_job_done [of r u "cj_id claim" "next_uuid w" moment] h(11-13) that
    by (intro bexI [of _ "job_done (next_uuid w) moment r"]) (simp_all add: job_done_def)
  show ?thesis
  proof (cases "?k = int (length (c_steps c))")
    case True
    let ?w' = "put_job (cj_id claim) (job_done (next_uuid w) moment) (put_lead (l\<lparr>l_state := DONE, l_updated_at := ?at, l_steps_sent := ?k\<rparr>) ?v)"
    have "process_claimed (email_dispatch sender) claim moment w = (Inr O_SENT, ?w')"
      unfolding run by (rule settle_sent_last [OF _ acc True refl]) (simp add: look_v)
    moreover have "lead_in ?w' (l_id l) = Some (l\<lparr>l_state := DONE, l_updated_at := ?at, l_steps_sent := ?k\<rparr>)"
      by (simp add: lead_in_put look_v moved)
    moreover note done_row [of "put_lead (l\<lparr>l_state := DONE, l_updated_at := ?at, l_steps_sent := ?k\<rparr>) ?v"]
    ultimately show ?thesis using True w(2) by (intro that [OF _ camp, of ?w']) simp_all
  next
    case False
    then have less: "?k < int (length (c_steps c))" using h(8,9) by simp
    let ?j = "send_job_to_row (job_for c (c_steps c ! nat ?k) ?at l (next_uuid ?v) (clock_at ?v (reads ?v)))"
    let ?w' = "with_job ?j (put_job (cj_id claim) (job_done (next_uuid w) moment)
         (put_lead (l\<lparr>l_state := SENT, l_updated_at := ?at, l_steps_sent := ?k\<rparr>)
           (?v\<lparr>next_uuid := Suc (next_uuid ?v), reads := Suc (reads ?v)\<rparr>)))"
    have new: "next_uuid ?v \<notin> jr_id ` set (t_send_jobs (db ?v))"
      by (auto dest: plan_okD(6) [OF goodD(2) [OF good]])
    have ran: "process_claimed (email_dispatch sender) claim moment w = (Inr O_SENT, ?w')"
      unfolding run by (rule settle_sent_stores [OF acc _ _ less refl _ new]) (use look_v h(6,7,9) w(2) in simp_all)
    have lead: "lead_in ?w' (l_id l) = Some (l\<lparr>l_state := (if ?k = int (length (c_steps c)) then DONE else SENT),
        l_updated_at := ?at, l_steps_sent := ?k\<rparr>)"
    proof -
      have "lead_in (?v\<lparr>next_uuid := n, reads := m\<rparr>) (l_id l) = Some l" for n m
        using look_v lead_in_cong [of "?v\<lparr>next_uuid := n, reads := m\<rparr>" ?v] by simp
      moreover have "lead_in (with_job q v) i = lead_in v i" for q v i by (rule lead_in_cong) simp_all
      ultimately show ?thesis using False by (simp add: lead_in_put moved)
    qed
    have settled: "\<exists>q\<in>set (t_send_jobs (db ?w')). jr_id q = cj_id claim \<and> jr_status q = JDONE \<and> jr_outbound_message_id q = Some (next_uuid w)"
      using done_row [of "put_lead (l\<lparr>l_state := SENT, l_updated_at := ?at, l_steps_sent := ?k\<rparr>)
        (?v\<lparr>next_uuid := Suc (next_uuid ?v), reads := Suc (reads ?v)\<rparr>)"] w(2)
      unfolding with_job_frame by simp
    have next_job: "?j \<in> set (t_send_jobs (db ?w')) \<and> jr_status ?j = JPENDING \<and> jr_lead_id ?j = l_id l
        \<and> jr_payload ?j = payload_of c l (c_steps c ! nat ?k) \<and> jr_scheduled_at ?j = ?at + seconds (s_delay_seconds (c_steps c ! nat ?k))"
      by (simp add: send_job_to_row_def job_for_def)
    show ?thesis by (rule that [OF ran camp _ lead settled next_job]) simp
  qed
qed

end
