(* ===== verification/Rows.thy ===== *)
theory Rows
  imports Orm_Models Campaign_Repos Messaging_Repos Identity
begin

text \<open>
  The rows that the repositories exchange with the driver: the conversions \<open>_to_row\<close> and
  \<open>_to_domain\<close> of each repository, with the enums as the texts of their columns and the payload of a
  job as the JSON of its column. The tables of \<open>Database\<close> hold the domain objects themselves; the
  locale \<open>stored_as\<close> says why they may: what a repository stores reads back as what it was, a query
  over the rows is the query over the objects, and a row fits the columns of its table exactly when
  the texts and numbers that a caller chose do.
\<close>

section \<open>Rows and columns\<close>

datatype sql_value =
    SqlNull | SqlUuid uuid | SqlText string | SqlInt int | SqlTime time | SqlJson json

type_synonym sql_row = "(string \<times> sql_value) list"

definition fits_int4 :: "int \<Rightarrow> bool" where
  "fits_int4 i \<longleftrightarrow> - (2 ^ 31) \<le> i \<and> i < 2 ^ 31"

fun value_fits :: "col_type \<Rightarrow> sql_value \<Rightarrow> bool" where
  "value_fits UuidType (SqlUuid u) = True"
| "value_fits (StringType n) (SqlText s) = (length s \<le> n)"
| "value_fits TextType (SqlText s) = True"
| "value_fits IntegerType (SqlInt i) = fits_int4 i"
| "value_fits JsonbType (SqlJson j) = True"
| "value_fits TimestampTz (SqlTime t) = True"
| "value_fits _ _ = False"

definition column_fits :: "column_def \<Rightarrow> sql_value \<Rightarrow> bool" where
  "column_fits c v \<longleftrightarrow> (if v = SqlNull then co_nullable c else value_fits (co_type c) v)"

text \<open>A row gives every column of its table a value, in the order of the columns.\<close>

definition fits_table :: "table_def \<Rightarrow> sql_row \<Rightarrow> bool" where
  "fits_table t r \<longleftrightarrow> map fst r = column_names t \<and> list_all2 column_fits (tb_columns t) (map snd r)"

text \<open>
  Reading a column of a row. A value of another type, which the type of the column rules out, would be
  refused by the model that is constructed; a text that is no member of an enum is refused by the enum.
\<close>

definition col :: "sql_row \<Rightarrow> string \<Rightarrow> sql_value" where
  "col r name = (case map_of r name of None \<Rightarrow> SqlNull | Some v \<Rightarrow> v)"

definition wrong_type :: exn where
  "wrong_type = ValueError ''validation error''"

definition uuid_at :: "sql_row \<Rightarrow> string \<Rightarrow> exn + uuid" where
  "uuid_at r name = (case col r name of SqlUuid u \<Rightarrow> Inr u | _ \<Rightarrow> Inl wrong_type)"

definition text_at :: "sql_row \<Rightarrow> string \<Rightarrow> exn + string" where
  "text_at r name = (case col r name of SqlText s \<Rightarrow> Inr s | _ \<Rightarrow> Inl wrong_type)"

definition int_at :: "sql_row \<Rightarrow> string \<Rightarrow> exn + int" where
  "int_at r name = (case col r name of SqlInt i \<Rightarrow> Inr i | _ \<Rightarrow> Inl wrong_type)"

definition time_at :: "sql_row \<Rightarrow> string \<Rightarrow> exn + time" where
  "time_at r name = (case col r name of SqlTime t \<Rightarrow> Inr t | _ \<Rightarrow> Inl wrong_type)"

definition optional :: "(sql_row \<Rightarrow> string \<Rightarrow> exn + 'a) \<Rightarrow> sql_row \<Rightarrow> string \<Rightarrow> exn + 'a option" where
  "optional at r name = (if col r name = SqlNull then Inr None else map_sum id Some (at r name))"

definition nullable :: "('a \<Rightarrow> sql_value) \<Rightarrow> 'a option \<Rightarrow> sql_value" where
  "nullable f x = (case x of None \<Rightarrow> SqlNull | Some y \<Rightarrow> f y)"

text \<open>\<open>LeadState(text)\<close> and the like.\<close>

definition enum_at :: "(string \<Rightarrow> 'a option) \<Rightarrow> string \<Rightarrow> sql_row \<Rightarrow> string \<Rightarrow> exn + 'a" where
  "enum_at of_text enum_name r name = sum_bind (text_at r name) (\<lambda>s.
     case of_text s of Some m \<Rightarrow> Inr m
     | None \<Rightarrow> Inl (ValueError ([CHR 0x27] @ s @ [CHR 0x27] @ '' is not a valid '' @ enum_name)))"

section \<open>The campaign context\<close>

definition lead_to_row :: "lead \<Rightarrow> sql_row" where
  "lead_to_row l =
     [(''id'', SqlUuid (l_id l)), (''workspace_id'', SqlUuid (l_workspace_id l)),
      (''campaign_id'', SqlUuid (l_campaign_id l)), (''email'', SqlText (l_email l)),
      (''state'', SqlText (lead_state_value (l_state l))), (''steps_sent'', SqlInt (l_steps_sent l)),
      (''stop_reason'', nullable (SqlText \<circ> stop_reason_value) (l_stop_reason l)),
      (''reply_intent'', nullable SqlText (l_reply_intent l)),
      (''created_at'', SqlTime (l_created_at l)), (''updated_at'', SqlTime (l_updated_at l))]"

definition lead_of_row :: "sql_row \<Rightarrow> exn + lead" where
  "lead_of_row r =
     sum_bind (uuid_at r ''id'') (\<lambda>i.
     sum_bind (uuid_at r ''workspace_id'') (\<lambda>ws.
     sum_bind (uuid_at r ''campaign_id'') (\<lambda>c.
     sum_bind (text_at r ''email'') (\<lambda>email.
     sum_bind (enum_at lead_state_of ''LeadState'' r ''state'') (\<lambda>st.
     sum_bind (int_at r ''steps_sent'') (\<lambda>n.
     sum_bind (optional (enum_at stop_reason_of ''StopReason'') r ''stop_reason'') (\<lambda>reason.
     sum_bind (optional text_at r ''reply_intent'') (\<lambda>intent.
     sum_bind (time_at r ''created_at'') (\<lambda>created.
     sum_bind (time_at r ''updated_at'') (\<lambda>updated.
       Inr \<lparr> l_id = i, l_workspace_id = ws, l_campaign_id = c, l_email = email, l_state = st,
             l_steps_sent = n, l_stop_reason = reason, l_reply_intent = intent,
             l_created_at = created, l_updated_at = updated \<rparr>))))))))))"

definition campaign_status_of :: "string \<Rightarrow> campaign_status option" where
  "campaign_status_of s = find (\<lambda>m. campaign_status_value m = s) [DRAFT, ACTIVE]"

definition campaign_row_columns :: "campaign_row \<Rightarrow> sql_row" where
  "campaign_row_columns c =
     [(''id'', SqlUuid (cr_id c)), (''workspace_id'', SqlUuid (cr_workspace_id c)),
      (''mailbox_id'', SqlUuid (cr_mailbox_id c)), (''name'', SqlText (cr_name c)),
      (''status'', SqlText (campaign_status_value (cr_status c))), (''created_at'', SqlTime (cr_created_at c))]"

definition campaign_row_of :: "sql_row \<Rightarrow> exn + campaign_row" where
  "campaign_row_of r =
     sum_bind (uuid_at r ''id'') (\<lambda>i.
     sum_bind (uuid_at r ''workspace_id'') (\<lambda>ws.
     sum_bind (uuid_at r ''mailbox_id'') (\<lambda>m.
     sum_bind (text_at r ''name'') (\<lambda>name.
     sum_bind (enum_at campaign_status_of ''CampaignStatus'' r ''status'') (\<lambda>st.
     sum_bind (time_at r ''created_at'') (\<lambda>created.
       Inr \<lparr> cr_id = i, cr_workspace_id = ws, cr_mailbox_id = m, cr_name = name, cr_status = st,
             cr_created_at = created \<rparr>))))))"

definition step_row_columns :: "step_row \<Rightarrow> sql_row" where
  "step_row_columns s =
     [(''id'', SqlUuid (sr_id s)), (''workspace_id'', SqlUuid (sr_workspace_id s)),
      (''campaign_id'', SqlUuid (sr_campaign_id s)), (''position'', SqlInt (sr_position s)),
      (''subject'', SqlText (sr_subject s)), (''body'', SqlText (sr_body s)),
      (''delay_seconds'', SqlInt (sr_delay_seconds s)), (''created_at'', SqlTime (sr_created_at s))]"

definition step_row_of :: "sql_row \<Rightarrow> exn + step_row" where
  "step_row_of r =
     sum_bind (uuid_at r ''id'') (\<lambda>i.
     sum_bind (uuid_at r ''workspace_id'') (\<lambda>ws.
     sum_bind (uuid_at r ''campaign_id'') (\<lambda>c.
     sum_bind (int_at r ''position'') (\<lambda>p.
     sum_bind (text_at r ''subject'') (\<lambda>subject.
     sum_bind (text_at r ''body'') (\<lambda>body.
     sum_bind (int_at r ''delay_seconds'') (\<lambda>delay.
     sum_bind (time_at r ''created_at'') (\<lambda>created.
       Inr \<lparr> sr_id = i, sr_workspace_id = ws, sr_campaign_id = c, sr_position = p, sr_subject = subject,
             sr_body = body, sr_delay_seconds = delay, sr_created_at = created \<rparr>))))))))"

text \<open>\<open>_to_domain\<close> and \<open>Step(...)\<close> read what the aggregate needs of these rows.\<close>

definition campaign_of_columns :: "sql_row \<Rightarrow> step list \<Rightarrow> exn + campaign" where
  "campaign_of_columns r steps =
     sum_bind (uuid_at r ''id'') (\<lambda>i.
     sum_bind (uuid_at r ''workspace_id'') (\<lambda>ws.
     sum_bind (uuid_at r ''mailbox_id'') (\<lambda>m.
     sum_bind (text_at r ''name'') (\<lambda>name.
     sum_bind (enum_at campaign_status_of ''CampaignStatus'' r ''status'') (\<lambda>st.
     sum_bind (time_at r ''created_at'') (\<lambda>created.
       Inr \<lparr> c_id = i, c_workspace_id = ws, c_mailbox_id = m, c_name = name, c_status = st,
             c_steps = steps, c_created_at = created \<rparr>))))))"

definition step_of_columns :: "sql_row \<Rightarrow> exn + step" where
  "step_of_columns r =
     sum_bind (uuid_at r ''id'') (\<lambda>i.
     sum_bind (int_at r ''position'') (\<lambda>p.
     sum_bind (text_at r ''subject'') (\<lambda>subject.
     sum_bind (text_at r ''body'') (\<lambda>body.
     sum_bind (int_at r ''delay_seconds'') (\<lambda>delay.
       Inr \<lparr> s_id = i, s_position = p, s_subject = subject, s_body = body, s_delay_seconds = delay \<rparr>)))))"

section \<open>The messaging context\<close>

definition outbound_to_row :: "outbound_message \<Rightarrow> sql_row" where
  "outbound_to_row m =
     [(''id'', SqlUuid (om_id m)), (''workspace_id'', SqlUuid (om_workspace_id m)),
      (''mailbox_id'', SqlUuid (om_mailbox_id m)), (''to_email'', SqlText (om_to_email m)),
      (''subject'', SqlText (om_subject m)), (''body'', SqlText (om_body m)),
      (''rfc822_message_id'', SqlText (om_rfc822_message_id m)),
      (''provider_message_id'', nullable SqlText (om_provider_message_id m)),
      (''provider_thread_id'', nullable SqlText (om_provider_thread_id m)),
      (''created_at'', SqlTime (om_created_at m))]"

definition outbound_of_row :: "sql_row \<Rightarrow> exn + outbound_message" where
  "outbound_of_row r =
     sum_bind (uuid_at r ''id'') (\<lambda>i.
     sum_bind (uuid_at r ''workspace_id'') (\<lambda>ws.
     sum_bind (uuid_at r ''mailbox_id'') (\<lambda>mb.
     sum_bind (text_at r ''to_email'') (\<lambda>to_email.
     sum_bind (text_at r ''subject'') (\<lambda>subject.
     sum_bind (text_at r ''body'') (\<lambda>body.
     sum_bind (text_at r ''rfc822_message_id'') (\<lambda>rfc822.
     sum_bind (optional text_at r ''provider_message_id'') (\<lambda>message_id.
     sum_bind (optional text_at r ''provider_thread_id'') (\<lambda>thread_id.
     sum_bind (time_at r ''created_at'') (\<lambda>created.
       Inr \<lparr> om_id = i, om_workspace_id = ws, om_mailbox_id = mb, om_to_email = to_email,
             om_subject = subject, om_body = body, om_rfc822_message_id = rfc822,
             om_provider_message_id = message_id, om_provider_thread_id = thread_id,
             om_created_at = created \<rparr>))))))))))"

definition inbound_to_row :: "inbound_message \<Rightarrow> sql_row" where
  "inbound_to_row m =
     [(''id'', SqlUuid (im_id m)), (''workspace_id'', SqlUuid (im_workspace_id m)),
      (''mailbox_id'', SqlUuid (im_mailbox_id m)),
      (''provider_message_id'', SqlText (im_provider_message_id m)),
      (''provider_thread_id'', SqlText (im_provider_thread_id m)),
      (''from_email'', SqlText (im_from_email m)), (''subject'', SqlText (im_subject m)),
      (''snippet'', SqlText (im_snippet m)),
      (''in_reply_to_header'', nullable SqlText (im_in_reply_to_header m)),
      (''references_header'', nullable SqlText (im_references_header m)),
      (''matched_outbound_id'', nullable SqlUuid (im_matched_outbound_id m)),
      (''intent'', nullable (SqlText \<circ> intent_value) (im_intent m)),
      (''received_at'', SqlTime (im_received_at m)), (''created_at'', SqlTime (im_created_at m))]"

definition inbound_of_row :: "sql_row \<Rightarrow> exn + inbound_message" where
  "inbound_of_row r =
     sum_bind (uuid_at r ''id'') (\<lambda>i.
     sum_bind (uuid_at r ''workspace_id'') (\<lambda>ws.
     sum_bind (uuid_at r ''mailbox_id'') (\<lambda>mb.
     sum_bind (text_at r ''provider_message_id'') (\<lambda>message_id.
     sum_bind (text_at r ''provider_thread_id'') (\<lambda>thread_id.
     sum_bind (text_at r ''from_email'') (\<lambda>from_email.
     sum_bind (text_at r ''subject'') (\<lambda>subject.
     sum_bind (text_at r ''snippet'') (\<lambda>snippet.
     sum_bind (optional text_at r ''in_reply_to_header'') (\<lambda>in_reply_to.
     sum_bind (optional text_at r ''references_header'') (\<lambda>references.
     sum_bind (optional uuid_at r ''matched_outbound_id'') (\<lambda>matched.
     sum_bind (optional (enum_at intent_of ''Intent'') r ''intent'') (\<lambda>intent.
     sum_bind (time_at r ''received_at'') (\<lambda>received.
     sum_bind (time_at r ''created_at'') (\<lambda>created.
       Inr \<lparr> im_id = i, im_workspace_id = ws, im_mailbox_id = mb, im_provider_message_id = message_id,
             im_provider_thread_id = thread_id, im_from_email = from_email, im_subject = subject,
             im_snippet = snippet, im_in_reply_to_header = in_reply_to,
             im_references_header = references, im_matched_outbound_id = matched, im_intent = intent,
             im_received_at = received, im_created_at = created \<rparr>))))))))))))))"

section \<open>The mailbox and identity contexts\<close>

definition mailbox_to_row :: "mailbox \<Rightarrow> sql_row" where
  "mailbox_to_row m =
     [(''id'', SqlUuid (mb_id m)), (''workspace_id'', SqlUuid (mb_workspace_id m)),
      (''email_address'', SqlText (mb_email_address m)),
      (''last_sync_cursor'', nullable SqlText (mb_last_sync_cursor m)),
      (''daily_send_cap'', SqlInt (mb_daily_send_cap m)), (''created_at'', SqlTime (mb_created_at m))]"

definition mailbox_of_row :: "sql_row \<Rightarrow> exn + mailbox" where
  "mailbox_of_row r =
     sum_bind (uuid_at r ''id'') (\<lambda>i.
     sum_bind (uuid_at r ''workspace_id'') (\<lambda>ws.
     sum_bind (text_at r ''email_address'') (\<lambda>email.
     sum_bind (optional text_at r ''last_sync_cursor'') (\<lambda>cursor.
     sum_bind (int_at r ''daily_send_cap'') (\<lambda>cap.
     sum_bind (time_at r ''created_at'') (\<lambda>created.
       Inr \<lparr> mb_id = i, mb_workspace_id = ws, mb_email_address = email, mb_last_sync_cursor = cursor,
             mb_daily_send_cap = cap, mb_created_at = created \<rparr>))))))"

definition workspace_to_row :: "workspace \<Rightarrow> sql_row" where
  "workspace_to_row w =
     [(''id'', SqlUuid (ws_id w)), (''name'', SqlText (ws_name w)), (''created_at'', SqlTime (ws_created_at w))]"

definition workspace_of_row :: "sql_row \<Rightarrow> exn + workspace" where
  "workspace_of_row r =
     sum_bind (uuid_at r ''id'') (\<lambda>i.
     sum_bind (text_at r ''name'') (\<lambda>name.
     sum_bind (time_at r ''created_at'') (\<lambda>created.
       Inr \<lparr> ws_id = i, ws_name = name, ws_created_at = created \<rparr>)))"

definition api_key_to_row :: "api_key \<Rightarrow> sql_row" where
  "api_key_to_row k =
     [(''id'', SqlUuid (ak_id k)), (''workspace_id'', SqlUuid (ak_workspace_id k)),
      (''prefix'', SqlText (ak_prefix k)), (''secret_hash'', SqlText (ak_secret_hash k)),
      (''created_at'', SqlTime (ak_created_at k)), (''revoked_at'', nullable SqlTime (ak_revoked_at k))]"

definition api_key_of_row :: "sql_row \<Rightarrow> exn + api_key" where
  "api_key_of_row r =
     sum_bind (uuid_at r ''id'') (\<lambda>i.
     sum_bind (uuid_at r ''workspace_id'') (\<lambda>ws.
     sum_bind (text_at r ''prefix'') (\<lambda>prefix.
     sum_bind (text_at r ''secret_hash'') (\<lambda>hash.
     sum_bind (time_at r ''created_at'') (\<lambda>created.
     sum_bind (optional time_at r ''revoked_at'') (\<lambda>revoked.
       Inr \<lparr> ak_id = i, ak_workspace_id = ws, ak_prefix = prefix, ak_secret_hash = hash,
             ak_created_at = created, ak_revoked_at = revoked \<rparr>))))))"

section \<open>Storing and reading back\<close>

definition loads :: "(sql_row \<Rightarrow> exn + 'a) \<Rightarrow> sql_row list \<Rightarrow> exn + 'a list" where
  "loads of_row rs = foldr (\<lambda>r xs. sum_bind (of_row r) (\<lambda>x. sum_bind xs (\<lambda>ys. Inr (x # ys)))) rs (Inr [])"

locale stored_as =
  fixes table :: table_def
    and to_row :: "'a \<Rightarrow> sql_row"
    and of_row :: "sql_row \<Rightarrow> exn + 'a"
    and storable :: "'a \<Rightarrow> bool"
  assumes reads_back: "of_row (to_row x) = Inr x"
    and fits: "fits_table table (to_row x) \<longleftrightarrow> storable x"
begin

lemma to_row_inj: "to_row x = to_row y \<longleftrightarrow> x = y"
  by (metis reads_back sum.inject(2))

lemma loads_stored: "loads of_row (map to_row xs) = Inr xs"
  by (induction xs) (simp_all add: loads_def reads_back)

lemma loads_selected: "loads of_row (filter Q (map to_row xs)) = Inr (filter (Q \<circ> to_row) xs)"
  unfolding filter_map by (rule loads_stored)

lemma table_fits: "list_all (fits_table table) (map to_row xs) \<longleftrightarrow> list_all storable xs"
  by (simp add: list_all_iff fits)

end

section \<open>The tables\<close>

text \<open>What a caller has to keep for an object to be storable: the rest of a row fits its columns anyway.\<close>

definition storable_lead :: "lead \<Rightarrow> bool" where
  "storable_lead l \<longleftrightarrow> length (l_email l) \<le> 320 \<and> fits_int4 (l_steps_sent l)
     \<and> (\<forall>s. l_reply_intent l = Some s \<longrightarrow> length s \<le> 16)"

definition storable_campaign :: "campaign_row \<Rightarrow> bool" where
  "storable_campaign c \<longleftrightarrow> length (cr_name c) \<le> 200"

definition storable_step :: "step_row \<Rightarrow> bool" where
  "storable_step s \<longleftrightarrow> fits_int4 (sr_position s) \<and> fits_int4 (sr_delay_seconds s)"

definition storable_outbound :: "outbound_message \<Rightarrow> bool" where
  "storable_outbound m \<longleftrightarrow> length (om_to_email m) \<le> 320 \<and> length (om_rfc822_message_id m) \<le> 998
     \<and> (\<forall>s. om_provider_message_id m = Some s \<longrightarrow> length s \<le> 64)
     \<and> (\<forall>s. om_provider_thread_id m = Some s \<longrightarrow> length s \<le> 64)"

definition storable_inbound :: "inbound_message \<Rightarrow> bool" where
  "storable_inbound m \<longleftrightarrow> length (im_provider_message_id m) \<le> 64 \<and> length (im_provider_thread_id m) \<le> 64
     \<and> length (im_from_email m) \<le> 320"

definition storable_mailbox :: "mailbox \<Rightarrow> bool" where
  "storable_mailbox m \<longleftrightarrow> length (mb_email_address m) \<le> 320 \<and> fits_int4 (mb_daily_send_cap m)
     \<and> (\<forall>s. mb_last_sync_cursor m = Some s \<longrightarrow> length s \<le> 64)"

definition storable_workspace :: "workspace \<Rightarrow> bool" where
  "storable_workspace w \<longleftrightarrow> length (ws_name w) \<le> 120"

definition storable_key :: "api_key \<Rightarrow> bool" where
  "storable_key k \<longleftrightarrow> length (ak_prefix k) \<le> 16 \<and> length (ak_secret_hash k) \<le> 64"

named_theorems row_simps

lemmas [row_simps] = fits_table_def column_names_def declares_def id_column_def created_at_column_def
  mapped_workspace_id_def references_to_def Column_def primary_key_def column_fits_def
  uuid_at_def text_at_def int_at_def time_at_def optional_def nullable_def enum_at_def col_def

lemma campaign_status_of_value [simp]: "campaign_status_of (campaign_status_value c) = Some c"
  by (cases c) (simp_all add: campaign_status_of_def)

lemma state_fits [simp]: "length (lead_state_value st) \<le> 16"
  by (cases st) simp_all

lemma reason_fits [simp]: "length (stop_reason_value reason) \<le> 32"
  by (cases reason) simp_all

lemma campaign_status_fits [simp]: "length (campaign_status_value c) \<le> 32"
  by (cases c) simp_all

lemma intent_fits [simp]: "length (intent_value i) \<le> 16"
  by (cases i) simp_all

interpretation leads_stored: stored_as "snd Lead_table" lead_to_row lead_of_row storable_lead
proof
  fix l :: lead
  show "lead_of_row (lead_to_row l) = Inr l"
    by (simp add: lead_of_row_def lead_to_row_def row_simps split: option.split)
  show "fits_table (snd Lead_table) (lead_to_row l) \<longleftrightarrow> storable_lead l"
    by (auto simp: lead_to_row_def Lead_table_def storable_lead_def row_simps split: option.splits)
qed

interpretation campaigns_stored: stored_as "snd Campaign_table" campaign_row_columns campaign_row_of storable_campaign
proof
  fix c :: campaign_row
  show "campaign_row_of (campaign_row_columns c) = Inr c"
    by (simp add: campaign_row_of_def campaign_row_columns_def row_simps)
  show "fits_table (snd Campaign_table) (campaign_row_columns c) \<longleftrightarrow> storable_campaign c"
    by (simp add: campaign_row_columns_def Campaign_table_def storable_campaign_def row_simps)
qed

interpretation steps_stored: stored_as "snd Step_table" step_row_columns step_row_of storable_step
proof
  fix s :: step_row
  show "step_row_of (step_row_columns s) = Inr s"
    by (simp add: step_row_of_def step_row_columns_def row_simps)
  show "fits_table (snd Step_table) (step_row_columns s) \<longleftrightarrow> storable_step s"
    by (simp add: step_row_columns_def Step_table_def storable_step_def row_simps)
qed

lemma aggregate_reads_back:
  "campaign_of_columns (campaign_row_columns r) steps = Inr (campaign_of_row r steps)"
  "step_of_columns (step_row_columns q) = Inr (step_of_row q)"
  by (simp_all add: campaign_of_columns_def campaign_row_columns_def campaign_of_row_def step_of_columns_def
      step_row_columns_def step_of_row_def row_simps)

lemma campaign_reads_back:
  "campaign_of_columns (campaign_row_columns (campaign_to_row c)) (c_steps c) = Inr c"
  "step_of_columns (step_row_columns (step_to_row c s)) = Inr s"
  by (simp_all add: aggregate_reads_back campaign_of_row_def campaign_to_row_def step_of_row_def step_to_row_def)

interpretation outbound_stored: stored_as "snd OutboundMessage_table" outbound_to_row outbound_of_row storable_outbound
proof
  fix m :: outbound_message
  show "outbound_of_row (outbound_to_row m) = Inr m"
    by (simp add: outbound_of_row_def outbound_to_row_def row_simps split: option.split)
  show "fits_table (snd OutboundMessage_table) (outbound_to_row m) \<longleftrightarrow> storable_outbound m"
    by (auto simp: outbound_to_row_def OutboundMessage_table_def storable_outbound_def row_simps split: option.splits)
qed

interpretation inbound_stored: stored_as "snd InboundMessage_table" inbound_to_row inbound_of_row storable_inbound
proof
  fix m :: inbound_message
  show "inbound_of_row (inbound_to_row m) = Inr m"
    by (simp add: inbound_of_row_def inbound_to_row_def row_simps split: option.split)
  show "fits_table (snd InboundMessage_table) (inbound_to_row m) \<longleftrightarrow> storable_inbound m"
    by (auto simp: inbound_to_row_def InboundMessage_table_def storable_inbound_def row_simps split: option.splits)
qed

interpretation mailboxes_stored: stored_as "snd Mailbox_table" mailbox_to_row mailbox_of_row storable_mailbox
proof
  fix m :: mailbox
  show "mailbox_of_row (mailbox_to_row m) = Inr m"
    by (simp add: mailbox_of_row_def mailbox_to_row_def row_simps split: option.split)
  show "fits_table (snd Mailbox_table) (mailbox_to_row m) \<longleftrightarrow> storable_mailbox m"
    by (auto simp: mailbox_to_row_def Mailbox_table_def storable_mailbox_def row_simps split: option.splits)
qed

interpretation workspaces_stored: stored_as "snd Workspace_table" workspace_to_row workspace_of_row storable_workspace
  by unfold_locales
    (simp_all add: workspace_of_row_def workspace_to_row_def Workspace_table_def storable_workspace_def row_simps)

interpretation keys_stored: stored_as "snd ApiKey_table" api_key_to_row api_key_of_row storable_key
proof
  fix k :: api_key
  show "api_key_of_row (api_key_to_row k) = Inr k"
    by (simp add: api_key_of_row_def api_key_to_row_def row_simps split: option.split)
  show "fits_table (snd ApiKey_table) (api_key_to_row k) \<longleftrightarrow> storable_key k"
    by (auto simp: api_key_to_row_def ApiKey_table_def storable_key_def row_simps split: option.splits)
qed

text \<open>
  An insert that the tables of \<open>Database\<close> accept stores a row that fits its columns: the widths they
  check are the ones that the conversions leave open.
\<close>

lemma inserted_lead_fits:
  assumes "insert_lead_row l w = (Inr (), w')" and "l_steps_sent l = 0" and "l_reply_intent l = None"
  shows "fits_table (snd Lead_table) (lead_to_row l)"
  using assms
  by (auto simp: leads_stored.fits storable_lead_def fits_int4_def insert_lead_row_def insert_row_def
      too_long_def split: if_splits option.splits)

lemma inserted_step_fits:
  assumes "insert_step_row s w = (Inr (), w')"
  shows "fits_table (snd Step_table) (step_row_columns s)"
  using assms
  by (auto simp: steps_stored.fits storable_step_def fits_int4_def insert_step_row_def insert_row_def
      not_int4_def split: if_splits option.splits)

lemma inserted_campaign_fits:
  assumes "insert_campaign_row c w = (Inr (), w')"
  shows "fits_table (snd Campaign_table) (campaign_row_columns c)"
  using assms
  by (auto simp: campaigns_stored.fits storable_campaign_def insert_campaign_row_def insert_row_def
      too_long_def split: if_splits option.splits)

end
