(* ===== verification/Queue_Sql.thy ===== *)
theory Queue_Sql
  imports Rows
begin

text \<open>
  The queue as PostgreSQL sees it: the JSON of a job's payload column, the row of a job, and the claim
  as the statement of \<open>send_job_repo.py\<close> runs it over columns. The step that \<open>Campaign_Repos\<close> takes
  over its records is what this statement does, the rows it returns read back as the claims.
\<close>

section \<open>The payload\<close>

text \<open>\<open>payload.model_dump(mode="json")\<close>.\<close>

definition payload_dump :: "send_job_payload \<Rightarrow> json" where
  "payload_dump p = JObj
     [(''job_version'', JInt (p_job_version p)), (''campaign_id'', JStr (uuid_str (p_campaign_id p))),
      (''lead_id'', JStr (uuid_str (p_lead_id p))), (''step_id'', JStr (uuid_str (p_step_id p))),
      (''step_position'', JInt (p_step_position p)), (''to_email'', JStr (p_to_email p)),
      (''subject'', JStr (p_subject p)), (''body'', JStr (p_body p))]"

text \<open>
  \<open>SendJobPayload.model_validate\<close>: which other values pydantic takes for a UUID or an integer is a
  parameter; the version is the literal 1, also when it is absent, and the texts are strings. Fields
  that the model does not name are ignored.
\<close>

record lax_readers =
  lax_uuid :: "json \<Rightarrow> exn + uuid"
  lax_int :: "json \<Rightarrow> exn + int"

definition strict_str :: "json \<Rightarrow> exn + string" where
  "strict_str j = (case j of JStr s \<Rightarrow> Inr s | _ \<Rightarrow> Inl wrong_type)"

definition literal_1 :: "json option \<Rightarrow> exn + int" where
  "literal_1 v = (case v of None \<Rightarrow> Inr 1 | Some j \<Rightarrow> if j = JInt 1 then Inr 1 else Inl wrong_type)"

definition payload_validate :: "lax_readers \<Rightarrow> json \<Rightarrow> exn + send_job_payload" where
  "payload_validate lax j = (case j of
       JObj kvs \<Rightarrow>
         sum_bind (literal_1 (map_of kvs ''job_version'')) (\<lambda>version.
         sum_bind (sum_bind (j_item j ''campaign_id'') (lax_uuid lax)) (\<lambda>c.
         sum_bind (sum_bind (j_item j ''lead_id'') (lax_uuid lax)) (\<lambda>l.
         sum_bind (sum_bind (j_item j ''step_id'') (lax_uuid lax)) (\<lambda>s.
         sum_bind (sum_bind (j_item j ''step_position'') (lax_int lax)) (\<lambda>k.
         sum_bind (sum_bind (j_item j ''to_email'') strict_str) (\<lambda>to_email.
         sum_bind (sum_bind (j_item j ''subject'') strict_str) (\<lambda>subject.
         sum_bind (sum_bind (j_item j ''body'') strict_str) (\<lambda>body.
           Inr \<lparr> p_job_version = version, p_campaign_id = c, p_lead_id = l, p_step_id = s,
                 p_step_position = k, p_to_email = to_email, p_subject = subject, p_body = body \<rparr>))))))))
     | _ \<Rightarrow> Inl wrong_type)"

text \<open>What a reader of UUIDs and integers does at least.\<close>

definition reads_own_text :: "lax_readers \<Rightarrow> bool" where
  "reads_own_text lax \<longleftrightarrow> (\<forall>u<2 ^ 128. lax_uuid lax (JStr (uuid_str u)) = Inr u) \<and> (\<forall>i. lax_int lax (JInt i) = Inr i)"

definition version_1 :: "send_job_payload \<Rightarrow> bool" where
  "version_1 p \<longleftrightarrow> p_job_version p = 1 \<and> p_campaign_id p < 2 ^ 128 \<and> p_lead_id p < 2 ^ 128 \<and> p_step_id p < 2 ^ 128"

lemma payload_reads_back:
  assumes "reads_own_text lax" and "version_1 p"
  shows "payload_validate lax (payload_dump p) = Inr p"
  using assms
  by (simp add: payload_validate_def payload_dump_def reads_own_text_def version_1_def literal_1_def strict_str_def)

text \<open>A reader that takes nothing but the texts of \<open>str(uuid)\<close> and integers.\<close>

definition strict_readers :: lax_readers where
  "strict_readers = \<lparr> lax_uuid = (\<lambda>j. case j of JStr s \<Rightarrow> UUID_parse s | _ \<Rightarrow> Inl wrong_type),
     lax_int = (\<lambda>j. case j of JInt i \<Rightarrow> Inr i | _ \<Rightarrow> Inl wrong_type) \<rparr>"

lemma strict_reads_own_text: "reads_own_text strict_readers"
  by (simp add: reads_own_text_def strict_readers_def UUID_parse_str)

section \<open>The row of a job\<close>

definition job_columns :: "send_job_row \<Rightarrow> sql_row" where
  "job_columns r =
     [(''id'', SqlUuid (jr_id r)), (''workspace_id'', SqlUuid (jr_workspace_id r)),
      (''mailbox_id'', SqlUuid (jr_mailbox_id r)), (''lead_id'', SqlUuid (jr_lead_id r)),
      (''step_id'', SqlUuid (jr_step_id r)), (''payload'', SqlJson (payload_dump (jr_payload r))),
      (''scheduled_at'', SqlTime (jr_scheduled_at r)), (''status'', SqlText (send_job_status_value (jr_status r))),
      (''attempts'', SqlInt (jr_attempts r)), (''locked_at'', nullable SqlTime (jr_locked_at r)),
      (''locked_by'', nullable SqlText (jr_locked_by r)), (''last_error'', nullable SqlText (jr_last_error r)),
      (''outbound_message_id'', nullable SqlUuid (jr_outbound_message_id r)),
      (''created_at'', SqlTime (jr_created_at r)), (''updated_at'', SqlTime (jr_updated_at r))]"

definition json_at :: "sql_row \<Rightarrow> string \<Rightarrow> exn + json" where
  "json_at r name = (case col r name of SqlJson j \<Rightarrow> Inr j | _ \<Rightarrow> Inl wrong_type)"

text \<open>\<open>_claimed\<close>.\<close>

definition claimed_of_columns :: "lax_readers \<Rightarrow> sql_row \<Rightarrow> exn + claimed_job" where
  "claimed_of_columns lax r =
     sum_bind (uuid_at r ''id'') (\<lambda>i.
     sum_bind (uuid_at r ''workspace_id'') (\<lambda>ws.
     sum_bind (uuid_at r ''mailbox_id'') (\<lambda>mb.
     sum_bind (uuid_at r ''lead_id'') (\<lambda>l.
     sum_bind (sum_bind (json_at r ''payload'') (payload_validate lax)) (\<lambda>p.
     sum_bind (int_at r ''attempts'') (\<lambda>n.
     sum_bind (time_at r ''scheduled_at'') (\<lambda>at.
       Inr \<lparr> cj_id = i, cj_workspace_id = ws, cj_mailbox_id = mb, cj_lead_id = l, cj_payload = p,
             cj_attempts = n, cj_scheduled_at = at \<rparr>)))))))"

definition storable_job :: "send_job_row \<Rightarrow> bool" where
  "storable_job r \<longleftrightarrow> fits_int4 (jr_attempts r) \<and> (\<forall>s. jr_locked_by r = Some s \<longrightarrow> length s \<le> 128)"

lemma job_status_fits [simp]: "length (send_job_status_value st) \<le> 16"
  by (cases st) simp_all

lemma job_status_value_eq [simp]: "send_job_status_value a = send_job_status_value b \<longleftrightarrow> a = b"
  by (cases a; cases b) simp_all

lemma job_fits_table: "fits_table (snd SendJob_table) (job_columns r) \<longleftrightarrow> storable_job r"
  by (auto simp: job_columns_def SendJob_table_def storable_job_def row_simps split: option.splits)

lemma columns_of_job [simp]:
  "col (job_columns r) ''id'' = SqlUuid (jr_id r)"
  "col (job_columns r) ''workspace_id'' = SqlUuid (jr_workspace_id r)"
  "col (job_columns r) ''mailbox_id'' = SqlUuid (jr_mailbox_id r)"
  "col (job_columns r) ''lead_id'' = SqlUuid (jr_lead_id r)"
  "col (job_columns r) ''payload'' = SqlJson (payload_dump (jr_payload r))"
  "col (job_columns r) ''scheduled_at'' = SqlTime (jr_scheduled_at r)"
  "col (job_columns r) ''status'' = SqlText (send_job_status_value (jr_status r))"
  "col (job_columns r) ''attempts'' = SqlInt (jr_attempts r)"
  "col (job_columns r) ''locked_at'' = nullable SqlTime (jr_locked_at r)"
  by (simp_all add: col_def job_columns_def)

text \<open>The columns of the claim's \<open>RETURNING\<close> clause, with the types that \<open>CLAIM_SQL\<close> reads them as.\<close>

definition CLAIM_COLUMNS :: "(string \<times> col_type) list" where
  "CLAIM_COLUMNS = [(''id'', UuidType), (''workspace_id'', UuidType), (''mailbox_id'', UuidType),
     (''lead_id'', UuidType), (''payload'', JsonbType), (''attempts'', IntegerType), (''scheduled_at'', TimestampTz)]"

definition returning :: "(string \<times> col_type) list \<Rightarrow> sql_row \<Rightarrow> sql_row" where
  "returning columns r = map (\<lambda>(n, t). (n, col r n)) columns"

lemma returned_columns [simp]:
  "n \<in> set (map fst CLAIM_COLUMNS) \<Longrightarrow> col (returning CLAIM_COLUMNS r) n = col r n"
  by (auto simp: returning_def CLAIM_COLUMNS_def col_def)

lemma returned_types:
  assumes "storable_job r"
  shows "list_all (\<lambda>(n, t). value_fits t (col (returning CLAIM_COLUMNS (job_columns r)) n)) CLAIM_COLUMNS"
  using assms by (simp add: CLAIM_COLUMNS_def returning_def storable_job_def col_def job_columns_def)

lemma claim_reads_back:
  assumes "reads_own_text lax" and "version_1 (jr_payload r)"
  shows "claimed_of_columns lax (returning CLAIM_COLUMNS (job_columns r)) = Inr (claimed_of_row r)"
  using payload_reads_back [OF assms]
  by (simp add: claimed_of_columns_def uuid_at_def int_at_def time_at_def json_at_def claimed_of_row_def CLAIM_COLUMNS_def
      returned_columns [unfolded CLAIM_COLUMNS_def])

lemma claims_read_back:
  assumes "reads_own_text lax" and "\<And>r. r \<in> set rs \<Longrightarrow> version_1 (jr_payload r)"
  shows "loads (claimed_of_columns lax) (map (returning CLAIM_COLUMNS \<circ> job_columns) rs) = Inr (map claimed_of_row rs)"
  using assms(2)
  by (induction rs) (simp_all add: loads_def claim_reads_back [OF assms(1)])

section \<open>The claim\<close>

text \<open>
  The values of columns in a \<open>WHERE\<close> clause: a comparison with \<open>NULL\<close> is not true. The rows that other
  transactions have locked are skipped before the limit counts.
\<close>

definition sql_le :: "sql_value \<Rightarrow> time \<Rightarrow> bool" where
  "sql_le v t \<longleftrightarrow> (case v of SqlTime u \<Rightarrow> u \<le> t | _ \<Rightarrow> False)"

definition sql_less :: "sql_value \<Rightarrow> time \<Rightarrow> bool" where
  "sql_less v t \<longleftrightarrow> (case v of SqlTime u \<Rightarrow> u < t | _ \<Rightarrow> False)"

definition order_time :: "sql_value \<Rightarrow> time" where
  "order_time v = (case v of SqlTime u \<Rightarrow> u | _ \<Rightarrow> 0)"

definition incremented :: "sql_value \<Rightarrow> sql_value" where
  "incremented v = (case v of SqlInt i \<Rightarrow> SqlInt (i + 1) | _ \<Rightarrow> SqlNull)"

definition set_columns :: "(string \<times> sql_value) list \<Rightarrow> sql_row \<Rightarrow> sql_row" where
  "set_columns vs r = map (\<lambda>(n, v). (n, case map_of vs n of None \<Rightarrow> v | Some x \<Rightarrow> x)) r"

definition claim_where :: "uuid \<Rightarrow> time \<Rightarrow> time \<Rightarrow> sql_row \<Rightarrow> bool" where
  "claim_where workspace_id moment lease_expired_before r \<longleftrightarrow>
     col r ''workspace_id'' = SqlUuid workspace_id \<and>
     (col r ''status'' = SqlText ''pending'' \<and> sql_le (col r ''scheduled_at'') moment \<or>
      col r ''status'' = SqlText ''running'' \<and> sql_less (col r ''locked_at'') lease_expired_before)"

definition claim_set :: "time \<Rightarrow> string \<Rightarrow> sql_row \<Rightarrow> sql_row" where
  "claim_set moment worker_id r = set_columns
     [(''status'', SqlText ''running''), (''locked_at'', SqlTime moment), (''locked_by'', SqlText worker_id),
      (''attempts'', incremented (col r ''attempts'')), (''updated_at'', SqlTime moment)] r"

text \<open>The statement: the rows it returns, and the table it leaves.\<close>

definition CLAIM_STATEMENT ::
  "uuid list \<Rightarrow> uuid \<Rightarrow> string \<Rightarrow> nat \<Rightarrow> time \<Rightarrow> time \<Rightarrow> sql_row list \<Rightarrow> sql_row list \<times> sql_row list" where
  "CLAIM_STATEMENT locked workspace_id worker_id lim moment lease_expired_before rows =
     (let ids = map (\<lambda>r. col r ''id'')
            (take lim (filter (\<lambda>r. col r ''id'' \<notin> SqlUuid ` set locked)
              (sort_key (\<lambda>r. order_time (col r ''scheduled_at''))
                (filter (claim_where workspace_id moment lease_expired_before) rows))))
      in (map (returning CLAIM_COLUMNS \<circ> claim_set moment worker_id) (filter (\<lambda>r. col r ''id'' \<in> set ids) rows),
          map (\<lambda>r. if col r ''id'' \<in> set ids then claim_set moment worker_id r else r) rows))"

lemma claim_where_job: "claim_where ws moment before (job_columns r) = claimable ws moment before r"
  by (cases "jr_status r")
    (simp_all add: claim_where_def claimable_def sql_le_def sql_less_def nullable_def split: option.split)

lemma claim_set_job: "claim_set moment wid (job_columns r) = job_columns (claimed_row moment wid r)"
  by (simp add: claim_set_def set_columns_def claimed_row_def incremented_def)
    (simp add: job_columns_def nullable_def)

lemma sort_key_map: "sort_key f (map g xs) = map g (sort_key (f \<circ> g) xs)"
proof -
  have "insort_key f (g x) (map g ys) = map g (insort_key (f \<circ> g) x ys)" for x ys
    by (induction ys) simp_all
  then show ?thesis by (induction xs) simp_all
qed

lemma claim_ids:
  "map (\<lambda>r. col r ''id'')
      (take lim (filter (\<lambda>r. col r ''id'' \<notin> SqlUuid ` set locked)
        (sort_key (\<lambda>r. order_time (col r ''scheduled_at''))
          (filter (claim_where ws moment before) (map job_columns rows)))))
    = map (SqlUuid \<circ> jr_id) (take lim (filter (\<lambda>r. jr_id r \<notin> set locked)
        (sort_key jr_scheduled_at (filter (claimable ws moment before) rows))))"
proof -
  have w: "claim_where ws moment before \<circ> job_columns = claimable ws moment before"
    by (simp add: fun_eq_iff claim_where_job)
  have k: "(\<lambda>r. order_time (col r ''scheduled_at'')) \<circ> job_columns = jr_scheduled_at"
    by (simp add: fun_eq_iff order_time_def)
  have l: "(\<lambda>r. col r ''id'' \<notin> SqlUuid ` set locked) \<circ> job_columns = (\<lambda>r. jr_id r \<notin> set locked)"
    by (auto simp: fun_eq_iff)
  show ?thesis by (simp only: filter_map sort_key_map w k l take_map map_map) (simp add: comp_def)
qed

lemma CLAIM_STATEMENT_jobs:
  fixes rows :: "send_job_row list" and locked :: "uuid list" and ws :: uuid and lim :: nat
    and moment :: time and before :: time
  defines "ids \<equiv> set (map jr_id (take lim (filter (\<lambda>r. jr_id r \<notin> set locked)
    (sort_key jr_scheduled_at (filter (claimable ws moment before) rows)))))"
  shows "CLAIM_STATEMENT locked ws wid lim moment before (map job_columns rows) =
    (map (returning CLAIM_COLUMNS \<circ> job_columns) (filter (\<lambda>r. jr_id r \<in> ids) (update_rows (\<lambda>r. jr_id r \<in> ids) (claimed_row moment wid) rows)),
     map job_columns (update_rows (\<lambda>r. jr_id r \<in> ids) (claimed_row moment wid) rows))"
proof -
  have mem: "SqlUuid i \<in> set (map (SqlUuid \<circ> jr_id) rs) \<longleftrightarrow> i \<in> set (map jr_id rs)" for i and rs :: "send_job_row list"
    by auto
  have returned: "filter (\<lambda>r. jr_id r \<in> I) (update_rows (\<lambda>r. jr_id r \<in> I) (claimed_row moment wid) rs)
      = map (claimed_row moment wid) (filter (\<lambda>r. jr_id r \<in> I) rs)" for I and rs :: "send_job_row list"
    by (induction rs) (simp_all add: update_rows_def claimed_row_def)
  have table: "map (\<lambda>r. if col r ''id'' \<in> J then claim_set moment wid r else r) (map job_columns rs)
      = map job_columns (update_rows (\<lambda>r. SqlUuid (jr_id r) \<in> J) (claimed_row moment wid) rs)" for J and rs :: "send_job_row list"
    by (induction rs) (simp_all add: update_rows_def claim_set_job)
  have got: "map (returning CLAIM_COLUMNS \<circ> claim_set moment wid) (filter (\<lambda>r. col r ''id'' \<in> J) (map job_columns rs))
      = map (returning CLAIM_COLUMNS \<circ> job_columns) (map (claimed_row moment wid) (filter (\<lambda>r. SqlUuid (jr_id r) \<in> J) rs))" for J and rs :: "send_job_row list"
    by (induction rs) (simp_all add: claim_set_job)
  show ?thesis
    by (simp only: CLAIM_STATEMENT_def Let_def claim_ids table got mem returned ids_def)
qed

text \<open>The claim of \<open>Campaign_Repos\<close> is this statement, over the rows that the session sees.\<close>

lemma jobs_claim_rows:
  fixes w :: world and ws :: uuid and lim :: nat and moment :: time and lease :: time
  defines "ids \<equiv> set (map jr_id (claim_rows w ws lim moment (moment - lease)))"
  shows "send_job_rows (snd (jobs_claim ws wid lim moment lease w))
      = update_rows (\<lambda>r. jr_id r \<in> ids) (claimed_row moment wid) (send_job_rows w)"
    and "fst (jobs_claim ws wid lim moment lease w) = Inr (sort_key cj_scheduled_at (map claimed_of_row
      (filter (\<lambda>r. jr_id r \<in> ids) (update_rows (\<lambda>r. jr_id r \<in> ids) (claimed_row moment wid) (send_job_rows w)))))"
proof -
  have rows: "filter (\<lambda>r. sees w (jr_workspace_id r))
      (update_rows (\<lambda>r. jr_id r \<in> I \<and> sees w (jr_workspace_id r)) (claimed_row moment wid) rs)
    = update_rows (\<lambda>r. jr_id r \<in> I) (claimed_row moment wid) (filter (\<lambda>r. sees w (jr_workspace_id r)) rs)" for I rs
    by (induction rs) (simp_all add: update_rows_def claimed_row_def)
  have sees: "sees (w\<lparr>db := d\<rparr>) = sees w" for d by (simp add: sees_def fun_eq_iff)
  show table: "send_job_rows (snd (jobs_claim ws wid lim moment lease w))
      = update_rows (\<lambda>r. jr_id r \<in> ids) (claimed_row moment wid) (send_job_rows w)"
    by (simp add: jobs_claim_def bindp_run thenp_run modify_db_def ids_def send_job_rows_def sees rows del: set_map)
  have "fst (jobs_claim ws wid lim moment lease w) = Inr (sort_key cj_scheduled_at (map claimed_of_row
      (filter (\<lambda>r. jr_id r \<in> ids) (send_job_rows (snd (jobs_claim ws wid lim moment lease w))))))"
    by (simp add: jobs_claim_def bindp_run thenp_run modify_db_def ids_def del: set_map)
  then show "fst (jobs_claim ws wid lim moment lease w) = Inr (sort_key cj_scheduled_at (map claimed_of_row
      (filter (\<lambda>r. jr_id r \<in> ids) (update_rows (\<lambda>r. jr_id r \<in> ids) (claimed_row moment wid) (send_job_rows w)))))"
    by (simp only: table)
qed

text \<open>The text columns of the other queries' clauses say what the members say.\<close>

lemma lead_state_column:
  "col (lead_to_row l) ''state'' = SqlText (lead_state_value st) \<longleftrightarrow> l_state l = st"
  by (cases "l_state l"; cases st) (simp_all add: col_def lead_to_row_def)

lemma job_status_column:
  "col (job_columns r) ''status'' = SqlText (send_job_status_value st) \<longleftrightarrow> jr_status r = st"
  by simp

end
