(* ===== verification/Date_Text.thy ===== *)
theory Date_Text
  imports Uuid_Text
begin

text \<open>
  What \<open>isoformat\<close> writes: in the range of \<open>datetime\<close> the year has four digits, the month, the day and
  the time of day two each, with their usual bounds.
\<close>

section \<open>Digits\<close>

primrec dec :: "nat \<Rightarrow> nat \<Rightarrow> string" where
  "dec 0 n = []"
| "dec (Suc k) n = dec k (n div 10) @ [char_of (48 + n mod 10)]"

lemma nat_str_small: "n < 10 \<Longrightarrow> nat_str n = [char_of (48 + n)]"
  by (subst nat_str.simps) simp

lemma nat_str_large: "10 \<le> n \<Longrightarrow> nat_str n = nat_str (n div 10) @ [char_of (48 + n mod 10)]"
  by (subst nat_str.simps) simp

lemma zeros_dec: "dec k 0 = replicate k (CHR ''0'')"
proof (induction k)
  case (Suc k)
  have "char_of (48 :: nat) = CHR ''0''" by (simp add: char_of_eq_iff)
  with Suc show ?case using replicate_append_same [of k "CHR ''0''"] by simp
qed simp

lemma padded_nat:
  assumes "n < 10 ^ Suc k"
  shows "replicate (Suc k - length (nat_str n)) (CHR ''0'') @ nat_str n = dec (Suc k) n
    \<and> length (nat_str n) \<le> Suc k"
  using assms
proof (induction k arbitrary: n)
  case 0
  then show ?case by (simp add: nat_str_small)
next
  case (Suc k)
  show ?case
  proof (cases "n < 10")
    case True
    then have "dec (Suc (Suc k)) n = replicate (Suc k) (CHR ''0'') @ [char_of (48 + n)]"
      using zeros_dec [of "Suc k"] by simp
    then show ?thesis using True by (simp add: nat_str_small)
  next
    case False
    then have "nat_str n = nat_str (n div 10) @ [char_of (48 + n mod 10)]" by (intro nat_str_large) simp
    moreover have "n div 10 < 10 ^ Suc k" using Suc.prems by (simp add: less_mult_imp_div_less)
    ultimately show ?thesis using Suc.IH [of "n div 10"] by (simp add: Suc_diff_le)
  qed
qed

lemma padded_dec: "0 \<le> i \<Longrightarrow> i < 10 ^ Suc k \<Longrightarrow> padded (Suc k) i = dec (Suc k) (nat i)"
proof -
  assume i: "0 \<le> i" "i < 10 ^ Suc k"
  then have "nat i < 10 ^ Suc k" by (simp add: nat_less_iff)
  with i(1) padded_nat [of "nat i" k] show ?thesis by (simp add: padded_def int_str_def Let_def del: dec.simps)
qed

lemma length_dec [simp]: "length (dec k n) = k"
  by (induction k arbitrary: n) simp_all

section \<open>The bounds of a date\<close>

lemma civil_bounds:
  assumes "-719162 \<le> days" and "days < 2932897" and "civil_date days = (y, m, d)"
  shows "0 \<le> y \<and> y \<le> 9999 \<and> 1 \<le> m \<and> m \<le> 12 \<and> 1 \<le> d \<and> d \<le> 31"
proof -
  define era doe where "era = (days + 719468) div 146097" and "doe = (days + 719468) mod 146097"
  define q1 q2 q3 where "q1 = doe div 1460" and "q2 = doe div 36524" and "q3 = doe div 146096"
  define yoe where "yoe = (doe - q1 + q2 - q3) div 365"
  define y1 y2 where "y1 = yoe div 4" and "y2 = yoe div 100"
  define doy where "doy = doe - (365 * yoe + y1 - y2)"
  define mp where "mp = (5 * doy + 2) div 153"
  define r where "r = (153 * mp + 2) div 5"
  have "civil_date days = (yoe + era * 400 + (if (if mp < 10 then mp + 3 else mp - 9) \<le> 2 then 1 else 0),
      if mp < 10 then mp + 3 else mp - 9, doy - r + 1)"
    by (simp only: civil_date_def Let_def era_def doe_def q1_def q2_def q3_def yoe_def y1_def y2_def doy_def mp_def r_def)
  with assms(3) have v: "y = yoe + era * 400 + (if (if mp < 10 then mp + 3 else mp - 9) \<le> 2 then 1 else 0)"
      "m = (if mp < 10 then mp + 3 else mp - 9)" "d = doy - r + 1"
    by auto
  have split: "days + 719468 = 146097 * era + doe" unfolding era_def doe_def by simp
  have doe: "0 \<le> doe" "doe < 146097" unfolding doe_def by simp_all
  have b: "1460 * q1 \<le> doe" "doe < 1460 * q1 + 1460" "36524 * q2 \<le> doe" "doe < 36524 * q2 + 36524"
    "146096 * q3 \<le> doe" "doe < 146096 * q3 + 146096"
    unfolding q1_def q2_def q3_def by linarith+
  have yb: "365 * yoe \<le> doe - q1 + q2 - q3" "doe - q1 + q2 - q3 < 365 * yoe + 365"
    unfolding yoe_def by linarith+
  have ys: "4 * y1 \<le> yoe" "yoe < 4 * y1 + 4" "100 * y2 \<le> yoe" "yoe < 100 * y2 + 100"
    unfolding y1_def y2_def by linarith+
  have mpb: "153 * mp \<le> 5 * doy + 2" "5 * doy + 2 < 153 * mp + 153" unfolding mp_def by linarith+
  have rb: "5 * r \<le> 153 * mp + 2" "153 * mp + 2 < 5 * r + 5" unfolding r_def by linarith+
  have era: "0 \<le> era" "era \<le> 24" using split doe assms(1,2) by linarith+
  have "yoe \<le> 399"
  proof (cases "doe < 146096")
    case True
    then have "q2 \<le> 3" "0 \<le> q3" using b doe by linarith+
    then show ?thesis using True b(1,2) yb(1) by linarith
  next
    case False
    then have "q2 \<le> 4" "1 \<le> q3" using b doe by linarith+
    then show ?thesis using doe b(1,2) yb(1) by linarith
  qed
  moreover have "0 \<le> yoe" using b yb doe by linarith
  ultimately have yoe: "0 \<le> yoe" "yoe \<le> 399" by simp_all
  have doy: "- 60 \<le> doy" "doy \<le> 390" using b yb ys doe unfolding doy_def by linarith+
  have mp: "- 2 \<le> mp" "mp \<le> 12" using mpb doy by linarith+
  have m: "1 \<le> m" "m \<le> 12" using mp unfolding v(2) by auto
  have d: "1 \<le> d" "d \<le> 31" using mpb rb unfolding v(3) by linarith+
  have "0 \<le> y" using yoe era unfolding v(1) by simp
  moreover have "y \<le> 9999"
  proof (cases "era = 24 \<and> yoe = 399")
    case True
    then have "doe < 146037" using split assms(2) by linarith
    moreover have "y1 = 99" "y2 = 3" using True ys by linarith+
    moreover have q: "q2 \<le> 3" "0 \<le> q3" using \<open>doe < 146037\<close> b doe by linarith+
    moreover have "99 \<le> q1" using True q yb(1) b(1,2) by linarith
    ultimately have "0 \<le> doy" "doy < 306" using True yb(1) unfolding doy_def by linarith+
    then have "0 \<le> mp" "mp < 10" using mpb by linarith+
    then show ?thesis using True mp unfolding v(1) by auto
  next
    case False
    then show ?thesis using yoe era unfolding v(1) by auto
  qed
  ultimately show ?thesis using m d by blast
qed

section \<open>The text\<close>

definition in_datetime_range :: "time \<Rightarrow> bool" where
  "in_datetime_range t \<longleftrightarrow> -62135596800000000 \<le> t \<and> t < 253402300800000000"

lemma isoformat_dec:
  assumes "in_datetime_range t"
  obtains y m d h mi s f where "y < 10000" "1 \<le> m" "m \<le> 12" "1 \<le> d" "d \<le> 31"
    "h \<le> 23" "mi \<le> 59" "s \<le> 59" "f < 1000000"
    "isoformat t = dec 4 y @ ''-'' @ dec 2 m @ ''-'' @ dec 2 d @ ''T'' @ dec 2 h @ '':'' @ dec 2 mi @ '':''
       @ dec 2 s @ (if f = 0 then [] else ''.'' @ dec 6 f) @ ''+00:00''"
proof -
  have day: "one_day = 86400000000" by (simp add: one_day_def seconds_def)
  define days us where "days = t div one_day" and "us = t mod one_day"
  define secs frac where "secs = us div 1000000" and "frac = us mod 1000000"
  obtain y m d where date: "civil_date days = (y, m, d)" by (cases "civil_date days")
  have "t = one_day * days + us" "0 \<le> us" "us < 86400000000" unfolding days_def us_def day by simp_all
  then have "-719162 \<le> days" "days < 2932897" using assms unfolding in_datetime_range_def day by linarith+
  from civil_bounds [OF this date]
  have b: "0 \<le> y" "y < 10 ^ Suc 3" "0 \<le> m" "m < 10 ^ Suc 1" "0 \<le> d" "d < 10 ^ Suc 1"
    "1 \<le> m" "m \<le> 12" "1 \<le> d" "d \<le> 31" by simp_all
  have secs: "0 \<le> secs" "secs < 86400" using \<open>0 \<le> us\<close> \<open>us < 86400000000\<close> unfolding secs_def by linarith+
  then have c: "0 \<le> secs div 3600" "secs div 3600 < 24" by linarith+
  have e: "0 \<le> secs div 60 mod 60" "secs div 60 mod 60 < 60" "0 \<le> secs mod 60" "secs mod 60 < 60"
    "0 \<le> frac" "frac < 1000000" unfolding frac_def by simp_all
  have p2: "padded 2 i = dec 2 (nat i)" if "0 \<le> i" "i < 100" for i
    using padded_dec [of i 1] that by (simp add: numeral_2_eq_2 del: dec.simps)
  have p4: "padded 4 y = dec 4 (nat y)" using padded_dec [OF b(1,2)] by (simp add: eval_nat_numeral del: dec.simps)
  have p6: "padded 6 frac = dec 6 (nat frac)"
    using padded_dec [of frac 5] e(5,6) by (simp add: eval_nat_numeral del: dec.simps)
  have two: "padded 2 m = dec 2 (nat m)" "padded 2 d = dec 2 (nat d)" "padded 2 (secs div 3600) = dec 2 (nat (secs div 3600))"
    "padded 2 (secs div 60 mod 60) = dec 2 (nat (secs div 60 mod 60))" "padded 2 (secs mod 60) = dec 2 (nat (secs mod 60))"
    using b c e by (auto intro!: p2)
  have iso: "isoformat t = dec 4 (nat y) @ ''-'' @ dec 2 (nat m) @ ''-'' @ dec 2 (nat d) @ ''T''
      @ dec 2 (nat (secs div 3600)) @ '':'' @ dec 2 (nat (secs div 60 mod 60)) @ '':'' @ dec 2 (nat (secs mod 60))
      @ (if nat frac = 0 then [] else ''.'' @ dec 6 (nat frac)) @ ''+00:00''"
    using e(5) unfolding isoformat_def Let_def days_def [symmetric] us_def [symmetric] date prod.case
      secs_def [symmetric] frac_def [symmetric] two p4 p6
    by auto
  show ?thesis
    by (rule that [OF _ _ _ _ _ _ _ _ _ iso]) (use b c e in auto)
qed

end
