(* ===== verification/Contracts.thy ===== *)
theory Contracts
  imports Queue_Sql Gmail_Ports Consistency Date_Text
begin

text \<open>
  The contracts under \<open>contracts\<close>: the JSON schemas of the events in the outbox and of the payload of a
  send job, which senders and consumers in other languages rely on. Everything that the program writes
  meets its contract, and the campaign context understands everything that meets the contract of a
  classified reply, in either version.
\<close>

section \<open>The schemas\<close>

text \<open>
  What the contracts use of JSON Schema: an object with the keys that it must have, no others than the
  ones that have a schema, and for each of these a constant, a string (of a format, or one of a list),
  or an integer with a minimum.
\<close>

datatype value_schema =
    ConstValue json | AnyString | UuidString | DateTimeString | OneOf "string list" | IntegerFrom int

record contract =
  ct_required :: "string list"
  ct_properties :: "(string \<times> value_schema) list"

definition is_digit :: "char \<Rightarrow> bool" where
  "is_digit c \<longleftrightarrow> c \<in> set ''0123456789''"

text \<open>The format \<open>uuid\<close>: groups of 8, 4, 4, 4 and 12 hexadecimal digits.\<close>

definition uuid_shaped :: "string \<Rightarrow> bool" where
  "uuid_shaped s \<longleftrightarrow> (let h = filter (\<lambda>c. c \<noteq> CHR ''-'') s
     in s = dashed h \<and> length h = 32 \<and> list_all (\<lambda>c. hex_value c \<noteq> None) h)"

text \<open>
  The format \<open>date-time\<close> of RFC 3339: its grammar, with the ranges of the fields. In a pattern the
  letter \<open>d\<close> stands for a digit.
\<close>

definition shape_char :: "char \<Rightarrow> char \<Rightarrow> bool" where
  "shape_char p c \<longleftrightarrow> (if p = CHR ''d'' then is_digit c else c = p)"

definition field_of :: "string \<Rightarrow> nat \<Rightarrow> nat \<Rightarrow> nat" where
  "field_of s i n = foldl (\<lambda>a c. 10 * a + (of_char c - 48)) 0 (take n (drop i s))"

definition fraction_dropped :: "string \<Rightarrow> string" where
  "fraction_dropped s = (case s of
       c # d # cs \<Rightarrow> if c = CHR ''.'' \<and> is_digit d then dropWhile is_digit cs else s
     | _ \<Rightarrow> s)"

definition offset_shaped :: "string \<Rightarrow> bool" where
  "offset_shaped s \<longleftrightarrow> s = ''Z'' \<or>
     (list_all2 shape_char ''+dd:dd'' s \<or> list_all2 shape_char ''-dd:dd'' s)
       \<and> field_of s 1 2 \<le> 23 \<and> field_of s 4 2 \<le> 59"

definition date_time_shaped :: "string \<Rightarrow> bool" where
  "date_time_shaped s \<longleftrightarrow> list_all2 shape_char ''dddd-dd-ddTdd:dd:dd'' (take 19 s)
     \<and> 1 \<le> field_of s 5 2 \<and> field_of s 5 2 \<le> 12 \<and> 1 \<le> field_of s 8 2 \<and> field_of s 8 2 \<le> 31
     \<and> field_of s 11 2 \<le> 23 \<and> field_of s 14 2 \<le> 59 \<and> field_of s 17 2 \<le> 60
     \<and> offset_shaped (fraction_dropped (drop 19 s))"

fun meets :: "value_schema \<Rightarrow> json \<Rightarrow> bool" where
  "meets (ConstValue c) j = (j = c)"
| "meets AnyString (JStr s) = True"
| "meets UuidString (JStr s) = uuid_shaped s"
| "meets DateTimeString (JStr s) = date_time_shaped s"
| "meets (OneOf ss) (JStr s) = (s \<in> set ss)"
| "meets (IntegerFrom n) (JInt i) = (n \<le> i)"
| "meets _ _ = False"

definition conforms :: "contract \<Rightarrow> json \<Rightarrow> bool" where
  "conforms c j \<longleftrightarrow> (case j of
       JObj kvs \<Rightarrow> list_all (\<lambda>k. map_of kvs k \<noteq> None) (ct_required c)
         \<and> list_all (\<lambda>(k, v). case map_of (ct_properties c) k of None \<Rightarrow> False | Some s \<Rightarrow> meets s v) kvs
     | _ \<Rightarrow> False)"

section \<open>The contracts\<close>

definition send_job_v1 :: contract where
  "send_job_v1 = \<lparr>
     ct_required = [''job_version'', ''campaign_id'', ''lead_id'', ''step_id'', ''step_position'',
       ''to_email'', ''subject'', ''body''],
     ct_properties = [(''job_version'', ConstValue (JInt 1)), (''campaign_id'', UuidString),
       (''lead_id'', UuidString), (''step_id'', UuidString), (''step_position'', IntegerFrom 1),
       (''to_email'', AnyString), (''subject'', AnyString), (''body'', AnyString)] \<rparr>"

definition inbound_received_v1 :: contract where
  "inbound_received_v1 = \<lparr>
     ct_required = [''event_type'', ''workspace_id'', ''mailbox_id'', ''inbound_id'',
       ''provider_message_id'', ''provider_thread_id'', ''from_email'', ''subject'', ''received_at''],
     ct_properties = [(''event_type'', ConstValue (JStr ''InboundReceived'')), (''workspace_id'', UuidString),
       (''mailbox_id'', UuidString), (''inbound_id'', UuidString), (''provider_message_id'', AnyString),
       (''provider_thread_id'', AnyString), (''from_email'', AnyString), (''subject'', AnyString),
       (''received_at'', DateTimeString)] \<rparr>"

definition reply_matched_v1 :: contract where
  "reply_matched_v1 = \<lparr>
     ct_required = [''event_type'', ''workspace_id'', ''inbound_id'', ''matched_outbound_id'', ''provider_thread_id''],
     ct_properties = [(''event_type'', ConstValue (JStr ''ReplyMatched'')), (''workspace_id'', UuidString),
       (''inbound_id'', UuidString), (''matched_outbound_id'', UuidString), (''provider_thread_id'', AnyString)] \<rparr>"

definition reply_classified_v1 :: contract where
  "reply_classified_v1 = \<lparr>
     ct_required = [''event_type'', ''workspace_id'', ''inbound_id'', ''intent''],
     ct_properties = [(''event_type'', ConstValue (JStr ''ReplyClassified'')), (''workspace_id'', UuidString),
       (''inbound_id'', UuidString),
       (''intent'', OneOf [''positive'', ''negative'', ''ooo'', ''unsubscribe'', ''unclear''])] \<rparr>"

definition reply_classified_v2 :: contract where
  "reply_classified_v2 = \<lparr>
     ct_required = [''event_type'', ''event_version'', ''workspace_id'', ''inbound_id'', ''matched_outbound_id'', ''intent''],
     ct_properties = [(''event_type'', ConstValue (JStr ''ReplyClassified'')), (''event_version'', ConstValue (JInt 2)),
       (''workspace_id'', UuidString), (''inbound_id'', UuidString), (''matched_outbound_id'', UuidString),
       (''intent'', OneOf [''positive'', ''negative'', ''ooo'', ''unsubscribe'', ''unclear'', ''bounce''])] \<rparr>"

text \<open>The contract of an event of the outbox, by its type: the version that is written.\<close>

definition contract_for :: "string \<Rightarrow> contract option" where
  "contract_for event_type = map_of [(''InboundReceived'', inbound_received_v1),
     (''ReplyMatched'', reply_matched_v1), (''ReplyClassified'', reply_classified_v2)] event_type"

section \<open>What the program writes in the formats\<close>

lemma uuid_str_shaped [simp]: "uuid_shaped (uuid_str u)"
proof -
  have "c \<noteq> CHR ''-''" if "c \<in> set (uuid_hex u)" for c using hex_digits_all [OF that] no_hex_value by auto
  from undashed [OF this] have "filter (\<lambda>c. c \<noteq> CHR ''-'') (uuid_str u) = uuid_hex u" by (simp add: uuid_str_dashed)
  moreover have "list_all (\<lambda>c. hex_value c \<noteq> None) (uuid_hex u)" using hex_digits_all by (auto simp: list_all_iff)
  moreover have "length (uuid_hex u) = 32" by (simp add: uuid_hex_def)
  ultimately show ?thesis by (simp add: uuid_shaped_def Let_def uuid_str_dashed)
qed

lemma shaped_uuid_parses:
  assumes "uuid_shaped s"
  shows "\<exists>u. UUID_parse s = Inr u"
proof -
  define h where "h = filter (\<lambda>c. c \<noteq> CHR ''-'') s"
  have h: "s = dashed h" "length h = 32" "\<And>c. c \<in> set h \<Longrightarrow> hex_value c \<noteq> None"
    using assms by (auto simp: uuid_shaped_def h_def [symmetric] Let_def list_all_iff)
  then have "h \<noteq> []" by auto
  from hex_start_digits [OF h(3) this] UUID_parse_dashed [OF h(3,2)] show ?thesis by (auto simp: h(1))
qed

lemma uuid_shaped_nonempty: "uuid_shaped s \<Longrightarrow> s \<noteq> []"
  by (auto simp: uuid_shaped_def dashed_def Let_def)

lemma digit_char: "k < 10 \<Longrightarrow> is_digit (char_of (48 + k :: nat))"
proof -
  assume "k < 10"
  then have "k \<in> set [0..<10]" by simp
  moreover have "\<forall>k\<in>set [0..<10]. is_digit (char_of (48 + k :: nat))" by code_simp
  ultimately show ?thesis by blast
qed

lemma digit_value: "k < 10 \<Longrightarrow> of_char (char_of (48 + k :: nat)) = 48 + k"
  by simp

lemma shape_digit: "k < 10 \<Longrightarrow> shape_char (CHR ''d'') (char_of (48 + k :: nat))"
  by (simp add: shape_char_def digit_char)

lemma dec_2: "n < 100 \<Longrightarrow> dec 2 n = [char_of (48 + n div 10), char_of (48 + n mod 10)]"
proof -
  assume "n < 100"
  then have "n div 10 < 10" by simp
  then show ?thesis by (simp add: numeral_2_eq_2)
qed

lemma dec_digits: "list_all is_digit (dec k n)"
  by (induction k arbitrary: n) (simp_all add: digit_char)

lemma four_chars: "length s = 4 \<Longrightarrow> \<exists>a b c d. s = [a, b, c, d]"
  by (auto simp: numeral_eq_Suc length_Suc_conv)

lemma dec_4: "\<exists>a b c d. dec 4 n = [a, b, c, d] \<and> is_digit a \<and> is_digit b \<and> is_digit c \<and> is_digit d"
proof -
  obtain a b c d where "dec 4 n = [a, b, c, d]" using four_chars [OF length_dec] by blast
  with dec_digits [of 4 n] show ?thesis by simp
qed

lemma dec_6: "\<exists>c cs. dec 6 n = c # cs \<and> is_digit c \<and> list_all is_digit cs"
proof (cases "dec 6 n")
  case Nil
  then show ?thesis using length_dec [of 6 n] by simp
next
  case (Cons c cs)
  with dec_digits [of 6 n] show ?thesis by simp
qed

lemma fraction_offset:
  "fraction_dropped ((if f = 0 then [] else ''.'' @ dec 6 f) @ ''+00:00'') = ''+00:00''"
proof -
  obtain c cs where "dec 6 f = c # cs" "is_digit c" "list_all is_digit cs" using dec_6 by blast
  moreover have "dropWhile is_digit (cs @ ''+00:00'') = ''+00:00''" if "list_all is_digit cs" for cs
    using that by (induction cs) (simp_all add: is_digit_def)
  ultimately show ?thesis by (simp add: fraction_dropped_def)
qed

lemma isoformat_shaped:
  assumes "in_datetime_range t"
  shows "date_time_shaped (isoformat t)"
  using assms
proof (rule isoformat_dec)
  fix y m d h mi s f :: nat
  assume b: "y < 10000" "1 \<le> m" "m \<le> 12" "1 \<le> d" "d \<le> 31" "h \<le> 23" "mi \<le> 59" "s \<le> 59" "f < 1000000"
  assume iso: "isoformat t = dec 4 y @ ''-'' @ dec 2 m @ ''-'' @ dec 2 d @ ''T'' @ dec 2 h @ '':'' @ dec 2 mi @ '':''
       @ dec 2 s @ (if f = 0 then [] else ''.'' @ dec 6 f) @ ''+00:00''"
  define rest where "rest = (if f = 0 then [] else ''.'' @ dec 6 f) @ ''+00:00''"
  have rest: "offset_shaped (fraction_dropped rest)"
    unfolding rest_def fraction_offset by code_simp
  obtain y1 y2 y3 y4 where year: "dec 4 y = [y1, y2, y3, y4]" "is_digit y1" "is_digit y2" "is_digit y3" "is_digit y4"
    using dec_4 by blast
  have two: "dec 2 n = [char_of (48 + n div 10), char_of (48 + n mod 10)]" "n div 10 < 10" "10 * (n div 10) + n mod 10 = n"
    if "n < 60" for n using that dec_2 [of n] by simp_all
  have low: "m < 60" "d < 60" "h < 60" "mi < 60" "s < 60" using b by simp_all
  show ?thesis
    unfolding date_time_shaped_def iso rest_def [symmetric] year(1) two(1) [OF low(1)] two(1) [OF low(2)]
      two(1) [OF low(3)] two(1) [OF low(4)] two(1) [OF low(5)]
    using b rest two(2) [OF low(1)] two(2) [OF low(2)] two(2) [OF low(3)] two(2) [OF low(4)] two(2) [OF low(5)]
    by (simp add: field_of_def shape_digit year(2-) shape_char_def [of _ y1] shape_char_def [of _ y2]
        shape_char_def [of _ y3] shape_char_def [of _ y4] shape_char_def [of "CHR ''-''"]
        shape_char_def [of "CHR ''T''"] shape_char_def [of "CHR '':''"])
qed

section \<open>The payload of a job\<close>

lemma payload_conforms:
  "conforms send_job_v1 (payload_dump p) \<longleftrightarrow> p_job_version p = 1 \<and> 1 \<le> p_step_position p"
  by (simp add: conforms_def send_job_v1_def payload_dump_def)

lemma planned_job_conforms:
  assumes "consistent w" and "r \<in> set (t_send_jobs (db w))"
  shows "conforms send_job_v1 (payload_dump (jr_payload r))"
proof -
  have "plan_ok (camps w) (next_uuid w) (t_leads (db w)) (t_send_jobs (db w))"
    using assms(1) by (simp add: consistent_def)
  from plan_okD(9) [OF this assms(2)] obtain l where "job_fits (camps w) l r" by blast
  then obtain c where k: "1 \<le> pos r" and pay: "jr_payload r = payload_of c l (c_steps c ! nat (pos r - 1))"
    by (auto simp: job_fits_def)
  have "p_job_version (jr_payload r) = 1" unfolding pay by (simp add: payload_of_def)
  moreover have "1 \<le> p_step_position (jr_payload r)" using k by (simp only: pos_def)
  ultimately show ?thesis unfolding payload_conforms by blast
qed

section \<open>The events of a poll\<close>

definition event_conforms :: "outbox_event \<Rightarrow> bool" where
  "event_conforms e \<longleftrightarrow>
     (case contract_for (oe_event_type e) of None \<Rightarrow> False | Some c \<Rightarrow> conforms c (oe_payload e))"

definition outbox_conforms :: "world \<Rightarrow> bool" where
  "outbox_conforms w \<longleftrightarrow> list_all event_conforms (t_outbox (db w))"

lemma outbox_conforms_simps [simp]:
  "outbox_conforms (w\<lparr>reads := n\<rparr>) = outbox_conforms w"
  "outbox_conforms (w\<lparr>next_uuid := n\<rparr>) = outbox_conforms w"
  "outbox_conforms (w\<lparr>db := (db w)\<lparr>t_inbound := b\<rparr>\<rparr>) = outbox_conforms w"
  "outbox_conforms (w\<lparr>db := (db w)\<lparr>t_suppressions := c\<rparr>\<rparr>) = outbox_conforms w"
  "outbox_conforms (w\<lparr>db := (db w)\<lparr>t_mailboxes := d\<rparr>\<rparr>) = outbox_conforms w"
  by (simp_all add: outbox_conforms_def)

lemma intent_listed: "intent_value i \<in> set [''positive'', ''negative'', ''ooo'', ''unsubscribe'', ''unclear'', ''bounce'']"
  by (cases i) simp_all

text \<open>The body that \<open>record\<close> stores.\<close>

definition event_body :: "string \<Rightarrow> (string \<times> py_value) list \<Rightarrow> json" where
  "event_body event_type payload = json_safe (VDict (AList.update ''event_type'' (VStr event_type) payload))"

lemma received_conforms:
  "in_datetime_range (im_received_at m) \<Longrightarrow> conforms inbound_received_v1 (event_body ''InboundReceived'' (received_payload mb m))"
  by (simp add: conforms_def inbound_received_v1_def event_body_def received_payload_def isoformat_shaped)

lemma matched_conforms: "conforms reply_matched_v1 (event_body ''ReplyMatched'' (matched_payload mb m om))"
  by (simp add: conforms_def reply_matched_v1_def event_body_def matched_payload_def)

lemma classified_conforms:
  "conforms reply_classified_v2 (event_body ''ReplyClassified'' (classified_payload mb m om i))"
  using intent_listed [of i]
  by (simp add: conforms_def reply_classified_v2_def event_body_def classified_payload_def REPLY_CLASSIFIED_VERSION_def)

lemma keeps_record_conforming:
  assumes "contract_for event_type = Some c" and "conforms c (event_body event_type payload)"
  shows "keeps outbox_conforms (outbox_record event_type ws i payload)"
  unfolding outbox_record_def
  by (intro keep_intros keeps_insert_row)
    (use assms in \<open>simp_all add: outbox_conforms_def event_conforms_def event_body_def\<close>)

lemma keeps_conforming_update: "keeps outbox_conforms (inbound_update x)"
  by (auto simp: keeps_def inbound_update_def bindp_run modify_db_def)

lemma keeps_conforming_suppress: "keeps outbox_conforms (suppressions_add s)"
  by (auto simp: keeps_def suppressions_add_def split: option.splits)

lemma keeps_conforming_classify: "keeps outbox_conforms (classify_reply classify mb f msg matched)"
  unfolding classify_reply_def Suppression_new_def Let_def
  by (intro keep_intros keeps_conforming_update keeps_conforming_suppress
      keeps_record_conforming [OF _ matched_conforms] keeps_record_conforming [OF _ classified_conforms])
    (simp_all add: contract_for_def)

lemma keeps_conforming_poll_one:
  assumes "in_datetime_range (fm_received_at f)"
  shows "keeps outbox_conforms (poll_one classify mb f st)"
proof (rule keeps_poll_one)
  fix m :: inbound_message
  show "keeps outbox_conforms (inbound_add m)"
    unfolding inbound_add_def by (intro keeps_insert_row) simp
  assume "im_received_at m = fm_received_at f"
  then show "keeps outbox_conforms (outbox_record ''InboundReceived'' (mv_workspace_id mb) (im_id m) (received_payload mb m))"
    using assms by (intro keeps_record_conforming [OF _ received_conforms]) (simp_all add: contract_for_def)
qed (simp_all add: keeps_conforming_classify outbox_conforms_def)

text \<open>The contract of a receiver that dates its messages with datetimes.\<close>

locale dated_receiver = email_receiver receive for receive :: receiver +
  assumes dated: "receive mailbox_email cursor w = Inr res \<Longrightarrow> m \<in> set (fr_messages res)
    \<Longrightarrow> in_datetime_range (fm_received_at m)"
begin

lemma poll_conforms: "outbox_conforms w \<Longrightarrow> outbox_conforms (snd (poll_inbox receive classify mb w))"
  by (rule poll_inbox_preserves [where I = outbox_conforms])
    (auto intro!: keeps_conforming_poll_one keeps_advance dest: dated)

end

interpretation gmail_dates: dated_receiver "gmail_receiver parseaddr utf8 creds states"
proof
  fix mailbox_email cursor w res m
  assume "gmail_receiver parseaddr utf8 creds states mailbox_email cursor w = Inr res" "m \<in> set (fr_messages res)"
  then obtain g' where "fetch_new parseaddr utf8 creds mailbox_email cursor (states w) = Some (Inr res, g')"
    by (auto simp: gmail_receiver_def split: option.splits)
  from fetched_messages [OF this \<open>m \<in> set (fr_messages res)\<close>]
  obtain data where "parse_message parseaddr utf8 data = Inr m" by (auto simp: arrived_def)
  then obtain ms where "fromtimestamp_ms ms = Inr (fm_received_at m)" by (rule parse_message_time)
  then show "in_datetime_range (fm_received_at m)"
    by (auto simp: fromtimestamp_ms_def in_datetime_range_def Let_def split: if_splits)
qed

section \<open>The consumer of classified replies\<close>

lemma conforming_property:
  assumes "conforms c j" and "k \<in> set (ct_required c)" and "map_of (ct_properties c) k = Some s"
  shows "\<exists>v kvs. j = JObj kvs \<and> map_of kvs k = Some v \<and> meets s v"
proof -
  from assms(1) obtain kvs where j: "j = JObj kvs" by (cases j) (simp_all add: conforms_def)
  with assms(1,2) obtain v where v: "map_of kvs k = Some v" by (auto simp: conforms_def list_all_iff)
  then have "(k, v) \<in> set kvs" by (rule map_of_SomeD)
  with assms(1,3) j have "meets s v" by (auto simp: conforms_def list_all_iff)
  with j v show ?thesis by blast
qed

lemma conforming_absent:
  assumes "conforms c (JObj kvs)" and "map_of (ct_properties c) k = None"
  shows "map_of kvs k = None"
proof (rule ccontr)
  assume "map_of kvs k \<noteq> None"
  then obtain v where "(k, v) \<in> set kvs" by (auto dest: map_of_SomeD)
  with assms show False by (auto simp: conforms_def list_all_iff)
qed

lemma meets_cases:
  "meets UuidString v \<longleftrightarrow> (\<exists>s. v = JStr s \<and> uuid_shaped s)"
  "meets (OneOf ss) v \<longleftrightarrow> (\<exists>s\<in>set ss. v = JStr s)"
  "meets (ConstValue c) v \<longleftrightarrow> v = c"
  by (cases v; auto)+

lemma listed_intent:
  "\<forall>t\<in>set [''positive'', ''negative'', ''ooo'', ''unsubscribe'', ''unclear'', ''bounce'']. \<exists>i. t = intent_value i"
proof -
  have "\<forall>t\<in>set [''positive'', ''negative'', ''ooo'', ''unsubscribe'', ''unclear'', ''bounce'']. \<exists>i\<in>set Enum.enum. t = intent_value i"
    by (simp add: enum_intent_def)
  then show ?thesis by blast
qed

text \<open>Everything that meets a version of the contract is read as a reply with a known intent.\<close>

lemma v2_is_read:
  assumes "conforms reply_classified_v2 (oe_payload e)"
  shows "\<exists>u i. to_reply e = Inr \<lparr> cl_event_id = oe_id e, cl_workspace_id = oe_workspace_id e,
      cl_matched_outbound_id = Some u, cl_intent = intent_value i \<rparr>
    \<and> j_item (oe_payload e) ''intent'' = Inr (JStr (intent_value i))
    \<and> (\<exists>s. j_item (oe_payload e) ''matched_outbound_id'' = Inr (JStr s) \<and> UUID_parse s = Inr u)"
proof -
  note at_key = conforming_property [OF assms]
  obtain kvs where p: "oe_payload e = JObj kvs" "map_of kvs ''event_version'' = Some (JInt 2)"
    using at_key [of "''event_version''" "ConstValue (JInt 2)"]
    by (auto simp: reply_classified_v2_def meets_cases)
  obtain s where m: "map_of kvs ''matched_outbound_id'' = Some (JStr s)" "uuid_shaped s"
    using at_key [of "''matched_outbound_id''" UuidString] p(1)
    by (auto simp: reply_classified_v2_def meets_cases)
  obtain u where u: "UUID_parse s = Inr u" using shaped_uuid_parses [OF m(2)] by blast
  let ?all = "[''positive'', ''negative'', ''ooo'', ''unsubscribe'', ''unclear'', ''bounce'']"
  have key: "''intent'' \<in> set (ct_required reply_classified_v2)"
    "map_of (ct_properties reply_classified_v2) ''intent'' = Some (OneOf ?all)"
    by (simp_all add: reply_classified_v2_def)
  obtain v where "map_of kvs ''intent'' = Some v" "meets (OneOf ?all) v"
    using at_key [OF key] unfolding p(1) json.inject by blast
  then obtain t where t: "map_of kvs ''intent'' = Some (JStr t)" "t \<in> set ?all"
    unfolding meets_cases by blast
  have "\<exists>i. t = intent_value i" using listed_intent t(2) by blast
  then obtain i where "t = intent_value i" by blast
  with t(1) p m u uuid_shaped_nonempty [OF m(2)] show ?thesis
    by (auto simp: to_reply_def at_least_two_def uuid_or_none_def py_str_def)
qed

lemma v1_is_read:
  assumes "conforms reply_classified_v1 (oe_payload e)"
  shows "\<exists>i. i \<noteq> BOUNCE \<and> to_reply e = Inr \<lparr> cl_event_id = oe_id e, cl_workspace_id = oe_workspace_id e,
      cl_matched_outbound_id = None, cl_intent = intent_value i \<rparr>
    \<and> j_item (oe_payload e) ''intent'' = Inr (JStr (intent_value i))"
proof -
  obtain kvs t where t: "oe_payload e = JObj kvs" "map_of kvs ''intent'' = Some (JStr t)"
      "t \<in> set [''positive'', ''negative'', ''ooo'', ''unsubscribe'', ''unclear'']"
    using conforming_property [OF assms, of "''intent''" "OneOf [''positive'', ''negative'', ''ooo'', ''unsubscribe'', ''unclear'']"]
    by (auto simp: reply_classified_v1_def meets_cases)
  have v: "map_of kvs ''event_version'' = None"
    using conforming_absent [of reply_classified_v1 kvs "''event_version''"] assms t(1) by (simp add: reply_classified_v1_def)
  have "\<exists>i. i \<noteq> BOUNCE \<and> t = intent_value i"
    using t(3) by auto
  then obtain i where "i \<noteq> BOUNCE" "t = intent_value i" by blast
  with t(1,2) v show ?thesis
    by (auto simp: to_reply_def at_least_two_def uuid_or_none_def py_str_def)
qed

end
