(* ===== verification/Engine.thy ===== *)
theory Engine
  imports Config
begin

text \<open>
  The engine of a process (\<open>shared/infrastructure/db/engine.py\<close>): one for all sessions, made at the
  first use, and disposed of at the end by every entry point (\<open>dispose_engine\<close> in the \<open>finally\<close> of
  the worker, the scripts and the lifespan of the API). SQLAlchemy's \<open>make_url\<close> and what disposing of a
  pool may raise are parameters. Sessions see nothing of it, so the world of \<open>Database\<close> leaves it out.
\<close>

text \<open>What \<open>create_async_engine\<close> is given; the number tells the engines of a process apart.\<close>

record engine =
  en_number :: nat
  en_url :: db_url
  en_echo :: bool
  en_pool_pre_ping :: bool
  en_connect_args :: "(string \<times> string) list"

text \<open>
  The variables of the module, a session factory being the engine that it is bound to; how many engines
  were made, and which were disposed of.
\<close>

record engine_module =
  eg_engine :: "engine option"
  eg_session_factory :: "engine option"
  eg_made :: nat
  eg_disposed :: "nat list"

type_synonym 'a engine_act = "(engine_module, exn, 'a) proc"

definition create_async_engine :: "db_url \<Rightarrow> bool \<Rightarrow> bool \<Rightarrow> (string \<times> string) list \<Rightarrow> engine engine_act" where
  "create_async_engine url echo pre_ping connect_args =
     bindp (gets eg_made) (\<lambda>n.
     thenp (modify (\<lambda>g. g\<lparr>eg_made := Suc n\<rparr>))
       (ret \<lparr> en_number = n, en_url = url, en_echo = echo, en_pool_pre_ping = pre_ping,
              en_connect_args = connect_args \<rparr>))"

definition make_engine :: "(string \<Rightarrow> exn + db_url) \<Rightarrow> settings \<Rightarrow> engine engine_act" where
  "make_engine make_url s =
     bindp (lift (make_url (database_url s))) (\<lambda>parsed.
       case asyncpg_url_and_connect_args parsed of (url, connect_args) \<Rightarrow>
         create_async_engine url (app_env_setting s = LOCAL_ENV) True connect_args)"

definition get_engine :: "(string \<Rightarrow> exn + db_url) \<Rightarrow> settings \<Rightarrow> engine engine_act" where
  "get_engine make_url s =
     bindp (gets eg_engine) (\<lambda>current.
       case current of
         None \<Rightarrow> bindp (make_engine make_url s) (\<lambda>e. thenp (modify (\<lambda>g. g\<lparr>eg_engine := Some e\<rparr>)) (ret e))
       | Some e \<Rightarrow> ret e)"

definition get_session_factory :: "(string \<Rightarrow> exn + db_url) \<Rightarrow> settings \<Rightarrow> engine engine_act" where
  "get_session_factory make_url s =
     bindp (gets eg_session_factory) (\<lambda>current.
       case current of
         None \<Rightarrow> bindp (get_engine make_url s) (\<lambda>e.
                   thenp (modify (\<lambda>g. g\<lparr>eg_session_factory := Some e\<rparr>)) (ret e))
       | Some e \<Rightarrow> ret e)"

definition dispose :: "(engine \<Rightarrow> exn option) \<Rightarrow> engine \<Rightarrow> unit engine_act" where
  "dispose closing e = (case closing e of
       Some err \<Rightarrow> lift (Inl err)
     | None \<Rightarrow> modify (\<lambda>g. g\<lparr>eg_disposed := eg_disposed g @ [en_number e]\<rparr>))"

definition dispose_engine :: "(engine \<Rightarrow> exn option) \<Rightarrow> unit engine_act" where
  "dispose_engine closing =
     bindp (gets eg_engine) (\<lambda>current.
     thenp (case current of None \<Rightarrow> ret () | Some e \<Rightarrow> dispose closing e)
       (modify (\<lambda>g. g\<lparr>eg_engine := None, eg_session_factory := None\<rparr>)))"

section \<open>The life of an engine\<close>

datatype engine_call = GetEngine | GetSessionFactory | DisposeEngine

definition loaded_module :: engine_module where
  "loaded_module = \<lparr> eg_engine = None, eg_session_factory = None, eg_made = 0, eg_disposed = [] \<rparr>"

fun after_call ::
  "(string \<Rightarrow> exn + db_url) \<Rightarrow> settings \<Rightarrow> (engine \<Rightarrow> exn option) \<Rightarrow> engine_call \<Rightarrow> engine_module \<Rightarrow> engine_module" where
  "after_call make_url s closing GetEngine g = snd (get_engine make_url s g)"
| "after_call make_url s closing GetSessionFactory g = snd (get_session_factory make_url s g)"
| "after_call make_url s closing DisposeEngine g = snd (dispose_engine closing g)"

text \<open>The module after any calls, in any order, each of which may raise.\<close>

definition after_calls ::
  "(string \<Rightarrow> exn + db_url) \<Rightarrow> settings \<Rightarrow> (engine \<Rightarrow> exn option) \<Rightarrow> engine_call list \<Rightarrow> engine_module" where
  "after_calls make_url s closing calls = fold (after_call make_url s closing) calls loaded_module"

definition live_engines :: "engine_module \<Rightarrow> nat list" where
  "live_engines g = (case eg_engine g of None \<Rightarrow> [] | Some e \<Rightarrow> [en_number e])"

definition well_set_up :: "settings \<Rightarrow> engine \<Rightarrow> bool" where
  "well_set_up s e \<longleftrightarrow> en_pool_pre_ping e \<and> (en_echo e \<longleftrightarrow> app_env_setting s = LOCAL_ENV)
     \<and> set (map fst (du_query (en_url e))) \<inter> set LIBPQ_ONLY_QUERY = {}"

definition engine_ok :: "settings \<Rightarrow> engine_module \<Rightarrow> bool" where
  "engine_ok s g \<longleftrightarrow> eg_disposed g @ live_engines g = [0..<eg_made g]
     \<and> (\<forall>e. eg_session_factory g = Some e \<longrightarrow> eg_engine g = Some e)
     \<and> (\<forall>e. eg_engine g = Some e \<longrightarrow> well_set_up s e)"

lemma make_engine_run:
  "make_engine make_url s g = (case make_url (database_url s) of Inl err \<Rightarrow> (Inl err, g)
    | Inr parsed \<Rightarrow> (case asyncpg_url_and_connect_args parsed of (url, connect_args) \<Rightarrow>
        (Inr \<lparr> en_number = eg_made g, en_url = url, en_echo = (app_env_setting s = LOCAL_ENV),
           en_pool_pre_ping = True, en_connect_args = connect_args \<rparr>, g\<lparr>eg_made := Suc (eg_made g)\<rparr>)))"
  by (simp add: make_engine_def create_async_engine_def bindp_run thenp_run lift_def gets_def modify_def ret_def
      split: sum.split prod.split)

lemma without_libpq:
  "asyncpg_url_and_connect_args parsed = (url, connect_args) \<Longrightarrow> (k, v) \<in> set (du_query url) \<Longrightarrow> k \<notin> set LIBPQ_ONLY_QUERY"
  using libpq_parameters_gone [of parsed] by (auto dest: arg_cong [of _ _ fst])

lemma made_engine:
  assumes "make_engine make_url s g = (Inr e, g')"
  shows "well_set_up s e" "en_number e = eg_made g" "g' = g\<lparr>eg_made := Suc (eg_made g)\<rparr>"
  using assms
  by (auto simp: make_engine_run well_set_up_def dest: without_libpq split: sum.splits prod.splits)

lemma get_engine_ok:
  assumes "engine_ok s g" and "get_engine make_url s g = (r, g')"
  shows "engine_ok s g'" and "r = Inr e \<Longrightarrow> eg_engine g' = Some e" and "eg_session_factory g' = eg_session_factory g"
proof -
  have "engine_ok s g' \<and> (\<forall>e. r = Inr e \<longrightarrow> eg_engine g' = Some e) \<and> eg_session_factory g' = eg_session_factory g"
  proof (cases "eg_engine g")
    case None
    show ?thesis
    proof (cases "make_engine make_url s g")
      case (Pair made g1)
      show ?thesis
      proof (cases made)
        case (Inl err)
        then show ?thesis using assms None Pair
          by (auto simp: get_engine_def bindp_run make_engine_run split: sum.splits prod.splits)
      next
        case (Inr e)
        note m = made_engine [OF Pair [unfolded Inr]]
        have "(r, g') = (Inr e, g1\<lparr>eg_engine := Some e\<rparr>)"
          using assms(2) None Pair Inr by (simp add: get_engine_def bindp_run thenp_run modify_def ret_def)
        then show ?thesis using assms(1) m None by (auto simp: engine_ok_def live_engines_def)
      qed
    qed
  next
    case (Some e)
    then show ?thesis using assms by (auto simp: get_engine_def bindp_run)
  qed
  then show "engine_ok s g'" "r = Inr e \<Longrightarrow> eg_engine g' = Some e" "eg_session_factory g' = eg_session_factory g" by blast+
qed

lemma get_session_factory_ok:
  assumes "engine_ok s g" and "get_session_factory make_url s g = (r, g')"
  shows "engine_ok s g'" and "r = Inr e \<Longrightarrow> eg_session_factory g' = Some e \<and> eg_engine g' = Some e"
proof -
  have "engine_ok s g' \<and> (\<forall>e. r = Inr e \<longrightarrow> eg_session_factory g' = Some e \<and> eg_engine g' = Some e)"
  proof (cases "eg_session_factory g")
    case None
    obtain r1 g1 where run: "get_engine make_url s g = (r1, g1)" by (cases "get_engine make_url s g")
    note ok = get_engine_ok [OF assms(1) run]
    show ?thesis
    proof (cases r1)
      case (Inl err)
      then show ?thesis using assms(2) run None ok(1) by (auto simp: get_session_factory_def bindp_run)
    next
      case (Inr e)
      have "(r, g') = (Inr e, g1\<lparr>eg_session_factory := Some e\<rparr>)"
        using assms(2) run None Inr by (simp add: get_session_factory_def bindp_run thenp_run modify_def ret_def)
      then show ?thesis using ok(1) ok(2) [OF Inr] by (auto simp: engine_ok_def live_engines_def)
    qed
  next
    case (Some e)
    then show ?thesis using assms by (auto simp: get_session_factory_def bindp_run engine_ok_def)
  qed
  then show "engine_ok s g'" "r = Inr e \<Longrightarrow> eg_session_factory g' = Some e \<and> eg_engine g' = Some e" by blast+
qed

lemma dispose_engine_ok:
  assumes "engine_ok s g" and "dispose_engine closing g = (r, g')"
  shows "engine_ok s g'" and "r = Inr u \<Longrightarrow> eg_disposed g' = [0..<eg_made g'] \<and> eg_engine g' = None \<and> eg_session_factory g' = None"
  using assms
  by (auto simp: dispose_engine_def dispose_def bindp_run thenp_run modify_def lift_def engine_ok_def live_engines_def
      split: option.splits)

lemma after_call_ok: "engine_ok s g \<Longrightarrow> engine_ok s (after_call make_url s closing c g)"
  using get_engine_ok(1) [of s g make_url] get_session_factory_ok(1) [of s g make_url] dispose_engine_ok(1) [of s g closing]
  by (cases c) (metis after_call.simps prod.collapse)+

text \<open>Every engine is disposed of at most once, all but the live one are, and sessions use the live one.\<close>

theorem engines_are_accounted_for: "engine_ok s (after_calls make_url s closing calls)"
proof -
  have "engine_ok s g \<Longrightarrow> engine_ok s (fold (after_call make_url s closing) calls g)" for g
    by (induction calls arbitrary: g) (simp_all add: after_call_ok)
  moreover have "engine_ok s loaded_module" by (simp add: engine_ok_def loaded_module_def live_engines_def)
  ultimately show ?thesis by (simp add: after_calls_def)
qed

theorem engines_are_disposed:
  assumes "dispose_engine closing (after_calls make_url s closing calls) = (Inr u, g)"
  shows "eg_disposed g = [0..<eg_made g]"
  using dispose_engine_ok(2) [OF engines_are_accounted_for assms] by simp

end
