(* ===== verification/Wiring.thy ===== *)
theory Wiring
  imports Contracts System_Laws Engine
begin

text \<open>
  The process put together: the credentials of the settings, the Gmail adapters behind the ports of the
  handlers, the classifier that the settings ask for. For this process the contracts of the events hold
  in every round of the worker.
\<close>

section \<open>The adapters of a process\<close>

definition credentials_of :: "settings \<Rightarrow> google_credentials" where
  "credentials_of s = \<lparr> gc_client_id = google_client_id s, gc_client_secret = google_client_secret s,
     gc_refresh_token = google_refresh_token s \<rparr>"

text \<open>\<open>gmail_email_dispatch\<close>, and \<open>send_email_handler\<close> of the messaging routes; \<open>states\<close> is the
  adapter's state at each call.\<close>

definition gmail_email_dispatch ::
  "(mail \<Rightarrow> exn + byte list) \<Rightarrow> settings \<Rightarrow> (nat \<Rightarrow> gmail) \<Rightarrow> dispatcher" where
  "gmail_email_dispatch mime s states = email_dispatch (gmail_sender mime (credentials_of s) states)"

definition send_email_handler ::
  "(mail \<Rightarrow> exn + byte list) \<Rightarrow> settings \<Rightarrow> (nat \<Rightarrow> gmail) \<Rightarrow> send_email_command \<Rightarrow> uuid \<Rightarrow> outbound_message act" where
  "send_email_handler mime s states = send_email (gmail_sender mime (credentials_of s) states)"

text \<open>\<open>_run\<close> and \<open>main\<close> of the worker with the clients they make.\<close>

definition gmail_worker ::
  "(string \<Rightarrow> string \<times> string) \<Rightarrow> (byte list \<Rightarrow> string) \<Rightarrow> (mail \<Rightarrow> exn + byte list) \<Rightarrow> http_client
   \<Rightarrow> nat \<Rightarrow> settings \<Rightarrow> (world \<Rightarrow> gmail) \<Rightarrow> (nat \<Rightarrow> gmail) \<Rightarrow> string \<Rightarrow> nat \<Rightarrow> unit act" where
  "gmail_worker parseaddr utf8 mime client n s received sending host pid =
     worker_main n s (gmail_receiver parseaddr utf8 (credentials_of s) received)
       (build_intent_classifier s client) (gmail_sender mime (credentials_of s) sending) host pid"

interpretation gmail_dispatch: dispatch_port "gmail_email_dispatch mime s states"
  unfolding gmail_email_dispatch_def by (rule messaging.dispatch_port_axioms)

section \<open>The contracts in a running worker\<close>

named_theorems conform_intros

lemma outbox_conforms_cong: "t_outbox (db v) = t_outbox (db w) \<Longrightarrow> outbox_conforms v = outbox_conforms w"
  by (simp add: outbox_conforms_def)

lemma conform_statements [conform_intros]:
  "keeps outbox_conforms now" "keeps outbox_conforms uuid7" "keeps outbox_conforms (emit ms)"
  "keeps outbox_conforms (print_line y)" "keeps outbox_conforms (feed_acknowledge reply t)"
  "keeps outbox_conforms (lock_try_acquire m)" "keeps outbox_conforms (make_message_id d)"
  "keeps outbox_conforms (send_mail sender ml)"
  by (auto simp: keeps_def outbox_conforms_def emit_def print_line_def feed_acknowledge_def
      lock_try_acquire_run make_message_id_run send_mail_run split: option.splits)

lemma conform_table [conform_intros]:
  "(\<And>w. t_outbox (f w (db w)) = t_outbox (db w)) \<Longrightarrow> keeps outbox_conforms (modify_db f)"
  "(\<And>d. t_outbox (ins d) = t_outbox d) \<Longrightarrow> keeps outbox_conforms (insert_row checks ins)"
  by (auto simp: outbox_conforms_def intro!: keeps_modify_db keeps_insert_row)

lemma conform_session [conform_intros]:
  assumes "keeps outbox_conforms m"
  shows "keeps outbox_conforms (session_for_workspace ws m)"
proof (rule keepsI)
  fix w :: world assume w: "outbox_conforms w"
  obtain r v where run: "m (w\<lparr>guc := Some ws, own := []\<rparr>) = (r, v)" by fastforce
  have "outbox_conforms v" by (rule keepsD_run [OF assms _ run]) (use w in \<open>simp add: outbox_conforms_def\<close>)
  with run w show "outbox_conforms (snd (session_for_workspace ws m w))"
    by (cases r) (simp_all add: session_for_workspace_def session_def outbox_conforms_def)
qed

lemma conform_replies: "keeps outbox_conforms (worker_dispatch_replies ws)"
proof -
  have "keeps outbox_conforms (stop_lead reply t)" for reply t
  proof (rule keepsI)
    fix w :: world assume "outbox_conforms w"
    then show "outbox_conforms (snd (stop_lead reply t w))"
      by (cases rule: stop_lead_cases [of reply t w]) (simp_all add: outbox_conforms_def)
  qed
  then show ?thesis
    unfolding worker_dispatch_replies_def record_stopped_leads_def run_replies_def handle_replies_def
      handle_reply_def feed_claim_def
    by (intro keep_intros conform_intros)
qed

lemma conform_settle: "keeps outbox_conforms (settle claim t c l res)"
  unfolding settle_def leads_update_many_def update_lead_def leads_get_def jobs_add_many_def insert_send_job_row_def
    record_sent_def job_def SendJob_new_def jobs_complete_def jobs_release_def jobs_retry_later_def jobs_fail_def
    jobs_cancel_def jobs_reschedule_def jobs_set_def
  by (cases res; simp only: dispatch_result.case; intro keep_intros conform_intros) simp_all

lemma conform_dispatch: "keeps outbox_conforms (email_dispatch sender ws t s b)"
proof -
  have err: "keeps outbox_conforms (on_send_error e)" for e
    by (cases e) (auto simp: keeps_def on_send_error_def bindp_run)
  show ?thesis
    unfolding email_dispatch_def send_email_def gateway_get_by_workspace_def
      mailboxes_get_by_workspace_def suppressions_is_suppressed_def outbound_count_sent_since_def
      OutboundMessage_new_def outbound_add_def outbound_mark_sent_def
    by (intro keep_intros conform_intros keeps_savepoint err) (simp_all add: outbox_conforms_def)
qed

lemma conform_drain: "keeps outbox_conforms (worker_drain_send_jobs ws sender k)"
proof -
  have "keeps outbox_conforms (process_claimed (email_dispatch sender) j t)" for j t
    unfolding process_claimed_def campaigns_get_def leads_get_def jobs_cancel_def jobs_set_def
    by (intro keep_intros conform_intros conform_dispatch conform_settle) simp_all
  then show ?thesis
    unfolding worker_drain_send_jobs_def worker_process_job_def record_send_job_outcome_def
      claim_due_send_jobs_def jobs_claim_def
    by (intro keep_intros conform_intros) simp_all
qed

context dated_receiver begin

lemma conform_poll: "keeps outbox_conforms (worker_poll_inbox ws receive classify)"
proof -
  have "keeps outbox_conforms (poll_inbox receive classify m)" for m
    by (rule keepsI) (rule poll_conforms)
  then show ?thesis
    unfolding worker_poll_inbox_def gateway_get_by_workspace_def mailboxes_get_by_workspace_def
    by (intro keep_intros conform_intros)
qed

lemma conform_main: "keeps outbox_conforms (worker_main n s receive classify sender host pid)"
proof -
  have tick: "keeps outbox_conforms (worker_tick s receive classify sender k)" for k
    unfolding worker_tick_def logged_def Let_def
    by (intro keep_intros conform_intros conform_poll conform_replies conform_drain)
  have "keeps outbox_conforms (worker_loop n s receive classify sender k idle)" for k idle
    by (induction n arbitrary: idle) (auto intro!: keep_intros conform_intros tick)
  then show ?thesis
    unfolding worker_main_def worker_run_def by (intro keep_intros conform_intros)
qed

end

lemma gmail_worker_conforms:
  "keeps outbox_conforms (gmail_worker parseaddr utf8 mime client n s received sending host pid)"
  unfolding gmail_worker_def by (rule gmail_dates.conform_main)

end
