(* ===== verification/Row_Laws.thy ===== *)
theory Row_Laws
  imports Wiring
begin

text \<open>
  The rows that the running program stores fit the columns that the migrations build. The inserts of
  \<open>Database\<close> and the repositories check a width where a value comes from outside; that nothing else is
  ever too wide is the invariant of this theory, kept by every step of the system. \<open>yields I Q m\<close> says
  of a program that keeps \<open>I\<close> that its result has the property \<open>Q\<close>.
\<close>

section \<open>Results with a property\<close>

definition yields :: "('w \<Rightarrow> bool) \<Rightarrow> ('a \<Rightarrow> bool) \<Rightarrow> ('w, 'e, 'a) proc \<Rightarrow> bool" where
  "yields I Q m \<longleftrightarrow> (\<forall>w. I w \<longrightarrow> I (snd (m w)) \<and> (\<forall>x. fst (m w) = Inr x \<longrightarrow> Q x))"

named_theorems yield_intros

lemma yields_keeps: "keeps I m \<Longrightarrow> yields I (\<lambda>_. True) m"
  by (simp add: yields_def keeps_def)

lemma keepsI_yields: "yields I Q m \<Longrightarrow> keeps I m"
  by (simp add: yields_def keeps_def)

lemma yields_simple [yield_intros]:
  "Q x \<Longrightarrow> yields I Q (ret x)" "yields I Q (raise e)"
  "(\<And>y. r = Inr y \<Longrightarrow> Q y) \<Longrightarrow> yields I Q (lift r)"
  "(\<And>w. I w \<Longrightarrow> Q (f w)) \<Longrightarrow> yields I Q (gets f)"
  by (simp_all add: yields_def)

lemma yields_bindp:
  assumes "yields I Q m" and "\<And>x. Q x \<Longrightarrow> yields I R (k x)"
  shows "yields I R (bindp m k)"
  unfolding yields_def
proof (intro allI impI)
  fix w assume "I w"
  obtain r w' where mw: "m w = (r, w')" by fastforce
  with assms(1) \<open>I w\<close> have I': "I w'" and Q: "\<And>x. r = Inr x \<Longrightarrow> Q x" by (auto simp: yields_def)
  show "I (snd (bindp m k w)) \<and> (\<forall>x. fst (bindp m k w) = Inr x \<longrightarrow> R x)"
  proof (cases r)
    case (Inl e)
    with mw I' show ?thesis by simp
  next
    case (Inr x)
    with mw I' show ?thesis using assms(2) [OF Q [OF Inr]] by (simp add: yields_def)
  qed
qed

lemma keeps_yields_bindp: "yields I Q m \<Longrightarrow> (\<And>x. Q x \<Longrightarrow> keeps I (k x)) \<Longrightarrow> keeps I (bindp m k)"
  using yields_bindp [of I Q m "\<lambda>_. True" k] yields_keeps keepsI_yields by blast

lemma yields_thenp [yield_intros]: "keeps I m \<Longrightarrow> yields I Q k \<Longrightarrow> yields I Q (thenp m k)"
  unfolding thenp_def by (rule yields_bindp [OF yields_keeps])

lemma yields_cases [yield_intros]:
  "(b \<Longrightarrow> yields I Q m) \<Longrightarrow> (\<not> b \<Longrightarrow> yields I Q m') \<Longrightarrow> yields I Q (if b then m else m')"
  "(y = None \<Longrightarrow> yields I Q m) \<Longrightarrow> (\<And>x. y = Some x \<Longrightarrow> yields I Q (f x))
    \<Longrightarrow> yields I Q (case y of None \<Rightarrow> m | Some x \<Rightarrow> f x)"
  by (auto split: option.split)

lemma keeps_forp_set: "(\<And>x. x \<in> set xs \<Longrightarrow> keeps I (f x)) \<Longrightarrow> keeps I (forp f xs)"
  by (induction xs) (auto intro!: keep_intros)

lemma yields_mapp:
  assumes "\<And>x. x \<in> set xs \<Longrightarrow> yields I Q (f x)"
  shows "yields I (\<lambda>ys. \<forall>y\<in>set ys. Q y) (mapp f xs)"
  using assms
proof (induction xs)
  case Nil
  then show ?case by (simp add: yields_def)
next
  case (Cons x xs)
  have "yields I (\<lambda>ys. \<forall>y\<in>set ys. Q y) (bindp (f x) (\<lambda>y. bindp (mapp f xs) (\<lambda>ys. ret (y # ys))))"
    by (rule yields_bindp [OF Cons.prems], simp, rule yields_bindp [OF Cons.IH], rule Cons.prems, simp)
      (rule yields_simple(1), simp)
  then show ?case by simp
qed

section \<open>The invariant\<close>

definition short_intent :: "lead \<Rightarrow> bool" where
  "short_intent l \<longleftrightarrow> (\<forall>s. l_reply_intent l = Some s \<longrightarrow> length s \<le> 16)"

definition event_readable :: "outbox_event \<Rightarrow> bool" where
  "event_readable e \<longleftrightarrow> length (oe_event_type e) \<le> 64 \<and>
     (oe_event_type e = REPLY_CLASSIFIED \<longrightarrow> (\<forall>reply. to_reply e = Inr reply \<longrightarrow> length (cl_intent reply) \<le> 16))"

definition db_fits :: "world \<Rightarrow> bool" where
  "db_fits w \<longleftrightarrow>
     list_all storable_campaign (t_campaigns (db w)) \<and> list_all storable_step (t_steps (db w))
     \<and> list_all storable_outbound (t_outbound (db w)) \<and> list_all storable_inbound (t_inbound (db w))
     \<and> list_all storable_mailbox (t_mailboxes (db w))
     \<and> list_all (\<lambda>l. length (l_email l) \<le> 320 \<and> short_intent l) (t_leads (db w))
     \<and> list_all event_readable (t_outbox (db w))"

lemma db_fits_cong: "db v = db w \<Longrightarrow> db_fits v = db_fits w"
  by (simp add: db_fits_def)

lemma db_fits_lead: "db_fits w \<Longrightarrow> l \<in> set (t_leads (db w)) \<Longrightarrow> short_intent l"
  by (simp add: db_fits_def list_all_iff)

named_theorems fit_intros

lemma fit_statements [fit_intros]:
  "keeps db_fits now" "keeps db_fits uuid7" "keeps db_fits (emit ms)"
  "keeps db_fits (print_line y)" "keeps db_fits (lock_try_acquire m)" "keeps db_fits (make_message_id d)"
  "keeps db_fits (send_mail sender ml)" "keeps db_fits (feed_acknowledge reply t)" "keeps db_fits (suppressions_add s)"
  by (auto simp: keeps_def db_fits_def emit_def print_line_def feed_acknowledge_def suppressions_add_def
      lock_try_acquire_run make_message_id_run send_mail_run split: option.splits)

lemma fit_session [fit_intros]:
  assumes "keeps db_fits m"
  shows "keeps db_fits (session_for_workspace ws m)"
proof (rule keepsI)
  fix w :: world assume w: "db_fits w"
  obtain r v where run: "m (w\<lparr>guc := Some ws, own := []\<rparr>) = (r, v)" by fastforce
  have "db_fits v" by (rule keepsD_run [OF assms _ run]) (use w in \<open>simp add: db_fits_def\<close>)
  with run w show "db_fits (snd (session_for_workspace ws m w))"
    by (cases r) (simp_all add: session_for_workspace_def session_def db_fits_def)
qed

lemma fit_jobs [fit_intros]:
  "keeps db_fits (jobs_add_many js)" "keeps db_fits (jobs_set i t f)" "keeps db_fits (jobs_claim ws k n t lease)"
  "keeps db_fits (jobs_cancel_pending_for_lead i t)"
  unfolding jobs_add_many_def insert_send_job_row_def jobs_set_def jobs_claim_def jobs_cancel_pending_for_lead_def
  by (intro keep_intros keeps_modify_db keeps_insert_row; simp add: db_fits_def)+

section \<open>The statements\<close>

lemma fit_insert:
  assumes "\<And>w. first_some (checks w) = None \<Longrightarrow> db_fits w \<Longrightarrow> db_fits (w\<lparr>db := ins (db w)\<rparr>)"
  shows "keeps db_fits (insert_row checks ins)"
  using assms by (auto simp: keeps_def insert_row_def split: option.split)

lemma fit_campaigns_add [fit_intros]: "keeps db_fits (campaigns_add c)"
  unfolding campaigns_add_def insert_campaign_row_def insert_step_row_def
  by (intro keep_intros fit_insert)
    (auto simp: db_fits_def storable_campaign_def storable_step_def fits_int4_def not_int4_def violated_def
      simp del: first_some.simps split: if_splits)

lemma fit_update_status [fit_intros]: "keeps db_fits (campaigns_update_status c)"
proof -
  have "list_all storable_campaign (update_rows P (\<lambda>r. r\<lparr>cr_status := st\<rparr>) rs)"
    if "list_all storable_campaign rs" for P st rs
    using that by (auto simp: list_all_iff set_update_rows storable_campaign_def)
  then show ?thesis
    unfolding campaigns_update_status_def by (intro keep_intros keeps_modify_db) (simp add: db_fits_def)
qed

lemma fit_lead_insert: "short_intent l \<Longrightarrow> keeps db_fits (insert_lead_row l)"
  unfolding insert_lead_row_def by (intro fit_insert) (simp add: db_fits_def del: first_some.simps)

lemma fit_overwrite:
  "short_intent l \<Longrightarrow> list_all (\<lambda>l. length (l_email l) \<le> 320 \<and> short_intent l) rs
    \<Longrightarrow> list_all (\<lambda>l. length (l_email l) \<le> 320 \<and> short_intent l) (update_rows P (overwrite l) rs)"
  by (auto simp: list_all_iff set_update_rows short_intent_def)

lemma fit_update_lead: "short_intent l \<Longrightarrow> keeps db_fits (update_lead l)"
  unfolding update_lead_def leads_get_def
  by (intro keep_intros keeps_modify_db) (simp add: db_fits_def fit_overwrite)

lemma fit_update_many: "(\<And>l. l \<in> set ls \<Longrightarrow> short_intent l) \<Longrightarrow> keeps db_fits (leads_update_many ls)"
  unfolding leads_update_many_def by (intro keeps_forp_set fit_update_lead)

lemma fit_outbound_add:
  assumes "om_provider_message_id m = None" and "om_provider_thread_id m = None"
  shows "keeps db_fits (outbound_add m)"
  unfolding outbound_add_def
  by (intro fit_insert) (simp add: db_fits_def storable_outbound_def assms del: first_some.simps)

lemma fit_mark_sent [fit_intros]: "keeps db_fits (outbound_mark_sent m)"
proof -
  have rows: "list_all storable_outbound (update_rows P (\<lambda>r. r\<lparr>om_provider_message_id := om_provider_message_id m,
       om_provider_thread_id := om_provider_thread_id m\<rparr>) rs)"
    if "list_all storable_outbound rs" "opt_too_long 64 (om_provider_message_id m) = None"
      "opt_too_long 64 (om_provider_thread_id m) = None" for P rs
    using that by (auto simp: list_all_iff set_update_rows storable_outbound_def opt_too_long_def split: option.splits)
  show ?thesis
  proof (cases "opt_too_long 64 (om_provider_message_id m) = None \<and> opt_too_long 64 (om_provider_thread_id m) = None")
    case True
    then show ?thesis unfolding outbound_mark_sent_def
      by (intro keep_intros keeps_modify_db) (simp add: db_fits_def rows)
  next
    case False
    then obtain e where s: "first_some [opt_too_long 64 (om_provider_message_id m), opt_too_long 64 (om_provider_thread_id m)] = Some e"
      by (cases "opt_too_long 64 (om_provider_message_id m)"; cases "opt_too_long 64 (om_provider_thread_id m)")
        (auto simp: first_some_def)
    show ?thesis unfolding outbound_mark_sent_def s option.case by (intro keep_intros)
  qed
qed

lemma fit_inbound [fit_intros]: "keeps db_fits (inbound_add m)" "keeps db_fits (inbound_update m)"
proof -
  show "keeps db_fits (inbound_add m)"
    unfolding inbound_add_def
    by (intro fit_insert) (simp add: db_fits_def storable_inbound_def del: first_some.simps)
  have "list_all storable_inbound (update_rows P (\<lambda>r. r\<lparr>im_matched_outbound_id := a, im_intent := b\<rparr>) rs)"
    if "list_all storable_inbound rs" for P a b rs
    using that by (auto simp: list_all_iff set_update_rows storable_inbound_def)
  then show "keeps db_fits (inbound_update m)"
    unfolding inbound_update_def by (intro keep_intros keeps_modify_db) (simp add: db_fits_def)
qed

lemma fit_cursor [fit_intros]: "keeps db_fits (gateway_advance_cursor ws cursor)"
proof -
  have rows: "list_all storable_mailbox (update_rows P (\<lambda>r. r\<lparr>mb_last_sync_cursor := c\<rparr>) rs)"
    if "list_all storable_mailbox rs" "opt_too_long 64 c = None" for P c rs
    using that by (auto simp: list_all_iff set_update_rows storable_mailbox_def opt_too_long_def split: option.splits)
  have "keeps db_fits (mailboxes_update_cursor m)" for m
  proof (cases "opt_too_long 64 (mb_last_sync_cursor m)")
    case None
    then show ?thesis unfolding mailboxes_update_cursor_def
      by (intro keep_intros keeps_modify_db) (simp add: db_fits_def rows)
  next
    case (Some e)
    show ?thesis unfolding mailboxes_update_cursor_def Some option.case by (intro keep_intros)
  qed
  then show ?thesis
    unfolding gateway_advance_cursor_def mailboxes_get_by_workspace_def by (intro keep_intros)
qed

section \<open>The handlers\<close>

lemma fit_dispatch [fit_intros]: "keeps db_fits (email_dispatch sender ws t s b)"
proof -
  have err: "keeps db_fits (on_send_error e)" for e
    by (cases e) (auto simp: keeps_def on_send_error_def bindp_run db_fits_def)
  have new: "yields db_fits (\<lambda>m. om_provider_message_id m = None \<and> om_provider_thread_id m = None)
      (OutboundMessage_new w mb t s b i)" for w mb t s b i
    unfolding OutboundMessage_new_def
    by (intro yields_bindp [OF yields_keeps] yield_intros fit_intros) simp
  have stage: "keeps db_fits (bindp (OutboundMessage_new w mb t s b i) k)"
    if "\<And>m. om_provider_message_id m = None \<Longrightarrow> om_provider_thread_id m = None \<Longrightarrow> keeps db_fits (k m)"
    for w mb t s b i and k :: "outbound_message \<Rightarrow> outbound_message act"
    by (rule keeps_yields_bindp [OF new]) (simp add: that)
  show ?thesis
    unfolding email_dispatch_def send_email_def gateway_get_by_workspace_def
      mailboxes_get_by_workspace_def suppressions_is_suppressed_def outbound_count_sent_since_def
    by (intro stage keep_intros fit_intros fit_outbound_add keeps_savepoint err) (simp_all add: db_fits_def)
qed

lemma yields_lead_get: "yields db_fits (\<lambda>x. \<forall>l. x = Some l \<longrightarrow> short_intent l) (leads_get i)"
  unfolding leads_get_def
  by (intro yield_intros) (auto simp: lead_in_def lead_rows_def dest!: find_Some_in intro: db_fits_lead)

lemma yields_record_sent:
  assumes "short_intent l"
  shows "yields db_fits (\<lambda>(l', j). short_intent l') (record_sent c l k t)"
  unfolding record_sent_def job_def SendJob_new_def
  by (intro yield_intros yields_bindp [OF yields_keeps] keep_intros fit_intros)
    (use assms in \<open>simp_all add: moved_def short_intent_def\<close>)

lemma yields_fail_lead: "short_intent l \<Longrightarrow> yields db_fits short_intent (lift (fail_lead c l reason t))"
  by (intro yield_intros)
    (auto simp: fail_lead_def moved_def short_intent_def split: sum.splits if_splits)

lemma fit_settle:
  assumes "short_intent l"
  shows "keeps db_fits (settle claim t c l res)"
proof (cases res)
  case (DispatchSent i at)
  show ?thesis
    unfolding settle_def DispatchSent dispatch_result.case jobs_complete_def
    by (rule keeps_yields_bindp [OF yields_record_sent [OF assms]])
      (auto intro!: keep_intros fit_intros fit_update_many)
next
  case (DispatchDeferred at reason)
  show ?thesis
    unfolding settle_def DispatchDeferred dispatch_result.case jobs_release_def jobs_reschedule_def
    by (intro keep_intros fit_intros)
next
  case DispatchSuppressed
  show ?thesis
    unfolding settle_def DispatchSuppressed dispatch_result.case jobs_cancel_def
    by (rule keeps_yields_bindp [OF yields_fail_lead [OF assms]])
      (auto intro!: keep_intros fit_intros fit_update_many)
next
  case (DispatchFailed err)
  have failing: "keeps db_fits (bindp (lift (fail_lead c l SEND_FAILED t)) (\<lambda>failed.
               thenp (leads_update_many [failed]) (thenp (jobs_fail (cj_id claim) err t) (ret O_FAILED))))"
    unfolding jobs_fail_def
    by (rule keeps_yields_bindp [OF yields_fail_lead [OF assms]])
      (auto intro!: keep_intros fit_intros fit_update_many)
  show ?thesis
    unfolding settle_def DispatchFailed dispatch_result.case jobs_retry_later_def jobs_reschedule_def
    by (intro keep_intros fit_intros failing)
qed

lemma fit_process [fit_intros]: "keeps db_fits (process_claimed (email_dispatch sender) j t)"
  unfolding process_claimed_def campaigns_get_def jobs_cancel_def
  by (intro keeps_bindp [OF keeps_gets] keeps_yields_bindp [OF yields_lead_get])
    (auto split: option.split intro!: keep_intros fit_intros fit_settle)

lemma yields_feed: "yields db_fits (\<lambda>rs. \<forall>r\<in>set rs. length (cl_intent r) \<le> 16) (feed_claim ws lim)"
proof -
  have visible: "\<forall>e\<in>set (open_events w ws lim). \<forall>r. to_reply e = Inr r \<longrightarrow> length (cl_intent r) \<le> 16" if "db_fits w" for w
  proof
    fix e assume "e \<in> set (open_events w ws lim)"
    then have "e \<in> set (t_outbox (db w))" "oe_event_type e = REPLY_CLASSIFIED"
      by (auto simp: open_events_def outbox_rows_def dest!: in_set_takeD)
    with that show "\<forall>r. to_reply e = Inr r \<longrightarrow> length (cl_intent r) \<le> 16"
      by (auto simp: db_fits_def list_all_iff event_readable_def)
  qed
  show ?thesis
    unfolding feed_claim_def
    by (intro yields_bindp [OF yields_simple(4) [where Q = "\<lambda>es. \<forall>e\<in>set es. \<forall>r. to_reply e = Inr r \<longrightarrow> length (cl_intent r) \<le> 16"]]
        yields_mapp yields_simple(3) visible) auto
qed

lemma fit_stop_lead:
  assumes "length (cl_intent reply) \<le> 16"
  shows "keeps db_fits (stop_lead reply t)"
proof (rule keepsI)
  fix w assume w: "db_fits w"
  show "db_fits (snd (stop_lead reply t w))"
  proof (cases rule: stop_lead_cases [of reply t w])
    case kept
    with w show ?thesis by simp
  next
    case (stops out i l c l')
    have "short_intent l" using stops(3) w by (auto simp: lead_in_def lead_rows_def dest!: find_Some_in intro: db_fits_lead)
    then have "short_intent l'"
      using stop_on_reply_Inr_D(2) [OF stops(6)] assms by (auto simp: short_intent_def)
    then have "db_fits (put_lead l' w)"
      using w unfolding put_lead_def by (simp add: db_fits_def fit_overwrite)
    then show ?thesis unfolding stops(10) by (simp add: cancel_pending_def db_fits_def)
  qed
qed

lemma fit_replies: "keeps db_fits (worker_dispatch_replies ws)"
proof -
  have "keeps db_fits (run_replies ws n t)" for n t
    unfolding run_replies_def handle_replies_def handle_reply_def
    by (rule keeps_yields_bindp [OF yields_feed], rule keeps_foldp_set, intro keep_intros fit_intros fit_stop_lead) blast
  then show ?thesis
    unfolding worker_dispatch_replies_def record_stopped_leads_def by (intro keep_intros fit_intros)
qed

lemma fit_record:
  assumes "length event_type \<le> 64"
    and "\<And>e reply. event_type = REPLY_CLASSIFIED \<Longrightarrow> oe_payload e = event_body event_type payload
      \<Longrightarrow> to_reply e = Inr reply \<Longrightarrow> length (cl_intent reply) \<le> 16"
  shows "keeps db_fits (outbox_record event_type ws i payload)"
proof -
  have new: "event_readable \<lparr> oe_id = k, oe_workspace_id = ws, oe_event_type = event_type, oe_aggregate_id = i,
      oe_payload = json_safe (VDict (AList.update ''event_type'' (VStr event_type) payload)), oe_created_at = at \<rparr>"
    (is "event_readable ?e") for k at
    using assms(1) assms(2) [of ?e] by (simp add: event_readable_def event_body_def)
  show ?thesis
    unfolding outbox_record_def
    by (intro keep_intros fit_intros keeps_insert_row) (simp_all add: db_fits_def new del: json_safe.simps)
qed

lemma fit_classify: "keeps db_fits (classify_reply classify mb f msg matched)"
proof -
  have short: "length (cl_intent reply) \<le> 16"
    if e: "oe_payload e = event_body ''ReplyClassified'' (classified_payload mb m om i)" and r: "to_reply e = Inr reply" for e reply m om i
  proof -
    have "conforms reply_classified_v2 (oe_payload e)" unfolding e by (rule classified_conforms)
    from v2_is_read [OF this] obtain k where "cl_intent reply = intent_value k" using r by auto
    then show ?thesis by simp
  qed
  have matching: "keeps db_fits (outbox_record ''ReplyMatched'' ws i pl)" for ws i pl
    by (rule fit_record) (simp_all add: REPLY_CLASSIFIED_def)
  have classified: "keeps db_fits (outbox_record ''ReplyClassified'' ws k (classified_payload mb m om i))" for ws k m om i
    by (rule fit_record, simp, rule short)
  show ?thesis
    unfolding classify_reply_def Suppression_new_def Let_def
    by (intro keep_intros fit_intros matching classified)
qed

lemma fit_poll: "keeps db_fits (worker_poll_inbox ws receive classify)"
proof -
  have one: "keeps db_fits (poll_one classify m f st)" for m f st
    by (intro keeps_poll_one fit_intros fit_record fit_classify) (simp_all add: db_fits_def REPLY_CLASSIFIED_def)
  have "keeps db_fits (poll_inbox receive classify m)" for m
    by (rule keepsI) (rule poll_inbox_preserves [where I = db_fits], auto intro: one fit_intros)
  then show ?thesis
    unfolding worker_poll_inbox_def gateway_get_by_workspace_def mailboxes_get_by_workspace_def
    by (intro keep_intros fit_intros)
qed

lemma fit_create: "keeps db_fits (create_campaign command ws)"
proof -
  have steps: "keeps db_fits (new_steps ds p)" for ds p
    by (induction ds arbitrary: p) (auto intro!: keep_intros fit_intros)
  show ?thesis
    unfolding create_campaign_def mailbox_id_for_def mailboxes_get_by_workspace_def Campaign_new_def
    by (intro keep_intros fit_intros steps)
qed

lemma yields_schedule:
  assumes "\<And>l. l \<in> set ls \<Longrightarrow> short_intent l"
  shows "yields db_fits (\<lambda>(scheduled, js). \<forall>l\<in>set scheduled. short_intent l) (schedule c ls t)"
proof -
  have "yields db_fits (\<lambda>(scheduled, js). \<forall>l\<in>set scheduled. short_intent l) (schedule_loop c s t ls xs js)"
    if "\<forall>l\<in>set ls. short_intent l" "\<forall>l\<in>set xs. short_intent l" for s ls xs js
    using that
  proof (induction ls arbitrary: xs js)
    case Nil
    then show ?case unfolding schedule_loop.simps by (intro yields_simple(1)) simp
  next
    case (Cons l ls)
    then have "short_intent (moved l SCHEDULED t (\<lambda>x. x))" by (simp add: moved_def short_intent_def)
    then show ?case
      using Cons unfolding schedule_loop.simps job_def SendJob_new_def
      by (intro yields_thenp keep_intros yields_bindp [OF yields_keeps] fit_intros Cons.IH) auto
  qed
  then show ?thesis
    unfolding schedule_def using assms by (intro yield_intros) auto
qed

lemma yields_new_leads: "yields db_fits (\<lambda>ls. \<forall>l\<in>set ls. short_intent l) (add_leads c emails known)"
proof -
  have "yields db_fits (\<lambda>ls. \<forall>l\<in>set ls. short_intent l) (add_leads_loop c es seen acc)"
    if "\<forall>l\<in>set acc. short_intent l" for es seen acc
    using that
  proof (induction es arbitrary: seen acc)
    case Nil
    then show ?case unfolding add_leads_loop.simps by (rule yields_simple(1))
  next
    case (Cons e es)
    have "yields db_fits short_intent (Lead_new ws k email)" for ws k email
      unfolding Lead_new_def
      by (intro yields_bindp [OF yields_keeps] yield_intros fit_intros) (simp add: short_intent_def)
    then show ?case
      using Cons unfolding add_leads_loop.simps Let_def
      by (intro yields_cases Cons.IH yields_bindp [of _ short_intent]) auto
  qed
  then show ?thesis unfolding add_leads_def by simp
qed

lemma fit_add_leads: "keeps db_fits (add_leads_command i emails t)"
proof -
  have sched: "keeps db_fits (bindp (schedule c ls t) (\<lambda>(scheduled_leads, jobs).
        thenp (leads_update_many scheduled_leads) (thenp (jobs_add_many jobs) (ret (int (length scheduled_leads))))))"
    if "\<forall>l\<in>set ls. short_intent l" for c ls
    by (rule keeps_yields_bindp [OF yields_schedule]) (use that in \<open>auto intro!: keep_intros fit_intros fit_update_many\<close>)
  have insert: "keeps db_fits (leads_add_many ls)" if "\<forall>l\<in>set ls. short_intent l" for ls
    unfolding leads_add_many_def by (intro keeps_forp_set fit_lead_insert) (use that in blast)
  show ?thesis
    unfolding add_leads_command_def campaigns_get_def leads_emails_def
    by (intro keep_intros keeps_yields_bindp [OF yields_new_leads] insert sched)
qed

lemma fit_start: "keeps db_fits (start_campaign i t)"
proof -
  have pending: "yields db_fits (\<lambda>ls. \<forall>l\<in>set ls. short_intent l) (leads_list_pending i)"
    unfolding leads_list_pending_def by (intro yield_intros) (auto simp: lead_rows_def intro: db_fits_lead)
  have started: "yields db_fits (\<lambda>(started, scheduled, js). \<forall>l\<in>set scheduled. short_intent l) (start c ls t)"
    if "\<forall>l\<in>set ls. short_intent l" for c ls
    unfolding start_def Let_def
    by (intro yield_intros yields_bindp [OF yields_schedule]) (use that in \<open>auto intro: yields_simple(1)\<close>)
  have rest: "keeps db_fits (bindp (start c ls t) (\<lambda>(started, scheduled, jobs).
             thenp (campaigns_update_status started) (
             thenp (leads_update_many scheduled) (
             thenp (jobs_add_many jobs) (
             ret \<lparr> sr_campaign = started, sr_scheduled = int (length scheduled) \<rparr>)))))"
    if "\<forall>l\<in>set ls. short_intent l" for c ls
    by (rule keeps_yields_bindp [OF started [OF that]]) (auto intro!: keep_intros fit_intros fit_update_many)
  show ?thesis
    unfolding start_campaign_def campaigns_get_def
    by (intro keep_intros keeps_yields_bindp [OF pending] rest)
qed

section \<open>The running program\<close>

lemma step_fits:
  assumes "system_step ws s s'" and "db_fits (sy_world s)"
  shows "db_fits (sy_world s')"
  using assms
proof (induction rule: system_step.induct)
  case (polls ws receive classify w r w' h s)
  then show ?case using keepsD_run [OF fit_poll _ polls(1)] by simp
next
  case (replies ws w r w' h s)
  then show ?case using keepsD_run [OF fit_replies _ replies(1)] by simp
next
  case (claims ws k n w js w' h s)
  have "keeps db_fits (session_for_workspace ws (bindp now (\<lambda>t. claim_due_send_jobs ws k n t)))"
    unfolding claim_due_send_jobs_def by (intro keep_intros fit_intros)
  from keepsD_run [OF this _ claims(1)] show ?case using claims(2) by simp
next
  case (processes ws j h sender w r w' s)
  have "keeps db_fits (session_for_workspace ws (bindp now (\<lambda>t. process_claimed (email_dispatch sender) j t)))"
    by (intro keep_intros fit_intros)
  from keepsD_run [OF this _ processes(2)] show ?case using processes(3) by simp
next
  case (by_id ws sender i w r w' h s)
  have "keeps db_fits (session_for_workspace ws (bindp now (\<lambda>t. process_by_id (email_dispatch sender) i ws t)))"
    unfolding process_by_id_def jobs_get_claimed_def by (intro keep_intros fit_intros)
  from keepsD_run [OF this _ by_id(1)] show ?case using by_id(2) by simp
next
  case (crashes ws j h sender t w r v s)
  then show ?case by (simp add: drop_transaction_def db_fits_def)
next
  case (creates ws command w r w' h s)
  then show ?case using keepsD_run [OF fit_session [OF fit_create] _ creates(1)] by simp
next
  case (adds ws i emails t w r w' h s)
  then show ?case using keepsD_run [OF fit_session [OF fit_add_leads] _ adds(1)] by simp
next
  case (starts ws i t w r w' h s)
  then show ?case using keepsD_run [OF fit_session [OF fit_start] _ starts(1)] by simp
next
  case (others w' w ws h s)
  then show ?case by (simp add: db_fits_def)
qed

lemma runs_fit: "runs s s' \<Longrightarrow> db_fits (sy_world s) \<Longrightarrow> db_fits (sy_world s')"
  by (induction rule: runs.induct) (auto intro: step_fits)

text \<open>The counter of a lead is bounded by the positions of its campaign's steps, which are stored.\<close>

lemma campaign_steps_stored:
  assumes "campaign_in w i = Some c" and "s \<in> set (c_steps c)"
  shows "\<exists>r\<in>set (t_steps (db w)). s_position s = sr_position r"
proof -
  let ?rows = "sort_key sr_position (filter (\<lambda>r. sr_campaign_id r \<in> set [i] \<and> sr_campaign_id r = i) (step_rows w))"
  from assms(1) have "c_steps c = map step_of_row ?rows"
    by (auto simp: campaign_in_def campaign_of_row_def or_empty_def steps_by_campaign_def
        split: option.splits list.splits)
  with assms(2) obtain r where "r \<in> set ?rows" "s = step_of_row r" by auto
  then show ?thesis by (auto simp: step_rows_def step_of_row_def intro!: bexI [of _ r])
qed

lemma lead_storable:
  assumes "consistent w" and "db_fits w" and "l \<in> set (t_leads (db w))"
  shows "storable_lead l"
proof -
  have plan: "plan_ok (camps w) (next_uuid w) (t_leads (db w)) (t_send_jobs (db w))"
    using assms(1) by (simp add: consistent_def)
  obtain c where c: "camps w (l_workspace_id l) (l_campaign_id l) = Some c" "wf_lead c l"
    using plan_okD(7) [OF plan assms(3)] by (auto simp: lead_ok_def)
  have wf: "wf_campaign c" using plan_okD(4) [OF plan] c(1) by (auto simp: campaigns_ok_def)
  let ?n = "length (c_steps c)"
  obtain k where k: "?n = Suc k" using wf by (cases ?n) (simp_all add: wf_campaign_def)
  then have final: "s_position (c_steps c ! k) = int ?n" using wf by (simp add: wf_campaign_def)
  have "c_steps c ! k \<in> set (c_steps c)" using k by simp
  then obtain r where r: "r \<in> set (t_steps (db w))" "int ?n = sr_position r"
    using campaign_steps_stored [of "w\<lparr>guc := Some (l_workspace_id l)\<rparr>"] c(1) final by (fastforce simp: camps_def)
  then have "fits_int4 (int ?n)" using assms(2) by (auto simp: db_fits_def list_all_iff storable_step_def)
  then have "fits_int4 (l_steps_sent l)" using c(2) by (auto simp: wf_lead_def fits_int4_def)
  then show ?thesis
    using assms(2,3) by (auto simp: storable_lead_def db_fits_def list_all_iff short_intent_def)
qed

end
