(* ===== verification/Spec2Isabelle.thy ===== *)
theory Spec2Isabelle
  imports Job_Laws Command_Laws Reply_Laws Poll_Laws Send_Laws Samples Sample_Runs Gmail_Samples
    Orm_Models Api_Samples Delivery Row_Laws
begin

text \<open>
  Outboxlab sends cold-email sequences and stops them when a lead answers. This library models the
  Python program under \<open>src/apps/api/app\<close> and proves what makes it safe to run: nobody who replied,
  bounced or unsubscribed is mailed again, no step is sent twice, no mailbox sends more than its
  daily cap, no job is lost or held by two workers, and no event or message is handled twice.

  \<^bold>\<open>The parts of the program.\<close> Three contexts share one database, and one worker process drives
  them. The campaign context owns campaigns, leads and a queue of send jobs; the messaging context
  sends single emails, polls the inbox, matches and classifies replies and keeps suppressions and an
  outbox of events; the mailbox context owns the mailbox with its cursor and cap. A tick of the worker
  polls the inbox (messages become events), lets the campaign context consume the events (replies stop
  leads and cancel their jobs) and drains the queue (jobs become emails through the port of the
  messaging context). The HTTP API creates campaigns, adds leads, starts sending, and reads; its
  middleware and the identity context turn the credentials of a request into the workspace it acts for.

  \<^bold>\<open>Which theory models what.\<close>
    \<^item> \<open>Prelude\<close>: identifiers, time, the clock and identifier supply, and the calculus of effectful
      programs (\<open>act\<close>: a state in, an exception or a result and the new state out) in which every
      handler is written; \<open>keeps I m\<close> says that a program keeps a predicate of the state.
    \<^item> \<open>Py_Text\<close>, \<open>Uuid_Text\<close>, \<open>Json\<close>, \<open>Json_Text\<close>, \<open>Py_Float\<close>, \<open>Base64\<close>: the parts of Python's \<open>str\<close>, \<open>uuid\<close>,
      \<open>datetime\<close>, \<open>json\<close>, \<open>float\<close> and \<open>base64\<close> that the code uses, with the round trips of \<open>UUID(str(u))\<close>
      and of the URL-safe encoding.
    \<^item> \<open>Lead\<close>, \<open>Send_Job\<close>, \<open>Errors\<close>, \<open>Campaign\<close>: the aggregate of \<open>contexts/campaign/domain\<close>;
      \<open>Campaign_Laws\<close>: its well-formedness invariant, the closure of its operations and the state
      diagram of \<open>docs/architecture\<close> they refine.
    \<^item> \<open>Messaging\<close>, \<open>Matching\<close>, \<open>Classifier\<close>: the domain of the messaging context, \<open>matching.py\<close>, and the
      classifiers with the two language-model clients.
    \<^item> \<open>Database\<close>: the tables of all contexts, the policies of the migrations, sessions, savepoints, and
      the world every handler runs in; \<open>Campaign_Repos\<close>, \<open>Messaging_Repos\<close>: the repositories, each
      statement over the rows its session sees, with the widths and unique keys of the columns.
    \<^item> \<open>Send_Email\<close>: \<open>SendEmailHandler\<close> and the dispatch in a savepoint; \<open>Process_Jobs\<close>: the consumers of
      the queue; \<open>Replies\<close>: the consumer of classified replies; \<open>Poll_Inbox\<close>: the poll;
      \<open>Campaign_Commands\<close>: commands and queries; \<open>Identity\<close>: keys, workspaces and the middleware;
      \<open>Config\<close>: \<open>config.py\<close> and the address of the database; \<open>Worker\<close>: \<open>entrypoints/worker.py\<close> with the
      stages, the tick, the loop and the process, and the internal route.
    \<^item> \<open>Api_Routes\<close>: the routes under \<open>presentation/routes\<close> with their request and response models; \<open>Api\<close>:
      \<open>entrypoints/api.py\<close>, the middleware around the routers, \<open>mcp.py\<close> and \<open>http_metrics.py\<close>; \<open>Scripts\<close>: seeding and
      issuing a key; \<open>Api_Laws\<close>: a request as an actor of the system, in its workspace only; \<open>Api_Answers\<close>:
      what the routes answer.
    \<^item> \<open>Gmail_Parse\<close>, \<open>Gmail\<close>: the adapters of \<open>messaging/infrastructure/gmail\<close>; \<open>Gmail_Laws\<close>: the token's life,
      the paging loop against rules that say which pages it reads, the fetched messages, quoted text;
      \<open>Gmail_Ports\<close>: the receiver port's contract, and the adapter as its instance.
    \<^item> \<open>Schema\<close>: the catalog and the statements of \<open>alembic.op\<close>; \<open>Migrations\<close>: the revisions under \<open>alembic/versions\<close>;
      \<open>Migration_Laws\<close>: their independence of the data, and one walk over the chain both ways; \<open>Orm_Models\<close>: the
      tables that the ORM classes declare, compared with what the migrations build; \<open>Rows\<close>: the rows of these
      tables and the conversions of the repositories; \<open>Queue_Sql\<close>: the queue in columns, with the payload as JSON
      and \<open>CLAIM_STATEMENT\<close>.
    \<^item> \<open>Date_Text\<close>: the text of a datetime; \<open>Contracts\<close>: the JSON schemas under \<open>src/contracts\<close>, what is written
      against them and what is read by them; \<open>Engine\<close>: \<open>shared/infrastructure/db/engine.py\<close>; \<open>Wiring\<close>: the worker
      with the adapters that \<open>_run\<close> builds; \<open>Row_Laws\<close>: that no step of the system stores a row too wide
      for its table.
    \<^item> \<open>Send_Laws\<close>, \<open>Job_Laws\<close>, \<open>Reply_Laws\<close>, \<open>Poll_Laws\<close>, \<open>Command_Laws\<close>: the lemmas about one operation or one
      batch.
    \<^item> \<open>Plan\<close>, \<open>Isolation\<close>, \<open>Consistency\<close>, \<open>Transactions\<close>: the invariant of the whole database (which job a
      lead must have, which rows belong together), that a session leaves other workspaces alone, and
      that every transaction of the program keeps the invariant; \<open>System\<close>: the program as a step
      relation over a world, the claims in the hands of workers and the sends that committed, with one
      rule per actor; \<open>System_Laws\<close>: what a step can mail, and the worker's loop as a sequence of steps.
    \<^item> \<open>Delivery\<close>: progress, a due claim becomes a mail.
    \<^item> \<open>Samples\<close>, \<open>Sample_Runs\<close>, \<open>Gmail_Samples\<close>: one small concrete world, its runs, and a mail service,
      on which the witnesses evaluate; \<open>Api_Samples\<close>: requests.

  \<^bold>\<open>Interfaces.\<close> Where one part relies on another, the contract is a locale, and the provider's theory
  interprets it: the port of the dispatcher (always answers, leaves the campaign tables alone), the
  suppression list, the feed of replies, the classifier, the receiver (hands out no mail of the mailbox
  itself, and dates the rest with datetimes), the stored form of an object (\<open>stored_as\<close>: reads back, and
  fits its table exactly when it is storable). The clients' lemmas are proved once inside.

  \<^bold>\<open>Conventions.\<close> A string is a sequence of the characters of Latin-1; case folding and whitespace are
  Python's on that range. A datetime is its microseconds in UTC. \<open>clock_at\<close> is what the clock shows at
  each call, any function, and the theorems that need a clock that agrees with itself say so; identifiers
  drawn by \<open>uuid7\<close> are new and increasing. The provider of emails, the mail service behind the Gmail
  adapters with \<open>parseaddr\<close>, the decoding of UTF-8 and the text of a MIME message, the HTTP client of
  the language models, the digest and the random texts are parameters. A transaction runs at once:
  two sessions interleave only between transactions, and what other transactions hold at the time
  (\<open>row_locks\<close>, \<open>held\<close>) is an arbitrary part of the world. Foreign keys are not checked, since no code
  deletes a row that others refer to; the width of a column is checked where a caller could pass
  something wider, which is enough (C40); the attempts of a job and the name of a worker are taken to fit. A query without an order for equal keys returns them in the order of the table.

  \<^bold>\<open>What the groups of properties show.\<close> The running program (C1 to C9): in every state that the actors
  can reach in any interleaving, no step of a lead leaves twice, the queue holds the right work and loses
  none, mail is due when it leaves and leaves when it is due, processing does not fail, workspaces are
  isolated; the worker's process and the requests of the API are among the actors. Sending (C10 to C13):
  stopped leads, guards, cap. The queue (C14 to C17): claims, the SQL statement behind them, retries. The
  aggregate (C18, C19): invariant and state diagram. Replies (C20 to C24): events once, polling idempotent,
  suppression, the contracts of the events. Matching (C25). The mail service (C26 to C30): paging, what is
  fetched, encoding. Identity (C31). The HTTP API (C32 to C35): whom a request acts for, what it is
  answered. The schema (C36 to C38): what the migrations build, their undoing, the policies. The rows
  (C39, C40): what is stored reads back, and fits its columns in every state. Theorems of
  this file without an identifier state more of the same parts.

  \<^bold>\<open>Bounds.\<close> The loop of the worker is endless; \<open>worker_loop n\<close> are its first \<open>n\<close> rounds, and what is
  proved of it holds for every \<open>n\<close>; the runs of the system have no bound. The paging loop of the receiver
  ends when the mail service does: it is a partial function, and that it returns is proved for a service
  whose page tokens decrease in some rank. Every other loop runs over a finite list, or is a function with
  a termination proof. A worker may crash after the provider took a mail and before its transaction
  commits; the mail is then sent again, which no property excludes.

  \<^bold>\<open>Not modelled.\<close> Libraries: Alembic itself and the names PostgreSQL derives for keys, the decoding
  and serialization of FastAPI and pydantic, the server of MCP and the static files of the viewer, the
  text of the metrics and the durations they observe, loading settings from the environment, the pool
  behind the engine, the signals of the process. Which other values pydantic takes for a UUID or an integer
  in the payload of a job is a parameter. The Go sender is in another language; it claims with the
  same statement and calls the internal route.
\<close>

section \<open>The running program\<close>





text \<open>
  C3. No lead is forgotten: in every state the program can reach, each lead that may be sent to has a
  job for its next step that waits or is being processed, and so the step is sent, retried or given up
  by a decision that the lead records; it is never lost.
\<close>
theorem work_is_never_lost:
  assumes "runs s s'" and "sound s"
    and "l \<in> set (t_leads (db (sy_world s')))" and "l_state l \<in> SENDABLE_STATES"
  shows "\<exists>r\<in>set (t_send_jobs (db (sy_world s'))). jr_lead_id r = l_id l
     \<and> p_step_position (jr_payload r) = l_steps_sent l + 1 \<and> jr_status r \<in> {JPENDING, JRUNNING}"
proof -
  have "plan_ok (camps (sy_world s')) (next_uuid (sy_world s')) (t_leads (db (sy_world s'))) (t_send_jobs (db (sy_world s')))"
    using runs_sound [OF assms(1,2)] by (simp add: sound_def consistent_def)
  from plan_okD(8) [OF this assms(3)] show ?thesis using assms(4) by (simp add: sendable_def live_def pos_def)
qed

theorem work_is_never_lost_witness:
  "\<exists>r\<in>set (t_send_jobs (db (sy_world sample_system))). jr_lead_id r = 6
     \<and> p_step_position (jr_payload r) = 1 \<and> jr_status r \<in> {JPENDING, JRUNNING}"
  using work_is_never_lost [OF runs.start sample_sound, of "sample_lead SCHEDULED 0"]
  by (simp add: sample_system_def SENDABLE_STATES_def)

text \<open>
  C4. Mail leaves only for the next step: whatever step the program takes, also when the worker crashes
  after the provider answered, it hands the provider at most one mail, and that mail goes to the address
  of a lead of the acting workspace that may be sent to, with the subject and the body of the first step
  of its active campaign that the lead was not sent.
\<close>
theorem every_mail_is_due:
  assumes "runs s s'" and "sound s" and "system_step ws s' s''"
    and "wire (sy_world s'') \<noteq> wire (sy_world s')"
  shows "\<exists>m answer. wire (sy_world s'') = wire (sy_world s') @ [(m, answer)]
     \<and> (\<exists>l\<in>set (t_leads (db (sy_world s'))). \<exists>c k. l_workspace_id l = ws \<and> ml_to m = l_email l
          \<and> campaign_in ((sy_world s')\<lparr>guc := Some ws\<rparr>) (l_campaign_id l) = Some c \<and> is_active c
          \<and> l_state l \<in> SENDABLE_STATES \<and> l_steps_sent l = int k \<and> k < length (c_steps c)
          \<and> ml_subject m = s_subject (c_steps c ! k) \<and> ml_body m = s_body (c_steps c ! k))"
proof -
  obtain m answer i where m: "wire (sy_world s'') = wire (sy_world s') @ [(m, answer)]" "next_mail (sy_world s') ws i m"
    using step_mail [OF assms(3) runs_sound [OF assms(1,2)]] assms(4) by (auto simp: one_mail_def)
  from next_mail_text [OF m(2)] m(1) show ?thesis by blast
qed

theorem every_mail_is_due_witness:
  "\<exists>s1 m answer. system_step 11 sample_system s1 \<and> wire (sy_world s1) = [(m, answer)] \<and> ml_to m = ''a@b.c''"
proof (rule sample_mails)
  fix s1
  assume s: "system_step 11 sample_system s1" "wire (sy_world s1) \<noteq> wire (sy_world sample_system)"
  from every_mail_is_due [OF runs.start sample_sound s] s(1) show ?thesis
    by (auto simp: sample_system_def)
qed

text \<open>
  C6. Processing never fails: in every state the program can reach, the transaction that processes a
  claim somebody holds, however old, ends with an outcome and commits, for every answer of the mail
  provider; no exception of a repository, of the aggregate or of the dispatcher reaches the worker.
\<close>
theorem processing_never_raises:
  assumes "runs s s'" and "sound s" and "(ws, j) \<in> sy_hands s'"
  shows "\<exists>x w'. session_for_workspace ws (bindp now (\<lambda>t. process_claimed (email_dispatch sender) j t)) (sy_world s')
     = (Inr x, w')"
proof -
  have s: "consistent (sy_world s')" "hand_ok ws (sy_world s') j"
    using runs_sound [OF assms(1,2)] assms(3) by (auto simp: sound_def)
  obtain r w' where run: "session_for_workspace ws (bindp now (\<lambda>t. process_claimed (email_dispatch sender) j t))
      (sy_world s') = (r, w')" by fastforce
  from process_session(2) [OF s run] run show ?thesis by (auto simp: processed_def)
qed

theorem processing_never_raises_witness:
  "\<exists>x w' s1. runs sample_system s1 \<and> sy_sent s1 = [(11, 6, 1)] \<and> session_for_workspace 11
     (bindp now (\<lambda>t. process_claimed (email_dispatch sample_sender) (sample_claim 1) t)) (sy_world s1) = (Inr x, w')"
proof (rule sample_twice)
  fix s1
  assume s: "runs sample_system s1" "sy_sent s1 = [(11, 6, 1)]" and "sy_hands s1 = {(11, sample_claim 1)}"
  then have "(11, sample_claim 1) \<in> sy_hands s1" by simp
  from processing_never_raises [OF s(1) sample_sound this, of sample_sender] s show ?thesis by blast
qed



text \<open>
  The worker is one of the actors: any number of rounds of its loop, with every stage, every error
  that is logged and every job of its batches, is a sequence of the steps of the running program, so
  that all of the above holds for it together with everything else that runs.
\<close>
theorem worker_loop_is_a_run:
  assumes "worker_loop n st receive classify sender worker_id last_idle w = (r, w')"
  shows "\<exists>h' xs. h \<subseteq> h' \<and> runs (system.make w h s) (system.make w' h' (s @ xs))"
  by (rule performsE [OF performs_loop [of "{}"] empty_subsetI assms]) blast

theorem worker_loop_is_a_run_witness:
  "\<exists>r w' h' xs. worker_loop 3 sample_settings sample_receiver (\<lambda>_ _. Inr UNCLEAR) sample_sender ''k'' None
       (sample_world (sample_lead SCHEDULED 0) [sample_job 7 1 JPENDING]) = (r, w')
     \<and> runs (system.make (sample_world (sample_lead SCHEDULED 0) [sample_job 7 1 JPENDING]) {} [])
         (system.make w' h' xs)"
proof -
  obtain r w' where run: "worker_loop 3 sample_settings sample_receiver (\<lambda>_ _. Inr UNCLEAR) sample_sender ''k'' None
      (sample_world (sample_lead SCHEDULED 0) [sample_job 7 1 JPENDING]) = (r, w')" by fastforce
  from worker_loop_is_a_run [OF run, of "{}" "[]"] run show ?thesis by auto
qed

text \<open>
  C8. The whole process of the worker, from the lines it prints at its start through any number of rounds
  of its loop, with every stage, every error that is logged and every job of its batches, is a
  sequence of the steps of the running program, so that all of the above holds for it together with
  everything else that runs.
\<close>
theorem worker_process_is_a_run:
  assumes "worker_main n st receive classify sender host pid w = (r, w')"
  shows "\<exists>h' xs. h \<subseteq> h' \<and> runs (system.make w h s) (system.make w' h' (s @ xs))"
  by (rule performsE [OF performs_main [of "{}"] empty_subsetI assms]) blast

theorem worker_process_is_a_run_witness:
  "\<exists>r w' h' xs. worker_main 3 sample_settings sample_receiver (\<lambda>_ _. Inr UNCLEAR) sample_sender ''host'' 7
       (sample_world (sample_lead SCHEDULED 0) [sample_job 7 1 JPENDING]) = (r, w')
     \<and> runs (system.make (sample_world (sample_lead SCHEDULED 0) [sample_job 7 1 JPENDING]) {} [])
         (system.make w' h' xs)"
proof -
  obtain r w' where run: "worker_main 3 sample_settings sample_receiver (\<lambda>_ _. Inr UNCLEAR) sample_sender ''host'' 7
      (sample_world (sample_lead SCHEDULED 0) [sample_job 7 1 JPENDING]) = (r, w')" by fastforce
  from worker_process_is_a_run [OF run, of "{}" "[]"] run show ?thesis by auto
qed

text \<open>
  C9. Every request of the HTTP API is one of the actors: with its credentials looked up, its body
  validated and its errors turned into answers, it does nothing but steps of the running program, so
  that all of the above holds for the API as it is deployed. The one exception is the route that
  sends a single email for trying out, which production does not have.
\<close>
theorem api_requests_are_runs:
  assumes "create_app st p creds request w = (r, w')" and "production st \<or> \<not> is_test_email request"
  shows "\<exists>h' xs. h \<subseteq> h' \<and> runs (system.make w h s) (system.make w' h' (s @ xs))"
  by (rule performsE [OF performs_app [OF assms(2), of "{}"] empty_subsetI assms(1)]) blast

theorem api_requests_are_runs_witness:
  "\<exists>r w' h' xs. create_app sample_settings sample_ports sample_credentials (StartCampaign 3)
       (sample_world (sample_lead SCHEDULED 0) [sample_job 7 1 JPENDING]) = (r, w')
     \<and> runs (system.make (sample_world (sample_lead SCHEDULED 0) [sample_job 7 1 JPENDING]) {} [])
         (system.make w' h' xs)"
proof -
  obtain r w' where run: "create_app sample_settings sample_ports sample_credentials (StartCampaign 3)
      (sample_world (sample_lead SCHEDULED 0) [sample_job 7 1 JPENDING]) = (r, w')" by fastforce
  have "\<not> is_test_email (StartCampaign 3)" by (simp add: is_test_email_def)
  with api_requests_are_runs [OF run, of "{}" "[]"] run show ?thesis by auto
qed

section \<open>Sending\<close>

text \<open>
  C5. A due mail leaves: in a consistent database, a worker that holds the claim of a step which is the
  next of a lead that may still be sent to, in a workspace whose guards let the mail through, hands the
  mail to the provider. When the provider takes it and its row can be stored, the outcome is \<open>sent\<close>,
  the job is done with the message it sent, the lead counts the step, and either it was the last step
  and the lead is done, or the queue holds the job of the next step, due its delay after the sending.
\<close>
theorem due_mail_leaves:
  assumes "consistent w" and "guc w = Some ws" and "due_claim ws w claim l" and "cj_payload claim = P"
    and "may_send w ws (p_to_email P) mb" and "mail = mail_of w mb (p_to_email P) (p_subject P) (p_body P)"
    and "sender (length (wire w)) mail = Inr answer" and "row_fits w ws mb (p_to_email P) (p_subject P) (p_body P) answer"
    and "sent_at = clock_at w (Suc (reads w))"
  shows "\<exists>w' c. process_claimed (email_dispatch sender) claim moment w = (Inr O_SENT, w')
     \<and> campaign_in w (l_campaign_id l) = Some c \<and> wire w' = wire w @ [(mail, Inr answer)]
     \<and> (\<exists>q\<in>set (t_send_jobs (db w')). jr_id q = cj_id claim \<and> jr_status q = JDONE \<and> jr_outbound_message_id q = Some (next_uuid w))
     \<and> (if p_step_position P = int (length (c_steps c))
        then lead_in w' (l_id l) = Some (l\<lparr>l_state := DONE, l_updated_at := sent_at, l_steps_sent := p_step_position P\<rparr>)
        else lead_in w' (l_id l) = Some (l\<lparr>l_state := SENT, l_updated_at := sent_at, l_steps_sent := p_step_position P\<rparr>)
          \<and> (\<exists>j\<in>set (t_send_jobs (db w')). jr_status j = JPENDING
             \<and> jr_lead_id j = l_id l \<and> jr_payload j = payload_of c l (c_steps c ! nat (p_step_position P))
             \<and> jr_scheduled_at j = sent_at + seconds (s_delay_seconds (c_steps c ! nat (p_step_position P)))))"
proof (rule due_mail_run [OF assms(1-3), of mb sender answer moment])
  show "may_send w ws (p_to_email (cj_payload claim)) mb" using assms(4,5) by simp
  show "sender (length (wire w)) (mail_of w mb (p_to_email (cj_payload claim)) (p_subject (cj_payload claim)) (p_body (cj_payload claim)))
      = Inr answer" using assms(4,6,7) by simp
  show "row_fits w ws mb (p_to_email (cj_payload claim)) (p_subject (cj_payload claim)) (p_body (cj_payload claim)) answer"
    using assms(4,8) by simp
qed (use assms(4,6,9) in \<open>intro exI conjI; (assumption | force)\<close>)

theorem due_mail_leaves_witness:
  "\<exists>w' m. process_claimed (email_dispatch sample_sender) (sample_claim 1) 1000
        (sample_world (sample_lead SCHEDULED 0) [sample_job 7 1 JRUNNING]) = (Inr O_SENT, w')
     \<and> wire w' = [(m, Inr \<lparr> se_provider_message_id = ''p1'', se_provider_thread_id = ''t1'' \<rparr>)] \<and> ml_to m = ''a@b.c''"
proof -
  let ?w = "sample_world (sample_lead SCHEDULED 0) [sample_job 7 1 JRUNNING]"
  let ?answer = "\<lparr> se_provider_message_id = ''p1'', se_provider_thread_id = ''t1'' \<rparr>"
  have c: "consistent ?w" by (rule sample_plan [OF refl refl]) simp
  have d: "due_claim 11 ?w (sample_claim 1) (sample_lead SCHEDULED 0)"
    using sample_sound by (simp add: due_claim_def sample_system_def sound_def sample_lead_in sendable_def SENDABLE_STATES_def)
  have fits: "row_fits ?w 11 sample_mailbox ''a@b.c'' ''Hi'' ''b'' ?answer" by (simp add: row_fits_def sample_row_id)
  have accepts: "sample_sender (length (wire ?w)) (mail_of ?w sample_mailbox ''a@b.c'' ''Hi'' ''b'') = Inr ?answer"
    by (simp add: sample_sender_def)
  from due_mail_leaves [OF c _ d, of "sample_payload 1" sample_mailbox "mail_of ?w sample_mailbox ''a@b.c'' ''Hi'' ''b''"
      sample_sender ?answer "clock_at ?w (Suc (reads ?w))" 1000] fits accepts sample_may_send
  obtain w' where "process_claimed (email_dispatch sample_sender) (sample_claim 1) 1000 ?w = (Inr O_SENT, w')"
    "wire w' = [(mail_of ?w sample_mailbox ''a@b.c'' ''Hi'' ''b'', Inr ?answer)]" by auto
  then show ?thesis by (intro exI [of _ w'] exI [of _ "mail_of ?w sample_mailbox ''a@b.c'' ''Hi'' ''b''"]) simp
qed

text \<open>
  C10. A lead that is stopped (paused by a reply or failed) gets no further mail: whatever the
  dispatcher does, processing a claimed job of the lead cancels the job, hands nothing to the
  mail provider and leaves every lead as it is.
\<close>
theorem stopped_lead_gets_no_mail:
  assumes "lead_in w (cj_lead_id claim) = Some l" and "is_stopped l"
  shows "\<exists>w'. process_claimed dispatch claim moment w = (Inr O_CANCELLED, w')
     \<and> wire w' = wire w \<and> t_leads (db w') = t_leads (db w)
     \<and> (\<forall>r. job_in w' (cj_id claim) = Some r \<longrightarrow> jr_status r = JCANCELLED)"
proof -
  have "process_claimed dispatch claim moment w = (Inr O_CANCELLED,
    put_job (cj_id claim) (\<lambda>r. r\<lparr>jr_status := JCANCELLED, jr_updated_at := moment\<rparr>) w)"
    using assms accepts_send_not_stopped by (intro process_refused) auto
  then show ?thesis by (auto simp: job_in_put)
qed

theorem stopped_lead_gets_no_mail_witness:
  "\<exists>w'. process_claimed (email_dispatch sample_sender) (sample_claim 2) 9
       (sample_world stopped_sample [sample_job 7 2 JRUNNING]) = (Inr O_CANCELLED, w')
     \<and> wire w' = [] \<and> t_leads (db w') = [stopped_sample]
     \<and> (\<forall>r. job_in w' 7 = Some r \<longrightarrow> jr_status r = JCANCELLED)"
  using stopped_lead_gets_no_mail [of "sample_world stopped_sample [sample_job 7 2 JRUNNING]"
      "sample_claim 2" stopped_sample "email_dispatch sample_sender" 9]
  by (simp add: sample_lead_in is_stopped_def)

text \<open>
  Once a reply has stopped a lead, no job of the lead that is still in the hands of a worker
  reaches the provider any more, whenever it is processed.
\<close>
theorem no_mail_after_reply:
  assumes "stop_lead reply moment w = (Inr (Some l), w1)" and "cj_lead_id claim = l_id l"
  shows "\<exists>w2. process_claimed dispatch claim later w1 = (Inr O_CANCELLED, w2) \<and> wire w2 = wire w"
proof (cases rule: stop_lead_cases [of reply moment w])
  case kept
  with assms(1) show ?thesis by simp
next
  case (stops out i l0 c l')
  then have l: "l' = l" and w1: "w1 = cancel_pending i moment (put_lead l' w)" using assms(1) by auto
  have "lead_in w1 (cj_lead_id claim) = Some l"
    using stops assms(2) l w1 stop_on_reply_overwrite [OF stops(6)] by (auto simp: lead_in_put)
  moreover have "\<not> accepts_send c l k" for c k
    using stops l accepts_send_not_stopped by auto
  ultimately have "process_claimed dispatch claim later w1 = (Inr O_CANCELLED,
      put_job (cj_id claim) (\<lambda>r. r\<lparr>jr_status := JCANCELLED, jr_updated_at := later\<rparr>) w1)"
    by (intro process_refused) auto
  then show ?thesis using w1 by simp
qed

theorem no_mail_after_reply_witness:
  "\<exists>l w1 w2. stop_lead (sample_reply ''positive'') 50
       (sample_world (sample_lead SENT 1) [sample_done_job, sample_job 8 2 JRUNNING]) = (Inr (Some l), w1)
     \<and> process_claimed (email_dispatch sample_sender) (sample_claim 2) 60 w1 = (Inr O_CANCELLED, w2)
     \<and> wire w2 = []"
proof -
  let ?w = "sample_world (sample_lead SENT 1) [sample_done_job, sample_job 8 2 JRUNNING]"
  obtain l' w1 where r: "stop_lead (sample_reply ''positive'') 50 ?w = (Inr (Some l'), w1)"
      "lead_in w1 6 = Some l'"
    by (rule reply_stops [of "sample_reply ''positive''" 30 ?w 6 "sample_lead SENT 1"])
       (simp_all add: lead_of_outbound_def sample_job_rows sample_lead_in sample_campaign_in REPLYABLE_STATES_def)
  from lead_in_id [OF r(2)] have "cj_lead_id (sample_claim 2) = l_id l'" by simp
  from no_mail_after_reply [OF r(1) this, of "email_dispatch sample_sender" 60] r(1)
  show ?thesis by auto
qed

text \<open>
  C11. A reply to an email that a completed job sent stops the lead of that job: when the lead can
  take a reply, the handler returns it paused or failed, stores it, and leaves no pending job of
  the lead in the queue.
\<close>
theorem reply_stops_lead:
  assumes "cl_matched_outbound_id reply = Some out" and "lead_of_outbound w out = Some i"
    and "lead_in w i = Some l" and "campaign_in w (l_campaign_id l) = Some c"
    and "l_state l \<in> REPLYABLE_STATES"
  shows "\<exists>l' w'. stop_lead reply moment w = (Inr (Some l'), w') \<and> is_stopped l'
     \<and> lead_in w' i = Some l' \<and> l_reply_intent l' = Some (cl_intent reply)
     \<and> (l_state l' = FAILED \<longleftrightarrow> cl_intent reply = BOUNCE_INTENT)
     \<and> (\<forall>r\<in>set (send_job_rows w'). jr_lead_id r = i \<longrightarrow> jr_status r \<noteq> JPENDING)"
proof (rule reply_stops [OF assms, of moment])
  fix l' w'
  assume a: "stop_lead reply moment w = (Inr (Some l'), w')"
    and s: "stop_on_reply c l (cl_intent reply) moment = Inr l'"
    and b: "is_stopped l'" "lead_in w' i = Some l'"
    and n: "\<And>r. r \<in> set (send_job_rows w') \<Longrightarrow> jr_lead_id r = i \<Longrightarrow> jr_status r \<noteq> JPENDING"
  have "\<not> is_stopped l" using assms(5) by (auto simp: is_stopped_def REPLYABLE_STATES_def)
  with stop_on_reply_Inr_D(2) [OF s] a b n show ?thesis by auto
qed

theorem reply_stops_lead_witness:
  "\<exists>l' w'. stop_lead (sample_reply ''bounce'') 50
       (sample_world (sample_lead DONE 2) [sample_done_job, sample_job 8 2 JPENDING]) = (Inr (Some l'), w')
     \<and> is_stopped l' \<and> l_state l' = FAILED"
  using reply_stops_lead [of "sample_reply ''bounce''" 30
      "sample_world (sample_lead DONE 2) [sample_done_job, sample_job 8 2 JPENDING]" 6 "sample_lead DONE 2" _ 50]
  by (auto simp: lead_of_outbound_def sample_job_rows sample_lead_in sample_campaign_in
        REPLYABLE_STATES_def BOUNCE_INTENT_def)

text \<open>
  No step of a lead is sent twice: along any number of rounds of the worker, with any replies,
  any failures of the provider and any jobs in the queue, the log never reports the same step of
  the same lead as sent a second time, and every step it reports lies between the lead's progress
  before and after the rounds.
\<close>
theorem no_step_sent_twice:
  assumes "UUID_parse (mailbox_workspace_id s) = Inr ws"
    and "worker_loop n s receive classify sender worker_id idle w = (r, w')"
  shows "\<exists>new. log_lines w' = log_lines w @ new \<and> distinct (sent_steps new)
     \<and> (\<forall>i p. (i, p) \<in> set (sent_steps new) \<longrightarrow> progress ws w i < p \<and> p \<le> progress ws w' i)"
  using once_worker_loop [OF assms(1), of n receive classify sender worker_id idle] assms(2)
  unfolding once_def sends_once_def by (metis snd_conv)

theorem no_step_sent_twice_witness:
  "\<exists>new. log_lines (snd (worker_loop 3 sample_settings (\<lambda>_ _ _. Inl (HTTPError ''e'' ''x''))
       (\<lambda>_ _. Inr UNCLEAR) sample_sender ''k'' None (sample_world (sample_lead SCHEDULED 0) [sample_job 7 1 JPENDING])))
     = new \<and> distinct (sent_steps new)"
  using no_step_sent_twice [of sample_settings 11 3 "\<lambda>_ _ _. Inl (HTTPError ''e'' ''x'')"
      "\<lambda>_ _. Inr UNCLEAR" sample_sender "''k''" None
      "sample_world (sample_lead SCHEDULED 0) [sample_job 7 1 JPENDING]", OF _ surjective_pairing]
  by (simp add: sample_workspace)

text \<open>
  C12. The provider is asked to send a mail only when every guard holds, and then exactly once: the
  workspace has the mailbox, the address is not suppressed, no other sender holds the mailbox's
  lock and the day's cap is not reached; the mail goes from that mailbox to that address with
  the given text.
\<close>
theorem provider_only_behind_guards:
  assumes "email_dispatch sender ws email subject body w = (r, w')" and "wire w' \<noteq> wire w"
  shows "\<exists>mb m answer. wire w' = wire w @ [(m, answer)] \<and> mailbox_of w ws = Some mb
     \<and> \<not> is_suppressed_in w ws email \<and> lock_key w mb \<notin> set (held w)
     \<and> sent_since w (mb_id mb) (today w) < mb_daily_send_cap mb
     \<and> ml_from m = mb_email_address mb \<and> ml_to m = email \<and> ml_subject m = subject \<and> ml_body m = body"
proof (rule dispatch_wire [OF assms])
  fix mb answer
  assume "may_send w ws email mb"
    and "wire w' = wire w @ [(mail_of w mb email subject body, answer)]"
  then show ?thesis unfolding may_send_def
    by (intro exI [of _ mb] exI [of _ "mail_of w mb email subject body"] exI [of _ answer]) simp
qed

theorem provider_only_behind_guards_witness:
  "\<exists>m answer. wire (snd (email_dispatch sample_sender 11 ''a@b.c'' ''Hi'' ''b''
       (sample_world (sample_lead SCHEDULED 0) []))) = [(m, answer)] \<and> ml_to m = ''a@b.c''"
proof -
  let ?w = "sample_world (sample_lead SCHEDULED 0) []"
  let ?d = "email_dispatch sample_sender 11 ''a@b.c'' ''Hi'' ''b'' ?w"
  have "wire (snd ?d) \<noteq> wire ?w" by (simp add: sample_dispatch dispatched_def)
  from provider_only_behind_guards [OF surjective_pairing this] show ?thesis by auto
qed

text \<open>
  When every guard holds, the row can be stored and the provider accepts, the dispatch answers
  that the mail was sent, and the stored row carries the provider's identifiers and the address.
\<close>
theorem accepted_mail_is_recorded:
  assumes "may_send w ws email mb"
    and "sender (length (wire w)) (mail_of w mb email subject body) = Inr answer"
    and "length email \<le> 320" and "length (om_rfc822_message_id (row_of w ws mb email subject body)) \<le> 998"
    and "length (se_provider_message_id answer) \<le> 64" and "length (se_provider_thread_id answer) \<le> 64"
    and "next_uuid w \<notin> om_id ` set (t_outbound (db w))"
    and "om_rfc822_message_id (row_of w ws mb email subject body) \<notin> om_rfc822_message_id ` set (t_outbound (db w))"
  shows "\<exists>w' row. email_dispatch sender ws email subject body w
      = (Inr (DispatchSent (om_id row) (om_created_at row)), w')
    \<and> t_outbound (db w') = t_outbound (db w) @ [row] \<and> om_to_email row = email
    \<and> om_provider_message_id row = Some (se_provider_message_id answer)
    \<and> om_provider_thread_id row = Some (se_provider_thread_id answer)
    \<and> om_workspace_id row = ws \<and> om_mailbox_id row = mb_id mb"
  using dispatch_delivers [of w ws email mb sender subject body answer] assms
  by (intro exI [of _ "dispatched w ws mb email subject body answer"]
        exI [of _ "marked (row_of w ws mb email subject body) answer"])
     (simp add: dispatched_def marked_def sent_def row_of_def outbound_for_def)

theorem accepted_mail_is_recorded_witness:
  "\<exists>w' row. email_dispatch sample_sender 11 ''a@b.c'' ''Hi'' ''b'' (sample_world (sample_lead SCHEDULED 0) [])
      = (Inr (DispatchSent (om_id row) (om_created_at row)), w')
    \<and> t_outbound (db w') = [row] \<and> om_provider_message_id row = Some ''p1''"
  using accepted_mail_is_recorded [OF sample_may_send, of sample_sender "sample_lead SCHEDULED 0" "[]"
      "''a@b.c''" "''Hi''" "''b''" "\<lparr> se_provider_message_id = ''p1'', se_provider_thread_id = ''t1'' \<rparr>"]
  by (auto simp: sample_sender_def sample_row_id)

text \<open>
  A dispatch that does not answer \<open>Sent\<close> leaves every table as it was, whatever failed and at
  which point: the savepoint takes back the row of a mail the provider refused.
\<close>
theorem failed_dispatch_writes_nothing:
  assumes "email_dispatch sender ws email subject body w = (Inr r, w')" and "\<nexists>i t. r = DispatchSent i t"
  shows "db w' = db w"
  using assms by (intro dispatch_atomic) auto

theorem failed_dispatch_writes_nothing_witness:
  "db (snd (email_dispatch (\<lambda>_ _. Inl (HTTPError ''ConnectError'' ''x'')) 11 ''a@b.c'' ''Hi'' ''b''
      (sample_world (sample_lead SCHEDULED 0) []))) = db (sample_world (sample_lead SCHEDULED 0) [])"
proof -
  let ?w = "sample_world (sample_lead SCHEDULED 0) []"
  let ?s = "\<lambda>_ _. Inl (HTTPError ''ConnectError'' ''x'')"
  obtain r w' where run: "email_dispatch ?s 11 ''a@b.c'' ''Hi'' ''b'' ?w = (r, w')" by fastforce
  show ?thesis
  proof (cases rule: email_dispatch_cases [of ?w 11 "''a@b.c''" ?s "''Hi''" "''b''"])
    case (sent mb answer)
    then show ?thesis by simp
  next
    case (refused r1 w1)
    then show ?thesis using failed_dispatch_writes_nothing [OF refused(2)] by auto
  next
    case (failed mb r1 w1)
    then show ?thesis using failed_dispatch_writes_nothing [OF failed(2)] by auto
  qed
qed

text \<open>
  C13. The daily cap: no dispatch takes the number of emails a mailbox had accepted on a UTC day
  past the mailbox's cap, as long as the two clock readings of the dispatch fall on one day.
\<close>
theorem daily_cap_is_kept:
  assumes "email_dispatch sender ws email subject body w = (r, w')"
    and "mailbox_of w ws = Some mb" and "sent_on w (mb_id mb) d \<le> mb_daily_send_cap mb"
    and "start_of_utc_day (clock_at w (Suc (reads w))) = today w"
  shows "sent_on w' (mb_id mb) d \<le> mb_daily_send_cap mb"
  by (rule dispatch_keeps_cap [OF assms])

theorem daily_cap_is_kept_witness:
  "sent_on (snd (email_dispatch sample_sender 11 ''a@b.c'' ''Hi'' ''b''
      (sample_world (sample_lead SCHEDULED 0) []))) 2 0 \<le> 20"
  using daily_cap_is_kept [where sender = sample_sender and ws = 11 and email = "''a@b.c''"
      and subject = "''Hi''" and body = "''b''" and w = "sample_world (sample_lead SCHEDULED 0) []"
      and mb = sample_mailbox and d = 0, OF surjective_pairing]
  by (simp add: sample_mailbox_of sent_on_def outbound_rows_def today_def start_of_utc_day_def
        one_day_def seconds_def)

text \<open>
  The answer to every mail that a guard refuses: nothing reaches the provider and no table
  changes; a missing mailbox fails, a suppressed address is reported as suppressed, a mailbox
  that another sender holds defers by five seconds, and a reached cap defers to the next
  midnight of UTC, which is after the moment read from the clock.
\<close>
theorem refusals_of_dispatch:
  assumes "\<nexists>mb. may_send w ws email mb"
  shows "\<exists>r w'. email_dispatch sender ws email subject body w = (Inr r, w')
    \<and> wire w' = wire w \<and> db w' = db w
    \<and> (case mailbox_of w ws of
          None \<Rightarrow> r = DispatchFailed ''mailbox not configured''
        | Some mb \<Rightarrow>
            if is_suppressed_in w ws email then r = DispatchSuppressed
            else if lock_key w mb \<in> set (held w)
            then r = DispatchDeferred (clock_at w (reads w) + seconds 5) ''mailbox busy''
            else r = DispatchDeferred (today w + one_day) ''daily send cap reached''
              \<and> mb_daily_send_cap mb \<le> sent_since w (mb_id mb) (today w)
              \<and> clock_at w (reads w) < today w + one_day \<and> start_of_utc_day (today w + one_day) = today w + one_day)"
proof (cases "mailbox_of w ws")
  case None
  then show ?thesis by (simp add: dispatch_no_mailbox)
next
  case (Some mb)
  then have "is_suppressed_in w ws email \<or> lock_key w mb \<in> set (held w)
      \<or> mb_daily_send_cap mb \<le> sent_since w (mb_id mb) (today w)"
    using assms by (auto simp: may_send_def not_less)
  then consider "is_suppressed_in w ws email"
    | "\<not> is_suppressed_in w ws email" "lock_key w mb \<in> set (held w)"
    | "\<not> is_suppressed_in w ws email" "lock_key w mb \<notin> set (held w)"
      "mb_daily_send_cap mb \<le> sent_since w (mb_id mb) (today w)"
    by blast
  then show ?thesis
    using Some dispatch_suppressed dispatch_busy dispatch_capped cap_retry_is_next_day
    by cases (simp_all add: BUSY_MAILBOX_RETRY_DELAY_def)
qed

theorem refusals_of_dispatch_witness:
  "\<exists>w'. email_dispatch sample_sender 11 ''a@b.c'' ''Hi'' ''b''
      ((sample_world (sample_lead SCHEDULED 0) [])\<lparr>held := [0]\<rparr>)
    = (Inr (DispatchDeferred (1000 + seconds 5) ''mailbox busy''), w') \<and> wire w' = []"
proof -
  let ?w = "(sample_world (sample_lead SCHEDULED 0) [])\<lparr>held := [0]\<rparr>"
  have mb: "mailbox_of ?w 11 = Some sample_mailbox"
    by (simp add: mailbox_of_def mailbox_rows_def sees_def)
  have sup: "\<not> is_suppressed_in ?w 11 ''a@b.c''"
    by (simp add: is_suppressed_in_def suppression_rows_def)
  have "\<nexists>mb. may_send ?w 11 ''a@b.c'' mb" by (auto simp: may_send_def lock_key_def)
  from refusals_of_dispatch [OF this, of sample_sender "''Hi''" "''b''"] mb sup
  show ?thesis by (auto simp: lock_key_def)
qed

section \<open>The queue\<close>

text \<open>
  C14. What a claim hands to a worker: at most the limit, each job once, in the order of their
  schedule, and every one a row that was due (or whose previous claim has expired) and that no
  other transaction had locked, with its attempt counted.
\<close>
theorem claim_takes_due_jobs:
  assumes "job_keys w" and "claim_due_send_jobs ws worker_id lim moment w = (Inr js, w')"
  shows "length js \<le> lim \<and> sorted (map cj_scheduled_at js) \<and> distinct (map cj_id js)
    \<and> (\<forall>j\<in>set js. \<exists>r\<in>set (send_job_rows w). cj_id j = jr_id r \<and> cj_payload j = jr_payload r
         \<and> cj_attempts j = jr_attempts r + 1 \<and> jr_workspace_id r = ws \<and> jr_id r \<notin> set (row_locks w)
         \<and> (jr_status r = JPENDING \<and> jr_scheduled_at r \<le> moment
            \<or> jr_status r = JRUNNING \<and> (\<exists>since. jr_locked_at r = Some since \<and> since + CLAIM_LEASE < moment)))"
proof -
  note c = jobs_claim_result [OF assms(1) assms(2) [unfolded claim_due_send_jobs_def]]
  have "\<exists>r\<in>set (send_job_rows w). cj_id j = jr_id r \<and> cj_payload j = jr_payload r
         \<and> cj_attempts j = jr_attempts r + 1 \<and> jr_workspace_id r = ws \<and> jr_id r \<notin> set (row_locks w)
         \<and> (jr_status r = JPENDING \<and> jr_scheduled_at r \<le> moment
            \<or> jr_status r = JRUNNING \<and> (\<exists>since. jr_locked_at r = Some since \<and> since + CLAIM_LEASE < moment))"
    if j: "j \<in> set js" for j
    using c(4) [OF j] by (fastforce simp: claimable_def claimed_of_row_def split: option.splits)
  with c(1-3) show ?thesis by blast
qed

theorem claim_takes_due_jobs_witness:
  "\<exists>js w'. claim_due_send_jobs 11 ''k'' 10 500 (sample_world (sample_lead SCHEDULED 0) [sample_job 7 1 JPENDING])
       = (Inr js, w') \<and> length js \<le> 10 \<and> distinct (map cj_id js)"
proof -
  let ?w = "sample_world (sample_lead SCHEDULED 0) [sample_job 7 1 JPENDING]"
  obtain js w' where run: "claim_due_send_jobs 11 ''k'' 10 500 ?w = (Inr js, w')"
    by (simp add: claim_due_send_jobs_def jobs_claim_run)
  have "job_keys ?w" by (simp add: job_keys_def)
  from claim_takes_due_jobs [OF this run] run show ?thesis by blast
qed



text \<open>
  C16. The claim is the statement that the database runs: over the rows of the session as the driver sees
  them, with the statuses as texts and the payload as JSON, the text of the \<open>UPDATE\<close> with its subquery
  returns rows that read back as the claims the worker gets, in its order, and leaves the table that
  the claim leaves.
\<close>
theorem claim_runs_the_statement:
  assumes "reads_own_text lax" and "\<forall>r\<in>set (send_job_rows w). version_1 (jr_payload r)"
  shows "case CLAIM_STATEMENT (row_locks w) ws worker_id lim moment (moment - lease) (map job_columns (send_job_rows w)) of
     (returned, table) \<Rightarrow> (\<exists>js. loads (claimed_of_columns lax) returned = Inr js
         \<and> fst (jobs_claim ws worker_id lim moment lease w) = Inr (sort_key cj_scheduled_at js))
       \<and> map job_columns (send_job_rows (snd (jobs_claim ws worker_id lim moment lease w))) = table"
proof -
  let ?after = "send_job_rows (snd (jobs_claim ws worker_id lim moment lease w))"
  let ?rs = "filter (\<lambda>r. jr_id r \<in> set (map jr_id (claim_rows w ws lim moment (moment - lease)))) ?after"
  have "version_1 (jr_payload r)" if "r \<in> set ?rs" for r
    using that assms(2) unfolding jobs_claim_rows(1) by (auto simp: set_update_rows claimed_row_def)
  then have "loads (claimed_of_columns lax) (map (returning CLAIM_COLUMNS \<circ> job_columns) ?rs) = Inr (map claimed_of_row ?rs)"
    by (rule claims_read_back [OF assms(1)])
  then show ?thesis
    by (simp only: CLAIM_STATEMENT_jobs claim_rows_def [symmetric] jobs_claim_rows prod.case) blast
qed

theorem claim_runs_the_statement_witness:
  "\<exists>js. loads (claimed_of_columns strict_readers) (fst (CLAIM_STATEMENT [] 11 ''k'' 10 500 (500 - CLAIM_LEASE)
         [job_columns (sample_job 7 1 JPENDING)])) = Inr js
     \<and> fst (jobs_claim 11 ''k'' 10 500 CLAIM_LEASE (sample_world (sample_lead SCHEDULED 0) [sample_job 7 1 JPENDING]))
       = Inr (sort_key cj_scheduled_at js)"
proof -
  let ?w = "sample_world (sample_lead SCHEDULED 0) [sample_job 7 1 JPENDING]"
  have "\<forall>r\<in>set (send_job_rows ?w). version_1 (jr_payload r)"
    by (simp add: sample_job_rows sample_job_def sample_payload_def version_1_def)
  from claim_runs_the_statement [OF strict_reads_own_text this, of 11 "''k''" 10 500 CLAIM_LEASE]
  have "\<exists>js. loads (claimed_of_columns strict_readers) (fst (CLAIM_STATEMENT (row_locks ?w) 11 ''k'' 10 500 (500 - CLAIM_LEASE)
         (map job_columns (send_job_rows ?w)))) = Inr js
     \<and> fst (jobs_claim 11 ''k'' 10 500 CLAIM_LEASE ?w) = Inr (sort_key cj_scheduled_at js)"
    unfolding case_prod_unfold by (rule conjunct1)
  then show ?thesis by (simp add: sample_job_rows)
qed

text \<open>
  Nothing due is left behind: when at most as many jobs can be claimed as the limit, every
  one of them that is not locked is in the claim, and so is a job whose worker died, once its
  lease has run out.
\<close>
theorem claim_is_complete:
  assumes "job_keys w" and "claim_due_send_jobs ws worker_id lim moment w = (Inr js, w')"
    and "length (filter (claimable ws moment (moment - CLAIM_LEASE)) (send_job_rows w)) \<le> lim"
    and "r \<in> set (send_job_rows w)" and "claimable ws moment (moment - CLAIM_LEASE) r"
    and "jr_id r \<notin> set (row_locks w)"
  shows "jr_id r \<in> cj_id ` set js"
proof -
  let ?due = "filter (claimable ws moment (moment - CLAIM_LEASE)) (send_job_rows w)"
  have "length (filter (\<lambda>r. jr_id r \<notin> set (row_locks w)) (sort_key jr_scheduled_at ?due)) \<le> lim"
    by (rule order_trans [OF length_filter_le]) (simp add: assms(3))
  then have "r \<in> set (claim_rows w ws lim moment (moment - CLAIM_LEASE))"
    unfolding claim_rows_def using assms(4-6) by simp
  then show ?thesis
    using assms(2) assms(4)
    by (auto simp: claim_due_send_jobs_def jobs_claim_run claimed_of_row_def image_iff
          intro!: bexI [of _ r])
qed

theorem claim_is_complete_witness:
  "\<exists>js w'. claim_due_send_jobs 11 ''k'' 10 (seconds 301)
       (sample_world (sample_lead SCHEDULED 0) [(sample_job 7 1 JRUNNING)\<lparr>jr_locked_at := Some 0\<rparr>])
     = (Inr js, w') \<and> 7 \<in> cj_id ` set js"
proof -
  let ?r = "(sample_job 7 1 JRUNNING)\<lparr>jr_locked_at := Some 0\<rparr>"
  let ?w = "sample_world (sample_lead SCHEDULED 0) [?r]"
  obtain js w' where run: "claim_due_send_jobs 11 ''k'' 10 (seconds 301) ?w = (Inr js, w')"
    by (simp add: claim_due_send_jobs_def jobs_claim_run)
  have keys: "job_keys ?w" by (simp add: job_keys_def)
  have "?r \<in> set (send_job_rows ?w)" by (simp add: sample_job_rows)
  moreover have "claimable 11 (seconds 301) (seconds 301 - CLAIM_LEASE) ?r"
    by (simp add: claimable_def seconds_def CLAIM_LEASE_def)
  ultimately have "jr_id ?r \<in> cj_id ` set js"
    using claim_is_complete [OF keys run, of ?r] by (simp add: sample_job_rows)
  with run show ?thesis by auto
qed

text \<open>
  Processing a job moves nothing but its own lead, and moves it along the lead's state
  machine: either no lead changes, or exactly the lead of the job, which accepted the job's
  step, takes one step of the aggregate's operations; with the outcome \<open>sent\<close> its progress
  becomes the position of the job.
\<close>
theorem processing_moves_one_lead:
  assumes "process_claimed (email_dispatch sender) claim moment w = (res, w')"
  shows "t_leads (db w') = t_leads (db w) \<and> res \<noteq> Inr O_SENT
     \<or> (\<exists>c l l'. campaign_in w (p_campaign_id (cj_payload claim)) = Some c
          \<and> lead_in w (cj_lead_id claim) = Some l \<and> accepts_send c l (p_step_position (cj_payload claim))
          \<and> lead_move c l l' \<and> l_id l' = l_id l \<and> t_leads (db w') = t_leads (db (put_lead l' w))
          \<and> (res = Inr O_SENT \<longrightarrow> l_steps_sent l' = p_step_position (cj_payload claim)))"
  using messaging.process_effect [OF assms] unfolding lead_effect_def by blast

theorem processing_moves_one_lead_witness:
  "(\<lambda>(res, w'). t_leads (db w') = [sample_lead SCHEDULED 0] \<and> res \<noteq> Inr O_SENT
     \<or> (\<exists>c l'. lead_move c (sample_lead SCHEDULED 0) l'))
   (process_claimed (email_dispatch sample_sender) (sample_claim 1) 60
     (sample_world (sample_lead SCHEDULED 0) [sample_job 7 1 JRUNNING]))"
  using processing_moves_one_lead [where sender = sample_sender and claim = "sample_claim 1" and moment = 60
      and w = "sample_world (sample_lead SCHEDULED 0) [sample_job 7 1 JRUNNING]", OF surjective_pairing]
  by (auto simp: sample_lead_in split: prod.splits)

text \<open>
  A step that was sent schedules the next: when the provider took the mail of a step that is
  not the last, the lead records it, the job is done with the message it sent, and the queue
  holds a new pending job for the following step, due its delay after the sending.
\<close>
theorem sent_step_schedules_next:
  assumes "accepts_send c l k" and "lead_in w (l_id l) \<noteq> None" and "0 < k" and "k < int (length (c_steps c))"
    and "p_step_position (cj_payload claim) = k"
    and "guc w = Some (c_workspace_id c)" and "next_uuid w \<notin> jr_id ` set (t_send_jobs (db w))"
  shows "\<exists>w' j. settle claim moment c l (DispatchSent out sent_at) w = (Inr O_SENT, w')
     \<and> t_send_jobs (db w') = t_send_jobs (db (put_job (cj_id claim) (job_done out moment) w)) @ [j]
     \<and> jr_status j = JPENDING \<and> jr_lead_id j = l_id l \<and> jr_attempts j = 0
     \<and> jr_payload j = payload_of c l (c_steps c ! nat k)
     \<and> jr_scheduled_at j = sent_at + seconds (s_delay_seconds (c_steps c ! nat k))
     \<and> t_leads (db w') = t_leads (db (put_lead (l\<lparr>l_state := SENT, l_updated_at := sent_at, l_steps_sent := k\<rparr>) w))"
proof -
  let ?j = "send_job_to_row (job_for c (c_steps c ! nat k) sent_at l (next_uuid w) (clock_at w (reads w)))"
  let ?v = "put_job (cj_id claim) (job_done out moment)
       (put_lead (l\<lparr>l_state := SENT, l_updated_at := sent_at, l_steps_sent := k\<rparr>)
         (w\<lparr>next_uuid := Suc (next_uuid w), reads := Suc (reads w)\<rparr>))"
  show ?thesis
    unfolding settle_sent_stores [OF assms]
    by (intro exI [of _ "with_job ?j ?v"] exI [of _ ?j])
       (simp add: send_job_to_row_def job_for_def put_job_def put_lead_def sees_def)
qed

theorem sent_step_schedules_next_witness:
  "\<exists>w' j. settle (sample_claim 1) 60 (sample_campaign) (sample_lead SCHEDULED 0) (DispatchSent 100 1001)
        (sample_world (sample_lead SCHEDULED 0) [sample_job 7 1 JRUNNING]) = (Inr O_SENT, w')
     \<and> j \<in> set (t_send_jobs (db w')) \<and> jr_scheduled_at j = 1001 + seconds 60"
proof -
  let ?w = "sample_world (sample_lead SCHEDULED 0) [sample_job 7 1 JRUNNING]"
  have "accepts_send sample_campaign (sample_lead SCHEDULED 0) 1"
    by (simp add: accepts_send_def is_active_def SENDABLE_STATES_def)
  from sent_step_schedules_next [OF this, of ?w "sample_claim 1" 60 100 1001]
  show ?thesis by (force simp: sample_lead_in)
qed

text \<open>
  C17. Failures are bounded: a job whose dispatch failed is put back, to be tried one minute per
  attempt later, at its first and second attempt, and at the third the job is failed and its
  lead stops with the reason \<open>send_failed\<close>.
\<close>
theorem failed_sends_are_bounded:
  assumes "accepts_send c l k" and "lead_in w (l_id l) = Some l"
  shows "\<exists>w'. settle claim moment c l (DispatchFailed err) w =
        (Inr (if cj_attempts claim < 3 then O_RETRYING else O_FAILED), w')
     \<and> (\<forall>r. job_in w' (cj_id claim) = Some r \<longrightarrow> jr_last_error r = Some err
         \<and> (if cj_attempts claim < 3
            then jr_status r = JPENDING \<and> jr_scheduled_at r = moment + seconds (60 * cj_attempts claim)
            else jr_status r = JFAILED))
     \<and> lead_in w' (l_id l) = Some (if cj_attempts claim < 3 then l
          else l\<lparr>l_state := FAILED, l_updated_at := moment, l_stop_reason := Some SEND_FAILED\<rparr>)"
proof (cases "cj_attempts claim < 3")
  case True
  then show ?thesis
    using settle_retrying [OF next_retry_at_Some [OF True]] assms(2) by (auto simp: job_in_put)
next
  case False
  then have n: "next_retry_at (cj_attempts claim) moment = None" by (simp add: next_retry_at_None)
  show ?thesis
    using settle_failed [OF n _ assms(1), of w err] assms(2) False
    by (auto simp: job_in_put lead_in_put overwrite_def)
qed

theorem failed_sends_are_bounded_witness:
  "\<exists>w'. settle ((sample_claim 1)\<lparr>cj_attempts := 3\<rparr>) 60 sample_campaign (sample_lead SCHEDULED 0)
       (DispatchFailed ''x'') (sample_world (sample_lead SCHEDULED 0) [sample_job 7 1 JRUNNING])
     = (Inr O_FAILED, w') \<and> map_option l_state (lead_in w' 6) = Some FAILED"
proof -
  have "accepts_send sample_campaign (sample_lead SCHEDULED 0) 1"
    by (simp add: accepts_send_def is_active_def SENDABLE_STATES_def)
  from failed_sends_are_bounded [OF this, of "sample_world (sample_lead SCHEDULED 0) [sample_job 7 1 JRUNNING]"
      "(sample_claim 1)\<lparr>cj_attempts := 3\<rparr>" 60 "''x''"]
  show ?thesis by (auto simp: sample_lead_in)
qed

text \<open>
  A deferral costs no attempt: a job that is claimed and then released because the mailbox
  was busy or its cap reached is pending again at the time the dispatch gave, with as many
  attempts as before the claim and free of its claim.
\<close>
theorem deferral_costs_no_attempt:
  assumes "job_keys w" and "claim_due_send_jobs ws k lim moment w = (Inr js, w1)" and "j \<in> set js"
    and "job_in w (cj_id j) = Some r"
  shows "\<exists>w2 r'. settle j later c l (DispatchDeferred later_at reason) w1 = (Inr O_DEFERRED, w2)
     \<and> job_in w2 (cj_id j) = Some r' \<and> jr_attempts r' = jr_attempts r \<and> jr_status r' = JPENDING
     \<and> jr_scheduled_at r' = later_at \<and> jr_locked_at r' = None \<and> jr_locked_by r' = None
     \<and> jr_payload r' = jr_payload r"
proof -
  have w1: "w1 = claimed_world (cj_id ` set js) moment k w"
    using jobs_claim_result(5) [OF assms(1)] assms(2) by (simp add: claim_due_send_jobs_def)
  have "job_in w1 (cj_id j) = Some (claimed_row moment k r)"
    using assms(3,4) job_in_id [OF assms(4)]
    unfolding w1 job_in_def claimed_rows by (simp add: find_update_rows)
  then show ?thesis
    by (simp add: settle_deferred job_in_put claimed_row_def)
qed

theorem deferral_costs_no_attempt_witness:
  "\<exists>js w1 w2. claim_due_send_jobs 11 ''k'' 10 500
       (sample_world (sample_lead SCHEDULED 0) [sample_job 7 1 JPENDING]) = (Inr js, w1) \<and> js \<noteq> []
     \<and> settle (hd js) 600 sample_campaign (sample_lead SCHEDULED 0) (DispatchDeferred 700 ''busy'') w1 = (Inr O_DEFERRED, w2)
     \<and> map_option jr_attempts (job_in w2 7) = Some 0"
proof -
  let ?w = "sample_world (sample_lead SCHEDULED 0) [sample_job 7 1 JPENDING]"
  let ?j = "claimed_of_row (claimed_row 500 ''k'' (sample_job 7 1 JPENDING))"
  have run: "claim_due_send_jobs 11 ''k'' 10 500 ?w = (Inr [?j], claimed_world {7} 500 ''k'' ?w)"
    by (rule sample_claimed) simp
  have keys: "job_keys ?w" by (simp add: job_keys_def)
  have "job_in ?w (cj_id ?j) = Some (sample_job 7 1 JPENDING)"
    by (simp add: job_in_def sample_job_rows claimed_of_row_def)
  from deferral_costs_no_attempt [OF keys run _ this, of 600 sample_campaign "sample_lead SCHEDULED 0" 700 "''busy''"]
  show ?thesis using run by (auto simp: claimed_of_row_def)
qed

section \<open>The aggregate\<close>

text \<open>
  C18. Every lead that the constructor and any sequence of the aggregate's operations can produce
  is well formed: its progress fits its state (0 before the first step, all steps when done), it
  carries a stop reason exactly when it is stopped, the reason fits the state, and a reply intent
  is there only for a lead that had been sent something.
\<close>
theorem reachable_leads_well_formed:
  assumes "lead_reachable c l" and "c_steps c \<noteq> []"
  shows "wf_lead c l"
  by (rule lead_reachable_wf [OF assms])

theorem reachable_leads_well_formed_witness:
  "wf_lead sample_campaign (pending_lead 11 3 ''a@b.c'' 6 0)"
proof -
  have "Lead_new 11 (c_id sample_campaign) ''a@b.c'' \<lparr> clock_at = \<lambda>_. 0, reads = 0, next_uuid = 6 \<rparr>
      = (Inr (pending_lead 11 3 ''a@b.c'' 6 0) :: exn + lead, \<lparr> clock_at = \<lambda>_. 0, reads = 1, next_uuid = 7 \<rparr>)"
    unfolding Lead_new_run pending_lead_def
    by (simp add: normalize_email_def strip_def strip_by_def lower_def lower_char_def isupper_def isspace_def)
  then have "lead_reachable sample_campaign (pending_lead 11 3 ''a@b.c'' 6 0)"
    by (rule lead_reachable.fresh)
  then show ?thesis by (rule reachable_leads_well_formed) simp
qed

text \<open>
  C19. The operations of the aggregate implement the documented state diagram: a move that changes
  a lead follows an edge of the diagram, raises its progress by at most one step, and a lead that
  is paused or failed never moves again.
\<close>
theorem moves_follow_the_diagram:
  assumes "lead_move c l l'"
  shows "(l' = l \<or> documented_edge (l_state l) (l_state l'))
     \<and> l_steps_sent l' \<in> {l_steps_sent l, l_steps_sent l + 1} \<and> (is_stopped l \<longrightarrow> l' = l)"
  using assms lead_move_documented lead_move_steps lead_move_stopped by blast

theorem moves_follow_the_diagram_witness:
  "documented_edge SENT PAUSED \<and> is_stopped ((sample_lead SENT 1)\<lparr>l_state := PAUSED, l_updated_at := 5,
     l_stop_reason := Some REPLIED, l_reply_intent := Some ''positive''\<rparr>)"
proof -
  have "lead_move sample_campaign (sample_lead SENT 1) ((sample_lead SENT 1)\<lparr>l_state := PAUSED, l_updated_at := 5,
     l_stop_reason := Some REPLIED, l_reply_intent := Some ''positive''\<rparr>)"
    by (rule lead_move.replies [of _ _ "''positive''" 5])
       (simp add: stop_on_reply_reply REPLYABLE_STATES_def BOUNCE_INTENT_def UNSUBSCRIBE_INTENT_def)
  from moves_follow_the_diagram [OF this] show ?thesis
    by (auto simp: is_stopped_def dest: arg_cong [of _ _ l_state])
qed

text \<open>
  Recording a sent step never fails on a well formed lead: for an active campaign and a lead
  that may be sent to, recording the step after its progress succeeds, no index runs out of the
  steps, the lead stays well formed, and it is done exactly when that step was the last.
\<close>
theorem record_sent_total:
  assumes "wf_campaign c" and "is_active c" and "wf_lead c l" and "l_state l \<in> SENDABLE_STATES"
  shows "\<exists>l' nj w'. record_sent c l (l_steps_sent l + 1) t w = (Inr (l', nj), w')
     \<and> wf_lead c l' \<and> l_steps_sent l' = l_steps_sent l + 1
     \<and> (nj = None \<longleftrightarrow> l_state l' = DONE) \<and> (l_state l' = DONE \<longleftrightarrow> l_steps_sent l' = int (length (c_steps c)))
     \<and> (\<forall>j. nj = Some j \<longrightarrow> p_step_position (j_payload j) = l_steps_sent l' + 1 \<and> j_lead_id j = l_id l
          \<and> t \<le> j_scheduled_at j)"
proof -
  let ?k = "l_steps_sent l + 1" and ?n = "int (length (c_steps c))"
  have acc: "accepts_send c l ?k" using assms by (simp add: accepts_send_def wf_lead_def)
  have k: "0 < ?k" "?k \<le> ?n" and steps: "c_steps c \<noteq> []"
    using assms by (auto simp: wf_lead_def SENDABLE_STATES_def wf_campaign_def Suc_le_eq split: lead_state.splits)
  have wf: "wf_lead c l'" if "record_sent c l ?k t w = (Inr (l', nj), w')" for l' nj w'
    using lead_move_wf [OF record_sent_move [OF that]] assms(3) steps by blast
  show ?thesis
  proof (cases "?k = ?n")
    case True
    with record_sent_last [OF acc True, of t w] wf [OF record_sent_last [OF acc True]]
    show ?thesis by simp
  next
    case False
    with k have less: "?k < ?n" by simp
    have pos: "s_position (c_steps c ! nat ?k) = ?k + 1" and delay: "0 \<le> s_delay_seconds (c_steps c ! nat ?k)"
      using assms(1) less k by (simp_all add: wf_campaign_def nat_less_iff)
    from record_sent_next [OF acc k(1) less, of t w] wf [OF record_sent_next [OF acc k(1) less]] False pos delay
    show ?thesis by (simp add: job_for_def payload_of_def)
  qed
qed

theorem record_sent_total_witness:
  "\<exists>l' nj w'. record_sent sample_campaign (sample_lead SENT 1) 2 9 \<lparr> clock_at = \<lambda>_. 0, reads = 0, next_uuid = 6 \<rparr>
     = (Inr (l', nj), w') \<and> l_state l' = DONE \<and> nj = None"
proof -
  have "wf_campaign sample_campaign" by (auto simp: wf_campaign_def less_Suc_eq)
  moreover have "wf_lead sample_campaign (sample_lead SENT 1)" by (simp add: wf_lead_def is_stopped_def)
  ultimately show ?thesis
    using record_sent_total [of sample_campaign "sample_lead SENT 1" 9 "\<lparr> clock_at = \<lambda>_. 0, reads = 0, next_uuid = 6 \<rparr>"]
    by (auto simp: is_active_def SENDABLE_STATES_def)
qed

text \<open>
  A campaign is created from exactly the drafts the rules allow: \<open>Campaign.new\<close> succeeds when
  there is a step and no delay is negative, and then the campaign is a draft whose steps are
  those of the drafts, numbered from 1 in their order; otherwise it raises and draws nothing.
\<close>
theorem campaign_creation:
  "(ds = [] \<longrightarrow> Campaign_new ws mb name ds w = (Inl CampaignHasNoStepsError, w))
   \<and> (ds \<noteq> [] \<and> (\<exists>d\<in>set ds. d_delay_seconds d < 0) \<longrightarrow> Campaign_new ws mb name ds w = (Inl NegativeStepDelayError, w))
   \<and> (ds \<noteq> [] \<and> (\<forall>d\<in>set ds. 0 \<le> d_delay_seconds d) \<longrightarrow>
        (\<exists>c w'. Campaign_new ws mb name ds w = (Inr c, w') \<and> wf_campaign c \<and> c_status c = DRAFT
           \<and> c_workspace_id c = ws \<and> c_mailbox_id c = mb \<and> c_name c = name
           \<and> map s_subject (c_steps c) = map d_subject ds \<and> map s_body (c_steps c) = map d_body ds
           \<and> map s_delay_seconds (c_steps c) = map d_delay_seconds ds
           \<and> map s_position (c_steps c) = map (\<lambda>i. int i + 1) [0..<length ds]))"
proof (intro conjI impI)
  assume ok: "ds \<noteq> [] \<and> (\<forall>d\<in>set ds. 0 \<le> d_delay_seconds d)"
  then have run: "Campaign_new ws mb name ds w = (Inr \<lparr> c_id = next_uuid w, c_workspace_id = ws, c_mailbox_id = mb,
        c_name = name, c_status = DRAFT,
        c_steps = map (\<lambda>(i, d). \<lparr> s_id = Suc (next_uuid w) + i, s_position = 1 + int i,
                s_subject = d_subject d, s_body = d_body d,
                s_delay_seconds = d_delay_seconds d \<rparr>) (List.enumerate 0 ds),
        c_created_at = clock_at w (reads w) \<rparr>,
      w\<lparr>next_uuid := Suc (next_uuid w) + length ds, reads := Suc (reads w)\<rparr>)"
    by (intro Campaign_new_run) auto
  from Campaign_new_wf(1) [OF run]
  show "\<exists>c w'. Campaign_new ws mb name ds w = (Inr c, w') \<and> wf_campaign c \<and> c_status c = DRAFT
           \<and> c_workspace_id c = ws \<and> c_mailbox_id c = mb \<and> c_name c = name
           \<and> map s_subject (c_steps c) = map d_subject ds \<and> map s_body (c_steps c) = map d_body ds
           \<and> map s_delay_seconds (c_steps c) = map d_delay_seconds ds
           \<and> map s_position (c_steps c) = map (\<lambda>i. int i + 1) [0..<length ds]"
    unfolding run
    by (simp add: comp_def case_prod_beta', intro conjI nth_equalityI) (simp_all add: nth_enumerate_eq)
qed (auto simp: Campaign_new_no_steps intro: Campaign_new_negative_delay)

theorem campaign_creation_witness:
  "\<exists>c w'. Campaign_new 11 2 ''c'' [\<lparr> d_subject = ''Hi'', d_body = ''b'', d_delay_seconds = 60 \<rparr>]
       \<lparr> clock_at = \<lambda>_. 0, reads = 0, next_uuid = 6 \<rparr> = (Inr c, w')
     \<and> c_status c = DRAFT \<and> map s_subject (c_steps c) = [''Hi''] \<and> map s_position (c_steps c) = [1]"
  using campaign_creation [of "[\<lparr> d_subject = ''Hi'', d_body = ''b'', d_delay_seconds = 60 \<rparr>]" 11 2 "''c''"
      "\<lparr> clock_at = \<lambda>_. 0, reads = 0, next_uuid = 6 \<rparr>"] by auto

text \<open>
  Adding leads adds each new address once: the new leads have the normalised addresses of the
  request that are not empty and not known to the campaign, each at its first occurrence and in
  the order of the request, and all of them are pending members of the campaign.
\<close>
theorem added_leads_are_new:
  "\<exists>ls w'. add_leads c emails known w = (Inr ls, w')
     \<and> map l_email ls = first_occurrences
          (filter (\<lambda>e. e \<noteq> [] \<and> e \<notin> normalize_email ` set known) (map normalize_email emails))
     \<and> distinct (map l_email ls) \<and> distinct (map l_id ls)
     \<and> list_all (\<lambda>l. l_state l = PENDING \<and> l_steps_sent l = 0 \<and> l_campaign_id l = c_id c
          \<and> l_workspace_id l = c_workspace_id c \<and> l_stop_reason l = None) ls"
proof -
  let ?es = "new_emails emails (normalize_email ` set known)"
  let ?ls = "map (\<lambda>(i, e). pending_lead (c_workspace_id c) (c_id c) e (next_uuid w + i) (clock_at w (reads w + i)))
            (List.enumerate 0 ?es)"
  obtain w' where run: "add_leads c emails known w = (Inr ?ls, w')"
    using add_leads_run [of c emails known w] by blast
  have emails: "map l_email ?ls = ?es" by (rule add_leads_emails [OF run])
  have ids: "map l_id ?ls = map (\<lambda>i. next_uuid w + i) [0..<length ?es]"
    by (auto simp: pending_lead_def nth_enumerate_eq intro!: nth_equalityI)
  have "distinct (map l_id ?ls)" unfolding ids by (simp add: distinct_map inj_on_def)
  moreover have "list_all (\<lambda>l. l_state l = PENDING \<and> l_steps_sent l = 0 \<and> l_campaign_id l = c_id c
          \<and> l_workspace_id l = c_workspace_id c \<and> l_stop_reason l = None) ?ls"
    by (auto simp: list_all_iff pending_lead_def)
  moreover have "distinct ?es" by (simp add: new_emails_def)
  then have "distinct (map l_email ?ls)" by (simp only: emails)
  ultimately show ?thesis
    using run emails unfolding new_emails_def [symmetric] by (intro exI [of _ ?ls] exI [of _ w'] conjI)
qed

text \<open>
  Starting a draft with its pending leads makes it active, schedules every lead and creates
  one pending job per lead for the first step, due its delay after the start; starting it again
  changes nothing.
\<close>
theorem start_schedules_every_lead:
  assumes "wf_campaign c" and "c_status c = DRAFT"
    and "\<forall>l\<in>set ls. l_campaign_id l = c_id c \<and> l_state l = PENDING"
  shows "\<exists>js w'. start c ls t w = (Inr (c\<lparr>c_status := ACTIVE\<rparr>, map (\<lambda>l. l\<lparr>l_state := SCHEDULED, l_updated_at := t\<rparr>) ls, js), w')
     \<and> map j_lead_id js = map l_id ls \<and> distinct (map j_id js)
     \<and> (\<forall>j\<in>set js. j_status j = JPENDING \<and> p_step_position (j_payload j) = 1
          \<and> j_scheduled_at j = t + seconds (s_delay_seconds (hd (c_steps c))))
     \<and> start (c\<lparr>c_status := ACTIVE\<rparr>) ls' t' v = (Inr (c\<lparr>c_status := ACTIVE\<rparr>, [], []), v)"
proof -
  let ?c = "c\<lparr>c_status := ACTIVE\<rparr>"
  obtain s ss where s: "c_steps c = s # ss" using assms(1) by (cases "c_steps c") (auto simp: wf_campaign_def)
  have pos: "s_position s = 1" using assms(1) s by (auto simp: wf_campaign_def dest: spec [of _ 0])
  let ?js = "map (\<lambda>(i, l). job_for ?c s t l (next_uuid w + i) (clock_at w (reads w + i))) (List.enumerate 0 ls)"
  have run: "start c ls t w = (Inr (?c, map (\<lambda>l. moved l SCHEDULED t (\<lambda>x. x)) ls, ?js),
      w\<lparr>next_uuid := next_uuid w + length ls, reads := reads w + length ls\<rparr>)"
    using schedule_run [of ?c s ss ls t w] assms s by (simp add: start_def is_active_def Let_def)
  have "map j_id ?js = map (\<lambda>i. next_uuid w + i) [0..<length ls]"
    by (auto simp: job_for_def nth_enumerate_eq intro!: nth_equalityI)
  then have "distinct (map j_id ?js)" by (simp add: distinct_map inj_on_def del: map_map)
  moreover have "map j_lead_id ?js = map l_id ls"
    by (auto simp: job_for_def nth_enumerate_eq intro!: nth_equalityI)
  moreover have "\<forall>j\<in>set ?js. j_status j = JPENDING \<and> p_step_position (j_payload j) = 1
          \<and> j_scheduled_at j = t + seconds (s_delay_seconds (hd (c_steps c)))"
    using s pos by (auto simp: job_for_def payload_of_def)
  moreover have "start ?c ls' t' v = (Inr (?c, [], []), v)" by (simp add: start_def is_active_def)
  ultimately show ?thesis using run by (auto simp: moved_def)
qed

theorem start_schedules_every_lead_witness:
  "\<exists>js w'. start (sample_campaign\<lparr>c_status := DRAFT\<rparr>) [sample_lead PENDING 0] 10 \<lparr> clock_at = \<lambda>_. 0, reads = 0, next_uuid = 6 \<rparr>
     = (Inr (sample_campaign, [(sample_lead PENDING 0)\<lparr>l_state := SCHEDULED, l_updated_at := 10\<rparr>], js), w')
     \<and> map j_lead_id js = [6] \<and> (\<forall>j\<in>set js. j_scheduled_at j = 10 + seconds 60)"
proof -
  have "wf_campaign (sample_campaign\<lparr>c_status := DRAFT\<rparr>)" by (auto simp: wf_campaign_def less_Suc_eq)
  from start_schedules_every_lead [OF this, of "[sample_lead PENDING 0]" 10
      "\<lparr> clock_at = \<lambda>_. 0, reads = 0, next_uuid = 6 \<rparr>" "[]" 0 "\<lparr> clock_at = \<lambda>_. 0, reads = 0, next_uuid = 6 \<rparr>"]
  obtain js w' where "start (sample_campaign\<lparr>c_status := DRAFT\<rparr>) [sample_lead PENDING 0] 10
      \<lparr> clock_at = \<lambda>_. 0, reads = 0, next_uuid = 6 \<rparr>
     = (Inr (sample_campaign\<lparr>c_status := ACTIVE\<rparr>, [(sample_lead PENDING 0)\<lparr>l_state := SCHEDULED, l_updated_at := 10\<rparr>], js), w')"
    "map j_lead_id js = [6]" "\<forall>j\<in>set js. j_scheduled_at j = 10 + seconds 60" by auto
  moreover have "sample_campaign\<lparr>c_status := ACTIVE\<rparr> = sample_campaign" by (simp add: sample_campaign_def)
  ultimately show ?thesis by auto
qed

section \<open>Replies\<close>

text \<open>
  C20. Every event is handled once: after a run of the reply handler that committed, no later claim
  of the feed, for whatever limit, hands out an event that the run was given.
\<close>
theorem events_are_handled_once:
  assumes "run_replies ws lim moment w = (Inr stopped, w')" and "feed_sound w"
    and "feed_claim ws lim w = (Inr rs, w1)" and "feed_claim ws' lim' w' = (Inr rs', w2)"
  shows "cl_event_id ` set rs \<inter> cl_event_id ` set rs' = {}"
  using outbox_feed.delivered_once [OF assms(1) [unfolded run_replies_def] assms(2-4)] .

theorem events_are_handled_once_witness:
  "\<exists>stopped w' rs w1 rs' w2. run_replies 11 5 50 sample_feed_world = (Inr stopped, w')
     \<and> feed_claim 11 5 sample_feed_world = (Inr rs, w1) \<and> feed_claim 11 5 w' = (Inr rs', w2)
     \<and> rs \<noteq> [] \<and> cl_event_id ` set rs \<inter> cl_event_id ` set rs' = {}"
proof -
  obtain stopped w' where run: "run_replies 11 5 50 sample_feed_world = (Inr stopped, w')"
    and g: "guc w' = Some 11" "t_outbox (db w') = [sample_event]" "row_locks w' = []"
    by (rule sample_feed_run)
  obtain rs' w2 where claim: "feed_claim 11 5 w' = (Inr rs', w2)"
    by (rule sample_feed_again [OF g])
  have "feed_sound sample_feed_world" by (simp add: feed_sound_def)
  from events_are_handled_once [OF run this sample_feed_claim claim] run claim
  show ?thesis by (auto simp: sample_feed_claim)
qed

text \<open>
  C21. Polling is idempotent: when a poll succeeded and a later poll is given the same messages
  again, in any order and however often, it reports none of them as new, classifies nothing, and
  leaves the messages, the outbox and the suppressions as they are.
\<close>
theorem polling_twice_is_polling_once:
  assumes "receive (mv_email_address mb) (mv_last_sync_cursor mb) w = Inr fetched"
    and "poll_inbox receive classify mb w = (Inr r1, w1)" and "guc w = Some (mv_workspace_id mb)"
    and "receive' (mv_email_address mb') (mv_last_sync_cursor mb') w1 = Inr again"
    and "set (fr_messages again) \<subseteq> set (fr_messages fetched)" and "mv_id mb' = mv_id mb"
    and "poll_inbox receive' classify' mb' w1 = (Inr r2, w2)"
  shows "pr_processed r2 = 0 \<and> pr_classified r2 = [] \<and> t_inbound (db w2) = t_inbound (db w1)
     \<and> t_outbox (db w2) = t_outbox (db w1) \<and> t_suppressions (db w2) = t_suppressions (db w1)"
proof -
  obtain cands n ints wa where
    fold: "foldp (poll_one classify mb) (fr_messages fetched) (unanswered w (mv_id mb), 0, []) w = (Inr (cands, n, ints), wa)"
    and adv: "thenp (gateway_advance_cursor (mv_workspace_id mb) (fr_new_cursor fetched))
        (ret \<lparr> pr_processed = n, pr_classified = ints \<rparr>) wa = (Inr r1, w1)"
    by (rule poll_inbox_stages [OF assms(1,2)])
  have known: "inbound_known w1 (mv_id mb) (fm_provider_message_id f)" if f: "f \<in> set (fr_messages fetched)" for f
  proof -
    have "knows (mv_workspace_id mb) (mv_id mb) (fm_provider_message_id f) wa"
      by (rule fold_then_known [OF fold assms(3) f])
    from keepsD_run [OF keeps_knows_advance this adv] show ?thesis by (rule knows_known)
  qed
  have "foldp (poll_one classify' mb') (fr_messages again) (unanswered w1 (mv_id mb'), 0, []) w1
      = (Inr (unanswered w1 (mv_id mb'), 0, []), w1)"
    using known assms(5,6) by (intro fold_all_known) auto
  with assms(4,7) have adv2: "thenp (gateway_advance_cursor (mv_workspace_id mb') (fr_new_cursor again))
        (ret \<lparr> pr_processed = 0, pr_classified = [] \<rparr>) w1 = (Inr r2, w2)"
    by (simp add: poll_inbox_def outbound_list_unanswered_def)
  then show ?thesis by (auto elim!: thenp_InrE dest!: advance_cursor_frame)
qed

theorem polling_twice_is_polling_once_witness:
  "\<exists>r1 w1 r2 w2. poll_inbox sample_receiver (\<lambda>_ _. Inr UNCLEAR) sample_view (sample_world (sample_lead SENT 1) []) = (Inr r1, w1)
     \<and> poll_inbox sample_receiver (\<lambda>_ _. Inr UNCLEAR) sample_view w1 = (Inr r2, w2)
     \<and> pr_processed r2 = 0 \<and> t_inbound (db w2) = t_inbound (db w1)"
proof -
  obtain r1 w1 r2 w2 where
    1: "poll_inbox sample_receiver (\<lambda>_ _. Inr UNCLEAR) sample_view (sample_world (sample_lead SENT 1) []) = (Inr r1, w1)"
    and 2: "poll_inbox sample_receiver (\<lambda>_ _. Inr UNCLEAR) sample_view w1 = (Inr r2, w2)"
    by (rule sample_poll)
  have "sample_receiver a c v = Inr \<lparr> fr_new_cursor = ''8'', fr_messages = [sample_fetched] \<rparr>" for a c v
    by (simp add: sample_receiver_def)
  from polling_twice_is_polling_once [OF this 1 _ this _ _ 2] 1 2 show ?thesis by auto
qed

text \<open>
  C22. A reply that asks to unsubscribe, and a bounce, silence the address: after the reply has
  been classified so, every dispatch of the workspace to the address that was mailed, in any
  spelling, is refused, hands nothing to the provider and changes nothing.
\<close>
theorem unsubscribe_silences_the_address:
  assumes "classify_reply classify mb f msg matched w = (Inr i, w1)" and "i \<in> {UNSUBSCRIBE, BOUNCE}"
    and "normalize_email email = normalize_email (om_to_email matched)"
  shows "\<exists>r. email_dispatch sender (mv_workspace_id mb) email subject body w1 = (Inr r, w1)
     \<and> r \<in> {DispatchSuppressed, DispatchFailed ''mailbox not configured''}"
proof (cases "mailbox_of w1 (mv_workspace_id mb)")
  case None
  then show ?thesis by (simp add: dispatch_no_mailbox)
next
  case (Some m)
  then show ?thesis
    using dispatch_suppressed [OF Some classify_reply_suppresses [OF assms]] by simp
qed

theorem unsubscribe_silences_the_address_witness:
  "\<exists>w1 r. classify_reply (\<lambda>_ _. Inr UNSUBSCRIBE) sample_view sample_fetched sample_inbound
      sample_matched sample_inbound_world = (Inr UNSUBSCRIBE, w1)
    \<and> email_dispatch sample_sender 11 '' a@B.c '' ''Hi'' ''b'' w1 = (Inr r, w1)"
proof -
  obtain w1 where c: "classify_reply (\<lambda>_ _. Inr UNSUBSCRIBE) sample_view sample_fetched sample_inbound
      sample_matched sample_inbound_world = (Inr UNSUBSCRIBE, w1)" by (rule sample_classify)
  have "normalize_email '' a@B.c '' = normalize_email (om_to_email sample_matched)"
    by (simp add: sample_spelling sample_matched_def)
  from unsubscribe_silences_the_address [OF c _ this, of sample_sender "''Hi''" "''b''"] c
  show ?thesis by auto
qed

text \<open>
  The two contexts agree on the event: the outbox row that a classified reply writes is read
  back by the campaign context as a reply of the same workspace, to the email that was matched,
  with the intent that was given.
\<close>
theorem classified_event_is_understood:
  assumes "classify_reply classify mb f msg matched w = (Inr i, w')" and "om_id matched < 2 ^ 128"
  shows "\<exists>e. t_outbox (db w') \<noteq> [] \<and> e = last (t_outbox (db w')) \<and> oe_event_type e = REPLY_CLASSIFIED
     \<and> to_reply e = Inr \<lparr> cl_event_id = oe_id e, cl_workspace_id = mv_workspace_id mb,
          cl_matched_outbound_id = Some (om_id matched), cl_intent = intent_value i \<rparr>"
proof -
  let ?in = "matched_to msg (om_id matched)"
  from assms(1) obtain w3 where d: "outbox_record ''ReplyClassified'' (mv_workspace_id mb) (im_id ?in)
        (classified_payload mb ?in matched i) w3 = (Inr (), w')"
    unfolding classify_reply_def Let_def by (auto elim!: thenp_InrE bindp_InrE)
  let ?e = "\<lparr> oe_id = next_uuid w3, oe_workspace_id = mv_workspace_id mb, oe_event_type = ''ReplyClassified'',
       oe_aggregate_id = im_id ?in,
       oe_payload = json_safe (VDict (AList.update ''event_type'' (VStr ''ReplyClassified'')
          (classified_payload mb ?in matched i))), oe_created_at = clock_at w3 (reads w3) \<rparr>"
  have e: "t_outbox (db w') = t_outbox (db w3) @ [?e]"
    using d by (simp add: outbox_record_def bindp_run insert_row_Inr)
  have "to_reply ?e = Inr \<lparr> cl_event_id = next_uuid w3, cl_workspace_id = mv_workspace_id mb,
          cl_matched_outbound_id = Some (om_id matched), cl_intent = intent_value i \<rparr>"
    by (rule to_reply_classified [OF assms(2)])
  then show ?thesis unfolding e by (simp add: REPLY_CLASSIFIED_def)
qed

theorem classified_event_is_understood_witness:
  "\<exists>w1 e. classify_reply (\<lambda>_ _. Inr UNSUBSCRIBE) sample_view sample_fetched sample_inbound
      sample_matched sample_inbound_world = (Inr UNSUBSCRIBE, w1) \<and> e \<in> set (t_outbox (db w1))
    \<and> to_reply e = Inr \<lparr> cl_event_id = oe_id e, cl_workspace_id = 11, cl_matched_outbound_id = Some 30,
         cl_intent = ''unsubscribe'' \<rparr>"
proof -
  obtain w1 where c: "classify_reply (\<lambda>_ _. Inr UNSUBSCRIBE) sample_view sample_fetched sample_inbound
      sample_matched sample_inbound_world = (Inr UNSUBSCRIBE, w1)" by (rule sample_classify)
  have "om_id sample_matched < 2 ^ 128" by (simp add: sample_matched_def)
  from classified_event_is_understood [OF c this] c show ?thesis
    by (auto simp: sample_matched_def intro!: exI [of _ "last (t_outbox (db w1))"])
qed



text \<open>
  C24. The events that the worker writes meet their contracts: with the Gmail adapters behind its ports, for
  any answers of the mail service, the classifier and the provider, after any rounds of the loop every
  event of the outbox conforms to the JSON schema of its type and version, if every event did before.
\<close>
theorem events_meet_their_contracts:
  assumes "outbox_conforms w"
    and "gmail_worker parseaddr utf8 mime client n s received sending host pid w = (r, w')"
  shows "outbox_conforms w'"
  by (rule keepsD_run [OF gmail_worker_conforms assms])

theorem events_meet_their_contracts_witness:
  "\<exists>r w'. gmail_worker sample_addr sample_utf8 (\<lambda>_. Inr []) (\<lambda>_. Inl (RuntimeError ''down'')) 3 sample_settings
       (\<lambda>_. sample_gmail) (\<lambda>_. sample_gmail) ''host'' 7 (sample_world (sample_lead SCHEDULED 0) []) = (r, w')
     \<and> outbox_conforms w'"
proof -
  obtain r w' where run: "gmail_worker sample_addr sample_utf8 (\<lambda>_. Inr []) (\<lambda>_. Inl (RuntimeError ''down'')) 3 sample_settings
       (\<lambda>_. sample_gmail) (\<lambda>_. sample_gmail) ''host'' 7 (sample_world (sample_lead SCHEDULED 0) []) = (r, w')" by fastforce
  have "outbox_conforms (sample_world (sample_lead SCHEDULED 0) [])" by (simp add: outbox_conforms_def)
  from events_meet_their_contracts [OF this run] run show ?thesis by blast
qed

text \<open>
  What the queue holds meets its contract, in every state the program can reach: the payload of every
  job, as the column stores it, conforms to the schema that the senders share.
\<close>
theorem queued_jobs_meet_the_contract:
  assumes "runs s s'" and "sound s" and "r \<in> set (t_send_jobs (db (sy_world s')))"
  shows "conforms send_job_v1 (payload_dump (jr_payload r))"
  using runs_sound [OF assms(1,2)] assms(3) by (intro planned_job_conforms) (simp_all add: sound_def)

section \<open>Matching and classification\<close>

text \<open>
  C25. What a match means: the matched email is one of the candidates, and it is justified by the
  strongest evidence there is: the reply names its identifier; or no candidate is named and it is
  referenced; or none is referenced either and it is in the same thread; or, last, it has the
  same address and the same subject.
\<close>
theorem match_is_justified:
  assumes "match_reply f cs = Some c"
  shows "c \<in> set cs \<and> (same_message_id f c
      \<or> (\<forall>c'\<in>set cs. \<not> same_message_id f c') \<and> (referenced f c
      \<or> (\<forall>c'\<in>set cs. \<not> referenced f c') \<and> (same_thread f c
      \<or> (\<forall>c'\<in>set cs. \<not> same_thread f c') \<and> same_subject f c)))"
  using match_reply_Some [OF assms] by blast

theorem match_is_justified_witness:
  "match_reply sample_fetched [sample_matched] = Some sample_matched
    \<and> (same_thread sample_fetched sample_matched \<or> same_message_id sample_fetched sample_matched
       \<or> referenced sample_fetched sample_matched \<or> same_subject sample_fetched sample_matched)"
proof -
  have "same_thread sample_fetched sample_matched"
    by (simp add: same_thread_def sample_fetched_def sample_matched_def)
  then have "match_reply sample_fetched [sample_matched] \<noteq> None"
    unfolding match_reply_None by auto
  then obtain c where c: "match_reply sample_fetched [sample_matched] = Some c" by auto
  from match_is_justified [OF c] c show ?thesis by auto
qed

text \<open>
  Nothing that answers an email is missed: a reply is left unmatched exactly when no candidate
  is named by its headers, shares its thread, or has its address and subject.
\<close>
theorem unmatched_iff_no_evidence:
  "match_reply f cs = None \<longleftrightarrow> (\<forall>c\<in>set cs. \<not> same_message_id f c \<and> \<not> referenced f c
      \<and> \<not> same_thread f c \<and> \<not> same_subject f c)"
  by (rule match_reply_None)

theorem unmatched_iff_no_evidence_witness: "match_reply sample_fetched [] = None"
  unfolding unmatched_iff_no_evidence by simp

text \<open>
  The normal form of subjects is stable: normalising twice is normalising once, any number of
  reply prefixes makes no difference, and neither does case or surrounding whitespace.
\<close>
theorem subject_normal_form:
  "normalize_subject (normalize_subject s) = normalize_subject s
   \<and> normalize_subject (concat (replicate n ''Re: '') @ s) = normalize_subject s
   \<and> normalize_subject (lower s) = normalize_subject s \<and> normalize_subject (strip s) = normalize_subject s"
proof -
  have "normalize_subject (concat (replicate n ''Re: '') @ s) = normalize_subject s"
    by (induction n) (simp_all only: replicate.simps concat.simps append_Nil append_assoc normalize_subject_Re)
  then show ?thesis
    by (simp add: normalize_subject_idempotent normalize_subject_lower) (simp add: normalize_subject_def)
qed

text \<open>
  The rules decide by whole words: the classifier answers with the first rule, in their order,
  one of whose keywords stands in the subject or the body between word boundaries, and
  \<open>UNCLEAR\<close> when there is none.
\<close>
theorem first_rule_with_a_keyword:
  "deterministic_classify subject body =
     (case filter (\<lambda>(i, ks). \<exists>k\<in>set ks. occurs_as_word k (lower (subject @ [CHR 0x0A] @ body))) RULES of
        [] \<Rightarrow> UNCLEAR | (i, ks) # _ \<Rightarrow> i)"
proof -
  let ?h = "lower (subject @ [CHR 0x0A] @ body)"
  have "filter (\<lambda>(i, ks). \<exists>k\<in>set ks. occurs_as_word k ?h) RULES = filter (\<lambda>(i, ks). pattern_search ks ?h) RULES"
    by (rule filter_cong) (auto simp: pattern_search_iff)
  then show ?thesis
    by (simp add: deterministic_classify_def find_filter Let_def split: list.splits)
qed

text \<open>
  No classifier the program builds, whatever the language model answers, takes a reply for a
  bounce, and with the language model switched off or without its key the answer is that of the rules.
\<close>
theorem classifier_never_says_bounce:
  "build_intent_classifier settings client subject body \<noteq> Inr BOUNCE
   \<and> (llm_enabled settings = False \<or> (anthropic_api_key settings = [] \<and> openai_api_key settings = []) \<longrightarrow>
        build_intent_classifier settings client subject body = Inr (deterministic_classify subject body))"
  by (intro conjI impI built.never_bounce) (auto simp: build_intent_classifier_def)

theorem classifier_never_says_bounce_witness:
  "build_intent_classifier \<lparr> llm_enabled = True, llm_provider_name = OPENAI, anthropic_api_key = [],
      openai_api_key = [] \<rparr> (\<lambda>_. Inl (ValueError ''x'')) ''Re: Hi'' ''ok'' = Inr (deterministic_classify ''Re: Hi'' ''ok'')"
  using classifier_never_says_bounce [of "\<lparr> llm_enabled = True, llm_provider_name = OPENAI, anthropic_api_key = [],
      openai_api_key = [] \<rparr>" "\<lambda>_. Inl (ValueError ''x'')" "''Re: Hi''" "''ok''"] by simp

text \<open>
  A failing language model never stops the poll: when the client's errors and the decoding of
  its responses raise what the classifier catches, it always answers, and it answers as the
  rules do when the request itself fails.
\<close>
theorem language_model_failures_fall_back:
  assumes "\<And>rq e. client rq = Inl e \<Longrightarrow> falls_back e"
    and "\<And>rq r e. client rq = Inr r \<Longrightarrow> rs_json r = Inl e \<Longrightarrow> falls_back e"
  shows "(\<exists>i. build_intent_classifier settings client subject body = Inr i)
    \<and> ((\<forall>rq. \<exists>e. client rq = Inl e) \<longrightarrow>
         build_intent_classifier settings client subject body = Inr (deterministic_classify subject body))"
proof -
  note total = llm_total [OF complete_falls_back(1) [OF assms]] llm_total [OF complete_falls_back(2) [OF assms]]
  note fails = llm_request_fails [OF complete_falls_back(1) [OF assms] complete_request_fails(1)]
    llm_request_fails [OF complete_falls_back(2) [OF assms] complete_request_fails(2)]
  show ?thesis using total fails by (auto simp: build_intent_classifier_def)
qed

theorem language_model_failures_fall_back_witness:
  "build_intent_classifier \<lparr> llm_enabled = True, llm_provider_name = OPENAI, anthropic_api_key = [],
      openai_api_key = ''k'' \<rparr> (\<lambda>_. Inl (HTTPError ''ConnectTimeout'' ''x'')) ''Re: Hi'' ''ok''
    = Inr (deterministic_classify ''Re: Hi'' ''ok'')"
  using language_model_failures_fall_back [of "\<lambda>_. Inl (HTTPError ''ConnectTimeout'' ''x'')"
      "\<lparr> llm_enabled = True, llm_provider_name = OPENAI, anthropic_api_key = [], openai_api_key = ''k'' \<rparr>"
      "''Re: Hi''" "''ok''"] by simp

section \<open>The mail service\<close>

text \<open>
  C26. Every message is fetched once: when the paging loop of the receiver returns, it has read
  the pages of the history from the first one to the one that names no next page; it returns
  exactly the message ids that those pages list, each one once, whatever page lists it again.
\<close>
theorem listed_messages_are_fetched_once:
  assumes "added_message_ids creds cursor g = Some (Inr pg, g')"
  shows "distinct (map j_key (pg_ordered pg)) \<and>
    (\<exists>ps. pages_to_end creds cursor JNull g ps g' \<and> (\<forall>i\<in>set (pg_ordered pg). \<exists>p\<in>set ps. lists_id p i)
       \<and> (\<forall>p\<in>set ps. \<forall>i. lists_id p i \<longrightarrow> j_key i \<in> j_key ` set (pg_ordered pg)))"
  using assms
proof (rule added_message_ids_Inr)
  fix ps
  assume "pages_to_end creds cursor JNull g ps g'" "distinct (map j_key (pg_ordered pg))"
    "\<And>i. i \<in> set (pg_ordered pg) \<Longrightarrow> \<exists>p\<in>set ps. lists_id p i"
    "\<And>p i. p \<in> set ps \<Longrightarrow> lists_id p i \<Longrightarrow> j_key i \<in> j_key ` set (pg_ordered pg)"
  then show ?thesis by (intro conjI exI [of _ ps] ballI allI impI)
qed

theorem listed_messages_are_fetched_once_witness:
  "\<exists>g'. added_message_ids sample_creds ''100'' sample_gmail = Some (Inr sample_paging, g')
     \<and> distinct (map j_key (pg_ordered sample_paging))"
proof -
  obtain calls where run: "added_message_ids sample_creds ''100'' sample_gmail = Some (Inr sample_paging, sample_at 2 calls)"
    using sample_added by blast
  from listed_messages_are_fetched_once [OF run] run show ?thesis by blast
qed

text \<open>
  C27. A fetch comes back: when the mail service hands out page tokens of decreasing rank, so
  that its history has finitely many pages, a fetch returns a result or an error for every
  mailbox, every cursor and every state of the token cache.
\<close>
theorem fetch_returns:
  assumes "\<And>cursor. since = Some cursor \<Longrightarrow> ranked_pages rank cursor (gm_server g)"
  shows "\<exists>r g'. fetch_new parseaddr utf8 creds mailbox_email since g = Some (r, g')"
  using fetch_new_returns [OF assms] by fastforce

theorem fetch_returns_witness:
  "\<exists>r g'. fetch_new sample_addr sample_utf8 sample_creds ''me@acme.io'' (Some ''100'') sample_gmail = Some (r, g')"
  by (rule fetch_returns [where rank = "\<lambda>t. if t = JStr ''p2'' then 0 else 1"])
    (use sample_ranked in \<open>simp add: sample_gmail_def\<close>)



text \<open>
  C29. The mailbox's own mail is never taken for a reply: with the Gmail receiver, whatever the
  mail service answers and however a poll ends, no message that the poll stored comes from
  the address of the mailbox itself.
\<close>
theorem own_mail_is_no_reply:
  assumes "poll_inbox (gmail_receiver parseaddr utf8 creds states) classify mb w = (r, w')"
    and "row \<in> set (t_inbound (db w'))" and "im_id row \<notin> im_id ` set (t_inbound (db w))"
  shows "im_from_email row \<noteq> lower (mv_email_address mb)"
  using assms by (rule gmail.poll_stores_foreign_mail)

theorem own_mail_is_no_reply_witness:
  "\<exists>r w' row. poll_inbox (gmail_receiver sample_addr sample_utf8 sample_creds (\<lambda>_. sample_gmail)) (\<lambda>_ _. Inr UNCLEAR)
        sample_gmail_view (sample_world (sample_lead SENT 1) []) = (Inr r, w')
     \<and> row \<in> set (t_inbound (db w')) \<and> im_from_email row \<noteq> lower (mv_email_address sample_gmail_view)"
proof -
  obtain r w' row where
    run: "poll_inbox sample_gmail_receiver (\<lambda>_ _. Inr UNCLEAR) sample_gmail_view (sample_world (sample_lead SENT 1) []) = (Inr r, w')"
    and row: "row \<in> set (t_inbound (db w'))"
      "im_id row \<notin> im_id ` set (t_inbound (db (sample_world (sample_lead SENT 1) [])))"
    by (rule sample_gmail_poll)
  from own_mail_is_no_reply [OF run [unfolded sample_gmail_receiver_def] row] run row show ?thesis
    unfolding sample_gmail_receiver_def by blast
qed

text \<open>
  An expired history is given up: when the mail service answers 404 for the cursor, and then
  names its current history id, the poll reports no new message, stores none, and moves the
  mailbox's cursor to that id; the messages in between are skipped, as the log says.
\<close>
theorem expired_history_is_skipped:
  assumes "gmail_get creds HISTORY_URL (history_params cursor JNull) (states w) = (Inr response, g1)"
    and "rs_status response = 404" and "current_history_id creds g1 = (Inr h, g2)"
    and "mv_last_sync_cursor mb = Some cursor"
    and "poll_inbox (gmail_receiver parseaddr utf8 creds states) classify mb w = (Inr r, w')"
  shows "pr_processed r = 0 \<and> pr_classified r = [] \<and> t_inbound (db w') = t_inbound (db w)
     \<and> gateway_advance_cursor (mv_workspace_id mb) h w = (Inr (), w')"
proof -
  have "fetch_new parseaddr utf8 creds (mv_email_address mb) (Some cursor) (states w) = Some (baseline creds g1)"
    using assms(1,2) by (rule history_gone)
  then have "gmail_receiver parseaddr utf8 creds states (mv_email_address mb) (mv_last_sync_cursor mb) w
      = Inr \<lparr> fr_new_cursor = h, fr_messages = [] \<rparr>"
    using assms(3,4) by (simp add: gmail_receiver_def baseline_def)
  then have "thenp (gateway_advance_cursor (mv_workspace_id mb) h) (ret \<lparr> pr_processed = 0, pr_classified = [] \<rparr>) w
      = (Inr r, w')"
    using assms(5) by (simp add: poll_inbox_def outbound_list_unanswered_def)
  then show ?thesis by (auto elim!: thenp_InrE dest: advance_cursor_frame)
qed

theorem expired_history_is_skipped_witness:
  "\<exists>r w'. poll_inbox (gmail_receiver sample_addr sample_utf8 sample_creds (\<lambda>_. sample_gmail)) (\<lambda>_ _. Inr UNCLEAR)
        (sample_view\<lparr>mv_last_sync_cursor := Some ''1''\<rparr>) (sample_world (sample_lead SENT 1) []) = (Inr r, w')
     \<and> pr_processed r = 0"
proof -
  obtain r w' where run: "poll_inbox sample_gmail_receiver (\<lambda>_ _. Inr UNCLEAR)
      (sample_view\<lparr>mv_last_sync_cursor := Some ''1''\<rparr>) (sample_world (sample_lead SENT 1) []) = (Inr r, w')"
    by (rule sample_gone_poll)
  obtain calls where gone: "gmail_get sample_creds HISTORY_URL (history_params ''1'' JNull) sample_gmail
      = (Inr \<lparr> rs_status = 404, rs_json = Inr JNull, rs_error_text = ''Not Found'' \<rparr>, sample_at 1 calls)"
    using sample_gone unfolding not_found_def by blast
  obtain g' where base: "current_history_id sample_creds (sample_at 1 calls) = (Inr ''900'', g')"
    using sample_history_id by blast
  from expired_history_is_skipped [OF gone _ base _ run [unfolded sample_gmail_receiver_def]] run show ?thesis
    unfolding sample_gmail_receiver_def by auto
qed

text \<open>
  C30. The text of a mail survives its transport encoding: whatever bytes the MIME text has, the
  \<open>raw\<close> field that the sender posts decodes back to them, with the padding of the encoding or
  without it, which is how the mail service returns data and the receiver reads it.
\<close>
theorem raw_mail_decodes:
  assumes "build_raw_message mime m = Inr raw" and "data \<in> {raw, unpadded raw}"
  shows "\<exists>bs. mime m = Inr bs \<and> decode_base64url utf8 (JStr data) = Inr (utf8 bs)"
proof -
  obtain bs where "mime m = Inr bs" "raw = urlsafe_b64encode bs"
    using assms(1) by (auto simp: build_raw_message_def sum_bind_Inr)
  with assms(2) decode_data [of data bs utf8] show ?thesis by blast
qed

theorem raw_mail_decodes_witness:
  "build_raw_message (\<lambda>_. Inr [72, 105]) sample_mail = Inr ''SGk=''
     \<and> decode_base64url sample_utf8 (JStr ''SGk'') = Inr ''Hi''"
  using raw_mail_decodes [OF sample_raw, of "''SGk''" sample_utf8] sample_raw sample_unpadded sample_hi by simp

section \<open>Identity\<close>

text \<open>
  C31. A key that was issued opens its workspace: resolving the text of the key that the command
  handed out, even with whitespace around it, gives the workspace it was issued for.
\<close>
theorem issued_key_resolves:
  assumes "issue_api_key sha256 prefix secret ws w = (Inr token, w')"
    and "CHR ''_'' \<notin> set prefix" and "prefix \<noteq> []" and "secret \<noteq> []" and "trimmed secret"
    and "blank before" and "blank after"
  shows "resolve_api_key sha256 (before @ plaintext token @ after) w' = (Inr (Some ws), w')"
proof -
  have t: "tk_prefix token = prefix" "tk_secret token = secret" by (rule issue_api_key_Inr [OF assms(1)]; simp)+
  have trim: "trimmed (plaintext token)" using assms(4,5) t by (intro trimmed_plaintext) simp_all
  have "parse_token (before @ plaintext token @ after) = Some token"
    using parse_plaintext [of token] trim t assms(2-4) parse_token_around [OF assms(6,7) trim] by simp
  then show ?thesis by (rule issue_then_resolve [OF assms(1)])
qed

theorem issued_key_resolves_witness:
  "\<exists>token w'. issue_api_key id ''0af'' ''s3_cret'' 11 sample_identity_world = (Inr token, w')
     \<and> resolve_api_key id ('' '' @ plaintext token @ [CHR 0x0A]) w' = (Inr (Some 11), w')"
proof -
  obtain token w' where issue: "issue_api_key id ''0af'' ''s3_cret'' 11 sample_identity_world = (Inr token, w')"
    by (rule sample_issue)
  have "trimmed ''s3_cret''" "blank '' ''" "blank [CHR 0x0A]" by (simp_all add: trimmed_def blank_def isspace_def)
  from issued_key_resolves [OF issue _ _ _ this] issue show ?thesis by auto
qed

text \<open>
  Nothing else opens a workspace: a key that resolves has the prefix of a stored key which is
  not revoked, belongs to the workspace and holds the digest of the secret.
\<close>
theorem resolved_key_is_genuine:
  assumes "resolve_api_key sha256 raw w = (Inr (Some ws), w')"
  shows "w' = w \<and> (\<exists>token k. parse_token raw = Some token \<and> k \<in> set (t_api_keys (db w))
     \<and> ak_prefix k = tk_prefix token \<and> ak_revoked_at k = None \<and> ak_workspace_id k = ws
     \<and> ak_secret_hash k = sha256 (tk_secret token))"
  using assms find_Some_in
  by (fastforce simp: resolve_api_key_def keys_get_by_prefix_def bindp_run accepts_def
        split: option.splits if_splits)

theorem resolved_key_is_genuine_witness:
  "\<exists>token w' k. issue_api_key id ''0af'' ''s3_cret'' 11 sample_identity_world = (Inr token, w')
     \<and> k \<in> set (t_api_keys (db w')) \<and> ak_revoked_at k = None \<and> ak_workspace_id k = 11"
proof -
  obtain token w' where issue: "issue_api_key id ''0af'' ''s3_cret'' 11 sample_identity_world = (Inr token, w')"
    by (rule sample_issue)
  have t: "tk_prefix token = ''0af''" "tk_secret token = ''s3_cret''" by (rule issue_api_key_Inr [OF issue]; simp)+
  have "parse_token (plaintext token) = Some token"
    by (rule parse_plaintext) (simp_all add: t trimmed_def plaintext_def KEY_SCHEME_def isspace_def)
  then have "resolve_api_key id (plaintext token) w' = (Inr (Some 11), w')" by (rule issue_then_resolve [OF issue])
  from resolved_key_is_genuine [OF this] issue show ?thesis by blast
qed

text \<open>
  The middleware: a request acts for a workspace only when its bearer key resolved to it or,
  where the workspace header is accepted, when it has no bearer key and the header holds the
  identifier of that workspace; a bad key, a refused or a malformed header is answered without
  running the application.
\<close>
theorem request_acts_for_its_credentials:
  "with_workspace_context (resolve_api_key sha256) accept request call_next json_response w =
     (let auth = (case authorization request of None \<Rightarrow> [] | Some a \<Rightarrow> a) in
      if startswith (lower auth) ''bearer ''
      then (case fst (resolve_api_key sha256 (drop 7 auth) w) of
              Inr (Some ws) \<Rightarrow> call_next (Some ws) w
            | _ \<Rightarrow> (Inr (json_response 401 ''Invalid API key''), w))
      else case workspace_header request of
          None \<Rightarrow> call_next None w
        | Some raw \<Rightarrow>
            if raw = [] then call_next None w
            else if \<not> accept
            then (Inr (json_response 401 ''X-Workspace-Id is not accepted here; use an API key''), w)
            else (case UUID_parse raw of
                    Inr ws \<Rightarrow> call_next (Some ws) w
                  | Inl _ \<Rightarrow> (Inr (json_response 400 ''Malformed X-Workspace-Id header''), w)))"
  by (simp add: with_workspace_context_def tryp_run bindp_run request_workspace_run Let_def resolve_api_key_run
        split: option.splits sum.splits)

section \<open>Campaigns in the database\<close>

text \<open>
  A campaign that was created is found again as it was: the handler returns a well formed draft
  of the workspace, sent from its mailbox, and reading it back gives exactly that campaign, with
  no leads.
\<close>
theorem created_campaign_is_found:
  assumes "create_campaign command ws w = (Inr c, w')" and "references_hold w"
  shows "wf_campaign c \<and> c_status c = DRAFT \<and> c_workspace_id c = ws
     \<and> map_option mb_id (mailbox_of w ws) = Some (c_mailbox_id c)
     \<and> get_campaign (c_id c) w' = (Inr \<lparr> cd_campaign = c, cd_leads = [] \<rparr>, w')"
  by (rule create_campaign_Inr [OF assms(1)]) (use created_is_found [OF assms] in simp)

theorem created_campaign_is_found_witness:
  "\<exists>c w'. create_campaign \<lparr> cc_name = ''n'', cc_steps = [\<lparr> d_subject = ''Hi'', d_body = ''b'', d_delay_seconds = 60 \<rparr>] \<rparr> 11
       (sample_world (sample_lead SENT 1) []) = (Inr c, w') \<and> fst (get_campaign (c_id c) w') = Inr \<lparr> cd_campaign = c, cd_leads = [] \<rparr>"
proof -
  obtain c w' where run: "create_campaign \<lparr> cc_name = ''n'', cc_steps = [\<lparr> d_subject = ''Hi'', d_body = ''b'', d_delay_seconds = 60 \<rparr>] \<rparr> 11
       (sample_world (sample_lead SENT 1) []) = (Inr c, w')" by (rule sample_create)
  have "references_hold (sample_world (sample_lead SENT 1) [])"
    by (simp add: references_hold_def sample_world_def sample_db_def sample_campaign_row_def sample_step_def)
  from created_campaign_is_found [OF run this] run show ?thesis by auto
qed

text \<open>
  The numbers of a campaign are consistent: leads that replied and leads that bounced are
  different leads, all of them contacted, completed leads were contacted too, and each rate is a
  share between 0 and 1 (in ten-thousandths), zero when nobody was contacted.
\<close>
theorem metrics_are_consistent:
  assumes "\<forall>l\<in>set rows. wf_lead c l" and "c_steps c \<noteq> []" and "m = metrics_of i (stats_of rows)"
  shows "cm_replied m + cm_bounced m \<le> cm_contacted m \<and> cm_completed m \<le> cm_contacted m
     \<and> cm_contacted m \<le> cm_leads m \<and> cm_in_progress m + cm_completed m \<le> cm_leads m
     \<and> cm_reply_rate m \<le> 10000 \<and> cm_bounce_rate m \<le> 10000
     \<and> (cm_contacted m = 0 \<longrightarrow> cm_reply_rate m = 0 \<and> cm_bounce_rate m = 0)"
proof -
  have r: "cm_replied m + cm_bounced m \<le> cm_contacted m"
    using replied_bounced_le [of rows c i] assms by (simp add: metrics_sel)
  have "cm_completed m \<le> cm_contacted m"
    using completed_le [of rows c] assms by (simp add: metrics_sel)
  moreover have "cm_contacted m \<le> cm_leads m"
    using count_le_length by (simp add: assms(3) metrics_sel stats_sel)
  moreover have "cm_in_progress m + cm_completed m \<le> cm_leads m"
  proof -
    have "count (\<lambda>l. l_state l \<in> in_progress_states) rows + count (\<lambda>l. l_state l = DONE) rows
        = count (\<lambda>l. l_state l \<in> in_progress_states \<or> l_state l = DONE) rows"
      by (rule count_disjoint) (auto simp: in_progress_states_def)
    then show ?thesis using count_le_length by (simp add: assms(3) metrics_sel stats_sel)
  qed
  moreover have "cm_reply_rate m \<le> 10000" "cm_bounce_rate m \<le> 10000"
    using r by (auto simp: assms(3) metrics_sel intro!: share_le)
  moreover have "cm_contacted m = 0 \<longrightarrow> cm_reply_rate m = 0 \<and> cm_bounce_rate m = 0"
    by (auto simp: assms(3) metrics_sel share_zero)
  ultimately show ?thesis using r by blast
qed

theorem metrics_are_consistent_witness:
  "cm_replied (metrics_of 3 (stats_of [sample_lead DONE 2, stopped_sample])) \<le> 2
   \<and> cm_reply_rate (metrics_of 3 (stats_of [sample_lead DONE 2, stopped_sample])) \<le> 10000"
proof -
  have "\<forall>l\<in>set [sample_lead DONE 2, stopped_sample]. wf_lead sample_campaign l"
    by (simp add: wf_lead_def is_stopped_def stopped_sample_def BOUNCE_INTENT_def)
  from metrics_are_consistent [OF this _ refl, of 3] show ?thesis
    by (simp add: metrics_sel stats_sel count_def)
qed

section \<open>The HTTP API\<close>





text \<open>
  C34. Starting is idempotent: when a request to start a campaign succeeds, the campaign is active, and
  a second request answers the same status, schedules nothing and leaves the database as it is.
\<close>
theorem starting_twice_is_starting_once:
  assumes "route_start_campaign (Some ws) i w = (Inr first, w')"
  shows "sp_status first = ''active'' \<and> (\<exists>v. route_start_campaign (Some ws) i w' =
     (Inr \<lparr> sp_status = ''active'', sp_scheduled = 0 \<rparr>, v) \<and> db v = db w')"
  by (rule start_twice [OF assms])

theorem starting_twice_is_starting_once_witness:
  "\<exists>w' v. route_start_campaign (Some 11) 3 sample_draft = (Inr \<lparr> sp_status = ''active'', sp_scheduled = 1 \<rparr>, w')
     \<and> route_start_campaign (Some 11) 3 w' = (Inr \<lparr> sp_status = ''active'', sp_scheduled = 0 \<rparr>, v) \<and> db v = db w'"
proof -
  obtain w' where run: "route_start_campaign (Some 11) 3 sample_draft = (Inr \<lparr> sp_status = ''active'', sp_scheduled = 1 \<rparr>, w')"
    using sample_draft_starts by blast
  from starting_twice_is_starting_once [OF run] run show ?thesis by blast
qed



text \<open>
  The overview tells the truth about the cap: an address that is not suppressed can be mailed from
  the mailbox, while no one else is sending from it, exactly until the overview of the mailboxes shows
  that nothing remains for today; from then on the route answers 429 and no mail leaves.
\<close>
theorem overview_agrees_with_the_cap:
  assumes "route_list_mailboxes (Some ws) w = (Inr os, v)"
    and "u = v\<lparr>guc := Some ws, own := []\<rparr>" and "mailbox_of u ws = Some m"
    and "start_of_utc_day (clock_at u (reads u)) = start_of_utc_day (clock_at w (reads w))"
    and "\<not> is_suppressed_in u ws (sc_to_email command)" and "lock_key u m \<notin> set (held u)"
  shows "\<exists>ov\<in>set os. mp_id ov = mb_id m \<and> mp_daily_send_cap ov = mb_daily_send_cap m
     \<and> (mp_remaining_today ov = 0 \<longleftrightarrow> (\<exists>w'. route_send_test_email sender (Some ws) command v
          = (Inl (HTTPException 429 (''Daily send cap reached, retry at '' @
               isoformat (start_of_utc_day (clock_at u (reads u)) + one_day))), w') \<and> wire w' = wire v))"
  using overview_and_cap [OF assms(1,3,2) _ assms(5,6), of sender] assms(4)
  by (simp add: today_def cap_answer_def)

theorem overview_agrees_with_the_cap_witness:
  "\<exists>os v ov. route_list_mailboxes (Some 11) (sample_world (sample_lead SENT 1) []) = (Inr os, v)
     \<and> ov \<in> set os \<and> mp_id ov = 2 \<and> mp_daily_send_cap ov = 20"
proof -
  let ?w = "sample_world (sample_lead SENT 1) []" and ?command = "\<lparr> sc_to_email = ''a@b.c'', sc_subject = ''Hi'', sc_body = ''b'' \<rparr>"
  obtain r v where route: "route_list_mailboxes (Some 11) ?w = (r, v)" by fastforce
  note L = list_route_run [OF route]
  obtain os where "r = Inr os" using L(2) by blast
  with route have run: "route_list_mailboxes (Some 11) ?w = (Inr os, v)" by simp
  let ?u = "v\<lparr>guc := Some 11, own := []\<rparr>"
  have "\<exists>ov\<in>set os. mp_id ov = mb_id sample_mailbox \<and> mp_daily_send_cap ov = mb_daily_send_cap sample_mailbox
     \<and> (mp_remaining_today ov = 0 \<longleftrightarrow> (\<exists>w'. route_send_test_email sample_sender (Some 11) ?command v
          = (Inl (HTTPException 429 (''Daily send cap reached, retry at '' @
               isoformat (start_of_utc_day (clock_at ?u (reads ?u)) + one_day))), w') \<and> wire w' = wire v))"
  proof (rule overview_agrees_with_the_cap [OF run refl])
    show "mailbox_of ?u 11 = Some sample_mailbox"
      by (simp add: L(1) mailbox_of_def mailbox_rows_def sees_def)
    show "start_of_utc_day (clock_at ?u (reads ?u)) = start_of_utc_day (clock_at ?w (reads ?w))"
      by (simp add: L(1) start_of_utc_day_def one_day_def seconds_def)
    show "\<not> is_suppressed_in ?u 11 (sc_to_email ?command)" by (simp add: L(1) is_suppressed_in_def suppression_rows_def)
    show "lock_key ?u sample_mailbox \<notin> set (held ?u)" by (simp add: L(1))
  qed
  with run show ?thesis by auto
qed

text \<open>
  Seeding is idempotent: once the script that seeds has run, the workspace of the settings is there,
  with a mailbox if an address is configured, and running the script again succeeds and changes nothing.
\<close>
theorem seeding_twice_is_seeding_once:
  assumes "seed_main st w = (Inr out, w')" and "resolve_workspace_id st = Inr ws"
  shows "seeded st ws w' \<and> (\<exists>out' w''. seed_main st w' = (Inr out', w'') \<and> db w'' = db w')"
  using seed_main_seeds [OF assms] seeded_runs [OF _ assms(2)] by blast

theorem seeding_twice_is_seeding_once_witness:
  "\<exists>out w'. seed_main sample_settings (sample_world (sample_lead SENT 1) []) = (Inr out, w') \<and> seeded sample_settings 11 w'"
proof -
  have id: "resolve_workspace_id sample_settings = Inr 11"
    using sample_workspace by (auto simp: resolve_workspace_id_def Let_def UUID_parse_def)
  have "\<exists>out w'. seed_main sample_settings (sample_world (sample_lead SENT 1) []) = (Inr out, w')"
    by (simp add: seed_main_def seed_default_workspace_def id session_def workspaces_get_def workspaces_add_def
        insert_row_def first_some_def violated_def duplicate_def too_long_def bindp_run thenp_run seed_mailbox_run mailbox_of_def mailbox_rows_def sees_def DEFAULT_WORKSPACE_NAME_def)
  then obtain out w' where run: "seed_main sample_settings (sample_world (sample_lead SENT 1) []) = (Inr out, w')" by blast
  from seeding_twice_is_seeding_once [OF run id] run show ?thesis by blast
qed

section \<open>The schema\<close>

text \<open>
  C36. The migrations build what the ORM declares: the six revisions run on an empty database, and
  the tables they leave have the same columns, types, keys, references and indexes as the classes
  of the four contexts. Only the names of three indexes differ, so that autogeneration would
  replace them.
\<close>
theorem migrations_build_the_models:
  "\<exists>s. migrated 6 = Inr s \<and> same_tables s metadata
     \<and> index_names s - index_names metadata = {''ix_outbound_messages_provider_thread_id'',
         ''ix_inbound_messages_provider_thread_id'', ''ix_outbox_events_created_at''}
     \<and> index_names metadata - index_names s = {''ix_messaging__outbound_messages_provider_thread_id'',
         ''ix_messaging__inbound_messages_provider_thread_id'', ''ix_messaging__outbox_events_created_at''}"
  using head_agrees schema_walk(1) [of 6] by (simp split: sum.splits)

text \<open>
  C37. Every migration can be undone: from the schema of any revision, with any data in its tables,
  the next upgrade succeeds and its downgrade leads back to the schema it started from, with one
  exception: revision 0004 is refused, and changes nothing, when there is a campaign.
\<close>
theorem migrations_can_be_undone:
  assumes "k < 6" and "forget_rows s = schema_at k"
  shows "if k = 3 \<and> campaign_rows s \<noteq> 0
     then run_ddl (rv_upgrade (revisions ! k)) s = Inl (NotNullViolation ''campaign__campaigns'' ''mailbox_id'')
     else \<exists>s1 s2. run_ddl (rv_upgrade (revisions ! k)) s = Inr s1 \<and> forget_rows s1 = schema_at (Suc k)
       \<and> run_ddl (rv_downgrade (revisions ! k)) s1 = Inr s2 \<and> forget_rows s2 = schema_at k"
proof (cases "k = 3 \<and> campaign_rows s \<noteq> 0")
  case True
  with assms(2) upgrade_blocked [of s] show ?thesis by simp
next
  case False
  then have "k \<noteq> 3 \<or> campaign_rows s = 0" by blast
  then obtain s1 where s1: "run_ddl (rv_upgrade (revisions ! k)) s = Inr s1" "forget_rows s1 = schema_at (Suc k)"
    by (rule upgrade_runs [OF assms])
  obtain s2 where "run_ddl (rv_downgrade (revisions ! k)) s1 = Inr s2" "forget_rows s2 = schema_at k"
    by (rule downgrade_runs [OF assms(1) s1(2)])
  with s1 False show ?thesis by auto
qed

theorem migrations_can_be_undone_witness:
  "\<exists>s1 s2. run_ddl upgrade_0001 [] = Inr s1 \<and> run_ddl downgrade_0001 s1 = Inr s2 \<and> forget_rows s2 = []"
proof -
  have "schema_at 0 = []" by (simp add: schema_at_def migrated_def)
  then show ?thesis
    using migrations_can_be_undone [of 0 "[]"] by (simp add: forget_rows_def revisions_def) blast
qed

text \<open>
  C38. No table of a tenant is ever without its policy: at every revision, each table with a
  workspace, except the keys that a request is resolved with, has row level security
  enabled and forced, with the policy \<open>workspace_isolation\<close> as its only one.
\<close>
theorem tenant_tables_have_their_policy:
  assumes "k \<le> 6" and "(n, t) \<in> set (schema_at k)" and "has_column ''workspace_id'' t" and "n \<noteq> ''identity__api_keys''"
  shows "tb_rls_enabled t \<and> tb_rls_forced t
     \<and> tb_policies t = [(''workspace_isolation'', ''workspace_id'', guc_value)]"
  using schema_walk(2) [OF assms(1)] assms(2-) by (auto simp: tenants_policed_def list_all_iff policed_def)

theorem tenant_tables_have_their_policy_witness:
  "\<exists>t. (''campaign__leads'', t) \<in> set (schema_at 6) \<and> tb_rls_forced t"
proof -
  have "has_column ''workspace_id'' (snd Lead_table)" by (simp add: Lead_table_def declares_def has_column_def
      column_names_def mapped_workspace_id_def references_to_def Column_def)
  moreover obtain t where t: "(''campaign__leads'', t) \<in> set (schema_at 6)" "agree t (snd Lead_table)"
    using leads_at_head by blast
  ultimately have "has_column ''workspace_id'' t" by (auto simp: agree_def has_column_def column_names_def)
  from tenant_tables_have_their_policy [OF _ t(1) this] t(1) show ?thesis by auto
qed

section \<open>The worker\<close>

text \<open>
  One failing stage does not stop the others: with a well formed configuration a tick never
  raises, whatever the receiver, the classifier, the provider and the stages themselves raise.
\<close>
theorem tick_never_raises:
  assumes "UUID_parse (mailbox_workspace_id s) = Inr ws"
  shows "\<exists>reason w'. worker_tick s receive classify sender worker_id w = (Inr reason, w')"
  by (rule worker_tick_Inr [OF assms]) blast

theorem tick_never_raises_witness:
  "\<exists>reason w'. worker_tick sample_settings (\<lambda>_ _ _. Inl (ValueError ''x'')) (\<lambda>_ _. Inr UNCLEAR) sample_sender ''k''
     (sample_world (sample_lead SENT 1) []) = (Inr reason, w')"
  by (rule tick_never_raises [of sample_settings 11]) (simp add: sample_workspace)

text \<open>
  The internal route does nothing without its token: unless the configured token is not empty and
  the request carries it, the call raises and the world is as before; the answer is 401, except
  that a token with characters outside ASCII makes the comparison itself raise.
\<close>
theorem internal_route_needs_token:
  assumes "internal_api_token s = [] \<or> token \<noteq> Some (internal_api_token s)"
  shows "\<exists>e. route_process_send_job s sender token context job_id w = (Inl e, w)
    \<and> (e = HTTPException 401 ''Invalid internal token''
       \<or> (\<exists>t. token = Some t \<and> (\<exists>c\<in>set (t @ internal_api_token s). 128 \<le> code c)
            \<and> e = TypeError ''comparing strings with non-ASCII characters is not supported''))"
  using assms
  by (auto simp: route_process_send_job_def require_internal_token_def compare_digest_def thenp_run
        bindp_run Let_def list_ex_iff split: option.splits)

theorem internal_route_needs_token_witness:
  "\<exists>e. fst (route_process_send_job sample_settings sample_sender None (Some 11) 7 (sample_world (sample_lead SENT 1) []))
     = Inl e"
  using internal_route_needs_token [of sample_settings None sample_sender "Some 11" 7
      "sample_world (sample_lead SENT 1) []"] by auto

section \<open>The rows\<close>

text \<open>
  C39. What the repositories store reads back: the row that is built from a lead, a campaign, a step, an
  email, a message, a mailbox, a workspace or a key gives the same object when it is read, with every
  enum and every empty field; and it fits the columns of its table exactly when the texts and numbers
  that nothing else bounds fit.
\<close>
theorem stored_rows_read_back:
  "lead_of_row (lead_to_row l) = Inr l \<and> (fits_table (snd Lead_table) (lead_to_row l) \<longleftrightarrow> storable_lead l)
   \<and> campaign_of_columns (campaign_row_columns (campaign_to_row c)) (c_steps c) = Inr c
   \<and> (fits_table (snd Campaign_table) (campaign_row_columns r) \<longleftrightarrow> storable_campaign r)
   \<and> step_of_columns (step_row_columns (step_to_row c s)) = Inr s
   \<and> (fits_table (snd Step_table) (step_row_columns q) \<longleftrightarrow> storable_step q)
   \<and> outbound_of_row (outbound_to_row om) = Inr om
   \<and> (fits_table (snd OutboundMessage_table) (outbound_to_row om) \<longleftrightarrow> storable_outbound om)
   \<and> inbound_of_row (inbound_to_row im) = Inr im
   \<and> (fits_table (snd InboundMessage_table) (inbound_to_row im) \<longleftrightarrow> storable_inbound im)
   \<and> mailbox_of_row (mailbox_to_row mb) = Inr mb
   \<and> (fits_table (snd Mailbox_table) (mailbox_to_row mb) \<longleftrightarrow> storable_mailbox mb)
   \<and> workspace_of_row (workspace_to_row ws) = Inr ws
   \<and> (fits_table (snd Workspace_table) (workspace_to_row ws) \<longleftrightarrow> storable_workspace ws)
   \<and> api_key_of_row (api_key_to_row key) = Inr key
   \<and> (fits_table (snd ApiKey_table) (api_key_to_row key) \<longleftrightarrow> storable_key key)"
  by (intro conjI leads_stored.reads_back leads_stored.fits campaign_reads_back campaigns_stored.fits
      steps_stored.fits outbound_stored.reads_back outbound_stored.fits
      inbound_stored.reads_back inbound_stored.fits mailboxes_stored.reads_back mailboxes_stored.fits
      workspaces_stored.reads_back workspaces_stored.fits keys_stored.reads_back keys_stored.fits)

text \<open>
  C40. No row is ever too wide for the schema: in every state the program can reach, each lead, campaign,
  step, email, message and mailbox fits the columns of its table, whatever addresses, subjects,
  identifiers and replies came in; a value that would not fit is refused when it is stored, and the
  counters and intents that no statement checks stay in bounds by themselves.
\<close>
theorem stored_rows_fit_their_columns:
  assumes "runs s s'" and "sound s" and "db_fits (sy_world s)"
  shows "list_all (fits_table (snd Lead_table)) (map lead_to_row (t_leads (db (sy_world s'))))
     \<and> list_all (fits_table (snd Campaign_table)) (map campaign_row_columns (t_campaigns (db (sy_world s'))))
     \<and> list_all (fits_table (snd Step_table)) (map step_row_columns (t_steps (db (sy_world s'))))
     \<and> list_all (fits_table (snd OutboundMessage_table)) (map outbound_to_row (t_outbound (db (sy_world s'))))
     \<and> list_all (fits_table (snd InboundMessage_table)) (map inbound_to_row (t_inbound (db (sy_world s'))))
     \<and> list_all (fits_table (snd Mailbox_table)) (map mailbox_to_row (t_mailboxes (db (sy_world s'))))"
proof -
  have fits: "db_fits (sy_world s')" by (rule runs_fit [OF assms(1,3)])
  have "consistent (sy_world s')" using runs_sound [OF assms(1,2)] by (simp add: sound_def)
  then have "list_all storable_lead (t_leads (db (sy_world s')))"
    using lead_storable fits by (auto simp: list_all_iff)
  with fits show ?thesis
    unfolding leads_stored.table_fits campaigns_stored.table_fits steps_stored.table_fits
      outbound_stored.table_fits inbound_stored.table_fits mailboxes_stored.table_fits
    by (simp add: db_fits_def)
qed

theorem stored_rows_fit_their_columns_witness:
  "fits_table (snd Lead_table) (lead_to_row (sample_lead SCHEDULED 0))
   \<and> sample_lead SCHEDULED 0 \<in> set (t_leads (db (sy_world sample_system)))"
proof -
  have "db_fits (sy_world sample_system)"
    by (simp add: db_fits_def sample_system_def sample_campaign_row_def sample_step_def sample_lead_def sample_mailbox_def
        storable_campaign_def storable_step_def storable_mailbox_def short_intent_def fits_int4_def)
  from stored_rows_fit_their_columns [OF runs.start sample_sound this]
  show ?thesis by (simp add: sample_system_def)
qed

end
